(* ===== verification/Prelude.thy ===== *)
theory Prelude
  imports Main "HOL-Library.Word" "HOL-Library.AList" "HOL-Library.Char_ord"
    "HOL-Library.List_Lexorder" "HOL-Library.Multiset"
begin

text \<open>
  What the components share: the Go data types they are written in (64-bit integers, maps,
  strings, the decimal verb of \<^verbatim>\<open>fmt\<close>, \<^verbatim>\<open>strings.Split\<close> and \<^verbatim>\<open>strings.Join\<close>), the parts of
  the Go runtime a call depends on (the iteration order of maps, the clock), step systems with
  their reachable states, and the generic lemmas about them.
\<close>

section \<open>Machine integers\<close>

type_synonym u64 = "64 word"

text \<open>
  An \<^verbatim>\<open>int64\<close> is an integer between the two bounds; arithmetic wraps in two's complement.
\<close>

definition max_int64 :: int where
  "max_int64 = 2 ^ 63 - 1"

definition int64 :: "int \<Rightarrow> int" where
  "int64 x = (x + 2 ^ 63) mod 2 ^ 64 - 2 ^ 63"

lemma int64_bounds: "- (2 ^ 63) \<le> int64 x" "int64 x \<le> max_int64"
proof -
  have "0 \<le> (x + 2 ^ 63) mod 2 ^ 64" and "(x + 2 ^ 63) mod 2 ^ 64 < 2 ^ 64"
    by (simp_all add: pos_mod_sign pos_mod_bound)
  then show "- (2 ^ 63) \<le> int64 x" "int64 x \<le> max_int64"
    by (simp_all add: int64_def max_int64_def)
qed

lemma int64_id: "- (2 ^ 63) \<le> x \<Longrightarrow> x \<le> max_int64 \<Longrightarrow> int64 x = x"
  by (simp add: int64_def max_int64_def)

lemma unat_of_nat_u64: "n < 2 ^ 64 \<Longrightarrow> unat (of_nat n :: u64) = n"
  by (simp add: unat_of_nat take_bit_nat_eq_self)

lemma unat_u64_less: "unat (n :: u64) < 2 ^ 64"
  using unsigned_less[of n] by simp

lemma word_Suc_less: "a < b \<Longrightarrow> unat (a + 1) = Suc (unat a)" for a b :: u64
  using unat_u64_less[of b] by (simp add: word_less_nat_alt unat_word_ariths)

section \<open>Go maps\<close>

text \<open>
  A Go map is the association list of its entries: \<^term>\<open>map_of m k\<close> is the lookup,
  \<^term>\<open>AList.update k v m\<close> the assignment, \<^term>\<open>AList.delete k m\<close> the built-in delete. The order
  of the list is never observed: a \<^verbatim>\<open>range\<close> loop runs over the keys in the order the runtime
  chooses, which every model with such a loop takes as a parameter (below).
\<close>

type_synonym ('k, 'v) gomap = "('k \<times> 'v) list"

abbreviation keys :: "('k, 'v) gomap \<Rightarrow> 'k list" where
  "keys m \<equiv> map fst m"

abbreviation gget :: "('k, 'v) gomap \<Rightarrow> 'k \<Rightarrow> 'v option" where
  "gget \<equiv> map_of"

abbreviation gset :: "'k \<Rightarrow> 'v \<Rightarrow> ('k, 'v) gomap \<Rightarrow> ('k, 'v) gomap" where
  "gset \<equiv> AList.update"

abbreviation gdel :: "'k \<Rightarrow> ('k, 'v) gomap \<Rightarrow> ('k, 'v) gomap" where
  "gdel \<equiv> AList.delete"

text \<open>A lookup with the zero value for a missing key, as \<^verbatim>\<open>m[k]\<close> reads.\<close>

definition gget0 :: "'v \<Rightarrow> ('k, 'v) gomap \<Rightarrow> 'k \<Rightarrow> 'v" where
  "gget0 z m k = (case gget m k of None \<Rightarrow> z | Some v \<Rightarrow> v)"

lemma gget_gset [simp]: "gget (gset k v m) k' = (if k' = k then Some v else gget m k')"
  by (simp add: update_conv')

lemma gget_gdel [simp]: "gget (gdel k m) k' = (if k' = k then None else gget m k')"
  by (simp add: delete_conv')

lemma keys_gset: "set (keys (gset k v m)) = insert k (set (keys m))"
  by (simp add: dom_update)

lemma keys_gdel: "set (keys (gdel k m)) = set (keys m) - {k}"
  by (simp add: delete_keys)

lemma distinct_gset [simp]: "distinct (keys m) \<Longrightarrow> distinct (keys (gset k v m))"
  by (simp add: distinct_update)

lemma distinct_gdel [simp]: "distinct (keys m) \<Longrightarrow> distinct (keys (gdel k m))"
  by (simp add: distinct_delete)

lemma gget_dom: "k \<in> set (keys m) \<longleftrightarrow> (\<exists>v. gget m k = Some v)"
  using map_of_eq_None_iff[of m k] by auto

lemma gget_Some_key: "gget m k = Some v \<Longrightarrow> k \<in> set (keys m)"
  unfolding gget_dom by blast

lemma gget0_simps [simp]:
  "gget m k = None \<Longrightarrow> gget0 z m k = z"
  "gget m k = Some v \<Longrightarrow> gget0 z m k = v"
  by (simp_all add: gget0_def)

lemma length_gdel_le: "length (gdel k m) \<le> length m"
  by (simp add: length_delete_le)

section \<open>The Go runtime\<close>

text \<open>
  What a call takes from the runtime: the order in which its \<^verbatim>\<open>range\<close> loops over maps visit the
  keys (one order per loop of the source, numbered), and the clock.
\<close>

record runtime =
  rt_order :: "nat \<Rightarrow> string list \<Rightarrow> string list"
  rt_now :: int

definition runtime_ok :: "'a runtime_scheme \<Rightarrow> bool" where
  "runtime_ok rt \<longleftrightarrow>
     (\<forall>i ks. mset (rt_order rt i ks) = mset ks) \<and> - (2 ^ 63) \<le> rt_now rt \<and> rt_now rt \<le> max_int64"

text \<open>The entries a \<^verbatim>\<open>range\<close> loop over a map visits, in the order \<^term>\<open>ord\<close> of the runtime.\<close>

definition go_range :: "('k list \<Rightarrow> 'k list) \<Rightarrow> ('k, 'v) gomap \<Rightarrow> ('k \<times> 'v) list" where
  "go_range ord m = List.map_filter (\<lambda>k. map_option (Pair k) (gget m k)) (ord (keys m))"

definition order_ok :: "('k list \<Rightarrow> 'k list) \<Rightarrow> bool" where
  "order_ok ord \<longleftrightarrow> (\<forall>ks. mset (ord ks) = mset ks)"

lemma runtime_ok_order [simp]: "runtime_ok rt \<Longrightarrow> order_ok (rt_order rt i)"
  by (simp add: runtime_ok_def order_ok_def)

lemma order_ok_set: "order_ok ord \<Longrightarrow> set (ord ks) = set ks"
  by (intro mset_eq_setD) (simp add: order_ok_def)

lemma order_ok_distinct: "order_ok ord \<Longrightarrow> distinct (ord ks) = distinct ks"
  by (intro mset_eq_imp_distinct_iff) (simp add: order_ok_def)

lemma set_map_filter: "set (List.map_filter f xs) = {y. \<exists>x \<in> set xs. f x = Some y}"
  by (induction xs) (auto simp: List.map_filter_simps split: option.splits)

lemma set_go_range:
  assumes "order_ok ord"
  shows "set (go_range ord m) = {(k, v). gget m k = Some v}"
  unfolding go_range_def set_map_filter order_ok_set[OF assms]
  using gget_Some_key[of m] by (auto simp del: set_map)

lemma go_range_fst: "map fst (go_range ord m) = filter (\<lambda>k. gget m k \<noteq> None) (ord (keys m))"
proof -
  have "map fst (List.map_filter (\<lambda>k. map_option (Pair k) (gget m k)) ks)
      = filter (\<lambda>k. gget m k \<noteq> None) ks" for ks
    by (induction ks) (auto simp: List.map_filter_simps split: option.splits)
  then show ?thesis by (simp add: go_range_def)
qed

lemma distinct_go_range:
  "order_ok ord \<Longrightarrow> distinct (keys m) \<Longrightarrow> distinct (map fst (go_range ord m))"
  by (simp add: go_range_fst order_ok_distinct)

text \<open>The runtime of the witnesses: maps are visited in list order.\<close>

definition rt0 :: runtime where
  "rt0 = \<lparr>rt_order = (\<lambda>_ ks. ks), rt_now = 1000\<rparr>"

lemma runtime_ok_rt0 [simp]: "runtime_ok rt0"
  by (simp add: runtime_ok_def rt0_def max_int64_def)

section \<open>Loops that can fail\<close>

text \<open>
  A loop body that may panic returns an option; the loop stops with \<^term>\<open>None\<close> at the first
  panic.
\<close>

fun ofold :: "('a \<Rightarrow> 's \<Rightarrow> 's option) \<Rightarrow> 'a list \<Rightarrow> 's \<Rightarrow> 's option" where
  "ofold f [] s = Some s"
| "ofold f (x # xs) s = (case f x s of None \<Rightarrow> None | Some s' \<Rightarrow> ofold f xs s')"

lemma ofold_append:
  "ofold f (xs @ ys) s = (case ofold f xs s of None \<Rightarrow> None | Some s' \<Rightarrow> ofold f ys s')"
  by (induction xs arbitrary: s) (auto split: option.splits)

text \<open>Total correctness of such a loop: an invariant over the part already visited.\<close>

lemma ofold_invariant:
  assumes "P [] s"
    and "\<And>done x t. \<lbrakk>P done t; x \<in> set xs; \<exists>rest. xs = done @ x # rest\<rbrakk>
           \<Longrightarrow> \<exists>t'. f x t = Some t' \<and> P (done @ [x]) t'"
  shows "\<exists>s'. ofold f xs s = Some s' \<and> P xs s'"
  using assms
proof (induction xs rule: rev_induct)
  case Nil
  then show ?case by simp
next
  case (snoc x xs)
  have "\<exists>s'. ofold f xs s = Some s' \<and> P xs s'"
  proof (rule snoc.IH [OF snoc.prems(1)])
    fix "done" y t
    assume "P done t" "y \<in> set xs" "\<exists>rest. xs = done @ y # rest"
    then show "\<exists>t'. f y t = Some t' \<and> P (done @ [y]) t'"
      by (intro snoc.prems(2)) auto
  qed
  then obtain t where t: "ofold f xs s = Some t" "P xs t" by blast
  with snoc.prems(2)[of xs t x] obtain t' where "f x t = Some t'" "P (xs @ [x]) t'"
    by auto
  with t show ?case by (auto simp: ofold_append)
qed

lemma fold_invariant:
  assumes "P s" and "\<And>x t. x \<in> set xs \<Longrightarrow> P t \<Longrightarrow> P (f x t)"
  shows "P (fold f xs s)"
  using assms by (induction xs arbitrary: s) auto

section \<open>Decimal numbers in strings\<close>

text \<open>The verb \<^verbatim>\<open>%d\<close> on an unsigned integer.\<close>

fun dec :: "nat \<Rightarrow> string" where
  "dec n = (if n < 10 then [char_of (48 + n)] else dec (n div 10) @ [char_of (48 + n mod 10)])"

declare dec.simps [simp del]

definition fmt_d :: "u64 \<Rightarrow> string" where
  "fmt_d n = dec (unat n)"

definition is_digit :: "char \<Rightarrow> bool" where
  "is_digit c \<longleftrightarrow> 48 \<le> (of_char c :: nat) \<and> (of_char c :: nat) < 58"

text \<open>\<^verbatim>\<open>strconv.ParseUint(s, 10, 64)\<close>: the value of a non-empty string of digits.\<close>

fun undec :: "nat \<Rightarrow> string \<Rightarrow> nat option" where
  "undec acc [] = Some acc"
| "undec acc (c # cs) =
     (if is_digit c then undec (10 * acc + (of_char c - 48)) cs else None)"

definition parse_uint :: "string \<Rightarrow> u64 option" where
  "parse_uint s =
     (if s = [] then None
      else case undec 0 s of
        None \<Rightarrow> None
      | Some n \<Rightarrow> if n < 2 ^ 64 then Some (of_nat n) else None)"

lemma of_char_digit: "d < 10 \<Longrightarrow> of_char (char_of (48 + d :: nat) :: char) = (48 + d :: nat)"
  by (simp add: of_char_of)

lemma is_digit_digit: "d < 10 \<Longrightarrow> is_digit (char_of (48 + d :: nat))"
  by (simp add: is_digit_def of_char_digit)

lemma undec_append:
  "undec acc (xs @ ys) = (case undec acc xs of None \<Rightarrow> None | Some a \<Rightarrow> undec a ys)"
  by (induction xs arbitrary: acc) auto

lemma undec_dec: "undec 0 (dec n) = Some n"
proof (induction n rule: dec.induct)
  case (1 n)
  show ?case
  proof (cases "n < 10")
    case True
    then show ?thesis
      by (subst dec.simps) (simp add: is_digit_digit of_char_digit)
  next
    case False
    with "1.IH" have "undec 0 (dec (n div 10)) = Some (n div 10)" by simp
    with False show ?thesis
      by (subst dec.simps) (simp add: undec_append is_digit_digit of_char_digit)
  qed
qed

lemma dec_inject [simp]: "dec m = dec n \<longleftrightarrow> m = n"
  by (metis option.inject undec_dec)

lemma dec_nonempty [simp]: "dec n \<noteq> []"
  by (subst dec.simps) simp

lemma dec_digits: "c \<in> set (dec n) \<Longrightarrow> is_digit c"
proof (induction n rule: dec.induct)
  case (1 n)
  show ?case
  proof (cases "n < 10")
    case True
    with "1.prems" show ?thesis by (auto simp: dec.simps[of n] is_digit_digit)
  next
    case False
    with "1.prems" have "c \<in> set (dec (n div 10)) \<or> c = char_of (48 + n mod 10)"
      by (auto simp: dec.simps[of n])
    with False "1.IH" show ?thesis by (auto simp: is_digit_digit)
  qed
qed

lemma fmt_d_inject [simp]: "fmt_d m = fmt_d n \<longleftrightarrow> m = n"
  by (simp add: fmt_d_def word_unat_eq_iff)

lemma parse_uint_fmt_d [simp]: "parse_uint (fmt_d n) = Some n"
  using unat_u64_less[of n] by (simp add: parse_uint_def fmt_d_def undec_dec)

text \<open>
  A text followed by a separator and a text without the separator can be taken apart again.
\<close>

lemma append_sep_inject:
  assumes "xs @ c # ys = xs' @ c # ys'" "c \<notin> set ys" "c \<notin> set ys'"
  shows "xs = xs' \<and> ys = ys'"
  using assms
proof (induction xs arbitrary: xs')
  case Nil
  then show ?case by (cases xs') auto
next
  case (Cons x xs)
  then show ?case by (cases xs') auto
qed

lemma dash_not_digit: "CHR ''-'' \<notin> set (fmt_d n)"
proof
  assume "CHR ''-'' \<in> set (fmt_d n)"
  then have "is_digit (CHR ''-'')" unfolding fmt_d_def by (rule dec_digits)
  then show False by (simp add: is_digit_def)
qed

lemma dash_fmt_d_inject: "xs @ ''-'' @ fmt_d m = ys @ ''-'' @ fmt_d n \<longleftrightarrow> xs = ys \<and> m = n"
  using append_sep_inject[of xs "CHR ''-''" "fmt_d m" ys "fmt_d n"] dash_not_digit by auto

section \<open>Splitting and joining strings\<close>

fun split_on :: "char \<Rightarrow> string \<Rightarrow> string list" where
  "split_on c [] = [[]]"
| "split_on c (x # xs) =
     (if x = c then [] # split_on c xs
      else case split_on c xs of [] \<Rightarrow> [[x]] | w # ws \<Rightarrow> (x # w) # ws)"

fun join_with :: "char \<Rightarrow> string list \<Rightarrow> string" where
  "join_with c [] = []"
| "join_with c [w] = w"
| "join_with c (w # v # vs) = w @ c # join_with c (v # vs)"

lemma split_on_nonempty [simp]: "split_on c xs \<noteq> []"
  by (induction xs) (auto split: list.splits)

lemma split_on_nosep: "c \<notin> set w \<Longrightarrow> split_on c w = [w]"
  by (induction w) auto

lemma split_on_append: "c \<notin> set w \<Longrightarrow> split_on c (w @ c # xs) = w # split_on c xs"
  by (induction w) (auto split: list.splits)

lemma split_join:
  "ws \<noteq> [] \<Longrightarrow> (\<forall>w \<in> set ws. c \<notin> set w) \<Longrightarrow> split_on c (join_with c ws) = ws"
  by (induction c ws rule: join_with.induct) (auto simp: split_on_nosep split_on_append)

lemma join_split: "join_with c (split_on c xs) = xs"
proof (induction xs)
  case Nil
  then show ?case by simp
next
  case (Cons x xs)
  obtain w ws where w: "split_on c xs = w # ws"
    by (cases "split_on c xs") auto
  with Cons show ?case by (cases ws) auto
qed

lemma split_on_no_sep_parts: "w \<in> set (split_on c xs) \<Longrightarrow> c \<notin> set w"
  by (induction xs arbitrary: w) (auto split: if_splits list.splits)

lemma join_snoc: "ws \<noteq> [] \<Longrightarrow> join_with c (ws @ [w]) = join_with c ws @ c # w"
  by (induction c ws rule: join_with.induct) auto

section \<open>Results\<close>

text \<open>
  An operation that may panic (\<^term>\<open>None\<close>) or return an error (\<^term>\<open>Inl\<close>). \<^verbatim>\<open>attempt\<close> continues with
  the result, as after \<^verbatim>\<open>if err != nil { return err }\<close>; \<^verbatim>\<open>wrap_err\<close> is the \<^verbatim>\<open>%w\<close> of
  \<^verbatim>\<open>fmt.Errorf\<close>.
\<close>

type_synonym ('e, 'a) result = "('e + 'a) option"

definition attempt :: "('e, 'a) result \<Rightarrow> ('a \<Rightarrow> ('e, 'b) result) \<Rightarrow> ('e, 'b) result" where
  "attempt r f = (case r of None \<Rightarrow> None | Some (Inl e) \<Rightarrow> Some (Inl e) | Some (Inr x) \<Rightarrow> f x)"

abbreviation Ok :: "'a \<Rightarrow> ('e, 'a) result" where
  "Ok x \<equiv> Some (Inr x)"

abbreviation Fail :: "'e \<Rightarrow> ('e, 'a) result" where
  "Fail e \<equiv> Some (Inl e)"

definition wrap_err :: "('e \<Rightarrow> 'f) \<Rightarrow> ('e, 'a) result \<Rightarrow> ('f, 'a) result" where
  "wrap_err w r = map_option (map_sum w id) r"

definition or_err :: "'e \<Rightarrow> 'a option \<Rightarrow> ('e, 'a) result" where
  "or_err e x = (case x of None \<Rightarrow> Fail e | Some a \<Rightarrow> Ok a)"

lemma attempt_simps [simp]: "attempt None f = None" "attempt (Fail e) f = Fail e" "attempt (Ok x) f = f x"
  by (simp_all add: attempt_def)

lemma wrap_err_simps [simp]:
  "wrap_err w None = None" "wrap_err w (Fail e) = Fail (w e)" "wrap_err w (Ok x) = Ok x"
  by (simp_all add: wrap_err_def)

lemma or_err_simps [simp]: "or_err e None = Fail e" "or_err e (Some x) = Ok x"
  by (simp_all add: or_err_def)

lemma attempt_ok: "attempt r f = Ok y \<longleftrightarrow> (\<exists>x. r = Ok x \<and> f x = Ok y)"
  by (auto simp: attempt_def split: option.split sum.split)

section \<open>Step systems\<close>

inductive reachable :: "('s \<Rightarrow> bool) \<Rightarrow> ('s \<Rightarrow> 's \<Rightarrow> bool) \<Rightarrow> 's \<Rightarrow> bool"
  for initial :: "'s \<Rightarrow> bool" and step :: "'s \<Rightarrow> 's \<Rightarrow> bool" where
  reach_init: "initial s \<Longrightarrow> reachable initial step s"
| reach_step: "reachable initial step s \<Longrightarrow> step s t \<Longrightarrow> reachable initial step t"

text \<open>
  The contract between a component and the proofs about its runs: an invariant that holds
  initially and that every step keeps holds in every reachable state.
\<close>

locale invariant_system =
  fixes initial :: "'s \<Rightarrow> bool"
    and step :: "'s \<Rightarrow> 's \<Rightarrow> bool"
    and inv :: "'s \<Rightarrow> bool"
  assumes inv_initial: "initial s \<Longrightarrow> inv s"
    and inv_step: "inv s \<Longrightarrow> step s t \<Longrightarrow> inv t"
begin

lemma reachable_inv: "reachable initial step s \<Longrightarrow> inv s"
  by (induction rule: reachable.induct) (auto intro: inv_initial inv_step)

lemma inv_steps: "step\<^sup>*\<^sup>* s t \<Longrightarrow> inv s \<Longrightarrow> inv t"
  by (induction rule: rtranclp_induct) (auto intro: inv_step)

end

end
