(* ===== verification/Mempool_Index.thy ===== *)
theory Mempool_Index
  imports Prelude
begin

text \<open>
  The keys and ordered indexes of the transaction pool (\<^verbatim>\<open>pkg/order/mempool/btree_index.go\<close>,
  \<^verbatim>\<open>types.go\<close>). The B-tree itself is the package \<^verbatim>\<open>github.com/google/btree\<close>, which is not part of
  the repository: the operations the pool calls are the parameter \<open>btree_ops\<close>, and what its
  documentation promises of them is the hypothesis \<open>btree_ok\<close>.
\<close>

section \<open>Transactions\<close>

text \<open>
  The pool reads a transaction through the getters of \<^verbatim>\<open>pb.Transaction\<close>: the sender's address and
  the hash in their string form, the nonce and the timestamp. \<open>tx_data\<close> stands for the rest.
\<close>

record transaction =
  tx_from :: string
  tx_nonce :: u64
  tx_timestamp :: int
  tx_hash :: string
  tx_data :: string

section \<open>Keys\<close>

datatype orderedIndexKey = OrderedIndexKey (oik_account: string) (oik_nonce: u64)

definition oik_Less :: "orderedIndexKey \<Rightarrow> orderedIndexKey \<Rightarrow> bool" where
  "oik_Less oik other =
     (if oik_account oik \<noteq> oik_account other then oik_account oik < oik_account other
      else oik_nonce oik < oik_nonce other)"

datatype sortedNonceKey = SortedNonceKey (snk_nonce: u64)

definition snk_Less :: "sortedNonceKey \<Rightarrow> sortedNonceKey \<Rightarrow> bool" where
  "snk_Less snk dst = (snk_nonce snk < snk_nonce dst)"

datatype orderedTimeoutKey =
  OrderedTimeoutKey (otk_account: string) (otk_nonce: u64) (otk_timestamp: int)

definition otk_Less :: "orderedTimeoutKey \<Rightarrow> orderedTimeoutKey \<Rightarrow> bool" where
  "otk_Less otk other =
     (if otk_timestamp otk \<noteq> otk_timestamp other then otk_timestamp otk < otk_timestamp other
      else if otk_account otk \<noteq> otk_account other then otk_account otk < otk_account other
      else otk_nonce otk < otk_nonce other)"

definition makeOrderedIndexKey :: "string \<Rightarrow> transaction \<Rightarrow> orderedIndexKey" where
  "makeOrderedIndexKey account tx = OrderedIndexKey account (tx_nonce tx)"

definition makeTimeoutKey :: "string \<Rightarrow> transaction \<Rightarrow> orderedTimeoutKey" where
  "makeTimeoutKey account tx = OrderedTimeoutKey account (tx_nonce tx) (tx_timestamp tx)"

definition makeSortedNonceKey :: "u64 \<Rightarrow> sortedNonceKey" where
  "makeSortedNonceKey nonce = SortedNonceKey nonce"

definition makeAccountNonceKey :: "string \<Rightarrow> u64 \<Rightarrow> string" where
  "makeAccountNonceKey account nonce = account @ ''-'' @ fmt_d nonce"

text \<open>The \<^verbatim>\<open>Less\<close> methods are strict linear orders, which is what the B-tree asks of its items.\<close>

instantiation orderedIndexKey :: linorder
begin

definition less_orderedIndexKey :: "orderedIndexKey \<Rightarrow> orderedIndexKey \<Rightarrow> bool" where
  "less_orderedIndexKey = oik_Less"

definition less_eq_orderedIndexKey :: "orderedIndexKey \<Rightarrow> orderedIndexKey \<Rightarrow> bool" where
  "less_eq_orderedIndexKey a b \<longleftrightarrow> a = b \<or> oik_Less a b"

instance
  by standard
    (auto simp: less_orderedIndexKey_def less_eq_orderedIndexKey_def oik_Less_def
      intro: orderedIndexKey.expand split: if_splits)

end

instantiation sortedNonceKey :: linorder
begin

definition less_sortedNonceKey :: "sortedNonceKey \<Rightarrow> sortedNonceKey \<Rightarrow> bool" where
  "less_sortedNonceKey = snk_Less"

definition less_eq_sortedNonceKey :: "sortedNonceKey \<Rightarrow> sortedNonceKey \<Rightarrow> bool" where
  "less_eq_sortedNonceKey a b \<longleftrightarrow> a = b \<or> snk_Less a b"

instance
  by standard
    (auto simp: less_sortedNonceKey_def less_eq_sortedNonceKey_def snk_Less_def
      intro: sortedNonceKey.expand)

end

instantiation orderedTimeoutKey :: linorder
begin

definition less_orderedTimeoutKey :: "orderedTimeoutKey \<Rightarrow> orderedTimeoutKey \<Rightarrow> bool" where
  "less_orderedTimeoutKey = otk_Less"

definition less_eq_orderedTimeoutKey :: "orderedTimeoutKey \<Rightarrow> orderedTimeoutKey \<Rightarrow> bool" where
  "less_eq_orderedTimeoutKey a b \<longleftrightarrow> a = b \<or> otk_Less a b"

instance
  by standard
    (auto simp: less_orderedTimeoutKey_def less_eq_orderedTimeoutKey_def otk_Less_def
      intro: orderedTimeoutKey.expand split: if_splits)

end

section \<open>The B-tree library\<close>

text \<open>
  The operations of \<^verbatim>\<open>btree.BTree\<close> the pool uses. The three traversals are given by the items they
  hand to the iterator, in order; an iterator that returns false stops the traversal, which the
  definitions below write out as a loop over that list.
\<close>

record ('k, 't) btree_ops =
  bt_new :: 't
  bt_ReplaceOrInsert :: "'k \<Rightarrow> 't \<Rightarrow> 't"
  bt_Delete :: "'k \<Rightarrow> 't \<Rightarrow> 't"
  bt_Has :: "'t \<Rightarrow> 'k \<Rightarrow> bool"
  bt_Len :: "'t \<Rightarrow> nat"
  bt_Min :: "'t \<Rightarrow> 'k option"
  bt_Ascend :: "'t \<Rightarrow> 'k list"
  bt_AscendGreaterOrEqual :: "'t \<Rightarrow> 'k \<Rightarrow> 'k list"
  bt_AscendLessThan :: "'t \<Rightarrow> 'k \<Rightarrow> 'k list"

definition btree_ok :: "('k::linorder, 't) btree_ops \<Rightarrow> bool" where
  "btree_ok B \<longleftrightarrow>
     bt_Ascend B (bt_new B) = [] \<and>
     (\<forall>t. sorted_wrt (<) (bt_Ascend B t)) \<and>
     (\<forall>k t. set (bt_Ascend B (bt_ReplaceOrInsert B k t)) = insert k (set (bt_Ascend B t))) \<and>
     (\<forall>k t. set (bt_Ascend B (bt_Delete B k t)) = set (bt_Ascend B t) - {k}) \<and>
     (\<forall>k t. bt_Has B t k \<longleftrightarrow> k \<in> set (bt_Ascend B t)) \<and>
     (\<forall>t. bt_Len B t = length (bt_Ascend B t)) \<and>
     (\<forall>t. bt_Min B t = (case bt_Ascend B t of [] \<Rightarrow> None | k # _ \<Rightarrow> Some k)) \<and>
     (\<forall>k t. bt_AscendGreaterOrEqual B t k = filter (\<lambda>x. \<not> x < k) (bt_Ascend B t)) \<and>
     (\<forall>k t. bt_AscendLessThan B t k = filter (\<lambda>x. x < k) (bt_Ascend B t))"

text \<open>The items of a tree, as a set.\<close>

definition bt_set :: "('k, 't) btree_ops \<Rightarrow> 't \<Rightarrow> 'k set" where
  "bt_set B t = set (bt_Ascend B t)"

lemma btree_okD:
  assumes "btree_ok B"
  shows "bt_set B (bt_new B) = {}"
    and "sorted_wrt (<) (bt_Ascend B t)"
    and "bt_set B (bt_ReplaceOrInsert B k t) = insert k (bt_set B t)"
    and "bt_set B (bt_Delete B k t) = bt_set B t - {k}"
    and "bt_Has B t k \<longleftrightarrow> k \<in> bt_set B t"
    and "bt_Len B t = length (bt_Ascend B t)"
    and "bt_AscendGreaterOrEqual B t k = filter (\<lambda>x. \<not> x < k) (bt_Ascend B t)"
    and "bt_AscendLessThan B t k = filter (\<lambda>x. x < k) (bt_Ascend B t)"
  using assms by (simp_all add: btree_ok_def bt_set_def)

lemma btree_ok_distinct: "btree_ok B \<Longrightarrow> distinct (bt_Ascend B t)"
  using btree_okD(2)[of B t] by (simp add: strict_sorted_iff)

lemma btree_ok_Len: "btree_ok B \<Longrightarrow> bt_Len B t = card (bt_set B t)"
  by (simp add: btree_okD bt_set_def distinct_card btree_ok_distinct)

lemma finite_bt_set [simp]: "finite (bt_set B t)"
  by (simp add: bt_set_def)

lemma btree_ok_Min_Some: "btree_ok B \<Longrightarrow> bt_Min B t = Some k \<Longrightarrow> k \<in> bt_set B t \<and> (\<forall>x \<in> bt_set B t. k \<le> x)"
  using btree_okD(2)[of B t] by (cases "bt_Ascend B t") (auto simp: btree_ok_def bt_set_def)

lemma btree_ok_Min_None: "btree_ok B \<Longrightarrow> bt_Min B t = None \<longleftrightarrow> bt_set B t = {}"
  by (auto simp: btree_ok_def bt_set_def split: list.splits)

lemma bt_set_fold_Delete:
  "btree_ok B \<Longrightarrow> bt_set B (fold (bt_Delete B) ks t) = bt_set B t - set ks"
  by (induction ks arbitrary: t) (auto simp: btree_okD)

text \<open>
  An implementation that keeps the promise, for the witnesses: the tree is the list of the
  inserted items, sorted when it is read.
\<close>

definition list_btree :: "('k::linorder, 'k list) btree_ops" where
  "list_btree = \<lparr>bt_new = [], bt_ReplaceOrInsert = (#), bt_Delete = removeAll,
     bt_Has = (\<lambda>t k. k \<in> set t), bt_Len = (\<lambda>t. length (remdups t)),
     bt_Min = (\<lambda>t. case sort (remdups t) of [] \<Rightarrow> None | k # _ \<Rightarrow> Some k),
     bt_Ascend = (\<lambda>t. sort (remdups t)),
     bt_AscendGreaterOrEqual = (\<lambda>t k. filter (\<lambda>x. \<not> x < k) (sort (remdups t))),
     bt_AscendLessThan = (\<lambda>t k. filter (\<lambda>x. x < k) (sort (remdups t)))\<rparr>"

lemma btree_ok_list_btree [simp]: "btree_ok list_btree"
  by (auto simp: btree_ok_def list_btree_def strict_sorted_iff)

section \<open>The index wrappers\<close>

definition newBtreeIndex :: "('k, 't) btree_ops \<Rightarrow> 't" where
  "newBtreeIndex B = bt_new B"

definition insertBySortedNonceKey ::
    "(sortedNonceKey, 't) btree_ops \<Rightarrow> transaction \<Rightarrow> 't \<Rightarrow> 't" where
  "insertBySortedNonceKey B tx idx = bt_ReplaceOrInsert B (makeSortedNonceKey (tx_nonce tx)) idx"

definition removeBySortedNonceKey ::
    "(sortedNonceKey, 't) btree_ops \<Rightarrow> (string list \<Rightarrow> string list) \<Rightarrow>
     (string, transaction list) gomap \<Rightarrow> 't \<Rightarrow> 't" where
  "removeBySortedNonceKey B ord txs idx =
     fold (\<lambda>(_, list). fold (\<lambda>tx. bt_Delete B (makeSortedNonceKey (tx_nonce tx))) list)
       (go_range ord txs) idx"

definition insertByOrderedQueueKey ::
    "(orderedIndexKey, 't) btree_ops \<Rightarrow> string \<Rightarrow> transaction \<Rightarrow> 't \<Rightarrow> 't" where
  "insertByOrderedQueueKey B account tx idx = bt_ReplaceOrInsert B (makeOrderedIndexKey account tx) idx"

definition removeByOrderedQueueKey ::
    "(orderedIndexKey, 't) btree_ops \<Rightarrow> (string list \<Rightarrow> string list) \<Rightarrow>
     (string, transaction list) gomap \<Rightarrow> 't \<Rightarrow> 't" where
  "removeByOrderedQueueKey B ord txs idx =
     fold (\<lambda>(account, list). fold (\<lambda>tx. bt_Delete B (makeOrderedIndexKey account tx)) list)
       (go_range ord txs) idx"

definition insertByTimeoutKey ::
    "(orderedTimeoutKey, 't) btree_ops \<Rightarrow> string \<Rightarrow> transaction \<Rightarrow> 't \<Rightarrow> 't" where
  "insertByTimeoutKey B account tx idx = bt_ReplaceOrInsert B (makeTimeoutKey account tx) idx"

definition removeByTimeoutKey ::
    "(orderedTimeoutKey, 't) btree_ops \<Rightarrow> (string list \<Rightarrow> string list) \<Rightarrow>
     (string, transaction list) gomap \<Rightarrow> 't \<Rightarrow> 't" where
  "removeByTimeoutKey B ord txs idx =
     fold (\<lambda>(account, list). fold (\<lambda>tx. bt_Delete B (makeTimeoutKey account tx)) list)
       (go_range ord txs) idx"

definition btreeIndex_size :: "('k, 't) btree_ops \<Rightarrow> 't \<Rightarrow> nat" where
  "btreeIndex_size B idx = bt_Len B idx"

section \<open>What the wrappers do to the set of keys\<close>

lemma makeAccountNonceKey_inject [simp]:
  "makeAccountNonceKey a n = makeAccountNonceKey b m \<longleftrightarrow> a = b \<and> n = m"
  using dash_fmt_d_inject[of a n b m] by (simp add: makeAccountNonceKey_def)

text \<open>The transactions of a map from accounts to transaction lists, with their accounts.\<close>

definition txs_pairs :: "(string, transaction list) gomap \<Rightarrow> (string \<times> transaction) set" where
  "txs_pairs txs = {(a, tx). \<exists>l. gget txs a = Some l \<and> tx \<in> set l}"

lemma fold_removes_concat:
  "fold (\<lambda>(a, l). fold (\<lambda>tx. f (mk a tx)) l) xs idx
    = fold f (concat (map (\<lambda>(a, l). map (mk a) l) xs)) idx"
  by (induction xs arbitrary: idx) (auto simp: fold_map comp_def)

lemma set_concat_range:
  "order_ok ord \<Longrightarrow> set (concat (map (\<lambda>(a, l). map (mk a) l) (go_range ord txs)))
    = (\<lambda>(a, tx). mk a tx) ` txs_pairs txs"
proof -
  assume ok: "order_ok ord"
  have "set (concat (map (\<lambda>(a, l). map (mk a) l) (go_range ord txs)))
      = (\<Union>(a, l) \<in> set (go_range ord txs). mk a ` set l)"
    by (simp add: case_prod_unfold)
  also have "\<dots> = (\<lambda>(a, tx). mk a tx) ` txs_pairs txs"
    by (force simp: set_go_range[OF ok] txs_pairs_def)
  finally show ?thesis .
qed

lemma bt_set_fold_removes:
  assumes "btree_ok B" "order_ok ord"
  shows "bt_set B (fold (\<lambda>(a, l). fold (\<lambda>tx. bt_Delete B (mk a tx)) l) (go_range ord txs) idx)
    = bt_set B idx - (\<lambda>(a, tx). mk a tx) ` txs_pairs txs"
  unfolding fold_removes_concat bt_set_fold_Delete[OF assms(1)] set_concat_range[OF assms(2)] ..

lemma bt_set_newBtreeIndex [simp]: "btree_ok B \<Longrightarrow> bt_set B (newBtreeIndex B) = {}"
  by (simp add: newBtreeIndex_def btree_okD)

lemma bt_set_inserts [simp]:
  "btree_ok B1 \<Longrightarrow> bt_set B1 (insertBySortedNonceKey B1 tx idx1)
     = insert (makeSortedNonceKey (tx_nonce tx)) (bt_set B1 idx1)"
  "btree_ok B2 \<Longrightarrow> bt_set B2 (insertByOrderedQueueKey B2 a tx idx2)
     = insert (makeOrderedIndexKey a tx) (bt_set B2 idx2)"
  "btree_ok B3 \<Longrightarrow> bt_set B3 (insertByTimeoutKey B3 a tx idx3)
     = insert (makeTimeoutKey a tx) (bt_set B3 idx3)"
  by (simp_all add: insertBySortedNonceKey_def insertByOrderedQueueKey_def insertByTimeoutKey_def
      btree_okD)

lemma bt_set_removes:
  assumes "order_ok ord"
  shows "btree_ok B1 \<Longrightarrow> bt_set B1 (removeBySortedNonceKey B1 ord txs idx1)
      = bt_set B1 idx1 - (\<lambda>(a, tx). makeSortedNonceKey (tx_nonce tx)) ` txs_pairs txs"
    and "btree_ok B2 \<Longrightarrow> bt_set B2 (removeByOrderedQueueKey B2 ord txs idx2)
      = bt_set B2 idx2 - (\<lambda>(a, tx). makeOrderedIndexKey a tx) ` txs_pairs txs"
    and "btree_ok B3 \<Longrightarrow> bt_set B3 (removeByTimeoutKey B3 ord txs idx3)
      = bt_set B3 idx3 - (\<lambda>(a, tx). makeTimeoutKey a tx) ` txs_pairs txs"
  using bt_set_fold_removes[OF _ assms, of B1 "\<lambda>_ tx. makeSortedNonceKey (tx_nonce tx)" txs idx1]
    bt_set_fold_removes[OF _ assms, of B2 makeOrderedIndexKey txs idx2]
    bt_set_fold_removes[OF _ assms, of B3 makeTimeoutKey txs idx3]
  by (simp_all add: removeBySortedNonceKey_def removeByOrderedQueueKey_def removeByTimeoutKey_def)

end
