(* ===== verification/Mempool_Store.thy ===== *)
theory Mempool_Store
  imports Mempool_Index
begin

text \<open>
  The store of the transaction pool (\<^verbatim>\<open>pkg/order/mempool/tx_store.go\<close>): the transactions of each
  account with their nonce index, the nonce cache, and the two time-ordered indexes. The nonce an
  account has in the ledger is read through the callback \<^verbatim>\<open>getAccountNonce\<close> of the configuration.
\<close>

section \<open>State\<close>

record env = runtime +
  getAccountNonce :: "string \<Rightarrow> u64"

record ('t, 'i, 'n) btrees =
  time_ops :: "(orderedTimeoutKey, 't) btree_ops"
  queue_ops :: "(orderedIndexKey, 'i) btree_ops"
  nonce_ops :: "(sortedNonceKey, 'n) btree_ops"

definition btrees_ok :: "('t, 'i, 'n) btrees \<Rightarrow> bool" where
  "btrees_ok B \<longleftrightarrow> btree_ok (time_ops B) \<and> btree_ok (queue_ops B) \<and> btree_ok (nonce_ops B)"

record txItem =
  item_account :: string
  item_tx :: transaction
  item_local :: bool

record 'n txSortedMap =
  sm_items :: "(u64, txItem) gomap"
  sm_index :: 'n

record nonceCache =
  commitNonces :: "(string, u64) gomap"
  pendingNonces :: "(string, u64) gomap"

record 't txLiveTimeMap =
  tlm_items :: "(string, int) gomap"
  tlm_index :: 't

record 't txArrivedTimeMap =
  tam_items :: "(string, int) gomap"
  tam_index :: 't

record ('t, 'i, 'n) transactionStore =
  txHashMap :: "(string, orderedIndexKey) gomap"
  allTxs :: "(string, 'n txSortedMap) gomap"
  nonceCache :: nonceCache
  earliestTimestamp :: int
  ttlIndex :: "'t txLiveTimeMap"
  removeTimeoutIndex :: "'t txArrivedTimeMap"
  parkingLotIndex :: 'i
  priorityIndex :: 't
  batchedTxs :: "(orderedIndexKey, bool) gomap"
  priorityNonBatchSize :: u64

section \<open>The transactions of one account\<close>

definition newTxSortedMap :: "('t, 'i, 'n) btrees \<Rightarrow> 'n txSortedMap" where
  "newTxSortedMap B = \<lparr>sm_items = [], sm_index = newBtreeIndex (nonce_ops B)\<rparr>"

text \<open>
  The iterator of \<^verbatim>\<open>filterReady\<close>. Reading \<^verbatim>\<open>.tx\<close> of a missing item is a nil dereference.
\<close>

fun filterReady_iter ::
    "(u64, txItem) gomap \<Rightarrow> sortedNonceKey list \<Rightarrow> u64 \<Rightarrow> transaction list \<Rightarrow> transaction list \<Rightarrow>
     (transaction list \<times> transaction list \<times> u64) option" where
  "filterReady_iter its [] demandNonce readyTxs nonReadyTxs = Some (readyTxs, nonReadyTxs, demandNonce)"
| "filterReady_iter its (i # is) demandNonce readyTxs nonReadyTxs =
     (let nonce = snk_nonce i in
      if nonce = demandNonce then
        (case gget its demandNonce of
           None \<Rightarrow> None
         | Some it \<Rightarrow> filterReady_iter its is (demandNonce + 1) (readyTxs @ [item_tx it]) nonReadyTxs)
      else
        (case gget its nonce of
           None \<Rightarrow> None
         | Some it \<Rightarrow> filterReady_iter its is demandNonce readyTxs (nonReadyTxs @ [item_tx it])))"

definition filterReady ::
    "('t, 'i, 'n) btrees \<Rightarrow> 'n txSortedMap \<Rightarrow> u64 \<Rightarrow>
     (transaction list \<times> transaction list \<times> u64) option" where
  "filterReady B m demandNonce =
     (if bt_Len (nonce_ops B) (sm_index m) = 0 then Some ([], [], demandNonce)
      else filterReady_iter (sm_items m)
        (bt_AscendGreaterOrEqual (nonce_ops B) (sm_index m) (makeSortedNonceKey demandNonce))
        demandNonce [] [])"

text \<open>
  The iterator of \<^verbatim>\<open>forward\<close> deletes from the items while it runs; the index is cleaned up by the
  caller.
\<close>

fun forward_iter ::
    "sortedNonceKey list \<Rightarrow> (u64, txItem) gomap \<Rightarrow> (string, transaction list) gomap \<Rightarrow>
     ((u64, txItem) gomap \<times> (string, transaction list) gomap) option" where
  "forward_iter [] its removedTxs = Some (its, removedTxs)"
| "forward_iter (i # is) its removedTxs =
     (let nonce = snk_nonce i in
      case gget its nonce of
        None \<Rightarrow> None
      | Some it \<Rightarrow>
          (let account = item_account it;
               removedTxs1 = (if gget removedTxs account = None then gset account [] removedTxs
                              else removedTxs);
               removedTxs2 = gset account (gget0 [] removedTxs1 account @ [item_tx it]) removedTxs1
           in forward_iter is (gdel nonce its) removedTxs2))"

definition forward ::
    "('t, 'i, 'n) btrees \<Rightarrow> 'n txSortedMap \<Rightarrow> u64 \<Rightarrow>
     ('n txSortedMap \<times> (string, transaction list) gomap) option" where
  "forward B m commitNonce =
     (case forward_iter
        (bt_AscendLessThan (nonce_ops B) (sm_index m) (makeSortedNonceKey commitNonce))
        (sm_items m) [] of
        None \<Rightarrow> None
      | Some (its, removedTxs) \<Rightarrow> Some (m\<lparr>sm_items := its\<rparr>, removedTxs))"

section \<open>The nonce cache\<close>

definition newNonceCache :: nonceCache where
  "newNonceCache = \<lparr>commitNonces = [], pendingNonces = []\<rparr>"

definition getCommitNonce :: "'a env_scheme \<Rightarrow> string \<Rightarrow> nonceCache \<Rightarrow> u64 \<times> nonceCache" where
  "getCommitNonce E account nc =
     (case gget (commitNonces nc) account of
        None \<Rightarrow>
          (let cn = getAccountNonce E account
           in (cn, nc\<lparr>commitNonces := gset account cn (commitNonces nc)\<rparr>))
      | Some nonce \<Rightarrow> (nonce, nc))"

definition setCommitNonce :: "string \<Rightarrow> u64 \<Rightarrow> nonceCache \<Rightarrow> nonceCache" where
  "setCommitNonce account nonce nc = nc\<lparr>commitNonces := gset account nonce (commitNonces nc)\<rparr>"

definition getPendingNonce :: "'a env_scheme \<Rightarrow> string \<Rightarrow> nonceCache \<Rightarrow> u64 \<times> nonceCache" where
  "getPendingNonce E account nc =
     (case gget (pendingNonces nc) account of
        None \<Rightarrow> getCommitNonce E account nc
      | Some nonce \<Rightarrow> (nonce, nc))"

definition setPendingNonce :: "string \<Rightarrow> u64 \<Rightarrow> nonceCache \<Rightarrow> nonceCache" where
  "setPendingNonce account nonce nc = nc\<lparr>pendingNonces := gset account nonce (pendingNonces nc)\<rparr>"

definition updatePendingNonce ::
    "(string list \<Rightarrow> string list) \<Rightarrow> (string, u64) gomap \<Rightarrow> nonceCache \<Rightarrow> nonceCache" where
  "updatePendingNonce ord newPending nc =
     fold (\<lambda>(account, pendingNonce). setPendingNonce account pendingNonce) (go_range ord newPending) nc"

definition updateCommittedNonce ::
    "(string list \<Rightarrow> string list) \<Rightarrow> (string, u64) gomap \<Rightarrow> nonceCache \<Rightarrow> nonceCache" where
  "updateCommittedNonce ord newCommitted nc =
     fold (\<lambda>(account, committedNonce). setCommitNonce account committedNonce)
       (go_range ord newCommitted) nc"

section \<open>The live times\<close>

definition newTxLiveTimeMap :: "('t, 'i, 'n) btrees \<Rightarrow> 't txLiveTimeMap" where
  "newTxLiveTimeMap B = \<lparr>tlm_items = [], tlm_index = bt_new (time_ops B)\<rparr>"

definition tlm_insertByTtlKey ::
    "('t, 'i, 'n) btrees \<Rightarrow> string \<Rightarrow> u64 \<Rightarrow> int \<Rightarrow> 't txLiveTimeMap \<Rightarrow> 't txLiveTimeMap" where
  "tlm_insertByTtlKey B account nonce liveTime tlm =
     tlm\<lparr>tlm_index := bt_ReplaceOrInsert (time_ops B) (OrderedTimeoutKey account nonce liveTime)
           (tlm_index tlm),
         tlm_items := gset (makeAccountNonceKey account nonce) liveTime (tlm_items tlm)\<rparr>"

definition tlm_removeOne ::
    "('t, 'i, 'n) btrees \<Rightarrow> string \<Rightarrow> transaction \<Rightarrow> 't txLiveTimeMap \<Rightarrow> 't txLiveTimeMap" where
  "tlm_removeOne B account tx tlm =
     (case gget (tlm_items tlm) (makeAccountNonceKey account (tx_nonce tx)) of
        None \<Rightarrow> tlm
      | Some liveTime \<Rightarrow>
          tlm\<lparr>tlm_index := bt_Delete (time_ops B) (OrderedTimeoutKey account (tx_nonce tx) liveTime)
                (tlm_index tlm),
              tlm_items := gdel (makeAccountNonceKey account (tx_nonce tx)) (tlm_items tlm)\<rparr>)"

definition tlm_removeByTtlKey ::
    "('t, 'i, 'n) btrees \<Rightarrow> (string list \<Rightarrow> string list) \<Rightarrow> (string, transaction list) gomap \<Rightarrow>
     't txLiveTimeMap \<Rightarrow> 't txLiveTimeMap" where
  "tlm_removeByTtlKey B ord txs tlm =
     fold (\<lambda>(account, list). fold (tlm_removeOne B account) list) (go_range ord txs) tlm"

definition tlm_updateByTtlKey ::
    "('t, 'i, 'n) btrees \<Rightarrow> orderedTimeoutKey \<Rightarrow> int \<Rightarrow> 't txLiveTimeMap \<Rightarrow> 't txLiveTimeMap" where
  "tlm_updateByTtlKey B originalKey newTime tlm =
     (let tlm1 = tlm\<lparr>tlm_index := bt_Delete (time_ops B) originalKey (tlm_index tlm),
            tlm_items := gdel (makeAccountNonceKey (otk_account originalKey) (otk_nonce originalKey))
              (tlm_items tlm)\<rparr>
      in tlm_insertByTtlKey B (otk_account originalKey) (otk_nonce originalKey) newTime tlm1)"

definition tlm_insertOrUpdateByTtlKey ::
    "('t, 'i, 'n) btrees \<Rightarrow> string \<Rightarrow> u64 \<Rightarrow> int \<Rightarrow> 't txLiveTimeMap \<Rightarrow> 't txLiveTimeMap" where
  "tlm_insertOrUpdateByTtlKey B account nonce liveTime tlm =
     (let tlm1 = (case gget (tlm_items tlm) (makeAccountNonceKey account nonce) of
          None \<Rightarrow> tlm
        | Some oldTime \<Rightarrow>
            tlm\<lparr>tlm_index := bt_Delete (time_ops B) (OrderedTimeoutKey account nonce oldTime)
              (tlm_index tlm)\<rparr>)
      in tlm_insertByTtlKey B account nonce liveTime tlm1)"

section \<open>The arrival times\<close>

definition newTxArrivedTimeMap :: "('t, 'i, 'n) btrees \<Rightarrow> 't txArrivedTimeMap" where
  "newTxArrivedTimeMap B = \<lparr>tam_items = [], tam_index = bt_new (time_ops B)\<rparr>"

definition tam_insertByTtlKey ::
    "('t, 'i, 'n) btrees \<Rightarrow> string \<Rightarrow> u64 \<Rightarrow> int \<Rightarrow> 't txArrivedTimeMap \<Rightarrow> 't txArrivedTimeMap" where
  "tam_insertByTtlKey B account nonce liveTime tam =
     tam\<lparr>tam_index := bt_ReplaceOrInsert (time_ops B) (OrderedTimeoutKey account nonce liveTime)
           (tam_index tam),
         tam_items := gset (makeAccountNonceKey account nonce) liveTime (tam_items tam)\<rparr>"

definition tam_removeOne ::
    "('t, 'i, 'n) btrees \<Rightarrow> string \<Rightarrow> transaction \<Rightarrow> 't txArrivedTimeMap \<Rightarrow> 't txArrivedTimeMap" where
  "tam_removeOne B account tx tam =
     (case gget (tam_items tam) (makeAccountNonceKey account (tx_nonce tx)) of
        None \<Rightarrow> tam
      | Some liveTime \<Rightarrow>
          tam\<lparr>tam_index := bt_Delete (time_ops B) (OrderedTimeoutKey account (tx_nonce tx) liveTime)
                (tam_index tam),
              tam_items := gdel (makeAccountNonceKey account (tx_nonce tx)) (tam_items tam)\<rparr>)"

definition tam_removeByTtlKey ::
    "('t, 'i, 'n) btrees \<Rightarrow> (string list \<Rightarrow> string list) \<Rightarrow> (string, transaction list) gomap \<Rightarrow>
     't txArrivedTimeMap \<Rightarrow> 't txArrivedTimeMap" where
  "tam_removeByTtlKey B ord txs tam =
     fold (\<lambda>(account, list). fold (tam_removeOne B account) list) (go_range ord txs) tam"

definition tam_insertOrUpdateByTtlKey ::
    "('t, 'i, 'n) btrees \<Rightarrow> string \<Rightarrow> u64 \<Rightarrow> int \<Rightarrow> 't txArrivedTimeMap \<Rightarrow> 't txArrivedTimeMap" where
  "tam_insertOrUpdateByTtlKey B account nonce liveTime tam =
     (let tam1 = (case gget (tam_items tam) (makeAccountNonceKey account nonce) of
          None \<Rightarrow> tam
        | Some oldTime \<Rightarrow>
            tam\<lparr>tam_index := bt_Delete (time_ops B) (OrderedTimeoutKey account nonce oldTime)
              (tam_index tam)\<rparr>)
      in tam_insertByTtlKey B account nonce liveTime tam1)"

section \<open>The store\<close>

definition newTransactionStore :: "('t, 'i, 'n) btrees \<Rightarrow> ('t, 'i, 'n) transactionStore" where
  "newTransactionStore B =
     \<lparr>txHashMap = [], allTxs = [], nonceCache = newNonceCache, earliestTimestamp = 0,
      ttlIndex = newTxLiveTimeMap B, removeTimeoutIndex = newTxArrivedTimeMap B,
      parkingLotIndex = newBtreeIndex (queue_ops B), priorityIndex = newBtreeIndex (time_ops B),
      batchedTxs = [], priorityNonBatchSize = 0\<rparr>"

text \<open>The body of the inner loop of \<^verbatim>\<open>insertTxs\<close>.\<close>

definition insertTx ::
    "('t, 'i, 'n) btrees \<Rightarrow> int \<Rightarrow> bool \<Rightarrow> string \<Rightarrow> transaction \<Rightarrow>
     ('t, 'i, 'n) transactionStore \<Rightarrow> ('t, 'i, 'n) transactionStore" where
  "insertTx B now isLocal account tx st =
     (let txPointer = OrderedIndexKey account (tx_nonce tx);
          txList = (case gget (allTxs st) account of None \<Rightarrow> newTxSortedMap B | Some l \<Rightarrow> l);
          it = \<lparr>item_account = account, item_tx = tx, item_local = isLocal\<rparr>;
          txList' = txList\<lparr>sm_items := gset (tx_nonce tx) it (sm_items txList),
            sm_index := insertBySortedNonceKey (nonce_ops B) tx (sm_index txList)\<rparr>
      in st\<lparr>txHashMap := gset (tx_hash tx) txPointer (txHashMap st),
            allTxs := gset account txList' (allTxs st),
            ttlIndex := (if isLocal then
                tlm_insertOrUpdateByTtlKey B account (tx_nonce tx) (tx_timestamp tx) (ttlIndex st)
              else ttlIndex st),
            removeTimeoutIndex :=
              tam_insertOrUpdateByTtlKey B account (tx_nonce tx) now (removeTimeoutIndex st)\<rparr>)"

definition insertTxs ::
    "('t, 'i, 'n) btrees \<Rightarrow> 'a env_scheme \<Rightarrow> (string, transaction list) gomap \<Rightarrow> bool \<Rightarrow>
     ('t, 'i, 'n) transactionStore \<Rightarrow> (string, bool) gomap \<times> ('t, 'i, 'n) transactionStore" where
  "insertTxs B E txs isLocal st =
     fold (\<lambda>(account, list) (dirtyAccounts, st).
         (gset account True dirtyAccounts, fold (insertTx B (rt_now E) isLocal account) list st))
       (go_range (rt_order E 1) txs) ([], st)"

definition getTxByOrderKey ::
    "string \<Rightarrow> u64 \<Rightarrow> ('t, 'i, 'n) transactionStore \<Rightarrow> transaction option" where
  "getTxByOrderKey account seqNo st =
     (case gget (allTxs st) account of
        None \<Rightarrow> None
      | Some list \<Rightarrow>
          (case gget (sm_items list) seqNo of None \<Rightarrow> None | Some res \<Rightarrow> Some (item_tx res)))"

definition updateEarliestTimestamp ::
    "('t, 'i, 'n) btrees \<Rightarrow> ('t, 'i, 'n) transactionStore \<Rightarrow> ('t, 'i, 'n) transactionStore" where
  "updateEarliestTimestamp B st =
     st\<lparr>earliestTimestamp :=
       (case bt_Min (time_ops B) (tlm_index (ttlIndex st)) of
          None \<Rightarrow> max_int64
        | Some latestItem \<Rightarrow> otk_timestamp latestItem)\<rparr>"

end
