(* ===== verification/Mempool.thy ===== *)
theory Mempool
  imports Mempool_Store
begin

text \<open>
  The transaction pool (\<^verbatim>\<open>pkg/order/mempool/mempool_impl.go\<close>, \<^verbatim>\<open>mempool.go\<close>). An operation takes
  the B-tree operations and the environment of the call, and returns the new state; \<^term>\<open>None\<close> is a
  panic of the Go code (a nil dereference, an index out of range, a division by zero) or, for the
  inner loop of the block generator, running out of fuel.
\<close>

section \<open>State\<close>

definition DefaultPoolSize :: u64 where "DefaultPoolSize = 50000"
definition DefaultBatchSize :: u64 where "DefaultBatchSize = 500"
definition DefaultTxSetSize :: u64 where "DefaultTxSetSize = 10"

record mempool_config =
  cfg_ID :: u64
  cfg_BatchSize :: u64
  cfg_PoolSize :: u64
  cfg_IsTimed :: bool
  cfg_TxSliceSize :: u64
  cfg_ChainHeight :: u64

record ('t, 'i, 'n) mempool =
  localID :: u64
  batchSize :: u64
  txSliceSize :: u64
  batchSeqNo :: u64
  poolSize :: u64
  isTimed :: bool
  txStore :: "('t, 'i, 'n) transactionStore"
  txFeed :: "transaction list list"

record request_batch =
  batch_TxList :: "transaction option list"
  batch_Height :: u64
  batch_Timestamp :: int

record chain_state =
  cs_Height :: u64
  cs_TxHashList :: "string list"

definition newMempoolImpl ::
    "('t, 'i, 'n) btrees \<Rightarrow> mempool_config \<Rightarrow> ('t, 'i, 'n) mempool" where
  "newMempoolImpl B config =
     \<lparr>localID = cfg_ID config,
      batchSize = (if cfg_BatchSize config = 0 then DefaultBatchSize else cfg_BatchSize config),
      txSliceSize = (if cfg_TxSliceSize config = 0 then DefaultTxSetSize else cfg_TxSliceSize config),
      batchSeqNo = cfg_ChainHeight config,
      poolSize = (if cfg_PoolSize config = 0 then DefaultPoolSize else cfg_PoolSize config),
      isTimed = cfg_IsTimed config,
      txStore = newTransactionStore B, txFeed = []\<rparr>"

section \<open>Accepting transactions\<close>

text \<open>
  One iteration of the first loop of \<^verbatim>\<open>ProcessTransactions\<close>. Its state: the nonce cache (a lookup
  fills it), the pointers seen in this call, the valid transactions by account and in order.
\<close>

record process_loop =
  pl_nonces :: nonceCache
  pl_pointers :: "(string \<times> u64, string) gomap"
  pl_validTxs :: "(string, transaction list) gomap"
  pl_validTxList :: "transaction list"

definition process_one ::
    "'a env_scheme \<Rightarrow> (string, orderedIndexKey) gomap \<Rightarrow> transaction \<Rightarrow> process_loop \<Rightarrow> process_loop" where
  "process_one E hashes tx l =
     (let txAccount = tx_from tx;
          (currentSeqNo, nc) = getPendingNonce E txAccount (pl_nonces l);
          l1 = l\<lparr>pl_nonces := nc\<rparr>;
          ptr = (tx_from tx, tx_nonce tx)
      in if tx_nonce tx < currentSeqNo then l1
         else if gget (pl_pointers l1) ptr \<noteq> None then l1
         else
           (let l2 = l1\<lparr>pl_pointers := gset ptr (tx_hash tx) (pl_pointers l1)\<rparr>
            in if gget hashes (tx_hash tx) \<noteq> None then l2
               else
                 (let valid1 = (if gget (pl_validTxs l2) txAccount = None
                                then gset txAccount [] (pl_validTxs l2) else pl_validTxs l2)
                  in l2\<lparr>pl_validTxs := gset txAccount (gget0 [] valid1 txAccount @ [tx]) valid1,
                        pl_validTxList := pl_validTxList l2 @ [tx]\<rparr>)))"

text \<open>One account of \<^verbatim>\<open>processDirtyAccount\<close>.\<close>

definition processDirty_one ::
    "('t, 'i, 'n) btrees \<Rightarrow> 'a env_scheme \<Rightarrow> string \<Rightarrow>
     (string, u64) gomap \<times> ('t, 'i, 'n) transactionStore \<Rightarrow>
     ((string, u64) gomap \<times> ('t, 'i, 'n) transactionStore) option" where
  "processDirty_one B E account s =
     (let (updateAccounts, st) = s in
      case gget (allTxs st) account of
        None \<Rightarrow> Some (updateAccounts, st)
      | Some list \<Rightarrow>
          (let (pendingNonce, nc) = getPendingNonce E account (nonceCache st);
               st0 = st\<lparr>nonceCache := nc\<rparr>
           in case filterReady B list pendingNonce of
                None \<Rightarrow> None
              | Some (readyTxs, nonReadyTxs, nextDemandNonce) \<Rightarrow>
                  (let prio = fold (\<lambda>tx idx.
                         if \<not> bt_Has (time_ops B) idx (makeTimeoutKey account tx)
                         then insertByTimeoutKey (time_ops B) account tx idx else idx)
                         readyTxs (priorityIndex st0);
                       st1 = updateEarliestTimestamp B (st0\<lparr>priorityIndex := prio\<rparr>);
                       st2 = st1\<lparr>priorityNonBatchSize :=
                         priorityNonBatchSize st1 + of_nat (length readyTxs)\<rparr>;
                       st3 = st2\<lparr>parkingLotIndex :=
                         fold (insertByOrderedQueueKey (queue_ops B) account) nonReadyTxs
                           (parkingLotIndex st2)\<rparr>
                   in Some (gset account nextDemandNonce updateAccounts, st3))))"

definition processDirtyAccount ::
    "('t, 'i, 'n) btrees \<Rightarrow> 'a env_scheme \<Rightarrow> (string, bool) gomap \<Rightarrow>
     ('t, 'i, 'n) transactionStore \<Rightarrow> ('t, 'i, 'n) transactionStore option" where
  "processDirtyAccount B E dirtyAccounts st =
     (case ofold (processDirty_one B E) (map fst (go_range (rt_order E 2) dirtyAccounts)) ([], st) of
        None \<Rightarrow> None
      | Some (updateAccounts, st') \<Rightarrow>
          Some (st'\<lparr>nonceCache := updatePendingNonce (rt_order E 3) updateAccounts (nonceCache st')\<rparr>))"

section \<open>Generating a block\<close>

record gen_state =
  gl_nonces :: nonceCache
  gl_batched :: "(orderedIndexKey, bool) gomap"
  gl_skipped :: "(orderedIndexKey, bool) gomap"
  gl_result :: "orderedIndexKey list"

text \<open>
  The inner loop takes the skipped successors of a transaction that was just taken; the flag says
  whether the iterator goes on. The loop walks through distinct skipped keys, so the number of
  skipped keys plus one is enough fuel.
\<close>

fun takeSkipped ::
    "nat \<Rightarrow> u64 \<Rightarrow> orderedIndexKey \<Rightarrow> gen_state \<Rightarrow> (bool \<times> gen_state) option" where
  "takeSkipped 0 limit skippedTxn g = None"
| "takeSkipped (Suc fuel) limit skippedTxn g =
     (if gget (gl_skipped g) skippedTxn = None then Some (True, g)
      else
        (let g1 = g\<lparr>gl_batched := gset skippedTxn True (gl_batched g),
                    gl_result := gl_result g @ [skippedTxn]\<rparr>
         in if of_nat (length (gl_result g1)) = limit then Some (False, g1)
            else takeSkipped fuel limit
              (OrderedIndexKey (oik_account skippedTxn) (oik_nonce skippedTxn + 1)) g1))"

definition generate_iter ::
    "'a env_scheme \<Rightarrow> u64 \<Rightarrow> orderedTimeoutKey \<Rightarrow> gen_state \<Rightarrow> (bool \<times> gen_state) option" where
  "generate_iter E limit tx g =
     (if gget (gl_batched g) (OrderedIndexKey (otk_account tx) (otk_nonce tx)) \<noteq> None then Some (True, g)
      else
        (let txSeq = otk_nonce tx;
             (commitNonce, nc) = getCommitNonce E (otk_account tx) (gl_nonces g);
             g0 = g\<lparr>gl_nonces := nc\<rparr>;
             seenPrevious = (txSeq \<ge> 1 \<and>
               gget (gl_batched g0) (OrderedIndexKey (otk_account tx) (txSeq - 1)) \<noteq> None)
         in if seenPrevious \<or> txSeq = commitNonce then
              (let ptr = OrderedIndexKey (otk_account tx) txSeq;
                   g1 = g0\<lparr>gl_batched := gset ptr True (gl_batched g0),
                           gl_result := gl_result g0 @ [ptr]\<rparr>
               in if of_nat (length (gl_result g1)) = limit then Some (False, g1)
                  else takeSkipped (Suc (length (gl_skipped g1))) limit
                    (OrderedIndexKey (otk_account tx) (txSeq + 1)) g1)
            else
              Some (True, g0\<lparr>gl_skipped :=
                gset (OrderedIndexKey (otk_account tx) txSeq) True (gl_skipped g0)\<rparr>)))"

fun generate_loop ::
    "'a env_scheme \<Rightarrow> u64 \<Rightarrow> orderedTimeoutKey list \<Rightarrow> gen_state \<Rightarrow> gen_state option" where
  "generate_loop E limit [] g = Some g"
| "generate_loop E limit (tx # txs) g =
     (case generate_iter E limit tx g of
        None \<Rightarrow> None
      | Some (False, g') \<Rightarrow> Some g'
      | Some (True, g') \<Rightarrow> generate_loop E limit txs g')"

text \<open>The block generator returns the batch, or no batch when it logs its error.\<close>

definition generateBlock ::
    "('t, 'i, 'n) btrees \<Rightarrow> 'a env_scheme \<Rightarrow> ('t, 'i, 'n) mempool \<Rightarrow>
     (request_batch option \<times> ('t, 'i, 'n) mempool) option" where
  "generateBlock B E mpi =
     (let st = txStore mpi;
          limit = (if priorityNonBatchSize st > batchSize mpi then batchSize mpi
                  else priorityNonBatchSize st)
      in case generate_loop E limit (bt_Ascend (time_ops B) (priorityIndex st))
           \<lparr>gl_nonces = nonceCache st, gl_batched = batchedTxs st, gl_skipped = [], gl_result = []\<rparr> of
           None \<Rightarrow> None
         | Some g \<Rightarrow>
             (let st1 = st\<lparr>nonceCache := gl_nonces g, batchedTxs := gl_batched g\<rparr>;
                  result = gl_result g
              in if \<not> isTimed mpi \<and> length result = 0 \<and> priorityNonBatchSize st1 > 0 then
                   Some (None, mpi\<lparr>txStore := st1\<lparr>priorityNonBatchSize := 0\<rparr>\<rparr>)
                 else
                   (let txList = map (\<lambda>v. getTxByOrderKey (oik_account v) (oik_nonce v) st1) result;
                        seqNo = batchSeqNo mpi + 1;
                        batch = \<lparr>batch_TxList = txList, batch_Height = seqNo,
                                 batch_Timestamp = rt_now E\<rparr>;
                        st2 = (if priorityNonBatchSize st1 \<ge> of_nat (length txList)
                               then st1\<lparr>priorityNonBatchSize :=
                                 priorityNonBatchSize st1 - of_nat (length txList)\<rparr>
                               else st1)
                    in Some (Some batch, mpi\<lparr>batchSeqNo := seqNo, txStore := st2\<rparr>))))"

definition GenerateBlock ::
    "('t, 'i, 'n) btrees \<Rightarrow> 'a env_scheme \<Rightarrow> ('t, 'i, 'n) mempool \<Rightarrow>
     (request_batch option \<times> ('t, 'i, 'n) mempool) option" where
  "GenerateBlock B E mpi =
     (if \<not> isTimed mpi \<and> priorityNonBatchSize (txStore mpi) = 0 then Some (None, mpi)
      else generateBlock B E mpi)"

text \<open>The sends to the subscribers are recorded in the order they are started.\<close>

definition postTxsEvent ::
    "transaction list \<Rightarrow> ('t, 'i, 'n) mempool \<Rightarrow> ('t, 'i, 'n) mempool" where
  "postTxsEvent txList mpi = mpi\<lparr>txFeed := txFeed mpi @ [txList]\<rparr>"

definition ProcessTransactions ::
    "('t, 'i, 'n) btrees \<Rightarrow> 'a env_scheme \<Rightarrow> transaction list \<Rightarrow> bool \<Rightarrow> bool \<Rightarrow>
     ('t, 'i, 'n) mempool \<Rightarrow> (request_batch option \<times> ('t, 'i, 'n) mempool) option" where
  "ProcessTransactions B E txs isLeader isLocal mpi =
     (let st = txStore mpi;
          l = fold (process_one E (txHashMap st)) txs
            \<lparr>pl_nonces = nonceCache st, pl_pointers = [], pl_validTxs = [], pl_validTxList = []\<rparr>;
          mpi1 = postTxsEvent (pl_validTxList l) mpi;
          (dirtyAccounts, st1) =
            insertTxs B E (pl_validTxs l) isLocal (st\<lparr>nonceCache := pl_nonces l\<rparr>)
      in case processDirtyAccount B E dirtyAccounts st1 of
           None \<Rightarrow> None
         | Some st2 \<Rightarrow>
             (let mpi' = mpi1\<lparr>txStore := st2\<rparr>
              in if isLeader \<and> priorityNonBatchSize st2 \<ge> batchSize mpi \<and> \<not> isTimed mpi
                 then generateBlock B E mpi'
                 else Some (None, mpi')))"

section \<open>Committing\<close>

text \<open>One hash of the first loop of \<^verbatim>\<open>processCommitTransactions\<close>.\<close>

record ('t, 'i, 'n) commit_loop =
  cl_dirty :: "(string, bool) gomap"
  cl_update :: "(string, u64) gomap"
  cl_store :: "('t, 'i, 'n) transactionStore"

definition commit_one ::
    "'a env_scheme \<Rightarrow> string \<Rightarrow> ('t, 'i, 'n) commit_loop \<Rightarrow> ('t, 'i, 'n) commit_loop" where
  "commit_one E strHash c =
     (let st = cl_store c in
      case gget (txHashMap st) strHash of
        None \<Rightarrow> c
      | Some txPointer \<Rightarrow>
          (let account = oik_account txPointer;
               (preCommitNonce, nc) = getCommitNonce E account (nonceCache st);
               newCommitNonce = oik_nonce txPointer + 1;
               update = (if gget0 0 (cl_update c) account < newCommitNonce \<and>
                            preCommitNonce < newCommitNonce
                         then gset account newCommitNonce (cl_update c) else cl_update c)
           in \<lparr>cl_dirty = gset account True (cl_dirty c), cl_update = update,
               cl_store = st\<lparr>nonceCache := nc, txHashMap := gdel strHash (txHashMap st),
                             batchedTxs := gdel txPointer (batchedTxs st)\<rparr>\<rparr>))"

text \<open>
  One account of the second loop. The five goroutines each remove the same transactions from one
  index of their own and are joined before the loop goes on, so their order does not matter.
\<close>

definition clean_one ::
    "('t, 'i, 'n) btrees \<Rightarrow> 'a env_scheme \<Rightarrow> string \<Rightarrow> ('t, 'i, 'n) transactionStore \<Rightarrow>
     ('t, 'i, 'n) transactionStore option" where
  "clean_one B E account st =
     (let (commitNonce, nc) = getCommitNonce E account (nonceCache st);
          st0 = st\<lparr>nonceCache := nc\<rparr>
      in case gget (allTxs st0) account of
           None \<Rightarrow> Some st0
         | Some list \<Rightarrow>
             (case forward B list commitNonce of
                None \<Rightarrow> None
              | Some (list1, removedTxs) \<Rightarrow>
                  (let list2 = list1\<lparr>sm_index :=
                         removeBySortedNonceKey (nonce_ops B) (rt_order E 4) removedTxs (sm_index list1)\<rparr>;
                       st1 = st0\<lparr>allTxs := gset account list2 (allTxs st0),
                         priorityIndex := removeByTimeoutKey (time_ops B) (rt_order E 5) removedTxs
                           (priorityIndex st0),
                         ttlIndex := tlm_removeByTtlKey B (rt_order E 6) removedTxs (ttlIndex st0)\<rparr>;
                       st2 = updateEarliestTimestamp B st1;
                       st3 = st2\<lparr>
                         removeTimeoutIndex := tam_removeByTtlKey B (rt_order E 7) removedTxs
                           (removeTimeoutIndex st2),
                         parkingLotIndex := removeByOrderedQueueKey (queue_ops B) (rt_order E 8)
                           removedTxs (parkingLotIndex st2)\<rparr>
                   in Some st3)))"

definition processCommitTransactions ::
    "('t, 'i, 'n) btrees \<Rightarrow> 'a env_scheme \<Rightarrow> chain_state \<Rightarrow> ('t, 'i, 'n) mempool \<Rightarrow>
     ('t, 'i, 'n) mempool option" where
  "processCommitTransactions B E state mpi =
     (let c = fold (commit_one E) (cs_TxHashList state)
            \<lparr>cl_dirty = [], cl_update = [], cl_store = txStore mpi\<rparr>;
          st1 = (cl_store c)\<lparr>nonceCache :=
            updateCommittedNonce (rt_order E 9) (cl_update c) (nonceCache (cl_store c))\<rparr>
      in case ofold (clean_one B E) (map fst (go_range (rt_order E 10) (cl_dirty c))) st1 of
           None \<Rightarrow> None
         | Some st2 \<Rightarrow>
             (let readyNum = of_nat (btreeIndex_size (time_ops B) (priorityIndex st2))
              in Some (mpi\<lparr>txStore :=
                   (if priorityNonBatchSize st2 > readyNum
                    then st2\<lparr>priorityNonBatchSize := readyNum\<rparr> else st2)\<rparr>)))"

definition CommitTransactions ::
    "('t, 'i, 'n) btrees \<Rightarrow> 'a env_scheme \<Rightarrow> chain_state \<Rightarrow> ('t, 'i, 'n) mempool \<Rightarrow>
     ('t, 'i, 'n) mempool option" where
  "CommitTransactions B E state mpi = processCommitTransactions B E state mpi"

section \<open>Rebroadcasting\<close>

text \<open>The iterator that collects the items whose rebroadcast is due.\<close>

fun timeout_items ::
    "('t, 'i, 'n) transactionStore \<Rightarrow> int \<Rightarrow> int \<Rightarrow> orderedTimeoutKey list \<Rightarrow> orderedTimeoutKey list \<Rightarrow>
     orderedTimeoutKey list" where
  "timeout_items st currentTime dur [] acc = acc"
| "timeout_items st currentTime dur (i # is) acc =
     (if otk_timestamp i > max_int64 then timeout_items st currentTime dur is acc
      else
        (let timeoutTime = int64 (otk_timestamp i + dur)
         in if gget (allTxs st) (otk_account i) = None \<or> currentTime < timeoutTime then acc
            else timeout_items st currentTime dur is (acc @ [i])))"

text \<open>
  The two loops of \<^verbatim>\<open>shardTxList\<close>. A slot of the new slice is nil until it is written; writing
  outside the slice, reading outside the item list and dereferencing a missing item panic.
\<close>

function shard_fill ::
    "('t, 'i, 'n) transactionStore \<Rightarrow> orderedTimeoutKey list \<Rightarrow> u64 \<Rightarrow> u64 \<Rightarrow> u64 \<Rightarrow> u64 \<Rightarrow>
     transaction option list \<Rightarrow> (u64 \<times> transaction option list) option" where
  "shard_fill st timeoutItems batchLen endIdx j beginIdx shardedList =
     (if j < batchLen \<and> beginIdx \<le> endIdx then
        (if unat beginIdx < length timeoutItems \<and> unat j < length shardedList then
           (let item = timeoutItems ! unat beginIdx
            in case getTxByOrderKey (otk_account item) (otk_nonce item) st of
                 None \<Rightarrow> None
               | Some tx \<Rightarrow> shard_fill st timeoutItems batchLen endIdx (j + 1) (beginIdx + 1)
                   (shardedList[unat j := Some tx]))
         else None)
      else Some (beginIdx, shardedList))"
  by pat_completeness auto
termination
  by (relation "measure (\<lambda>(st, ts, batchLen, e, j, b, l). unat batchLen - unat j)")
    (auto simp: word_Suc_less word_less_nat_alt)

declare shard_fill.simps [simp del]

function shard_loop ::
    "('t, 'i, 'n) transactionStore \<Rightarrow> orderedTimeoutKey list \<Rightarrow> u64 \<Rightarrow> u64 \<Rightarrow> u64 \<Rightarrow> u64 \<Rightarrow> u64 \<Rightarrow>
     transaction option list list \<Rightarrow> transaction option list list option" where
  "shard_loop st timeoutItems batchLen endIdx batchNums i beginIdx shardedLists =
     (if i < batchNums then
        (let actualLen = (if endIdx - beginIdx + 1 < batchLen then endIdx - beginIdx + 1 else batchLen)
         in case shard_fill st timeoutItems batchLen endIdx 0 beginIdx (replicate (unat actualLen) None) of
              None \<Rightarrow> None
            | Some (beginIdx', shardedList) \<Rightarrow>
                shard_loop st timeoutItems batchLen endIdx batchNums (i + 1) beginIdx'
                  (shardedLists @ [shardedList]))
      else Some shardedLists)"
  by pat_completeness auto
termination
  by (relation "measure (\<lambda>(st, ts, batchLen, e, batchNums, i, b, l). unat batchNums - unat i)")
    (auto simp: word_Suc_less word_less_nat_alt)

declare shard_loop.simps [simp del]

definition shardTxList ::
    "orderedTimeoutKey list \<Rightarrow> u64 \<Rightarrow> ('t, 'i, 'n) mempool \<Rightarrow> transaction option list list option" where
  "shardTxList timeoutItems batchLen mpi =
     (if batchLen = 0 then None
      else
        (let endIdx = of_nat (length timeoutItems) - 1;
             totalLen = of_nat (length timeoutItems);
             batchNums = totalLen div batchLen + (if totalLen mod batchLen \<noteq> 0 then 1 else 0)
         in shard_loop (txStore mpi) timeoutItems batchLen endIdx batchNums 0 0 []))"

definition GetTimeoutTransactions ::
    "('t, 'i, 'n) btrees \<Rightarrow> 'a env_scheme \<Rightarrow> int \<Rightarrow> ('t, 'i, 'n) mempool \<Rightarrow>
     (transaction option list list \<times> ('t, 'i, 'n) mempool) option" where
  "GetTimeoutTransactions B E rebroadcastDuration mpi =
     (let st = txStore mpi;
          currentTime = rt_now E
      in if currentTime < int64 (earliestTimestamp st + rebroadcastDuration) then Some ([], mpi)
         else
           (let timeoutItems = timeout_items st currentTime rebroadcastDuration
                  (bt_Ascend (time_ops B) (tlm_index (ttlIndex st))) [];
                ttl = fold (\<lambda>item. tlm_updateByTtlKey B item currentTime) timeoutItems (ttlIndex st);
                mpi' = mpi\<lparr>txStore := st\<lparr>ttlIndex := ttl\<rparr>\<rparr>
            in case shardTxList timeoutItems (txSliceSize mpi) mpi' of
                 None \<Rightarrow> None
               | Some shards \<Rightarrow> Some (shards, mpi')))"

section \<open>Removing transactions that stayed too long\<close>

definition getPoolTxByTxnPointer ::
    "string \<Rightarrow> u64 \<Rightarrow> ('t, 'i, 'n) transactionStore \<Rightarrow> txItem option" where
  "getPoolTxByTxnPointer account nonce st =
     (case gget (allTxs st) account of None \<Rightarrow> None | Some list \<Rightarrow> gget (sm_items list) nonce)"

text \<open>
  The iterator of \<^verbatim>\<open>RemoveAliveTimeoutTxs\<close>. Its state: the removed transactions by account, their
  count and the hash map.
\<close>

fun remove_iter ::
    "('t, 'i, 'n) btrees \<Rightarrow> ('t, 'i, 'n) transactionStore \<Rightarrow> int \<Rightarrow> int \<Rightarrow> orderedTimeoutKey list \<Rightarrow>
     (string, transaction list) gomap \<Rightarrow> u64 \<Rightarrow> (string, orderedIndexKey) gomap \<Rightarrow>
     (string, transaction list) gomap \<times> u64 \<times> (string, orderedIndexKey) gomap" where
  "remove_iter B st now dur [] removedTxs removeCnt hashes = (removedTxs, removeCnt, hashes)"
| "remove_iter B st now dur (item # is) removedTxs removeCnt hashes =
     (case getPoolTxByTxnPointer (otk_account item) (otk_nonce item) st of
        None \<Rightarrow> remove_iter B st now dur is removedTxs removeCnt hashes
      | Some txIt \<Rightarrow>
          if int64 (now - otk_timestamp item) > dur then
            (let orderedKey = OrderedTimeoutKey (item_account txIt) (tx_nonce (item_tx txIt))
                   (tx_timestamp (item_tx txIt));
                 orderedIndxKey = OrderedIndexKey (item_account txIt) (tx_nonce (item_tx txIt));
                 account = otk_account orderedKey
             in if gget (batchedTxs st) (OrderedIndexKey (otk_account item) (otk_nonce item)) \<noteq> None
                then remove_iter B st now dur is removedTxs removeCnt hashes
                else if bt_Has (time_ops B) (priorityIndex st) orderedKey
                then remove_iter B st now dur is removedTxs removeCnt hashes
                else if bt_Has (queue_ops B) (parkingLotIndex st) orderedIndxKey
                then
                  (let removed1 = (if gget removedTxs account = None then gset account [] removedTxs
                                   else removedTxs)
                   in remove_iter B st now dur is
                        (gset account (gget0 [] removed1 account @ [item_tx txIt]) removed1)
                        (removeCnt + 1) (gdel (tx_hash (item_tx txIt)) hashes))
                else remove_iter B st now dur is removedTxs removeCnt hashes)
          else (removedTxs, removeCnt, hashes))"

text \<open>
  One account of the loop after the iterator. Every goroutine is handed the removed transactions of
  all accounts.
\<close>

definition remove_one ::
    "('t, 'i, 'n) btrees \<Rightarrow> 'a env_scheme \<Rightarrow> (string, transaction list) gomap \<Rightarrow> string \<times> transaction list \<Rightarrow>
     ('t, 'i, 'n) transactionStore \<Rightarrow> ('t, 'i, 'n) transactionStore" where
  "remove_one B E removedTxs e st =
     (let (account, txs) = e in
      case gget (allTxs st) account of
        None \<Rightarrow> st
      | Some list \<Rightarrow>
          (let list1 = list\<lparr>
                 sm_index := removeBySortedNonceKey (nonce_ops B) (rt_order E 12) removedTxs (sm_index list),
                 sm_items := fold (\<lambda>tx. gdel (tx_nonce tx)) txs (sm_items list)\<rparr>
           in st\<lparr>allTxs := gset account list1 (allTxs st),
                 priorityIndex := removeByTimeoutKey (time_ops B) (rt_order E 13) removedTxs (priorityIndex st),
                 parkingLotIndex := removeByOrderedQueueKey (queue_ops B) (rt_order E 14) removedTxs
                   (parkingLotIndex st),
                 ttlIndex := tlm_removeByTtlKey B (rt_order E 15) removedTxs (ttlIndex st),
                 removeTimeoutIndex := tam_removeByTtlKey B (rt_order E 16) removedTxs
                   (removeTimeoutIndex st)\<rparr>))"

definition RemoveAliveTimeoutTxs ::
    "('t, 'i, 'n) btrees \<Rightarrow> 'a env_scheme \<Rightarrow> int \<Rightarrow> ('t, 'i, 'n) mempool \<Rightarrow> u64 \<times> ('t, 'i, 'n) mempool" where
  "RemoveAliveTimeoutTxs B E removeDuration mpi =
     (let st = txStore mpi;
          (removedTxs, removeCnt, hashes) = remove_iter B st (rt_now E) removeDuration
            (bt_Ascend (time_ops B) (tam_index (removeTimeoutIndex st))) [] 0 (txHashMap st);
          st1 = fold (remove_one B E removedTxs) (go_range (rt_order E 11) removedTxs)
            (st\<lparr>txHashMap := hashes\<rparr>)
      in (removeCnt, mpi\<lparr>txStore := st1\<rparr>))"

section \<open>Queries\<close>

definition HasPendingRequest :: "('t, 'i, 'n) mempool \<Rightarrow> bool" where
  "HasPendingRequest mpi \<longleftrightarrow> priorityNonBatchSize (txStore mpi) > 0"

definition GetPendingNonceByAccount ::
    "'a env_scheme \<Rightarrow> string \<Rightarrow> ('t, 'i, 'n) mempool \<Rightarrow> u64 \<times> ('t, 'i, 'n) mempool" where
  "GetPendingNonceByAccount E account mpi =
     (let (nonce, nc) = getPendingNonce E account (nonceCache (txStore mpi))
      in (nonce, mpi\<lparr>txStore := (txStore mpi)\<lparr>nonceCache := nc\<rparr>\<rparr>))"

definition IsPoolFull :: "('t, 'i, 'n) mempool \<Rightarrow> bool" where
  "IsPoolFull mpi \<longleftrightarrow> of_nat (length (txHashMap (txStore mpi))) \<ge> poolSize mpi"

definition SetBatchSeqNo :: "u64 \<Rightarrow> ('t, 'i, 'n) mempool \<Rightarrow> ('t, 'i, 'n) mempool" where
  "SetBatchSeqNo batchSeq mpi = mpi\<lparr>batchSeqNo := batchSeq\<rparr>"

definition GetPendingTransactions :: "int \<Rightarrow> ('t, 'i, 'n) mempool \<Rightarrow> transaction list" where
  "GetPendingTransactions maxNum mpi = []"

definition GetTransaction :: "string \<Rightarrow> ('t, 'i, 'n) mempool \<Rightarrow> transaction option" where
  "GetTransaction hash mpi =
     (case gget (txHashMap (txStore mpi)) hash of
        None \<Rightarrow> None
      | Some key \<Rightarrow>
          (case gget (allTxs (txStore mpi)) (oik_account key) of
             None \<Rightarrow> None
           | Some txMap \<Rightarrow>
               (case gget (sm_items txMap) (oik_nonce key) of
                  None \<Rightarrow> None
                | Some item \<Rightarrow> Some (item_tx item))))"

end
