(* ===== verification/Mempool_Store_Lemmas.thy ===== *)
theory Mempool_Store_Lemmas
  imports Mempool_Store
begin

text \<open>
  What the operations of the pool's store guarantee: the two time-ordered maps implement one
  interface, \<^verbatim>\<open>filterReady\<close> cuts the nonces of an account at the first gap, \<^verbatim>\<open>forward\<close> removes the
  nonces below a bound, and the nonce cache behaves as a pair of maps.
\<close>

section \<open>The time-ordered maps\<close>

text \<open>
  The interface the pool relies on: a map from an account and a nonce to a time, with an invariant
  that the insertions and removals keep.
\<close>

locale timed_index =
  fixes ok :: bool
    and empty :: 'm
    and insertOrUpdate :: "string \<Rightarrow> u64 \<Rightarrow> int \<Rightarrow> 'm \<Rightarrow> 'm"
    and remove :: "(string list \<Rightarrow> string list) \<Rightarrow> (string, transaction list) gomap \<Rightarrow> 'm \<Rightarrow> 'm"
    and times :: "'m \<Rightarrow> string \<times> u64 \<Rightarrow> int option"
    and inv :: "'m \<Rightarrow> bool"
  assumes inv_empty: "ok \<Longrightarrow> inv empty"
    and times_empty: "times empty = Map.empty"
    and inv_insert: "inv m \<Longrightarrow> inv (insertOrUpdate a n t m)"
    and times_insert: "times (insertOrUpdate a n t m) = (times m)((a, n) \<mapsto> t)"
    and inv_remove: "order_ok ord \<Longrightarrow> inv m \<Longrightarrow> inv (remove ord txs m)"
    and times_remove: "order_ok ord \<Longrightarrow>
      times (remove ord txs m) = times m |` (- (\<lambda>(a, tx). (a, tx_nonce tx)) ` txs_pairs txs)"
begin

lemma dom_insert: "dom (times (insertOrUpdate a n t m)) = insert (a, n) (dom (times m))"
  by (simp add: times_insert)

lemma dom_remove: "order_ok ord \<Longrightarrow>
    dom (times (remove ord txs m)) = dom (times m) - (\<lambda>(a, tx). (a, tx_nonce tx)) ` txs_pairs txs"
  by (auto simp: times_remove)

lemma insert_same: "times (insertOrUpdate a n t (insertOrUpdate a n t' m)) = times (insertOrUpdate a n t m)"
  by (simp add: times_insert)

end

text \<open>The keys of an index that lists the entries of such a map.\<close>

definition timed_keys :: "(string \<times> u64 \<Rightarrow> int option) \<Rightarrow> orderedTimeoutKey set" where
  "timed_keys f = {k. f (otk_account k, otk_nonce k) = Some (otk_timestamp k)}"

lemma timed_keys_new:
  "f (a, n) = None \<Longrightarrow> insert (OrderedTimeoutKey a n t) (timed_keys f) = timed_keys (f((a, n) \<mapsto> t))"
  by (auto simp: timed_keys_def intro: orderedTimeoutKey.expand)

lemma timed_keys_update:
  "f (a, n) = Some t0 \<Longrightarrow>
    insert (OrderedTimeoutKey a n t) (timed_keys f - {OrderedTimeoutKey a n t0}) = timed_keys (f((a, n) \<mapsto> t))"
  by (auto simp: timed_keys_def intro: orderedTimeoutKey.expand)

lemma timed_keys_delete:
  "f (a, n) = Some t \<Longrightarrow> timed_keys f - {OrderedTimeoutKey a n t} = timed_keys (f((a, n) := None))"
  by (auto simp: timed_keys_def intro: orderedTimeoutKey.expand)

definition tlm_times :: "'t txLiveTimeMap \<Rightarrow> string \<times> u64 \<Rightarrow> int option" where
  "tlm_times m = (\<lambda>(a, n). gget (tlm_items m) (makeAccountNonceKey a n))"

definition tlm_inv :: "('t, 'i, 'n) btrees \<Rightarrow> 't txLiveTimeMap \<Rightarrow> bool" where
  "tlm_inv B m \<longleftrightarrow> btrees_ok B \<and> bt_set (time_ops B) (tlm_index m) = timed_keys (tlm_times m)"

definition tam_times :: "'t txArrivedTimeMap \<Rightarrow> string \<times> u64 \<Rightarrow> int option" where
  "tam_times m = (\<lambda>(a, n). gget (tam_items m) (makeAccountNonceKey a n))"

definition tam_inv :: "('t, 'i, 'n) btrees \<Rightarrow> 't txArrivedTimeMap \<Rightarrow> bool" where
  "tam_inv B m \<longleftrightarrow> btrees_ok B \<and> bt_set (time_ops B) (tam_index m) = timed_keys (tam_times m)"

lemma tlm_insertOrUpdate_times:
  "tlm_times (tlm_insertOrUpdateByTtlKey B a n t m) = (tlm_times m)((a, n) \<mapsto> t)"
  by (simp add: fun_eq_iff tlm_times_def tlm_insertOrUpdateByTtlKey_def tlm_insertByTtlKey_def Let_def
      split: option.split)

lemma tlm_insertOrUpdate_inv:
  assumes "tlm_inv B m" shows "tlm_inv B (tlm_insertOrUpdateByTtlKey B a n t m)"
proof -
  have ok: "btree_ok (time_ops B)" using assms by (simp add: tlm_inv_def btrees_ok_def)
  show ?thesis
  proof (cases "tlm_times m (a, n)")
    case None
    with assms timed_keys_new[of "tlm_times m" a n t] show ?thesis
      by (simp add: tlm_inv_def tlm_insertOrUpdate_times)
        (simp add: tlm_insertOrUpdateByTtlKey_def tlm_insertByTtlKey_def tlm_times_def btree_okD[OF ok])
  next
    case (Some t')
    with assms timed_keys_update[of "tlm_times m" a n t' t] show ?thesis
      by (simp add: tlm_inv_def tlm_insertOrUpdate_times)
        (simp add: tlm_insertOrUpdateByTtlKey_def tlm_insertByTtlKey_def tlm_times_def btree_okD[OF ok])
  qed
qed

lemma tlm_removeOne_times: "tlm_times (tlm_removeOne B a tx m) = (tlm_times m)((a, tx_nonce tx) := None)"
  by (simp add: fun_eq_iff tlm_times_def tlm_removeOne_def split: option.split)

lemma tlm_removeOne_inv:
  assumes "tlm_inv B m" shows "tlm_inv B (tlm_removeOne B a tx m)"
proof (cases "tlm_times m (a, tx_nonce tx)")
  case None
  with assms show ?thesis by (simp add: tlm_removeOne_def tlm_times_def)
next
  case (Some t)
  have ok: "btree_ok (time_ops B)" using assms by (simp add: tlm_inv_def btrees_ok_def)
  from Some assms timed_keys_delete[of "tlm_times m" a "tx_nonce tx" t] show ?thesis
    by (simp add: tlm_inv_def tlm_removeOne_times)
      (simp add: tlm_removeOne_def tlm_times_def btree_okD[OF ok])
qed

lemma tam_insertOrUpdate_times:
  "tam_times (tam_insertOrUpdateByTtlKey B a n t m) = (tam_times m)((a, n) \<mapsto> t)"
  by (simp add: fun_eq_iff tam_times_def tam_insertOrUpdateByTtlKey_def tam_insertByTtlKey_def Let_def
      split: option.split)

lemma tam_insertOrUpdate_inv:
  assumes "tam_inv B m" shows "tam_inv B (tam_insertOrUpdateByTtlKey B a n t m)"
proof -
  have ok: "btree_ok (time_ops B)" using assms by (simp add: tam_inv_def btrees_ok_def)
  show ?thesis
  proof (cases "tam_times m (a, n)")
    case None
    with assms timed_keys_new[of "tam_times m" a n t] show ?thesis
      by (simp add: tam_inv_def tam_insertOrUpdate_times)
        (simp add: tam_insertOrUpdateByTtlKey_def tam_insertByTtlKey_def tam_times_def btree_okD[OF ok])
  next
    case (Some t')
    with assms timed_keys_update[of "tam_times m" a n t' t] show ?thesis
      by (simp add: tam_inv_def tam_insertOrUpdate_times)
        (simp add: tam_insertOrUpdateByTtlKey_def tam_insertByTtlKey_def tam_times_def btree_okD[OF ok])
  qed
qed

lemma tam_removeOne_times: "tam_times (tam_removeOne B a tx m) = (tam_times m)((a, tx_nonce tx) := None)"
  by (simp add: fun_eq_iff tam_times_def tam_removeOne_def split: option.split)

lemma tam_removeOne_inv:
  assumes "tam_inv B m" shows "tam_inv B (tam_removeOne B a tx m)"
proof (cases "tam_times m (a, tx_nonce tx)")
  case None
  with assms show ?thesis by (simp add: tam_removeOne_def tam_times_def)
next
  case (Some t)
  have ok: "btree_ok (time_ops B)" using assms by (simp add: tam_inv_def btrees_ok_def)
  from Some assms timed_keys_delete[of "tam_times m" a "tx_nonce tx" t] show ?thesis
    by (simp add: tam_inv_def tam_removeOne_times)
      (simp add: tam_removeOne_def tam_times_def btree_okD[OF ok])
qed

text \<open>A nested loop over a map of transactions is one loop over the pairs.\<close>

lemma fold_pairs_concat:
  "fold (\<lambda>(a, l). fold (f a) l) xs m = fold (\<lambda>(a, tx). f a tx) (concat (map (\<lambda>(a, l). map (Pair a) l) xs)) m"
  by (induction xs arbitrary: m) (auto simp: fold_map comp_def)

lemma set_pairs_range:
  "order_ok ord \<Longrightarrow> set (concat (map (\<lambda>(a, l). map (Pair a) l) (go_range ord txs))) = txs_pairs txs"
  using set_concat_range[of ord Pair txs] by simp

lemma fold_clear_times:
  assumes "\<And>a tx m. T (f a tx m) = (T m)((a, tx_nonce tx) := None)"
  shows "T (fold (\<lambda>(a, tx). f a tx) ps m) = T m |` (- (\<lambda>(a, tx). (a, tx_nonce tx)) ` set ps)"
  by (induction ps arbitrary: m) (auto simp: assms restrict_map_def fun_eq_iff)

lemma tlm_remove_times:
  "order_ok ord \<Longrightarrow> tlm_times (tlm_removeByTtlKey B ord txs m)
     = tlm_times m |` (- (\<lambda>(a, tx). (a, tx_nonce tx)) ` txs_pairs txs)"
  unfolding tlm_removeByTtlKey_def fold_pairs_concat
  by (subst fold_clear_times[where T = tlm_times, OF tlm_removeOne_times])
    (simp only: set_pairs_range)

lemma tam_remove_times:
  "order_ok ord \<Longrightarrow> tam_times (tam_removeByTtlKey B ord txs m)
     = tam_times m |` (- (\<lambda>(a, tx). (a, tx_nonce tx)) ` txs_pairs txs)"
  unfolding tam_removeByTtlKey_def fold_pairs_concat
  by (subst fold_clear_times[where T = tam_times, OF tam_removeOne_times])
    (simp only: set_pairs_range)

lemma tlm_remove_inv: "tlm_inv B m \<Longrightarrow> tlm_inv B (tlm_removeByTtlKey B ord txs m)"
  unfolding tlm_removeByTtlKey_def fold_pairs_concat
  by (rule fold_invariant[where P = "tlm_inv B"]) (auto intro: tlm_removeOne_inv)

lemma tam_remove_inv: "tam_inv B m \<Longrightarrow> tam_inv B (tam_removeByTtlKey B ord txs m)"
  unfolding tam_removeByTtlKey_def fold_pairs_concat
  by (rule fold_invariant[where P = "tam_inv B"]) (auto intro: tam_removeOne_inv)

interpretation live: timed_index "btrees_ok B" "newTxLiveTimeMap B" "tlm_insertOrUpdateByTtlKey B"
    "tlm_removeByTtlKey B" tlm_times "tlm_inv B" for B :: "('t, 'i, 'n) btrees"
proof unfold_locales
  show "tlm_times (newTxLiveTimeMap B) = Map.empty"
    by (simp add: newTxLiveTimeMap_def tlm_times_def fun_eq_iff)
  then show "btrees_ok B \<Longrightarrow> tlm_inv B (newTxLiveTimeMap B)"
    by (simp add: tlm_inv_def timed_keys_def) (simp add: newTxLiveTimeMap_def btrees_ok_def btree_okD)
qed (simp_all add: tlm_insertOrUpdate_inv tlm_remove_inv tlm_insertOrUpdate_times tlm_remove_times)

interpretation arrived: timed_index "btrees_ok B" "newTxArrivedTimeMap B" "tam_insertOrUpdateByTtlKey B"
    "tam_removeByTtlKey B" tam_times "tam_inv B" for B :: "('t, 'i, 'n) btrees"
proof unfold_locales
  show "tam_times (newTxArrivedTimeMap B) = Map.empty"
    by (simp add: newTxArrivedTimeMap_def tam_times_def fun_eq_iff)
  then show "btrees_ok B \<Longrightarrow> tam_inv B (newTxArrivedTimeMap B)"
    by (simp add: tam_inv_def timed_keys_def) (simp add: newTxArrivedTimeMap_def btrees_ok_def btree_okD)
qed (simp_all add: tam_insertOrUpdate_inv tam_remove_inv tam_insertOrUpdate_times tam_remove_times)

text \<open>The live map can also move an item of its index to a new time.\<close>

lemma tlm_update_times:
  "tlm_times (tlm_updateByTtlKey B k t m) = (tlm_times m)((otk_account k, otk_nonce k) \<mapsto> t)"
  by (simp add: fun_eq_iff tlm_updateByTtlKey_def tlm_insertByTtlKey_def tlm_times_def Let_def)

lemma tlm_update_inv:
  assumes "tlm_inv B m" "k \<in> bt_set (time_ops B) (tlm_index m)"
  shows "tlm_inv B (tlm_updateByTtlKey B k t m)"
proof -
  have ok: "btree_ok (time_ops B)" using assms by (simp add: tlm_inv_def btrees_ok_def)
  have t0: "tlm_times m (otk_account k, otk_nonce k) = Some (otk_timestamp k)"
    using assms by (simp add: tlm_inv_def timed_keys_def)
  from assms(1) timed_keys_update[of "tlm_times m", OF t0, of t] show ?thesis
    by (simp add: tlm_inv_def tlm_update_times)
      (simp add: tlm_updateByTtlKey_def tlm_insertByTtlKey_def btree_okD[OF ok])
qed

section \<open>The ready transactions of an account\<close>

text \<open>
  What keeps the reads of an account's items from failing: every nonce of the index has an item,
  and the items carry the account and nonce they are stored under.
\<close>

definition sm_ok :: "('t, 'i, 'n) btrees \<Rightarrow> string \<Rightarrow> 'n txSortedMap \<Rightarrow> bool" where
  "sm_ok B a m \<longleftrightarrow>
     (\<forall>k \<in> bt_set (nonce_ops B) (sm_index m). gget (sm_items m) (snk_nonce k) \<noteq> None) \<and>
     (\<forall>n it. gget (sm_items m) n = Some it \<longrightarrow> item_account it = a \<and> tx_nonce (item_tx it) = n)"

definition tx_at :: "(u64, txItem) gomap \<Rightarrow> sortedNonceKey \<Rightarrow> transaction" where
  "tx_at its k = item_tx (the (gget its (snk_nonce k)))"

text \<open>The keys of a list that follow each other without a gap from a nonce on, and where they stop.\<close>

fun run :: "u64 \<Rightarrow> sortedNonceKey list \<Rightarrow> sortedNonceKey list" where
  "run d [] = []"
| "run d (k # ks) = (if snk_nonce k = d then k # run (d + 1) ks else [])"

fun run_end :: "u64 \<Rightarrow> sortedNonceKey list \<Rightarrow> u64" where
  "run_end d [] = d"
| "run_end d (k # ks) = (if snk_nonce k = d then run_end (d + 1) ks else d)"

lemma run_end_length: "run_end d ks = d + of_nat (length (run d ks))"
  by (induction ks arbitrary: d) auto

lemma filterReady_iter_gap:
  "(\<forall>k \<in> set ks. snk_nonce k \<noteq> d \<and> gget its (snk_nonce k) \<noteq> None) \<Longrightarrow>
    filterReady_iter its ks d r n = Some (r, n @ map (tx_at its) ks, d)"
  by (induction ks arbitrary: n) (auto simp: tx_at_def)

lemma word_less_inc: "n \<noteq> -1 \<Longrightarrow> n < n + 1" for n :: u64
  by (simp add: word_less_nat_alt unatSuc add.commute eq_neg_iff_add_eq_0)

lemma snk_less [simp]: "k < k' \<longleftrightarrow> snk_nonce k < snk_nonce k'" for k k' :: sortedNonceKey
  by (simp add: less_sortedNonceKey_def snk_Less_def)

lemma filterReady_iter_run:
  assumes "sorted_wrt (<) ks" "\<forall>k \<in> set ks. d \<le> snk_nonce k \<and> gget its (snk_nonce k) \<noteq> None"
  shows "filterReady_iter its ks d r n =
    Some (r @ map (tx_at its) (run d ks), n @ map (tx_at its) (drop (length (run d ks)) ks), run_end d ks)"
  using assms
proof (induction ks arbitrary: d r n)
  case Nil
  then show ?case by simp
next
  case (Cons k ks)
  show ?case
  proof (cases "snk_nonce k = d")
    case True
    have "\<forall>k' \<in> set ks. d + 1 \<le> snk_nonce k'"
      using Cons.prems True by (auto intro: inc_le)
    with Cons.prems have "filterReady_iter its ks (d + 1) (r @ [tx_at its k]) n = Some
        ((r @ [tx_at its k]) @ map (tx_at its) (run (d + 1) ks),
          n @ map (tx_at its) (drop (length (run (d + 1) ks)) ks), run_end (d + 1) ks)"
      by (intro Cons.IH) auto
    with Cons.prems True show ?thesis by (auto simp: tx_at_def)
  next
    case False
    with Cons.prems have "\<forall>k' \<in> set (k # ks). snk_nonce k' \<noteq> d \<and> gget its (snk_nonce k') \<noteq> None"
      by (fastforce simp: dest: order_le_less_trans)
    from filterReady_iter_gap[OF this] False show ?thesis by simp
  qed
qed

text \<open>Below the largest nonce the run is exactly the interval up to its end, and it is maximal.\<close>

lemma run_interval:
  assumes "sorted_wrt (<) ks" "\<forall>k \<in> set ks. d \<le> snk_nonce k \<and> snk_nonce k \<noteq> -1"
  shows "d \<le> run_end d ks"
    and "set (run d ks) = {k. d \<le> snk_nonce k \<and> snk_nonce k < run_end d ks}"
    and "SortedNonceKey (run_end d ks) \<notin> set ks"
    and "set (run d ks) \<subseteq> set ks"
    and "set (drop (length (run d ks)) ks) = {k \<in> set ks. run_end d ks < snk_nonce k}"
  using assms
proof (induction ks arbitrary: d)
  case Nil
  {
    case 1 then show ?case by simp
  next
    case 2 then show ?case by auto
  next
    case 3 then show ?case by simp
  next
    case 4 then show ?case by simp
  next
    case 5 then show ?case by simp
  }
next
  case (Cons k ks)
  have prem: "sorted_wrt (<) ks" "\<forall>k' \<in> set ks. d + 1 \<le> snk_nonce k' \<and> snk_nonce k' \<noteq> -1"
    "d < d + 1" if "snk_nonce k = d" "sorted_wrt (<) (k # ks)"
    "\<forall>k' \<in> set (k # ks). d \<le> snk_nonce k' \<and> snk_nonce k' \<noteq> -1" for d
    using that by (auto intro: inc_le word_less_inc)
  have split: "d \<le> n \<longleftrightarrow> n = d \<or> d + 1 \<le> n" if "d < d + 1" for d n :: u64
    using that inc_le[of d n] by (auto simp: order.order_iff_strict)
  {
    case 1
    show ?case
    proof (cases "snk_nonce k = d")
      case True
      note p = prem[OF True 1]
      from Cons.IH(1)[OF p(1,2)] p(3) have "d \<le> run_end (d + 1) ks" by simp
      with True show ?thesis by simp
    qed simp
  next
    case 2
    show ?case
    proof (cases "snk_nonce k = d")
      case True
      note p = prem[OF True 2]
      have "set (run (d + 1) ks) = {k. d + 1 \<le> snk_nonce k \<and> snk_nonce k < run_end (d + 1) ks}"
        by (rule Cons.IH(2)[OF p(1,2)])
      moreover have "d < run_end (d + 1) ks"
        using Cons.IH(1)[OF p(1,2)] p(3) by simp
      ultimately show ?thesis
        using True split[OF p(3)] by (auto intro: sortedNonceKey.expand)
    qed auto
  next
    case 3
    show ?case
    proof (cases "snk_nonce k = d")
      case True
      note p = prem[OF True 3]
      have "d < run_end (d + 1) ks"
        using Cons.IH(1)[OF p(1,2)] p(3) by simp
      with Cons.IH(3)[OF p(1,2)] True show ?thesis by (cases k) auto
    next
      case False
      with 3 have "d < snk_nonce k'" if "k' \<in> set (k # ks)" for k'
        using that by (auto intro: order.strict_trans1 simp: order.strict_iff_order)
      from this[of "SortedNonceKey d"] False show ?thesis by auto
    qed
  next
    case 4
    show ?case
    proof (cases "snk_nonce k = d")
      case True
      with Cons.IH(4)[OF prem(1,2)[OF True 4]] show ?thesis by auto
    qed auto
  next
    case 5
    show ?case
    proof (cases "snk_nonce k = d")
      case True
      note p = prem[OF True 5]
      have "d < run_end (d + 1) ks"
        using Cons.IH(1)[OF p(1,2)] p(3) by simp
      then have "{k' \<in> set (k # ks). run_end (d + 1) ks < snk_nonce k'}
          = {k' \<in> set ks. run_end (d + 1) ks < snk_nonce k'}"
        using True by auto
      then show ?thesis by (simp add: True Cons.IH(5)[OF p(1,2)])
    next
      case False
      with 5 show ?thesis by (fastforce dest: order_le_less_trans)
    qed
  }
qed

lemma snk_nonce_make [simp]: "snk_nonce (makeSortedNonceKey n) = n"
  by (simp add: makeSortedNonceKey_def)

text \<open>
  \<^verbatim>\<open>filterReady\<close> never fails on such a map. The ready transactions are those with the nonces from the
  demanded one up to the first gap of the index; the other transactions above the gap are returned
  as not ready.
\<close>

lemma filterReady_run:
  fixes d :: u64
  assumes "btrees_ok B" "sm_ok B a m"
  defines "ks \<equiv> filter (\<lambda>k. d \<le> snk_nonce k) (bt_Ascend (nonce_ops B) (sm_index m))"
  shows "filterReady B m d = Some (map (tx_at (sm_items m)) (run d ks),
      map (tx_at (sm_items m)) (drop (length (run d ks)) ks), run_end d ks)"
    and "sorted_wrt (<) ks"
proof -
  have ok: "btree_ok (nonce_ops B)" using assms(1) by (simp add: btrees_ok_def)
  show sorted: "sorted_wrt (<) ks"
    unfolding ks_def by (intro sorted_wrt_filter btree_okD(2)[OF ok])
  have set_ks: "set ks = {k \<in> bt_set (nonce_ops B) (sm_index m). d \<le> snk_nonce k}"
    by (auto simp: ks_def bt_set_def)
  have "bt_AscendGreaterOrEqual (nonce_ops B) (sm_index m) (makeSortedNonceKey d) = ks"
    by (simp add: ks_def btree_okD(7)[OF ok] not_less)
  moreover have "filterReady_iter (sm_items m) ks d [] [] = Some (map (tx_at (sm_items m)) (run d ks),
      map (tx_at (sm_items m)) (drop (length (run d ks)) ks), run_end d ks)"
    using filterReady_iter_run[OF sorted, of d "sm_items m" "[]" "[]"] assms(2)
    by (simp add: set_ks sm_ok_def)
  moreover have "ks = []" if "bt_Len (nonce_ops B) (sm_index m) = 0"
    using that by (simp add: ks_def btree_okD(6)[OF ok])
  ultimately show "filterReady B m d = Some (map (tx_at (sm_items m)) (run d ks),
      map (tx_at (sm_items m)) (drop (length (run d ks)) ks), run_end d ks)"
    by (auto simp: filterReady_def)
qed

lemma filterReady_spec:
  assumes "btrees_ok B" "sm_ok B a m" "\<forall>k \<in> bt_set (nonce_ops B) (sm_index m). snk_nonce k \<noteq> -1"
  obtains ready nonReady d' where
    "filterReady B m d = Some (ready, nonReady, d')" and "d \<le> d'"
    and "\<And>n. d \<le> n \<Longrightarrow> n < d' \<Longrightarrow> SortedNonceKey n \<in> bt_set (nonce_ops B) (sm_index m)"
    and "SortedNonceKey d' \<notin> bt_set (nonce_ops B) (sm_index m)"
    and "map tx_nonce ready = map (\<lambda>i. d + of_nat i) [0..<length ready]"
    and "d' = d + of_nat (length ready)"
    and "set ready = {item_tx it |n it. gget (sm_items m) n = Some it \<and> d \<le> n \<and> n < d'}"
    and "set nonReady = {item_tx it |n it. gget (sm_items m) n = Some it \<and> d' < n \<and>
           SortedNonceKey n \<in> bt_set (nonce_ops B) (sm_index m)}"
proof
  define ks where "ks = filter (\<lambda>k. d \<le> snk_nonce k) (bt_Ascend (nonce_ops B) (sm_index m))"
  let ?its = "sm_items m"
  note f = filterReady_run[OF assms(1,2), of d, folded ks_def]
  have set_ks: "set ks = {k \<in> bt_set (nonce_ops B) (sm_index m). d \<le> snk_nonce k}"
    by (auto simp: bt_set_def ks_def)
  have "\<forall>k \<in> set ks. d \<le> snk_nonce k \<and> snk_nonce k \<noteq> -1"
    using assms(3) by (auto simp: set_ks)
  note r = run_interval[OF f(2) this]
  show "filterReady B m d = Some (map (tx_at ?its) (run d ks),
      map (tx_at ?its) (drop (length (run d ks)) ks), run_end d ks)" by (rule f(1))
  show "d \<le> run_end d ks" by (rule r(1))
  show "SortedNonceKey n \<in> bt_set (nonce_ops B) (sm_index m)" if "d \<le> n" "n < run_end d ks" for n
  proof -
    have "SortedNonceKey n \<in> set (run d ks)" using that by (simp add: r(2))
    with r(4) show ?thesis by (auto simp: set_ks)
  qed
  show "SortedNonceKey (run_end d ks) \<notin> bt_set (nonce_ops B) (sm_index m)"
    using r(1,3) by (auto simp: set_ks)
  have nonce_at: "tx_nonce (tx_at ?its k) = snk_nonce k" if "k \<in> set ks" for k
    using that assms(2) by (auto simp: set_ks sm_ok_def tx_at_def)
  have "map snk_nonce (run d ks) = map (\<lambda>i. d + of_nat i) [0..<length (run d ks)]" for d ks
    by (induction ks arbitrary: d) (auto simp: map_upt_Suc add.assoc add.commute simp del: upt_Suc)
  moreover have "map (tx_nonce \<circ> tx_at ?its) (run d ks) = map snk_nonce (run d ks)"
    using r(4) nonce_at by auto
  ultimately show "map tx_nonce (map (tx_at ?its) (run d ks))
      = map (\<lambda>i. d + of_nat i) [0..<length (map (tx_at ?its) (run d ks))]" by simp
  show "run_end d ks = d + of_nat (length (map (tx_at ?its) (run d ks)))"
    by (simp add: run_end_length)
  have at: "k \<in> set ks \<Longrightarrow> \<exists>it. gget ?its (snk_nonce k) = Some it \<and> tx_at ?its k = item_tx it" for k
    using assms(2) by (auto simp: set_ks sm_ok_def tx_at_def)
  show "set (map (tx_at ?its) (run d ks))
      = {item_tx it |n it. gget ?its n = Some it \<and> d \<le> n \<and> n < run_end d ks}" (is "?L = ?R")
  proof
    show "?L \<subseteq> ?R"
    proof
      fix tx assume "tx \<in> ?L"
      then obtain k where k: "k \<in> set (run d ks)" "tx = tx_at ?its k" by auto
      then have "k \<in> set ks" "d \<le> snk_nonce k" "snk_nonce k < run_end d ks" using r(2,4) by auto
      with at[of k] k(2) show "tx \<in> ?R" by auto
    qed
    show "?R \<subseteq> ?L"
    proof
      fix tx assume "tx \<in> ?R"
      then obtain n it where n: "gget ?its n = Some it" "d \<le> n" "n < run_end d ks" "tx = item_tx it"
        by blast
      then have "SortedNonceKey n \<in> set (run d ks)" by (simp add: r(2))
      with n show "tx \<in> ?L" by (force simp: tx_at_def)
    qed
  qed
  show "set (map (tx_at ?its) (drop (length (run d ks)) ks)) = {item_tx it |n it. gget ?its n = Some it \<and>
      run_end d ks < n \<and> SortedNonceKey n \<in> bt_set (nonce_ops B) (sm_index m)}" (is "?L = ?R")
  proof
    show "?L \<subseteq> ?R"
    proof
      fix tx assume "tx \<in> ?L"
      then obtain k where k: "k \<in> set ks" "run_end d ks < snk_nonce k" "tx = tx_at ?its k"
        using r(5) by auto
      from at[OF k(1)] k show "tx \<in> ?R" by (cases k) (auto simp: set_ks)
    qed
    show "?R \<subseteq> ?L"
    proof
      fix tx assume "tx \<in> ?R"
      then obtain n it where n: "gget ?its n = Some it" "run_end d ks < n"
        "SortedNonceKey n \<in> bt_set (nonce_ops B) (sm_index m)" "tx = item_tx it" by blast
      with r(1) have "SortedNonceKey n \<in> set (drop (length (run d ks)) ks)"
        unfolding r(5) by (auto simp: set_ks)
      with n show "tx \<in> ?L" by (force simp: tx_at_def)
    qed
  qed
qed

section \<open>Removing the nonces below a bound\<close>

lemma txs_pairs_Nil [simp]: "txs_pairs [] = {}"
  by (simp add: txs_pairs_def)

text \<open>Appending to the list of an account, with an empty list for a new account.\<close>

lemma txs_pairs_append:
  "txs_pairs (gset a (gget0 [] (if gget m a = None then gset a [] m else m) a @ [tx])
      (if gget m a = None then gset a [] m else m)) = insert (a, tx) (txs_pairs m)"
  by (cases "gget m a") (auto simp: txs_pairs_def split: if_splits)

lemma forward_iter_spec:
  assumes "distinct ks" "\<forall>k \<in> set ks. gget its (snk_nonce k) \<noteq> None"
    and "\<forall>n it. gget its n = Some it \<longrightarrow> item_account it = a"
  shows "\<exists>its' rem'. forward_iter ks its rem = Some (its', rem') \<and>
    (\<forall>n. gget its' n = (if SortedNonceKey n \<in> set ks then None else gget its n)) \<and>
    txs_pairs rem' = txs_pairs rem \<union> (\<lambda>k. (a, tx_at its k)) ` set ks"
  using assms
proof (induction ks arbitrary: its rem)
  case Nil
  then show ?case by auto
next
  case (Cons k ks)
  obtain it where it: "gget its (snk_nonce k) = Some it" using Cons.prems(2) by auto
  then have a: "item_account it = a" using Cons.prems(3) by simp
  let ?its = "gdel (snk_nonce k) its"
  let ?rem = "gset a (gget0 [] (if gget rem a = None then gset a [] rem else rem) a @ [item_tx it])
      (if gget rem a = None then gset a [] rem else rem)"
  have neq: "snk_nonce k' \<noteq> snk_nonce k" if "k' \<in> set ks" for k'
    using that Cons.prems(1) by (auto dest: sortedNonceKey.expand)
  have "\<exists>its' rem'. forward_iter ks ?its ?rem = Some (its', rem') \<and>
    (\<forall>n. gget its' n = (if SortedNonceKey n \<in> set ks then None else gget ?its n)) \<and>
    txs_pairs rem' = txs_pairs ?rem \<union> (\<lambda>k. (a, tx_at ?its k)) ` set ks"
    using Cons.prems neq by (intro Cons.IH) auto
  then obtain its' rem' where r: "forward_iter ks ?its ?rem = Some (its', rem')"
    "\<forall>n. gget its' n = (if SortedNonceKey n \<in> set ks then None else gget ?its n)"
    "txs_pairs rem' = txs_pairs ?rem \<union> (\<lambda>k. (a, tx_at ?its k)) ` set ks" by blast
  have "(\<lambda>k. (a, tx_at ?its k)) ` set ks = (\<lambda>k. (a, tx_at its k)) ` set ks"
    using neq by (intro image_cong) (simp_all add: tx_at_def)
  moreover have "tx_at its k = item_tx it" using it by (simp add: tx_at_def)
  ultimately have "txs_pairs rem' = txs_pairs rem \<union> (\<lambda>k. (a, tx_at its k)) ` set (k # ks)"
    unfolding r(3) txs_pairs_append by simp
  moreover have "gget its' n = (if SortedNonceKey n \<in> set (k # ks) then None else gget its n)" for n
    using r(2) by (cases k) auto
  ultimately show ?case
    using r(1) it a by (auto simp: Let_def)
qed

lemma forward_spec:
  assumes "btrees_ok B" "sm_ok B a m"
  obtains its' removed where
    "forward B m c = Some (m\<lparr>sm_items := its'\<rparr>, removed)"
    and "\<And>n. gget its' n = (if SortedNonceKey n \<in> bt_set (nonce_ops B) (sm_index m) \<and> n < c then None
           else gget (sm_items m) n)"
    and "txs_pairs removed = {(a, item_tx it) |n it. gget (sm_items m) n = Some it \<and> n < c \<and>
           SortedNonceKey n \<in> bt_set (nonce_ops B) (sm_index m)}"
proof -
  have ok: "btree_ok (nonce_ops B)" using assms(1) by (simp add: btrees_ok_def)
  define ks where "ks = filter (\<lambda>k. snk_nonce k < c) (bt_Ascend (nonce_ops B) (sm_index m))"
  have lt: "bt_AscendLessThan (nonce_ops B) (sm_index m) (makeSortedNonceKey c) = ks"
    by (simp add: ks_def btree_okD(8)[OF ok])
  have set_ks: "set ks = {k \<in> bt_set (nonce_ops B) (sm_index m). snk_nonce k < c}"
    by (auto simp: ks_def bt_set_def)
  have "distinct ks" by (simp add: ks_def btree_ok_distinct[OF ok])
  moreover have present: "\<forall>k \<in> set ks. gget (sm_items m) (snk_nonce k) \<noteq> None"
    and "\<forall>n it. gget (sm_items m) n = Some it \<longrightarrow> item_account it = a"
    using assms(2) by (auto simp: set_ks sm_ok_def)
  ultimately obtain its' rem' where f: "forward_iter ks (sm_items m) [] = Some (its', rem')"
    "\<forall>n. gget its' n = (if SortedNonceKey n \<in> set ks then None else gget (sm_items m) n)"
    "txs_pairs rem' = (\<lambda>k. (a, tx_at (sm_items m) k)) ` set ks"
    using forward_iter_spec[of ks "sm_items m" a "[]"] by auto
  have "txs_pairs rem' = {(a, item_tx it) |n it. gget (sm_items m) n = Some it \<and> n < c \<and>
           SortedNonceKey n \<in> bt_set (nonce_ops B) (sm_index m)}" (is "_ = ?R")
  proof
    show "txs_pairs rem' \<subseteq> ?R"
    proof
      fix p assume "p \<in> txs_pairs rem'"
      then obtain k where k: "p = (a, tx_at (sm_items m) k)" "k \<in> set ks" by (auto simp: f(3))
      with present obtain it where "gget (sm_items m) (snk_nonce k) = Some it" by auto
      with k show "p \<in> ?R" by (cases k) (auto simp: set_ks tx_at_def)
    qed
    show "?R \<subseteq> txs_pairs rem'"
    proof
      fix p assume "p \<in> ?R"
      then obtain n it where "p = (a, item_tx it)" "gget (sm_items m) n = Some it"
        "SortedNonceKey n \<in> set ks" by (auto simp: set_ks)
      then show "p \<in> txs_pairs rem'" by (force simp: f(3) tx_at_def)
    qed
  qed
  with f lt show thesis
    by (intro that[of its' rem']) (auto simp: forward_def set_ks)
qed

section \<open>The nonce cache\<close>

lemma getCommitNonce_simps [simp]:
  "pendingNonces (snd (getCommitNonce E a nc)) = pendingNonces nc"
  "gget (commitNonces (snd (getCommitNonce E a nc))) a = Some (fst (getCommitNonce E a nc))"
  "gget (commitNonces nc) b = Some n \<Longrightarrow> gget (commitNonces (snd (getCommitNonce E a nc))) b = Some n"
  "gget (commitNonces nc) a = Some n \<Longrightarrow> getCommitNonce E a nc = (n, nc)"
  by (auto simp: getCommitNonce_def Let_def split: option.splits)

lemma getCommitNonce_fst:
  "fst (getCommitNonce E a nc) = (case gget (commitNonces nc) a of None \<Rightarrow> getAccountNonce E a | Some n \<Rightarrow> n)"
  by (auto simp: getCommitNonce_def Let_def split: option.splits)

lemma getPendingNonce_simps [simp]:
  "pendingNonces (snd (getPendingNonce E a nc)) = pendingNonces nc"
  "gget (pendingNonces nc) a = Some n \<Longrightarrow> getPendingNonce E a nc = (n, nc)"
  by (auto simp: getPendingNonce_def split: option.splits)

text \<open>A lookup may fill the commit cache; it changes no value that a later lookup in the same call returns.\<close>

lemma getCommitNonce_stable [simp]:
  "fst (getCommitNonce E b (snd (getCommitNonce E a nc))) = fst (getCommitNonce E b nc)"
  by (auto simp: getCommitNonce_def Let_def split: option.splits)

lemma getPendingNonce_stable [simp]:
  "fst (getPendingNonce E b (snd (getPendingNonce E a nc))) = fst (getPendingNonce E b nc)"
  "fst (getCommitNonce E b (snd (getPendingNonce E a nc))) = fst (getCommitNonce E b nc)"
  by (auto simp: getPendingNonce_def getCommitNonce_def Let_def split: option.splits)

lemma fold_setPending:
  "\<forall>(a, n) \<in> set xs. gget m a = Some n \<Longrightarrow>
    commitNonces (fold (\<lambda>(a, n). setPendingNonce a n) xs nc) = commitNonces nc \<and>
    gget (pendingNonces (fold (\<lambda>(a, n). setPendingNonce a n) xs nc)) b
      = (if b \<in> fst ` set xs then gget m b else gget (pendingNonces nc) b)"
  by (induction xs arbitrary: nc) (auto simp: setPendingNonce_def)

lemma fold_setCommit:
  "\<forall>(a, n) \<in> set xs. gget m a = Some n \<Longrightarrow>
    pendingNonces (fold (\<lambda>(a, n). setCommitNonce a n) xs nc) = pendingNonces nc \<and>
    gget (commitNonces (fold (\<lambda>(a, n). setCommitNonce a n) xs nc)) b
      = (if b \<in> fst ` set xs then gget m b else gget (commitNonces nc) b)"
  by (induction xs arbitrary: nc) (auto simp: setCommitNonce_def)

lemma fst_go_range: "order_ok ord \<Longrightarrow> fst ` set (go_range ord m) = {k. gget m k \<noteq> None}"
  by (auto simp: set_go_range image_def)

lemma updatePendingNonce_simps:
  assumes "order_ok ord"
  shows "commitNonces (updatePendingNonce ord m nc) = commitNonces nc" (is ?A)
    and "gget (pendingNonces (updatePendingNonce ord m nc)) b
      = (case gget m b of None \<Rightarrow> gget (pendingNonces nc) b | Some n \<Rightarrow> Some n)" (is ?B)
proof -
  have "\<forall>(a, n) \<in> set (go_range ord m). gget m a = Some n"
    using set_go_range[OF assms, of m] by auto
  from fold_setPending[OF this, of nc b] show ?A ?B
    unfolding updatePendingNonce_def fst_go_range[OF assms] by (auto split: option.splits)
qed

lemma updateCommittedNonce_simps:
  assumes "order_ok ord"
  shows "pendingNonces (updateCommittedNonce ord m nc) = pendingNonces nc" (is ?A)
    and "gget (commitNonces (updateCommittedNonce ord m nc)) b
      = (case gget m b of None \<Rightarrow> gget (commitNonces nc) b | Some n \<Rightarrow> Some n)" (is ?B)
proof -
  have "\<forall>(a, n) \<in> set (go_range ord m). gget m a = Some n"
    using set_go_range[OF assms, of m] by auto
  from fold_setCommit[OF this, of nc b] show ?A ?B
    unfolding updateCommittedNonce_def fst_go_range[OF assms] by (auto split: option.splits)
qed

section \<open>Items of the store\<close>

definition item_of :: "('t, 'i, 'n) transactionStore \<Rightarrow> string \<Rightarrow> u64 \<Rightarrow> txItem option" where
  "item_of st a n = (case gget (allTxs st) a of None \<Rightarrow> None | Some l \<Rightarrow> gget (sm_items l) n)"

definition index_of :: "('t, 'i, 'n) btrees \<Rightarrow> ('t, 'i, 'n) transactionStore \<Rightarrow> string \<Rightarrow> u64 set" where
  "index_of B st a = (case gget (allTxs st) a of None \<Rightarrow> {}
     | Some l \<Rightarrow> snk_nonce ` bt_set (nonce_ops B) (sm_index l))"

lemma getTxByOrderKey_item: "getTxByOrderKey a n st = map_option item_tx (item_of st a n)"
  by (auto simp: getTxByOrderKey_def item_of_def split: option.splits)

lemma insertTx_frame [simp]:
  "nonceCache (insertTx B now loc a tx st) = nonceCache st"
  "parkingLotIndex (insertTx B now loc a tx st) = parkingLotIndex st"
  "priorityIndex (insertTx B now loc a tx st) = priorityIndex st"
  "batchedTxs (insertTx B now loc a tx st) = batchedTxs st"
  "priorityNonBatchSize (insertTx B now loc a tx st) = priorityNonBatchSize st"
  "txHashMap (insertTx B now loc a tx st) = gset (tx_hash tx) (OrderedIndexKey a (tx_nonce tx)) (txHashMap st)"
  "removeTimeoutIndex (insertTx B now loc a tx st)
     = tam_insertOrUpdateByTtlKey B a (tx_nonce tx) now (removeTimeoutIndex st)"
  "ttlIndex (insertTx B now loc a tx st)
     = (if loc then tlm_insertOrUpdateByTtlKey B a (tx_nonce tx) (tx_timestamp tx) (ttlIndex st) else ttlIndex st)"
  by (simp_all add: insertTx_def Let_def)

lemma insertTx_item:
  "item_of (insertTx B now loc a tx st) b n
    = (if b = a \<and> n = tx_nonce tx then Some \<lparr>item_account = a, item_tx = tx, item_local = loc\<rparr>
       else item_of st b n)"
  by (auto simp: insertTx_def item_of_def Let_def newTxSortedMap_def split: option.splits)

lemma insertTx_index:
  assumes "btrees_ok B"
  shows "index_of B (insertTx B now loc a tx st) b
    = (if b = a then insert (tx_nonce tx) (index_of B st a) else index_of B st b)"
  using assms
  by (auto simp: insertTx_def index_of_def Let_def newTxSortedMap_def btrees_ok_def makeSortedNonceKey_def
      split: option.splits)

lemma insertTx_dom: "gget (allTxs (insertTx B now loc a tx st)) b = None \<longleftrightarrow> b \<noteq> a \<and> gget (allTxs st) b = None"
  by (auto simp: insertTx_def Let_def)

end
