(* ===== verification/Mempool_Inv.thy ===== *)
theory Mempool_Inv
  imports Mempool Mempool_Store_Lemmas
begin

text \<open>
  The invariant of the transaction pool and its preservation by every operation. In words: the
  nonce index of an account only lists nonces that have an item; every entry of the live-time index
  has an item; the priority index holds exactly the items below the account's pending nonce, under
  their timestamps. Hence no operation dereferences a missing item.
\<close>

section \<open>The invariant\<close>

text \<open>
  \<open>eff\<close> is the pending nonce of an account and \<open>K\<close> the accounts whose pending nonce is recorded;
  \<open>D\<close> holds the accounts that are being changed by a call in progress.
\<close>

definition pool_inv ::
    "('t, 'i, 'n) btrees \<Rightarrow> (string \<Rightarrow> u64) \<Rightarrow> string set \<Rightarrow> string set \<Rightarrow>
     ('t, 'i, 'n) transactionStore \<Rightarrow> bool" where
  "pool_inv B eff K D st \<longleftrightarrow> btrees_ok B \<and>
     (\<forall>a l. gget (allTxs st) a = Some l \<longrightarrow> sm_ok B a l) \<and>
     tlm_inv B (ttlIndex st) \<and>
     (\<forall>a n. tlm_times (ttlIndex st) (a, n) \<noteq> None \<longrightarrow> item_of st a n \<noteq> None) \<and>
     tam_inv B (removeTimeoutIndex st) \<and>
     (\<forall>a n t. OrderedTimeoutKey a n t \<in> bt_set (time_ops B) (priorityIndex st) \<longrightarrow>
        (\<exists>it. item_of st a n = Some it \<and> tx_timestamp (item_tx it) = t) \<and> a \<in> K \<and> n < eff a) \<and>
     (\<forall>a n it. item_of st a n = Some it \<longrightarrow> n \<noteq> -1 \<and> a \<in> K \<union> D \<and>
        (n < eff a \<longrightarrow>
          OrderedTimeoutKey a n (tx_timestamp (item_tx it)) \<in> bt_set (time_ops B) (priorityIndex st)))"

definition store_inv :: "('t, 'i, 'n) btrees \<Rightarrow> ('t, 'i, 'n) transactionStore \<Rightarrow> bool" where
  "store_inv B st \<longleftrightarrow>
     pool_inv B (gget0 0 (pendingNonces (nonceCache st))) (set (keys (pendingNonces (nonceCache st)))) {} st"

lemma pool_invD:
  assumes "pool_inv B eff K D st"
  shows "btrees_ok B"
    and "gget (allTxs st) a = Some l \<Longrightarrow> sm_ok B a l"
    and "tlm_inv B (ttlIndex st)"
    and "tlm_times (ttlIndex st) (a, n) = Some t \<Longrightarrow> \<exists>it. item_of st a n = Some it"
    and "tam_inv B (removeTimeoutIndex st)"
    and "OrderedTimeoutKey a n t \<in> bt_set (time_ops B) (priorityIndex st) \<Longrightarrow>
      \<exists>it. item_of st a n = Some it \<and> tx_timestamp (item_tx it) = t"
    and "OrderedTimeoutKey a n t \<in> bt_set (time_ops B) (priorityIndex st) \<Longrightarrow> a \<in> K \<and> n < eff a"
    and "item_of st a n = Some it \<Longrightarrow> n \<noteq> -1 \<and> a \<in> K \<union> D"
    and "item_of st a n = Some it \<Longrightarrow> n < eff a \<Longrightarrow>
      OrderedTimeoutKey a n (tx_timestamp (item_tx it)) \<in> bt_set (time_ops B) (priorityIndex st)"
  using assms unfolding pool_inv_def by blast+

text \<open>The invariant looks at these fields of the store only.\<close>

lemma item_of_cong: "allTxs st = allTxs st' \<Longrightarrow> item_of st = item_of st'"
  by (simp add: fun_eq_iff item_of_def)

lemma pool_inv_cong:
  assumes "allTxs st' = allTxs st" "ttlIndex st' = ttlIndex st"
    "removeTimeoutIndex st' = removeTimeoutIndex st" "priorityIndex st' = priorityIndex st"
  shows "pool_inv B eff K D st' \<longleftrightarrow> pool_inv B eff K D st"
  unfolding pool_inv_def assms item_of_cong[OF assms(1)] ..

lemma pool_inv_weaken:
  assumes "pool_inv B eff K D st" "\<And>a. a \<in> K \<union> D \<Longrightarrow> eff' a = eff a"
    and "K \<subseteq> K'" "D \<subseteq> K' \<union> D'"
  shows "pool_inv B eff' K' D' st"
proof -
  have "eff' a = eff a" if "item_of st a n = Some it" for a n it
    using assms(2) pool_invD(8)[OF assms(1) that] by blast
  moreover have "eff' a = eff a" if "OrderedTimeoutKey a n t \<in> bt_set (time_ops B) (priorityIndex st)" for a n t
    using assms(2) pool_invD(7)[OF assms(1) that] by blast
  ultimately show ?thesis
    using assms(1,3,4) unfolding pool_inv_def by (auto 0 4)
qed

lemma store_inv_new: "btrees_ok B \<Longrightarrow> store_inv B (newTransactionStore B)"
  using live.inv_empty[of B] arrived.inv_empty[of B]
  by (simp add: store_inv_def pool_inv_def newTransactionStore_def item_of_def live.times_empty
      btrees_ok_def)

section \<open>Inserting\<close>

lemma sm_ok_insert:
  assumes "btrees_ok B" "sm_ok B a l"
  shows "sm_ok B a (l\<lparr>sm_items := gset (tx_nonce tx) \<lparr>item_account = a, item_tx = tx, item_local = b\<rparr> (sm_items l),
    sm_index := insertBySortedNonceKey (nonce_ops B) tx (sm_index l)\<rparr>)"
  using assms by (auto simp: sm_ok_def btrees_ok_def makeSortedNonceKey_def)

lemma sm_ok_new: "btrees_ok B \<Longrightarrow> sm_ok B a (newTxSortedMap B)"
  by (simp add: sm_ok_def newTxSortedMap_def btrees_ok_def)

lemma insertTx_sm_ok:
  assumes "btrees_ok B" "\<And>b l. gget (allTxs st) b = Some l \<Longrightarrow> sm_ok B b l"
    and "gget (allTxs (insertTx B now loc a tx st)) b = Some l"
  shows "sm_ok B b l"
  using assms
  by (auto simp: insertTx_def Let_def intro!: sm_ok_insert sm_ok_new split: if_splits option.splits)

lemma pool_inv_insertTx:
  assumes inv: "pool_inv B eff K D st" and "\<not> tx_nonce tx < eff a" "tx_nonce tx \<noteq> -1" "a \<in> D"
  shows "pool_inv B eff K D (insertTx B now loc a tx st)"
  unfolding pool_inv_def
proof (intro conjI allI impI)
  let ?st = "insertTx B now loc a tx st"
  note inv' = pool_invD[OF inv]
  show "btrees_ok B" by (rule inv'(1))
  show "sm_ok B b l" if "gget (allTxs ?st) b = Some l" for b l
    using insertTx_sm_ok[OF inv'(1) inv'(2) that] .
  show "tlm_inv B (ttlIndex ?st)" by (simp add: inv'(3) live.inv_insert)
  show "item_of ?st b n \<noteq> None" if "tlm_times (ttlIndex ?st) (b, n) \<noteq> None" for b n
    using that inv'(4)[of b n] by (auto simp: insertTx_item live.times_insert split: if_splits)
  show "tam_inv B (removeTimeoutIndex ?st)" by (simp add: inv'(5) arrived.inv_insert)
  show "\<exists>it. item_of ?st b n = Some it \<and> tx_timestamp (item_tx it) = t"
    if "OrderedTimeoutKey b n t \<in> bt_set (time_ops B) (priorityIndex ?st)" for b n t
    using that inv'(6,7)[of b n t] assms(2) by (auto simp: insertTx_item)
  show "b \<in> K" if "OrderedTimeoutKey b n t \<in> bt_set (time_ops B) (priorityIndex ?st)" for b n t
    using that inv'(7) by simp
  show "n < eff b" if "OrderedTimeoutKey b n t \<in> bt_set (time_ops B) (priorityIndex ?st)" for b n t
    using that inv'(7) by simp
  show "n \<noteq> -1" if "item_of ?st b n = Some it" for b n it
    using that inv'(8) assms(3) by (auto simp: insertTx_item split: if_splits)
  show "b \<in> K \<union> D" if "item_of ?st b n = Some it" for b n it
    using that inv'(8) assms(4) by (auto simp: insertTx_item split: if_splits)
  show "OrderedTimeoutKey b n (tx_timestamp (item_tx it)) \<in> bt_set (time_ops B) (priorityIndex ?st)"
    if "item_of ?st b n = Some it" "n < eff b" for b n it
    using that inv'(9) assms(2) by (auto simp: insertTx_item split: if_splits)
qed

lemma fold_pair_split:
  "fold (\<lambda>(a, l) (d, st). (G a d, F a l st)) xs (d, st)
    = (fold (\<lambda>(a, l). G a) xs d, fold (\<lambda>(a, l). F a l) xs st)"
  by (induction xs arbitrary: d st) auto

lemma fold_gset_keys:
  "gget (fold (\<lambda>(a, l). gset a True) xs d) b = (if b \<in> fst ` set xs then Some True else gget d b)"
  by (induction xs arbitrary: d) auto

lemma fold_gset_distinct: "distinct (keys d) \<Longrightarrow> distinct (keys (fold (\<lambda>(a, l). gset a True) xs d))"
  by (induction xs arbitrary: d) (auto simp del: set_map map_map)

lemma insertTxs_eq:
  assumes "runtime_ok E"
  obtains ps where "set ps = txs_pairs txs"
    and "snd (insertTxs B E txs loc st) = fold (\<lambda>(a, tx). insertTx B (rt_now E) loc a tx) ps st"
    and "\<And>a. gget (fst (insertTxs B E txs loc st)) a = (if gget txs a = None then None else Some True)"
    and "distinct (keys (fst (insertTxs B E txs loc st)))"
proof
  let ?xs = "go_range (rt_order E 1) txs"
  have ok: "order_ok (rt_order E 1)" using assms by simp
  show "set (concat (map (\<lambda>(a, l). map (Pair a) l) ?xs)) = txs_pairs txs"
    by (rule set_pairs_range[OF ok])
  have eq: "insertTxs B E txs loc st = (fold (\<lambda>(a, l). gset a True) ?xs [],
      fold (\<lambda>(a, l). fold (insertTx B (rt_now E) loc a) l) ?xs st)"
    unfolding insertTxs_def by (rule fold_pair_split)
  show "snd (insertTxs B E txs loc st)
      = fold (\<lambda>(a, tx). insertTx B (rt_now E) loc a tx) (concat (map (\<lambda>(a, l). map (Pair a) l) ?xs)) st"
    unfolding eq snd_conv by (rule fold_pairs_concat)
  show "gget (fst (insertTxs B E txs loc st)) a = (if gget txs a = None then None else Some True)" for a
    unfolding eq fst_conv fold_gset_keys fst_go_range[OF ok] by auto
  show "distinct (keys (fst (insertTxs B E txs loc st)))"
    using fold_gset_distinct[of "[]" ?xs] by (simp add: eq)
qed

lemma pool_inv_insertTxs:
  assumes "runtime_ok E" "pool_inv B eff K D st"
    and "\<forall>(a, tx) \<in> txs_pairs txs. \<not> tx_nonce tx < eff a \<and> tx_nonce tx \<noteq> -1 \<and> a \<in> D"
  shows "pool_inv B eff K D (snd (insertTxs B E txs loc st))"
    and "nonceCache (snd (insertTxs B E txs loc st)) = nonceCache st"
proof -
  obtain ps where ps: "set ps = txs_pairs txs"
    "snd (insertTxs B E txs loc st) = fold (\<lambda>(a, tx). insertTx B (rt_now E) loc a tx) ps st"
    using insertTxs_eq[OF assms(1)] by metis
  have "pool_inv B eff K D st' \<and> nonceCache st' = nonceCache st"
    if "st' = fold (\<lambda>(a, tx). insertTx B (rt_now E) loc a tx) ps st" for st'
    unfolding that
    by (rule fold_invariant) (use assms(2,3) ps(1) in \<open>auto intro!: pool_inv_insertTx\<close>)
  with ps(2) show "pool_inv B eff K D (snd (insertTxs B E txs loc st))"
    "nonceCache (snd (insertTxs B E txs loc st)) = nonceCache st" by blast+
qed

section \<open>The accepted transactions of a call\<close>

text \<open>
  An accepted transaction comes from the list, is filed under its sender and does not lie below the
  sender's pending nonce.
\<close>

definition same_nonces :: "'a env_scheme \<Rightarrow> nonceCache \<Rightarrow> nonceCache \<Rightarrow> bool" where
  "same_nonces E nc nc' \<longleftrightarrow> pendingNonces nc' = pendingNonces nc \<and>
     (\<forall>b. fst (getPendingNonce E b nc') = fst (getPendingNonce E b nc)) \<and>
     (\<forall>b. fst (getCommitNonce E b nc') = fst (getCommitNonce E b nc))"

lemma process_one_nonces:
  "same_nonces E nc (pl_nonces l) \<Longrightarrow> same_nonces E nc (pl_nonces (process_one E hashes tx l))"
  by (auto simp: same_nonces_def process_one_def Let_def case_prod_unfold)

lemma process_one_valid:
  "same_nonces E nc (pl_nonces l) \<Longrightarrow> p \<in> txs_pairs (pl_validTxs (process_one E hashes tx l)) \<Longrightarrow>
    p \<in> txs_pairs (pl_validTxs l) \<or>
    p = (tx_from tx, tx) \<and> \<not> tx_nonce tx < fst (getPendingNonce E (tx_from tx) nc)"
  using txs_pairs_append[of "tx_from tx" "pl_validTxs l" tx]
  by (auto simp: same_nonces_def process_one_def Let_def case_prod_unfold split: if_splits)

lemma process_loop_nonces:
  "same_nonces E nc (pl_nonces l) \<Longrightarrow> same_nonces E nc (pl_nonces (fold (process_one E hashes) txs l))"
  by (rule fold_invariant[where P = "\<lambda>l. same_nonces E nc (pl_nonces l)"])
    (auto intro: process_one_nonces)

lemma process_loop_valid:
  assumes "same_nonces E nc (pl_nonces l)" "pl_validTxs l = []"
    and "(a, tx) \<in> txs_pairs (pl_validTxs (fold (process_one E hashes) txs l))"
  shows "tx \<in> set txs \<and> a = tx_from tx \<and> \<not> tx_nonce tx < fst (getPendingNonce E a nc)"
  using assms(3)
proof (induction txs rule: rev_induct)
  case Nil
  with assms(2) show ?case by simp
next
  case (snoc t txs)
  from snoc.prems have "(a, tx) \<in> txs_pairs (pl_validTxs (process_one E hashes t (fold (process_one E hashes) txs l)))"
    by simp
  from process_one_valid[OF process_loop_nonces[OF assms(1)] this] snoc.IH show ?case by auto
qed

section \<open>Promoting ready transactions\<close>

lemma bt_set_fold_ready:
  "btree_ok T \<Longrightarrow> bt_set T (fold (\<lambda>tx idx. if \<not> bt_Has T idx (makeTimeoutKey a tx)
      then insertByTimeoutKey T a tx idx else idx) txs idx) = bt_set T idx \<union> makeTimeoutKey a ` set txs"
  by (induction txs arbitrary: idx) (auto simp: btree_okD)

text \<open>The pending nonces as the loop over the dirty accounts has computed them so far.\<close>

definition eff_upd :: "(string, u64) gomap \<Rightarrow> (string \<Rightarrow> u64) \<Rightarrow> string \<Rightarrow> u64" where
  "eff_upd upd eff b = (case gget upd b of None \<Rightarrow> eff b | Some n \<Rightarrow> n)"

lemma pool_inv_promote:
  assumes inv: "pool_inv B eff K D st"
    and ready: "set ready = {item_tx it |n it. item_of st a n = Some it \<and> eff a \<le> n \<and> n < d'}"
    and "eff a \<le> d'" and prio: "bt_set (time_ops B) prio
      = bt_set (time_ops B) (priorityIndex st) \<union> makeTimeoutKey a ` set ready"
  shows "pool_inv B (eff(a := d')) (insert a K) D (st\<lparr>priorityIndex := prio\<rparr>)"
proof -
  note inv' = pool_invD[OF inv]
  have it: "item_of (st\<lparr>priorityIndex := prio\<rparr>) = item_of st" by (rule item_of_cong) simp
  have nonce: "tx_nonce (item_tx it) = n" if "item_of st b n = Some it" for b n it
    using that inv'(2) by (auto simp: item_of_def sm_ok_def split: option.splits)
  have mem: "OrderedTimeoutKey b n t \<in> bt_set (time_ops B) prio \<longleftrightarrow>
      OrderedTimeoutKey b n t \<in> bt_set (time_ops B) (priorityIndex st) \<or>
      b = a \<and> (\<exists>it. item_of st a n = Some it \<and> eff a \<le> n \<and> n < d' \<and> t = tx_timestamp (item_tx it))" for b n t
    unfolding prio ready using nonce by (auto simp: makeTimeoutKey_def image_iff)
  show ?thesis
    unfolding pool_inv_def it
  proof (intro conjI allI impI)
    show "btrees_ok B" by (rule inv'(1))
    show "sm_ok B b l" if "gget (allTxs (st\<lparr>priorityIndex := prio\<rparr>)) b = Some l" for b l
      using that inv'(2) by simp
    show "tlm_inv B (ttlIndex (st\<lparr>priorityIndex := prio\<rparr>))" using inv'(3) by simp
    show "item_of st b n \<noteq> None" if "tlm_times (ttlIndex (st\<lparr>priorityIndex := prio\<rparr>)) (b, n) \<noteq> None" for b n
      using that inv'(4)[of b n] by auto
    show "tam_inv B (removeTimeoutIndex (st\<lparr>priorityIndex := prio\<rparr>))" using inv'(5) by simp
    fix b n t assume "OrderedTimeoutKey b n t \<in> bt_set (time_ops B) (priorityIndex (st\<lparr>priorityIndex := prio\<rparr>))"
    then have m: "OrderedTimeoutKey b n t \<in> bt_set (time_ops B) prio" by simp
    show "\<exists>it. item_of st b n = Some it \<and> tx_timestamp (item_tx it) = t"
      using m[unfolded mem] inv'(6)[of b n t] by auto
    show "b \<in> insert a K" using m[unfolded mem] inv'(7)[of b n t] by auto
    show "n < (eff(a := d')) b"
      using m[unfolded mem] inv'(7)[of b n t] assms(3) by (auto intro: less_le_trans)
  next
    fix b n it assume i: "item_of st b n = Some it"
    show "n \<noteq> -1" "b \<in> insert a K \<union> D" using inv'(8)[OF i] by auto
    assume lt: "n < (eff(a := d')) b"
    have "OrderedTimeoutKey b n (tx_timestamp (item_tx it)) \<in> bt_set (time_ops B) prio"
      using i lt inv'(9)[OF i] unfolding mem by (cases "b = a") (auto simp: not_less)
    then show "OrderedTimeoutKey b n (tx_timestamp (item_tx it))
        \<in> bt_set (time_ops B) (priorityIndex (st\<lparr>priorityIndex := prio\<rparr>))" by simp
  qed
qed

lemma processDirty_one_inv:
  assumes inv: "pool_inv B (eff_upd upd eff) (K \<union> set (keys upd)) D st"
    and eff: "\<And>b. eff b = fst (getPendingNonce E b (nonceCache st))"
    and "gget upd a = None"
  obtains upd' st' where "processDirty_one B E a (upd, st) = Some (upd', st')"
    and "pool_inv B (eff_upd upd' eff) (K \<union> set (keys upd')) D st'"
    and "\<And>b. gget upd' b \<noteq> None \<longleftrightarrow> gget upd b \<noteq> None \<or> b = a \<and> gget (allTxs st) a \<noteq> None"
    and "\<And>b n. gget upd' b = Some n \<Longrightarrow> gget upd b = Some n \<or> b = a \<and> eff a \<le> n"
proof (cases "gget (allTxs st) a")
  case None
  with inv show thesis by (intro that[of upd st]) (auto simp: processDirty_one_def)
next
  case (Some l)
  note inv' = pool_invD[OF inv]
  have ok: "btree_ok (time_ops B)" using inv'(1) by (simp add: btrees_ok_def)
  have item: "item_of st a n = gget (sm_items l) n" for n by (simp add: item_of_def Some)
  have sm: "sm_ok B a l" by (rule inv'(2)[OF Some])
  have nm: "\<forall>k \<in> bt_set (nonce_ops B) (sm_index l). snk_nonce k \<noteq> -1"
  proof
    fix k assume "k \<in> bt_set (nonce_ops B) (sm_index l)"
    with sm obtain it where "item_of st a (snk_nonce k) = Some it" by (auto simp: sm_ok_def item)
    from inv'(8)[OF this] show "snk_nonce k \<noteq> -1" by simp
  qed
  obtain ready nonReady d' where f: "filterReady B l (eff a) = Some (ready, nonReady, d')"
    "eff a \<le> d'" "set ready = {item_tx it |n it. item_of st a n = Some it \<and> eff a \<le> n \<and> n < d'}"
    unfolding item by (rule filterReady_spec[OF inv'(1) sm nm, of "eff a"])
  obtain nc where pend: "getPendingNonce E a (nonceCache st) = (eff a, nc)"
    using eff[of a] by (cases "getPendingNonce E a (nonceCache st)") simp
  let ?prio = "fold (\<lambda>tx idx. if \<not> bt_Has (time_ops B) idx (makeTimeoutKey a tx)
      then insertByTimeoutKey (time_ops B) a tx idx else idx) ready (priorityIndex st)"
  let ?st1 = "updateEarliestTimestamp B (st\<lparr>nonceCache := nc, priorityIndex := ?prio\<rparr>)"
  let ?st' = "?st1\<lparr>priorityNonBatchSize := priorityNonBatchSize ?st1 + of_nat (length ready),
      parkingLotIndex := fold (insertByOrderedQueueKey (queue_ops B) a) nonReady (parkingLotIndex ?st1)\<rparr>"
  have step: "processDirty_one B E a (upd, st) = Some (gset a d' upd, ?st')"
    by (simp add: processDirty_one_def Some pend f(1) Let_def updateEarliestTimestamp_def)
  have "eff_upd upd eff a = eff a" by (simp add: eff_upd_def assms(3))
  with f(2,3) have "pool_inv B ((eff_upd upd eff)(a := d')) (insert a (K \<union> set (keys upd))) D
      (st\<lparr>priorityIndex := ?prio\<rparr>)"
    by (intro pool_inv_promote[OF inv]) (auto simp: bt_set_fold_ready[OF ok])
  moreover have "(eff_upd upd eff)(a := d') = eff_upd (gset a d' upd) eff"
    by (auto simp: eff_upd_def)
  moreover have "insert a (K \<union> set (keys upd)) = K \<union> set (keys (gset a d' upd))"
    by (simp add: keys_gset del: set_map)
  moreover have "pool_inv B e k D ?st' \<longleftrightarrow> pool_inv B e k D (st\<lparr>priorityIndex := ?prio\<rparr>)" for e k
    by (rule pool_inv_cong) (simp_all add: updateEarliestTimestamp_def)
  ultimately have "pool_inv B (eff_upd (gset a d' upd) eff) (K \<union> set (keys (gset a d' upd))) D ?st'"
    by simp
  with step f(2) Some show thesis
    by (intro that[of "gset a d' upd" ?st']) (auto split: if_splits)
qed

lemma processDirty_one_frame:
  "processDirty_one B E a (upd, st) = Some (upd', st') \<Longrightarrow>
    allTxs st' = allTxs st \<and> txHashMap st' = txHashMap st \<and> batchedTxs st' = batchedTxs st \<and>
    ttlIndex st' = ttlIndex st \<and> removeTimeoutIndex st' = removeTimeoutIndex st \<and>
    same_nonces E (nonceCache st) (nonceCache st')"
  by (auto simp: processDirty_one_def Let_def case_prod_unfold same_nonces_def updateEarliestTimestamp_def
      split: option.splits)

lemma pool_inv_shrink:
  "pool_inv B eff K D st \<Longrightarrow> (\<And>a n it. item_of st a n = Some it \<Longrightarrow> a \<in> K \<union> D') \<Longrightarrow> pool_inv B eff K D' st"
  unfolding pool_inv_def by blast

text \<open>The state of the loop over the dirty accounts after the accounts \<open>vis\<close>.\<close>

definition dirty_loop_inv ::
    "('t, 'i, 'n) btrees \<Rightarrow> 'a env_scheme \<Rightarrow> ('t, 'i, 'n) transactionStore \<Rightarrow> string list \<Rightarrow>
     (string, u64) gomap \<times> ('t, 'i, 'n) transactionStore \<Rightarrow> string set \<Rightarrow> bool" where
  "dirty_loop_inv B E st0 vis s D \<longleftrightarrow>
     (let (upd, st) = s; eff = (\<lambda>b. fst (getPendingNonce E b (nonceCache st0))) in
      pool_inv B (eff_upd upd eff) (set (keys (pendingNonces (nonceCache st0))) \<union> set (keys upd)) D st \<and>
      same_nonces E (nonceCache st0) (nonceCache st) \<and>
      allTxs st = allTxs st0 \<and> txHashMap st = txHashMap st0 \<and> batchedTxs st = batchedTxs st0 \<and>
      (\<forall>b. gget upd b \<noteq> None \<longleftrightarrow> b \<in> set vis \<and> gget (allTxs st0) b \<noteq> None) \<and>
      (\<forall>b n. gget upd b = Some n \<longrightarrow> eff b \<le> n))"

lemma dirty_loop_step:
  assumes "dirty_loop_inv B E st0 vis s D" "a \<notin> set vis"
  shows "\<exists>s'. processDirty_one B E a s = Some s' \<and> dirty_loop_inv B E st0 (vis @ [a]) s' D"
proof -
  obtain upd st where s: "s = (upd, st)" by (cases s)
  let ?eff = "\<lambda>b. fst (getPendingNonce E b (nonceCache st0))"
  have inv: "pool_inv B (eff_upd upd ?eff) (set (keys (pendingNonces (nonceCache st0))) \<union> set (keys upd)) D st"
    and same: "same_nonces E (nonceCache st0) (nonceCache st)"
    and frame: "allTxs st = allTxs st0" "txHashMap st = txHashMap st0" "batchedTxs st = batchedTxs st0"
    and vis: "\<And>b. gget upd b \<noteq> None \<longleftrightarrow> b \<in> set vis \<and> gget (allTxs st0) b \<noteq> None"
    and ge: "\<And>b n. gget upd b = Some n \<Longrightarrow> ?eff b \<le> n"
    using assms(1) by (auto simp: dirty_loop_inv_def s Let_def)
  have eff: "?eff b = fst (getPendingNonce E b (nonceCache st))" for b
    using same by (simp add: same_nonces_def)
  have "gget upd a = None" using vis[of a] assms(2) by auto
  then obtain upd' st' where
    r: "processDirty_one B E a (upd, st) = Some (upd', st')"
      "pool_inv B (eff_upd upd' ?eff) (set (keys (pendingNonces (nonceCache st0))) \<union> set (keys upd')) D st'"
      "\<And>b. gget upd' b \<noteq> None \<longleftrightarrow> gget upd b \<noteq> None \<or> b = a \<and> gget (allTxs st) a \<noteq> None"
      "\<And>b n. gget upd' b = Some n \<Longrightarrow> gget upd b = Some n \<or> b = a \<and> ?eff a \<le> n"
    by (rule processDirty_one_inv[of B upd ?eff, OF inv eff]) (rule that)
  from processDirty_one_frame[OF r(1)] same frame
  have "same_nonces E (nonceCache st0) (nonceCache st')" "allTxs st' = allTxs st0"
    "txHashMap st' = txHashMap st0" "batchedTxs st' = batchedTxs st0"
    by (simp_all add: same_nonces_def)
  moreover have "gget upd' b \<noteq> None \<longleftrightarrow> b \<in> set (vis @ [a]) \<and> gget (allTxs st0) b \<noteq> None" for b
    using r(3) vis frame(1) by auto
  moreover have "?eff b \<le> n" if "gget upd' b = Some n" for b n
    using r(4) that ge by auto
  ultimately have "dirty_loop_inv B E st0 (vis @ [a]) (upd', st') D"
    using r(2) by (simp add: dirty_loop_inv_def Let_def)
  with r(1) s show ?thesis by blast
qed

text \<open>
  \<^verbatim>\<open>processDirtyAccount\<close> never fails, and it restores the invariant for the accounts a call inserted
  transactions for.
\<close>

lemma processDirtyAccount_inv:
  assumes rt: "runtime_ok E" and dist: "distinct (keys dirty)"
    and inv: "pool_inv B (\<lambda>b. fst (getPendingNonce E b (nonceCache st)))
      (set (keys (pendingNonces (nonceCache st)))) {a. gget dirty a \<noteq> None} st"
  obtains st' where "processDirtyAccount B E dirty st = Some st'" and "store_inv B st'"
    and "allTxs st' = allTxs st" and "txHashMap st' = txHashMap st" and "batchedTxs st' = batchedTxs st"
    and "\<And>b. fst (getCommitNonce E b (nonceCache st')) = fst (getCommitNonce E b (nonceCache st))"
    and "\<And>b. fst (getPendingNonce E b (nonceCache st)) \<le> fst (getPendingNonce E b (nonceCache st'))"
proof -
  let ?D = "{a. gget dirty a \<noteq> None}"
  let ?xs = "map fst (go_range (rt_order E 2) dirty)"
  let ?eff = "\<lambda>b. fst (getPendingNonce E b (nonceCache st))"
  have ok2: "order_ok (rt_order E 2)" and ok3: "order_ok (rt_order E 3)" using rt by simp_all
  have "\<exists>s'. ofold (processDirty_one B E) ?xs ([], st) = Some s' \<and> dirty_loop_inv B E st ?xs s' ?D"
  proof (rule ofold_invariant)
    show "dirty_loop_inv B E st [] ([], st) ?D"
      using inv by (simp add: dirty_loop_inv_def eff_upd_def[abs_def] same_nonces_def)
    fix vis a s assume "dirty_loop_inv B E st vis s ?D" "\<exists>rest. ?xs = vis @ a # rest"
    moreover have "distinct ?xs" by (rule distinct_go_range[OF ok2 dist])
    ultimately show "\<exists>s'. processDirty_one B E a s = Some s' \<and> dirty_loop_inv B E st (vis @ [a]) s' ?D"
      by (intro dirty_loop_step) auto
  qed
  then obtain upd st1 where loop: "ofold (processDirty_one B E) ?xs ([], st) = Some (upd, st1)"
    and linv: "dirty_loop_inv B E st ?xs (upd, st1) ?D" by auto
  define st' where "st' = st1\<lparr>nonceCache := updatePendingNonce (rt_order E 3) upd (nonceCache st1)\<rparr>"
  have frame: "allTxs st1 = allTxs st" "txHashMap st1 = txHashMap st" "batchedTxs st1 = batchedTxs st"
    "same_nonces E (nonceCache st) (nonceCache st1)"
    and upd: "\<And>b. gget upd b \<noteq> None \<longleftrightarrow> b \<in> set ?xs \<and> gget (allTxs st) b \<noteq> None"
    and ge: "\<And>b n. gget upd b = Some n \<Longrightarrow> ?eff b \<le> n"
    and inv1: "pool_inv B (eff_upd upd ?eff) (set (keys (pendingNonces (nonceCache st))) \<union> set (keys upd)) ?D st1"
    using linv by (auto simp: dirty_loop_inv_def Let_def)
  have xs: "set ?xs = ?D" using fst_go_range[OF ok2, of dirty] by simp
  have pend: "gget (pendingNonces (nonceCache st')) b =
      (case gget upd b of None \<Rightarrow> gget (pendingNonces (nonceCache st)) b | Some n \<Rightarrow> Some n)" for b
    using frame(4) by (cases "gget upd b") (simp_all add: st'_def updatePendingNonce_simps[OF ok3] same_nonces_def)
  have keys: "set (keys (pendingNonces (nonceCache st'))) = set (keys (pendingNonces (nonceCache st))) \<union> set (keys upd)"
    unfolding set_eq_iff Un_iff gget_dom pend by (auto split: option.splits)
  have "pool_inv B (eff_upd upd ?eff) (set (keys (pendingNonces (nonceCache st'))) ) {} st1"
    unfolding keys
  proof (rule pool_inv_shrink[OF inv1])
    fix a n it assume it: "item_of st1 a n = Some it"
    then have "gget (allTxs st) a \<noteq> None" by (auto simp: item_of_def frame(1) split: option.splits)
    with pool_invD(8)[OF inv1 it] upd[of a] xs gget_dom[of a upd]
    show "a \<in> set (keys (pendingNonces (nonceCache st))) \<union> set (keys upd) \<union> {}" by auto
  qed
  moreover have "gget0 0 (pendingNonces (nonceCache st')) b = eff_upd upd ?eff b"
    if "b \<in> set (keys (pendingNonces (nonceCache st')))" for b
    using that unfolding gget_dom
    by (auto simp: pend eff_upd_def gget0_def split: option.splits)
  ultimately have "pool_inv B (gget0 0 (pendingNonces (nonceCache st')))
      (set (keys (pendingNonces (nonceCache st')))) {} st1"
    by (elim pool_inv_weaken) auto
  then have "store_inv B st'"
    unfolding store_inv_def by (subst pool_inv_cong) (simp_all add: st'_def)
  moreover have "processDirtyAccount B E dirty st = Some st'"
    by (simp add: processDirtyAccount_def loop st'_def)
  moreover have "fst (getCommitNonce E b (nonceCache st')) = fst (getCommitNonce E b (nonceCache st))" for b
    using frame(4) by (simp add: st'_def getCommitNonce_fst updatePendingNonce_simps[OF ok3] same_nonces_def)
  moreover have "?eff b \<le> fst (getPendingNonce E b (nonceCache st'))" for b
  proof (cases "gget upd b")
    case None
    then have "fst (getPendingNonce E b (nonceCache st')) = fst (getPendingNonce E b (nonceCache st1))"
      using pend[of b] frame(4)
      by (auto simp: getPendingNonce_def same_nonces_def getCommitNonce_fst st'_def
          updatePendingNonce_simps[OF ok3] split: option.splits)
    with frame(4) show ?thesis by (simp add: same_nonces_def)
  next
    case (Some n)
    with ge[of b n] pend[of b] show ?thesis by simp
  qed
  ultimately show thesis using frame by (intro that[of st']) (simp_all add: st'_def)
qed

end
