(* ===== verification/Mempool_Block.thy ===== *)
theory Mempool_Block
  imports Mempool_Inv
begin

text \<open>
  The block generator: it always ends, a block takes distinct transactions of the priority index
  that were not in a block before, each after its predecessor, within the size limit, and it only
  stops below the limit when nothing more can be taken.
\<close>

section \<open>The loop invariant\<close>

definition okey :: "orderedTimeoutKey \<Rightarrow> orderedIndexKey" where
  "okey k = OrderedIndexKey (otk_account k) (otk_nonce k)"

definition pred_key :: "orderedIndexKey \<Rightarrow> orderedIndexKey" where
  "pred_key k = OrderedIndexKey (oik_account k) (oik_nonce k - 1)"

definition succ_key :: "orderedIndexKey \<Rightarrow> orderedIndexKey" where
  "succ_key k = OrderedIndexKey (oik_account k) (oik_nonce k + 1)"

text \<open>
  A key may be taken when it carries the commit nonce of its account or follows a key that is in a
  block. \<open>cn\<close> gives the commit nonces.
\<close>

definition takeable :: "(string \<Rightarrow> u64) \<Rightarrow> orderedIndexKey set \<Rightarrow> orderedIndexKey \<Rightarrow> bool" where
  "takeable cn bs k \<longleftrightarrow> oik_nonce k = cn (oik_account k) \<or> oik_nonce k \<noteq> 0 \<and> pred_key k \<in> bs"

definition taken :: "(orderedIndexKey, bool) gomap \<Rightarrow> orderedIndexKey set" where
  "taken m = {k. gget m k \<noteq> None}"

fun causal :: "(string \<Rightarrow> u64) \<Rightarrow> orderedIndexKey set \<Rightarrow> orderedIndexKey list \<Rightarrow> bool" where
  "causal cn bs [] \<longleftrightarrow> True"
| "causal cn bs (k # ks) \<longleftrightarrow> k \<notin> bs \<and> takeable cn bs k \<and> causal cn (insert k bs) ks"

definition gen_inv ::
    "'a env_scheme \<Rightarrow> nonceCache \<Rightarrow> (orderedIndexKey, bool) gomap \<Rightarrow> orderedIndexKey set \<Rightarrow> gen_state \<Rightarrow> bool" where
  "gen_inv E nc b0 V g \<longleftrightarrow> same_nonces E nc (gl_nonces g) \<and>
     taken (gl_batched g) = taken b0 \<union> set (gl_result g) \<and>
     causal (\<lambda>a. fst (getCommitNonce E a nc)) (taken b0) (gl_result g) \<and>
     set (gl_result g) \<subseteq> V \<and> taken (gl_skipped g) \<subseteq> V - taken b0 \<and>
     (\<forall>k \<in> taken (gl_skipped g). oik_nonce k \<noteq> -1 \<and>
        (k \<in> set (gl_result g) \<longrightarrow> oik_nonce k \<noteq> 0 \<and> pred_key k \<in> set (gl_result g)))"

text \<open>Nothing that was looked at is left over that could be taken.\<close>

definition gen_full ::
    "'a env_scheme \<Rightarrow> nonceCache \<Rightarrow> orderedIndexKey set \<Rightarrow> gen_state \<Rightarrow> bool" where
  "gen_full E nc V g \<longleftrightarrow> (\<forall>k \<in> V. k \<in> taken (gl_batched g) \<or>
     k \<in> taken (gl_skipped g) \<and> \<not> takeable (\<lambda>a. fst (getCommitNonce E a nc)) (taken (gl_batched g)) k)"

lemma causal_append:
  "causal cn bs (xs @ ys) \<longleftrightarrow> causal cn bs xs \<and> causal cn (bs \<union> set xs) ys"
  by (induction xs arbitrary: bs) (auto simp: Un_commute)

lemma causal_distinct: "causal cn bs ks \<Longrightarrow> distinct ks \<and> set ks \<inter> bs = {}"
  by (induction ks arbitrary: bs) auto

lemma causal_nth:
  assumes "causal cn bs ks" "i < length ks"
  shows "ks ! i \<notin> bs \<and> takeable cn (bs \<union> set (take i ks)) (ks ! i)"
  using assms
proof (induction ks arbitrary: bs i)
  case Nil
  then show ?case by simp
next
  case (Cons k ks)
  then show ?case by (cases i) fastforce+
qed

lemma taken_gset [simp]: "taken (gset k v m) = insert k (taken m)"
  by (auto simp: taken_def)

lemma finite_taken [simp]: "finite (taken m)"
  unfolding taken_def by (rule finite_subset[of _ "fst ` set m"]) (auto dest: map_of_SomeD intro: rev_image_eqI)

lemma card_taken: "card (taken m) \<le> length m"
proof -
  have "taken m \<subseteq> fst ` set m" by (auto simp: taken_def dest: map_of_SomeD intro: rev_image_eqI)
  then have "card (taken m) \<le> card (fst ` set m)" by (simp add: card_mono)
  also have "\<dots> \<le> length m" using card_image_le[of "set m" fst] card_length[of m] by simp
  finally show ?thesis .
qed

lemma key_simps [simp]:
  "oik_account (pred_key k) = oik_account k" "oik_account (succ_key k) = oik_account k"
  "oik_nonce (pred_key k) = oik_nonce k - 1" "oik_nonce (succ_key k) = oik_nonce k + 1"
  "pred_key (succ_key k) = k" "succ_key (pred_key k) = k" "succ_key k \<noteq> k"
  by (simp_all add: pred_key_def succ_key_def orderedIndexKey.expand)
    (metis add_cancel_right_right orderedIndexKey.sel(2) zero_neq_one)

lemma succ_nonzero: "oik_nonce k \<noteq> -1 \<Longrightarrow> oik_nonce (succ_key k) \<noteq> 0"
  by (simp add: eq_neg_iff_add_eq_0)

text \<open>The size test compares 64-bit numbers; below the limit it is exact.\<close>

lemma limit_reached: "n \<le> unat limit \<Longrightarrow> of_nat n = limit \<Longrightarrow> n = unat limit" for limit :: u64
  using unat_u64_less[of limit] unat_of_nat_u64[of n] by auto

lemma limit_open: "n < unat limit \<Longrightarrow> of_nat (Suc n) \<noteq> limit \<Longrightarrow> Suc n < unat limit" for limit :: u64
  by (rule Suc_lessI, simp, rule notI) (simp del: of_nat_Suc)

section \<open>Taking skipped successors\<close>

text \<open>
  After \<open>p\<close> was taken the loop goes up from its successor. All that holds but the completeness for
  that successor.
\<close>

lemma takeSkipped_spec:
  assumes "gen_inv E nc b0 V g" "p \<in> set (gl_result g)" "oik_nonce p \<noteq> -1"
    and "succ_key p \<in> taken (gl_skipped g) \<Longrightarrow> succ_key p \<notin> set (gl_result g)"
    and "gen_full E nc (V - {succ_key p}) g"
    and "succ_key p \<in> V \<Longrightarrow> succ_key p \<in> taken (gl_batched g) \<union> taken (gl_skipped g)"
    and "card (taken (gl_skipped g) - set (gl_result g)) < fuel"
    and "limit \<noteq> 0 \<Longrightarrow> length (gl_result g) < unat limit"
  shows "\<exists>go g'. takeSkipped fuel limit (succ_key p) g = Some (go, g') \<and> gen_inv E nc b0 V g' \<and>
    (if go then gen_full E nc V g' \<and> (limit \<noteq> 0 \<longrightarrow> length (gl_result g') < unat limit)
     else of_nat (length (gl_result g')) = limit \<and> (limit \<noteq> 0 \<longrightarrow> length (gl_result g') = unat limit))"
  using assms
proof (induction fuel arbitrary: p g)
  case 0
  then show ?case by simp
next
  case (Suc fuel)
  let ?k = "succ_key p" and ?cn = "\<lambda>a. fst (getCommitNonce E a nc)"
  note inv = Suc.prems(1)[unfolded gen_inv_def]
  show ?case
  proof (cases "?k \<in> taken (gl_skipped g)")
    case False
    then have "gget (gl_skipped g) ?k = None" by (simp add: taken_def)
    moreover have "gen_full E nc V g"
      using Suc.prems(5,6) False by (auto simp: gen_full_def)
    ultimately show ?thesis using Suc.prems(1,8) by auto
  next
    case True
    define g1 where "g1 = g\<lparr>gl_batched := gset ?k True (gl_batched g), gl_result := gl_result g @ [?k]\<rparr>"
    have new: "?k \<notin> set (gl_result g)" by (rule Suc.prems(4)[OF True])
    have k: "?k \<in> V" "?k \<notin> taken b0" "oik_nonce ?k \<noteq> -1" using inv True by auto
    have tk: "takeable ?cn (taken b0 \<union> set (gl_result g)) ?k"
      using Suc.prems(2) succ_nonzero[OF Suc.prems(3)] by (simp add: takeable_def)
    have inv1: "gen_inv E nc b0 V g1"
      using inv new k tk Suc.prems(2) succ_nonzero[OF Suc.prems(3)]
      by (auto simp: gen_inv_def g1_def causal_append)
    have unf: "takeSkipped (Suc fuel) limit ?k g =
        (if of_nat (length (gl_result g1)) = limit then Some (False, g1)
         else takeSkipped fuel limit (succ_key ?k) g1)"
      using True by (auto simp: taken_def g1_def succ_key_def)
    show ?thesis
    proof (cases "of_nat (length (gl_result g1)) = limit")
      case True
      have "length (gl_result g1) = unat limit" if "limit \<noteq> 0"
        by (rule limit_reached[OF _ True]) (use Suc.prems(8)[OF that] in \<open>simp add: g1_def\<close>)
      with True unf inv1 show ?thesis by auto
    next
      case neq: False
      have "\<exists>go g'. takeSkipped fuel limit (succ_key ?k) g1 = Some (go, g') \<and> gen_inv E nc b0 V g' \<and>
        (if go then gen_full E nc V g' \<and> (limit \<noteq> 0 \<longrightarrow> length (gl_result g') < unat limit)
         else of_nat (length (gl_result g')) = limit \<and> (limit \<noteq> 0 \<longrightarrow> length (gl_result g') = unat limit))"
      proof (rule Suc.IH)
        show "gen_inv E nc b0 V g1" by (rule inv1)
        show "?k \<in> set (gl_result g1)" by (simp add: g1_def)
        show "oik_nonce ?k \<noteq> -1" by (rule k)
        show "succ_key ?k \<notin> set (gl_result g1)" if "succ_key ?k \<in> taken (gl_skipped g1)"
          using that inv new by (auto simp: g1_def)
        show "gen_full E nc (V - {succ_key ?k}) g1"
          unfolding gen_full_def
        proof
          fix x assume x: "x \<in> V - {succ_key ?k}"
          then have "pred_key x \<noteq> ?k" by (auto simp del: key_simps(5) dest: arg_cong[of _ _ succ_key])
          moreover have "x = ?k \<or> x \<in> taken (gl_batched g) \<or>
              x \<in> taken (gl_skipped g) \<and> \<not> takeable ?cn (taken (gl_batched g)) x"
            using Suc.prems(5) x by (auto simp: gen_full_def)
          ultimately show "x \<in> taken (gl_batched g1) \<or>
              x \<in> taken (gl_skipped g1) \<and> \<not> takeable ?cn (taken (gl_batched g1)) x"
            by (auto simp: g1_def takeable_def)
        qed
        show "succ_key ?k \<in> taken (gl_batched g1) \<union> taken (gl_skipped g1)" if "succ_key ?k \<in> V"
          using Suc.prems(5) that by (auto simp: gen_full_def g1_def)
        have "taken (gl_skipped g1) - set (gl_result g1) = (taken (gl_skipped g) - set (gl_result g)) - {?k}"
          by (auto simp: g1_def)
        moreover have "card (taken (gl_skipped g) - set (gl_result g) - {?k})
            < card (taken (gl_skipped g) - set (gl_result g))"
          by (rule card_Diff1_less) (use True new in auto)
        ultimately show "card (taken (gl_skipped g1) - set (gl_result g1)) < fuel"
          using Suc.prems(7) by simp
        show "length (gl_result g1) < unat limit" if "limit \<noteq> 0"
          using limit_open[OF Suc.prems(8)[OF that]] neq by (simp add: g1_def)
      qed
      with unf neq show ?thesis by simp
    qed
  qed
qed

section \<open>The iterator\<close>

lemma getCommitNonce_pending [simp]:
  "fst (getPendingNonce E b (snd (getCommitNonce E a nc))) = fst (getPendingNonce E b nc)"
  by (simp add: getPendingNonce_def split: option.split)

lemma gen_inv_mono:
  "gen_inv E nc b0 V g \<Longrightarrow> V \<subseteq> V' \<Longrightarrow> gen_inv E nc b0 V' g"
  by (auto simp: gen_inv_def)

lemma seenPrevious_iff:
  "gget m (OrderedIndexKey a (n - 1)) \<noteq> None \<and> n \<ge> 1 \<longleftrightarrow>
    oik_nonce (OrderedIndexKey a n) \<noteq> 0 \<and> pred_key (OrderedIndexKey a n) \<in> taken m" for n :: u64
  by (auto simp: taken_def pred_key_def word_le_nat_alt unat_gt_0 Suc_le_eq)

text \<open>The three branches of the iterator.\<close>

lemma generate_iter_cases:
  assumes "gen_inv E nc b0 V g"
  shows "generate_iter E limit tx g =
    (let k = okey tx;
         g0 = (if k \<in> taken (gl_batched g) then g
               else g\<lparr>gl_nonces := snd (getCommitNonce E (otk_account tx) (gl_nonces g))\<rparr>);
         g1 = g0\<lparr>gl_batched := gset k True (gl_batched g0), gl_result := gl_result g0 @ [k]\<rparr>
     in if k \<in> taken (gl_batched g) then Some (True, g0)
        else if takeable (\<lambda>a. fst (getCommitNonce E a nc)) (taken (gl_batched g)) k then
          (if of_nat (length (gl_result g1)) = limit then Some (False, g1)
           else takeSkipped (Suc (length (gl_skipped g1))) limit (succ_key k) g1)
        else Some (True, g0\<lparr>gl_skipped := gset k True (gl_skipped g0)\<rparr>))"
proof -
  have cn: "fst (getCommitNonce E (otk_account tx) (gl_nonces g)) = fst (getCommitNonce E (otk_account tx) nc)"
    using assms by (simp add: gen_inv_def same_nonces_def)
  have t: "takeable (\<lambda>a. fst (getCommitNonce E a nc)) (taken (gl_batched g)) (okey tx) \<longleftrightarrow>
      1 \<le> otk_nonce tx \<and> gget (gl_batched g) (OrderedIndexKey (otk_account tx) (otk_nonce tx - 1)) \<noteq> None \<or>
      otk_nonce tx = fst (getCommitNonce E (otk_account tx) nc)"
    unfolding takeable_def okey_def
    using seenPrevious_iff[of "gl_batched g" "otk_account tx" "otk_nonce tx"] by auto
  show ?thesis
    unfolding generate_iter_def t Let_def case_prod_unfold cn okey_def[symmetric]
    by (auto simp: taken_def succ_key_def okey_def)
qed

lemma generate_iter_spec:
  assumes inv: "gen_inv E nc b0 V g" and full: "gen_full E nc V g"
    and new: "okey tx \<notin> V" and nonce: "otk_nonce tx \<noteq> -1"
    and limit: "limit \<noteq> 0 \<Longrightarrow> length (gl_result g) < unat limit"
  shows "\<exists>go g'. generate_iter E limit tx g = Some (go, g') \<and> gen_inv E nc b0 (insert (okey tx) V) g' \<and>
    (if go then gen_full E nc (insert (okey tx) V) g' \<and> (limit \<noteq> 0 \<longrightarrow> length (gl_result g') < unat limit)
     else of_nat (length (gl_result g')) = limit \<and> (limit \<noteq> 0 \<longrightarrow> length (gl_result g') = unat limit))"
proof -
  let ?k = "okey tx" and ?cn = "\<lambda>a. fst (getCommitNonce E a nc)"
  let ?V = "insert ?k V"
  note d = inv[unfolded gen_inv_def]
  define g0 where "g0 = g\<lparr>gl_nonces := snd (getCommitNonce E (otk_account tx) (gl_nonces g))\<rparr>"
  have inv0: "gen_inv E nc b0 V g0" "gen_full E nc V g0"
    using inv full by (simp_all add: g0_def gen_inv_def gen_full_def same_nonces_def)
  consider (batched) "?k \<in> taken (gl_batched g)"
    | (take) "?k \<notin> taken (gl_batched g)" "takeable ?cn (taken (gl_batched g)) ?k"
    | (skip) "?k \<notin> taken (gl_batched g)" "\<not> takeable ?cn (taken (gl_batched g)) ?k" by blast
  then show ?thesis
  proof cases
    case batched
    then have "generate_iter E limit tx g = Some (True, g)"
      by (simp add: generate_iter_cases[OF inv] Let_def)
    moreover have "gen_full E nc ?V g" using full batched by (simp add: gen_full_def)
    ultimately show ?thesis using gen_inv_mono[OF inv, of ?V] limit by auto
  next
    case skip
    define g1 where "g1 = g0\<lparr>gl_skipped := gset ?k True (gl_skipped g0)\<rparr>"
    have "generate_iter E limit tx g = Some (True, g1)"
      using skip by (simp add: generate_iter_cases[OF inv] Let_def g0_def g1_def)
    moreover have "gen_inv E nc b0 ?V g1"
      using inv0(1) skip(1) d new nonce by (auto simp: gen_inv_def g1_def g0_def okey_def)
    moreover have "gen_full E nc ?V g1"
      using inv0(2) skip by (auto simp: gen_full_def g1_def g0_def)
    ultimately show ?thesis using limit by (auto simp: g1_def g0_def)
  next
    case take
    define g1 where "g1 = g0\<lparr>gl_batched := gset ?k True (gl_batched g0), gl_result := gl_result g0 @ [?k]\<rparr>"
    have eq: "generate_iter E limit tx g =
        (if of_nat (length (gl_result g1)) = limit then Some (False, g1)
         else takeSkipped (Suc (length (gl_skipped g1))) limit (succ_key ?k) g1)"
      using take by (simp add: generate_iter_cases[OF inv] Let_def g0_def g1_def)
    have inv1: "gen_inv E nc b0 ?V g1"
      using inv0(1) take d new by (auto simp: gen_inv_def g1_def g0_def causal_append)
    show ?thesis
    proof (cases "of_nat (length (gl_result g1)) = limit")
      case True
      have "length (gl_result g1) = unat limit" if "limit \<noteq> 0"
        by (rule limit_reached[OF _ True]) (use limit[OF that] in \<open>simp add: g1_def g0_def\<close>)
      with True eq inv1 show ?thesis by auto
    next
      case False
      have res: "?k \<notin> set (gl_result g)" "?k \<notin> taken (gl_skipped g)" using d new by auto
      have "\<exists>go g'. takeSkipped (Suc (length (gl_skipped g1))) limit (succ_key ?k) g1 = Some (go, g') \<and>
        gen_inv E nc b0 ?V g' \<and>
        (if go then gen_full E nc ?V g' \<and> (limit \<noteq> 0 \<longrightarrow> length (gl_result g') < unat limit)
         else of_nat (length (gl_result g')) = limit \<and> (limit \<noteq> 0 \<longrightarrow> length (gl_result g') = unat limit))"
      proof (rule takeSkipped_spec[OF inv1])
        show "?k \<in> set (gl_result g1)" by (simp add: g1_def)
        show "oik_nonce ?k \<noteq> -1" using nonce by (simp add: okey_def)
        show "succ_key ?k \<notin> set (gl_result g1)" if "succ_key ?k \<in> taken (gl_skipped g1)"
          using that d res by (auto simp: g1_def g0_def)
        show "gen_full E nc (?V - {succ_key ?k}) g1"
          unfolding gen_full_def
        proof
          fix x assume x: "x \<in> ?V - {succ_key ?k}"
          then have "pred_key x \<noteq> ?k" by (auto simp del: key_simps(5) dest: arg_cong[of _ _ succ_key])
          moreover have "x = ?k \<or> x \<in> taken (gl_batched g) \<or>
              x \<in> taken (gl_skipped g) \<and> \<not> takeable ?cn (taken (gl_batched g)) x"
            using full x by (auto simp: gen_full_def)
          ultimately show "x \<in> taken (gl_batched g1) \<or>
              x \<in> taken (gl_skipped g1) \<and> \<not> takeable ?cn (taken (gl_batched g1)) x"
            by (auto simp: g1_def g0_def takeable_def)
        qed
        show "succ_key ?k \<in> taken (gl_batched g1) \<union> taken (gl_skipped g1)" if "succ_key ?k \<in> ?V"
          using full that by (auto simp: gen_full_def g1_def g0_def)
        have "card (taken (gl_skipped g1) - set (gl_result g1)) \<le> card (taken (gl_skipped g1))"
          by (rule card_mono) auto
        with card_taken[of "gl_skipped g1"]
        show "card (taken (gl_skipped g1) - set (gl_result g1)) < Suc (length (gl_skipped g1))" by simp
        show "length (gl_result g1) < unat limit" if "limit \<noteq> 0"
          using limit_open[OF limit[OF that]] False by (simp add: g1_def g0_def)
      qed
      with eq False show ?thesis by simp
    qed
  qed
qed

text \<open>
  The whole loop over the priority index. Either the limit was reached, or every key was looked at
  and none that is left can be taken.
\<close>

lemma generate_loop_spec:
  assumes "gen_inv E nc b0 V g" "gen_full E nc V g"
    and "distinct (map okey txs)" "okey ` set txs \<inter> V = {}" "\<forall>tx \<in> set txs. otk_nonce tx \<noteq> -1"
    and "limit \<noteq> 0 \<Longrightarrow> length (gl_result g) < unat limit"
  shows "\<exists>g'. generate_loop E limit txs g = Some g' \<and> gen_inv E nc b0 (V \<union> okey ` set txs) g' \<and>
    (limit \<noteq> 0 \<longrightarrow> length (gl_result g') \<le> unat limit) \<and>
    (of_nat (length (gl_result g')) = limit \<or> gen_full E nc (V \<union> okey ` set txs) g')"
  using assms
proof (induction txs arbitrary: V g)
  case Nil
  then show ?case by (auto intro: less_imp_le)
next
  case (Cons tx txs)
  from Cons.prems have "okey tx \<notin> V" "otk_nonce tx \<noteq> -1" by auto
  from generate_iter_spec[OF Cons.prems(1,2) this Cons.prems(6)] obtain go g1 where
    iter: "generate_iter E limit tx g = Some (go, g1)" "gen_inv E nc b0 (insert (okey tx) V) g1"
      "if go then gen_full E nc (insert (okey tx) V) g1 \<and> (limit \<noteq> 0 \<longrightarrow> length (gl_result g1) < unat limit)
       else of_nat (length (gl_result g1)) = limit \<and> (limit \<noteq> 0 \<longrightarrow> length (gl_result g1) = unat limit)"
    by blast
  show ?case
  proof (cases go)
    case True
    have "\<exists>g'. generate_loop E limit txs g1 = Some g' \<and>
      gen_inv E nc b0 (insert (okey tx) V \<union> okey ` set txs) g' \<and>
      (limit \<noteq> 0 \<longrightarrow> length (gl_result g') \<le> unat limit) \<and>
      (of_nat (length (gl_result g')) = limit \<or> gen_full E nc (insert (okey tx) V \<union> okey ` set txs) g')"
      using iter True Cons.prems by (intro Cons.IH) auto
    with iter(1) True show ?thesis by simp
  next
    case False
    with iter gen_inv_mono[OF iter(2), of "V \<union> okey ` set (tx # txs)"] show ?thesis by auto
  qed
qed

section \<open>The generated block\<close>

text \<open>What the store invariant says of the priority index as the generator walks it.\<close>

lemma priority_keys:
  assumes inv: "store_inv B st"
  shows "distinct (map okey (bt_Ascend (time_ops B) (priorityIndex st)))"
    and "k \<in> set (bt_Ascend (time_ops B) (priorityIndex st)) \<Longrightarrow>
      \<exists>it. item_of st (otk_account k) (otk_nonce k) = Some it \<and> tx_timestamp (item_tx it) = otk_timestamp k"
    and "k \<in> set (bt_Ascend (time_ops B) (priorityIndex st)) \<Longrightarrow> otk_nonce k \<noteq> -1"
proof -
  note inv' = pool_invD[OF inv[unfolded store_inv_def]]
  show item: "\<exists>it. item_of st (otk_account k) (otk_nonce k) = Some it \<and> tx_timestamp (item_tx it) = otk_timestamp k"
    if "k \<in> set (bt_Ascend (time_ops B) (priorityIndex st))" for k
    using that inv'(6)[of "otk_account k" "otk_nonce k" "otk_timestamp k"] by (simp add: bt_set_def)
  show "otk_nonce k \<noteq> -1" if "k \<in> set (bt_Ascend (time_ops B) (priorityIndex st))" for k
    using item[OF that] inv'(8) by blast
  have "inj_on okey (set (bt_Ascend (time_ops B) (priorityIndex st)))"
  proof
    fix k k' assume k: "k \<in> set (bt_Ascend (time_ops B) (priorityIndex st))"
      "k' \<in> set (bt_Ascend (time_ops B) (priorityIndex st))" "okey k = okey k'"
    then have "otk_account k = otk_account k'" "otk_nonce k = otk_nonce k'" by (simp_all add: okey_def)
    with item[OF k(1)] item[OF k(2)] show "k = k'" by (auto intro: orderedTimeoutKey.expand)
  qed
  moreover have "btree_ok (time_ops B)" using inv'(1) by (simp add: btrees_ok_def)
  ultimately show "distinct (map okey (bt_Ascend (time_ops B) (priorityIndex st)))"
    by (simp add: distinct_map btree_ok_distinct)
qed

definition block_limit :: "('t, 'i, 'n) mempool \<Rightarrow> u64" where
  "block_limit mpi = min (priorityNonBatchSize (txStore mpi)) (batchSize mpi)"

text \<open>
  The keys of a block: the generator's loop never fails, and its result obeys the order of the
  nonces, the limit, and takes all it can.
\<close>

lemma generate_loop_block:
  assumes "store_inv B (txStore mpi)"
  defines "st \<equiv> txStore mpi"
  defines "V \<equiv> okey ` bt_set (time_ops B) (priorityIndex st)"
  obtains g where "generate_loop E (block_limit mpi) (bt_Ascend (time_ops B) (priorityIndex st))
      \<lparr>gl_nonces = nonceCache st, gl_batched = batchedTxs st, gl_skipped = [], gl_result = []\<rparr> = Some g"
    and "gen_inv E (nonceCache st) (batchedTxs st) V g"
    and "block_limit mpi \<noteq> 0 \<Longrightarrow> length (gl_result g) \<le> unat (block_limit mpi)"
    and "of_nat (length (gl_result g)) = block_limit mpi \<or> gen_full E (nonceCache st) V g"
proof -
  let ?g = "\<lparr>gl_nonces = nonceCache st, gl_batched = batchedTxs st, gl_skipped = [], gl_result = []\<rparr>"
  note p = priority_keys[OF assms(1)[folded st_def]]
  have "\<exists>g'. generate_loop E (block_limit mpi) (bt_Ascend (time_ops B) (priorityIndex st)) ?g = Some g' \<and>
    gen_inv E (nonceCache st) (batchedTxs st) ({} \<union> okey ` set (bt_Ascend (time_ops B) (priorityIndex st))) g' \<and>
    (block_limit mpi \<noteq> 0 \<longrightarrow> length (gl_result g') \<le> unat (block_limit mpi)) \<and>
    (of_nat (length (gl_result g')) = block_limit mpi \<or>
      gen_full E (nonceCache st) ({} \<union> okey ` set (bt_Ascend (time_ops B) (priorityIndex st))) g')"
  proof (rule generate_loop_spec)
    show "gen_inv E (nonceCache st) (batchedTxs st) {} ?g"
      by (simp add: gen_inv_def same_nonces_def taken_def)
    show "gen_full E (nonceCache st) {} ?g" by (simp add: gen_full_def)
    show "\<forall>tx \<in> set (bt_Ascend (time_ops B) (priorityIndex st)). otk_nonce tx \<noteq> -1" using p(3) by blast
  qed (simp_all add: p(1) unat_gt_0)
  then show thesis using that unfolding V_def bt_set_def by auto
qed

definition block_tx :: "('t, 'i, 'n) transactionStore \<Rightarrow> orderedIndexKey \<Rightarrow> transaction" where
  "block_tx st k = item_tx (the (item_of st (oik_account k) (oik_nonce k)))"

definition same_pool :: "('t, 'i, 'n) transactionStore \<Rightarrow> ('t, 'i, 'n) transactionStore \<Rightarrow> bool" where
  "same_pool st st' \<longleftrightarrow> txHashMap st' = txHashMap st \<and> allTxs st' = allTxs st \<and>
     pendingNonces (nonceCache st') = pendingNonces (nonceCache st) \<and>
     earliestTimestamp st' = earliestTimestamp st \<and> ttlIndex st' = ttlIndex st \<and>
     removeTimeoutIndex st' = removeTimeoutIndex st \<and> parkingLotIndex st' = parkingLotIndex st \<and>
     priorityIndex st' = priorityIndex st"

lemma store_inv_same_pool: "same_pool st st' \<Longrightarrow> store_inv B st' \<longleftrightarrow> store_inv B st"
  unfolding store_inv_def same_pool_def by (subst pool_inv_cong[of st' st]) simp_all

lemma generateBlock_spec:
  assumes inv: "store_inv B (txStore mpi)"
  defines "st \<equiv> txStore mpi"
  obtains ks ob mpi' where "generateBlock B E mpi = Some (ob, mpi')"
    and "ob = (if \<not> isTimed mpi \<and> ks = [] \<and> priorityNonBatchSize st > 0 then None
      else Some \<lparr>batch_TxList = map (\<lambda>k. Some (block_tx st k)) ks, batch_Height = batchSeqNo mpi + 1,
                 batch_Timestamp = rt_now E\<rparr>)"
    and "\<And>k. k \<in> set ks \<Longrightarrow> item_of st (oik_account k) (oik_nonce k) \<noteq> None"
    and "set ks \<subseteq> okey ` bt_set (time_ops B) (priorityIndex st)"
    and "causal (\<lambda>a. fst (getCommitNonce E a (nonceCache st))) (taken (batchedTxs st)) ks"
    and "taken (batchedTxs (txStore mpi')) = taken (batchedTxs st) \<union> set ks"
    and "block_limit mpi \<noteq> 0 \<Longrightarrow> length ks \<le> unat (block_limit mpi)"
    and "\<And>k. of_nat (length ks) \<noteq> block_limit mpi \<Longrightarrow> k \<in> okey ` bt_set (time_ops B) (priorityIndex st) \<Longrightarrow>
      k \<in> taken (batchedTxs st) \<union> set ks \<or>
      \<not> takeable (\<lambda>a. fst (getCommitNonce E a (nonceCache st))) (taken (batchedTxs st) \<union> set ks) k"
    and "same_pool st (txStore mpi')" and "same_nonces E (nonceCache st) (nonceCache (txStore mpi'))"
    and "batchSeqNo mpi' = (if ob = None then batchSeqNo mpi else batchSeqNo mpi + 1)"
    and "batchSize mpi' = batchSize mpi" "txSliceSize mpi' = txSliceSize mpi" "poolSize mpi' = poolSize mpi"
      "isTimed mpi' = isTimed mpi" "txFeed mpi' = txFeed mpi" "localID mpi' = localID mpi"
proof -
  obtain g where g: "generate_loop E (block_limit mpi) (bt_Ascend (time_ops B) (priorityIndex st))
      \<lparr>gl_nonces = nonceCache st, gl_batched = batchedTxs st, gl_skipped = [], gl_result = []\<rparr> = Some g"
    "gen_inv E (nonceCache st) (batchedTxs st) (okey ` bt_set (time_ops B) (priorityIndex st)) g"
    "block_limit mpi \<noteq> 0 \<Longrightarrow> length (gl_result g) \<le> unat (block_limit mpi)"
    "of_nat (length (gl_result g)) = block_limit mpi \<or>
      gen_full E (nonceCache st) (okey ` bt_set (time_ops B) (priorityIndex st)) g"
    by (rule generate_loop_block[OF inv, of E, folded st_def]) (rule that)
  have limit: "(if priorityNonBatchSize st > batchSize mpi then batchSize mpi else priorityNonBatchSize st)
      = block_limit mpi"
    by (auto simp: block_limit_def st_def min_def)
  note d = g(2)[unfolded gen_inv_def]
  have item: "item_of st (oik_account k) (oik_nonce k) \<noteq> None" if k: "k \<in> set (gl_result g)" for k
  proof -
    obtain t where "k = okey t" "t \<in> set (bt_Ascend (time_ops B) (priorityIndex st))"
      using k d unfolding bt_set_def by blast
    with priority_keys(2)[OF inv[folded st_def]] show ?thesis by (auto simp: okey_def)
  qed
  have txl: "map (\<lambda>v. getTxByOrderKey (oik_account v) (oik_nonce v)
        (st\<lparr>nonceCache := gl_nonces g, batchedTxs := gl_batched g\<rparr>)) (gl_result g)
      = map (\<lambda>k. Some (block_tx st k)) (gl_result g)"
  proof (rule map_cong[OF refl])
    fix k assume "k \<in> set (gl_result g)"
    then obtain it where "item_of st (oik_account k) (oik_nonce k) = Some it" using item by blast
    moreover have "item_of (st\<lparr>nonceCache := gl_nonces g, batchedTxs := gl_batched g\<rparr>) = item_of st"
      by (rule item_of_cong) simp
    ultimately show "getTxByOrderKey (oik_account k) (oik_nonce k)
        (st\<lparr>nonceCache := gl_nonces g, batchedTxs := gl_batched g\<rparr>) = Some (block_tx st k)"
      by (simp add: getTxByOrderKey_item block_tx_def)
  qed
  define ob where "ob = (if \<not> isTimed mpi \<and> gl_result g = [] \<and> priorityNonBatchSize st > 0 then None
      else Some \<lparr>batch_TxList = map (\<lambda>k. Some (block_tx st k)) (gl_result g), batch_Height = batchSeqNo mpi + 1,
                 batch_Timestamp = rt_now E\<rparr>)"
  define n where "n = (of_nat (length (gl_result g)) :: u64)"
  define mpi' where "mpi' = (if ob = None
      then mpi\<lparr>txStore := st\<lparr>nonceCache := gl_nonces g, batchedTxs := gl_batched g, priorityNonBatchSize := 0\<rparr>\<rparr>
      else mpi\<lparr>batchSeqNo := batchSeqNo mpi + 1,
        txStore := (if priorityNonBatchSize st \<ge> n
          then st\<lparr>nonceCache := gl_nonces g, batchedTxs := gl_batched g,
            priorityNonBatchSize := priorityNonBatchSize st - n\<rparr>
          else st\<lparr>nonceCache := gl_nonces g, batchedTxs := gl_batched g\<rparr>)\<rparr>)"
  have "generateBlock B E mpi = Some (ob, mpi')"
  proof (cases "\<not> isTimed mpi \<and> gl_result g = [] \<and> priorityNonBatchSize st > 0")
    case True
    then show ?thesis
      by (simp add: generateBlock_def Let_def st_def[symmetric] limit g(1) ob_def mpi'_def)
  next
    case False
    then have "\<not> (\<not> isTimed mpi \<and> length (gl_result g) = 0 \<and> priorityNonBatchSize
        (st\<lparr>nonceCache := gl_nonces g, batchedTxs := gl_batched g\<rparr>) > 0)" "ob \<noteq> None"
      by (simp_all add: ob_def)
    note eqs = if_not_P[OF this(1)] if_not_P[OF False] if_not_P[OF this(2)]
    show ?thesis
      unfolding generateBlock_def Let_def st_def[symmetric] limit g(1) option.case txl eqs
        mpi'_def n_def
      by (simp add: ob_def False)
  qed
  then show thesis
  proof (rule that)
    show "k \<in> taken (batchedTxs st) \<union> set (gl_result g) \<or>
      \<not> takeable (\<lambda>a. fst (getCommitNonce E a (nonceCache st))) (taken (batchedTxs st) \<union> set (gl_result g)) k"
      if "of_nat (length (gl_result g)) \<noteq> block_limit mpi" "k \<in> okey ` bt_set (time_ops B) (priorityIndex st)" for k
      using that g(4) d by (auto simp: gen_full_def)
  qed (use d item g(3) in \<open>auto simp: ob_def mpi'_def same_pool_def same_nonces_def\<close>)
qed

end
