(* ===== verification/Mempool_Safety.thy ===== *)
theory Mempool_Safety
  imports Mempool_Block
begin

text \<open>
  Every operation of the transaction pool ends without a panic and keeps the invariant; the pool as
  a step system, whose reachable states all satisfy it.
\<close>

section \<open>Accepting transactions\<close>

lemma store_inv_eff:
  assumes "store_inv B st"
  shows "pool_inv B (\<lambda>b. fst (getPendingNonce E b (nonceCache st)))
    (set (keys (pendingNonces (nonceCache st)))) D st"
  using assms unfolding store_inv_def
proof (rule pool_inv_weaken)
  fix a assume "a \<in> set (keys (pendingNonces (nonceCache st))) \<union> {}"
  then obtain n where "gget (pendingNonces (nonceCache st)) a = Some n" by (auto simp: gget_dom simp del: set_map)
  then show "fst (getPendingNonce E a (nonceCache st)) = gget0 0 (pendingNonces (nonceCache st)) a" by simp
qed auto

abbreviation process_start :: "('t, 'i, 'n) transactionStore \<Rightarrow> process_loop" where
  "process_start st \<equiv> \<lparr>pl_nonces = nonceCache st, pl_pointers = [], pl_validTxs = [], pl_validTxList = []\<rparr>"

text \<open>The store after the accepted transactions were inserted and the dirty accounts processed.\<close>

lemma process_store:
  fixes loc :: bool
  assumes rt: "runtime_ok E" and inv: "store_inv B st" and nonces: "\<forall>tx \<in> set txs. tx_nonce tx \<noteq> -1"
  defines "l \<equiv> fold (process_one E (txHashMap st)) txs (process_start st)"
  defines "ins \<equiv> insertTxs B E (pl_validTxs l) loc (st\<lparr>nonceCache := pl_nonces l\<rparr>)"
  obtains st2 where "processDirtyAccount B E (fst ins) (snd ins) = Some st2" and "store_inv B st2"
    and "allTxs st2 = allTxs (snd ins)" and "txHashMap st2 = txHashMap (snd ins)" and "batchedTxs st2 = batchedTxs st"
    and "\<And>b. fst (getCommitNonce E b (nonceCache st2)) = fst (getCommitNonce E b (nonceCache st))"
    and "\<And>b. fst (getPendingNonce E b (nonceCache st)) \<le> fst (getPendingNonce E b (nonceCache st2))"
proof -
  let ?st0 = "st\<lparr>nonceCache := pl_nonces l\<rparr>"
  let ?D = "{a. gget (pl_validTxs l) a \<noteq> None}"
  have same: "same_nonces E (nonceCache st) (pl_nonces l)"
    unfolding l_def by (rule process_loop_nonces) (simp add: same_nonces_def)
  have "pool_inv B (\<lambda>b. fst (getPendingNonce E b (nonceCache st)))
      (set (keys (pendingNonces (nonceCache st)))) ?D st"
    by (rule store_inv_eff[OF inv])
  then have inv0: "pool_inv B (\<lambda>b. fst (getPendingNonce E b (pl_nonces l)))
      (set (keys (pendingNonces (pl_nonces l)))) ?D ?st0"
    using same unfolding same_nonces_def by (subst pool_inv_cong[of _ st]) simp_all
  have valid: "\<forall>(a, tx) \<in> txs_pairs (pl_validTxs l).
      \<not> tx_nonce tx < fst (getPendingNonce E a (pl_nonces l)) \<and> tx_nonce tx \<noteq> -1 \<and> a \<in> ?D"
  proof (clarify, intro conjI)
    fix a tx assume p: "(a, tx) \<in> txs_pairs (pl_validTxs l)"
    from process_loop_valid[of E "nonceCache st", OF _ _ p[unfolded l_def]]
    have v: "tx \<in> set txs" "\<not> tx_nonce tx < fst (getPendingNonce E a (nonceCache st))"
      by (auto simp: same_nonces_def)
    show "\<not> tx_nonce tx < fst (getPendingNonce E a (pl_nonces l))"
      using v(2) same by (simp add: same_nonces_def)
    show "tx_nonce tx \<noteq> -1" using v(1) nonces by simp
    show "a \<in> ?D" using p by (auto simp: txs_pairs_def)
  qed
  note ins_inv = pool_inv_insertTxs[OF rt inv0 valid, of loc, folded ins_def]
  obtain ps where ps: "snd ins = fold (\<lambda>(a, tx). insertTx B (rt_now E) loc a tx) ps ?st0"
    "\<And>a. gget (fst ins) a = (if gget (pl_validTxs l) a = None then None else Some True)"
    "distinct (keys (fst ins))"
    by (rule insertTxs_eq[OF rt, where B = B and txs = "pl_validTxs l" and loc = loc and st = ?st0,
        folded ins_def]) (rule that)
  have b: "batchedTxs (snd ins) = batchedTxs st"
    unfolding ps(1) by (rule fold_invariant[where P = "\<lambda>s. batchedTxs s = batchedTxs st"]) auto
  have D: "{a. gget (fst ins) a \<noteq> None} = ?D" by (auto simp: ps(2))
  have "pool_inv B (\<lambda>b. fst (getPendingNonce E b (nonceCache (snd ins))))
      (set (keys (pendingNonces (nonceCache (snd ins))))) {a. gget (fst ins) a \<noteq> None} (snd ins)"
    using ins_inv unfolding D by simp
  from processDirtyAccount_inv[OF rt ps(3) this] obtain st2 where
    "processDirtyAccount B E (fst ins) (snd ins) = Some st2" "store_inv B st2"
    "allTxs st2 = allTxs (snd ins)" "txHashMap st2 = txHashMap (snd ins)" "batchedTxs st2 = batchedTxs (snd ins)"
    "\<And>b. fst (getCommitNonce E b (nonceCache st2)) = fst (getCommitNonce E b (nonceCache (snd ins)))"
    "\<And>b. fst (getPendingNonce E b (nonceCache (snd ins))) \<le> fst (getPendingNonce E b (nonceCache st2))"
    by blast
  with same b ins_inv(2) show thesis by (intro that[of st2]) (simp_all add: same_nonces_def)
qed

lemma ProcessTransactions_safe:
  assumes "runtime_ok E" "store_inv B (txStore mpi)" "\<forall>tx \<in> set txs. tx_nonce tx \<noteq> -1"
  obtains b mpi' where "ProcessTransactions B E txs isLeader isLocal mpi = Some (b, mpi')"
    and "store_inv B (txStore mpi')" and "txSliceSize mpi' = txSliceSize mpi"
proof -
  define l where "l = fold (process_one E (txHashMap (txStore mpi))) txs (process_start (txStore mpi))"
  define ins where "ins = insertTxs B E (pl_validTxs l) isLocal ((txStore mpi)\<lparr>nonceCache := pl_nonces l\<rparr>)"
  obtain st2 where st2: "processDirtyAccount B E (fst ins) (snd ins) = Some st2" "store_inv B st2"
    by (rule process_store[OF assms, of isLocal, folded l_def, folded ins_def]) (rule that)
  define mpi1 where "mpi1 = (postTxsEvent (pl_validTxList l) mpi)\<lparr>txStore := st2\<rparr>"
  have mpi1: "store_inv B (txStore mpi1)" "txSliceSize mpi1 = txSliceSize mpi"
    using st2(2) by (simp_all add: mpi1_def postTxsEvent_def)
  have eq: "ProcessTransactions B E txs isLeader isLocal mpi =
      (if isLeader \<and> priorityNonBatchSize st2 \<ge> batchSize mpi \<and> \<not> isTimed mpi
       then generateBlock B E mpi1 else Some (None, mpi1))"
    by (simp add: ProcessTransactions_def Let_def case_prod_unfold l_def[symmetric] ins_def[symmetric]
        st2(1) mpi1_def)
  show thesis
  proof (cases "isLeader \<and> priorityNonBatchSize st2 \<ge> batchSize mpi \<and> \<not> isTimed mpi")
    case True
    obtain ob mpi' where g: "generateBlock B E mpi1 = Some (ob, mpi')" "same_pool (txStore mpi1) (txStore mpi')"
      "txSliceSize mpi' = txSliceSize mpi1"
      by (rule generateBlock_spec[OF mpi1(1), of E]) (rule that)
    with mpi1 show thesis
      by (intro that[of ob mpi']) (simp_all add: eq if_P[OF True] store_inv_same_pool[OF g(2)])
  next
    case False
    with mpi1 show thesis by (intro that[of None mpi1]) (simp_all add: eq if_not_P[OF False])
  qed
qed

lemma GenerateBlock_safe:
  assumes "store_inv B (txStore mpi)"
  obtains b mpi' where "GenerateBlock B E mpi = Some (b, mpi')" and "store_inv B (txStore mpi')"
    and "txSliceSize mpi' = txSliceSize mpi"
proof -
  obtain ob mpi' where g: "generateBlock B E mpi = Some (ob, mpi')" "same_pool (txStore mpi) (txStore mpi')"
    "txSliceSize mpi' = txSliceSize mpi"
    by (rule generateBlock_spec[OF assms, of E]) (rule that)
  show thesis
  proof (cases "\<not> isTimed mpi \<and> priorityNonBatchSize (txStore mpi) = 0")
    case True
    with assms show thesis by (intro that[of None mpi]) (simp_all add: GenerateBlock_def)
  next
    case False
    with g assms show thesis
      by (intro that[of ob mpi']) (auto simp: GenerateBlock_def store_inv_same_pool[OF g(2)])
  qed
qed

section \<open>Removing transactions\<close>

text \<open>
  Removing the items \<open>R\<close>, with their priority keys and at least their live times, keeps the
  invariant.
\<close>

lemma pool_inv_remove:
  assumes inv: "pool_inv B eff K D st"
    and item: "\<And>b n. item_of st' b n = (if (b, n) \<in> R then None else item_of st b n)"
    and sm: "\<And>a l. gget (allTxs st') a = Some l \<Longrightarrow> sm_ok B a l"
    and ttl: "tlm_inv B (ttlIndex st')" "dom (tlm_times (ttlIndex st')) \<subseteq> dom (tlm_times (ttlIndex st)) - R"
    and tam: "tam_inv B (removeTimeoutIndex st')"
    and prio: "bt_set (time_ops B) (priorityIndex st')
      = {k \<in> bt_set (time_ops B) (priorityIndex st). (otk_account k, otk_nonce k) \<notin> R}"
  shows "pool_inv B eff K D st'"
  unfolding pool_inv_def
proof (intro conjI allI impI)
  note inv' = pool_invD[OF inv]
  show "btrees_ok B" by (rule inv'(1))
  show "sm_ok B a l" if "gget (allTxs st') a = Some l" for a l by (rule sm[OF that])
  show "tlm_inv B (ttlIndex st')" "tam_inv B (removeTimeoutIndex st')" by (rule ttl tam)+
  show "item_of st' a n \<noteq> None" if t: "tlm_times (ttlIndex st') (a, n) \<noteq> None" for a n
  proof -
    have "(a, n) \<in> dom (tlm_times (ttlIndex st)) - R" using ttl(2) t by (auto simp: dom_def)
    with inv'(4)[of a n] item show ?thesis by auto
  qed
  fix a n t assume "OrderedTimeoutKey a n t \<in> bt_set (time_ops B) (priorityIndex st')"
  then have k: "OrderedTimeoutKey a n t \<in> bt_set (time_ops B) (priorityIndex st)" "(a, n) \<notin> R"
    by (auto simp: prio)
  show "\<exists>it. item_of st' a n = Some it \<and> tx_timestamp (item_tx it) = t"
    using inv'(6)[OF k(1)] k(2) by (simp add: item)
  show "a \<in> K" "n < eff a" using inv'(7)[OF k(1)] by simp_all
next
  note inv' = pool_invD[OF inv]
  fix a n it assume "item_of st' a n = Some it"
  then have i: "item_of st a n = Some it" "(a, n) \<notin> R" by (simp_all add: item split: if_splits)
  show "n \<noteq> -1" "a \<in> K \<union> D" using inv'(8)[OF i(1)] by simp_all
  show "OrderedTimeoutKey a n (tx_timestamp (item_tx it)) \<in> bt_set (time_ops B) (priorityIndex st')"
    if "n < eff a" using inv'(9)[OF i(1) that] i(2) by (simp add: prio)
qed

lemma sm_ok_removed:
  assumes "sm_ok B a l" "bt_set (nonce_ops B) (sm_index l') \<subseteq> bt_set (nonce_ops B) (sm_index l) - SortedNonceKey ` N"
    and "\<And>n. gget (sm_items l') n = (if n \<in> N then None else gget (sm_items l) n)"
  shows "sm_ok B a l'"
  unfolding sm_ok_def
proof (intro conjI ballI allI impI)
  fix k assume k: "k \<in> bt_set (nonce_ops B) (sm_index l')"
  then have "snk_nonce k \<notin> N" "k \<in> bt_set (nonce_ops B) (sm_index l)" using assms(2) by (cases k; auto)+
  with assms(1,3) show "gget (sm_items l') (snk_nonce k) \<noteq> None" by (auto simp: sm_ok_def)
next
  fix n it assume "gget (sm_items l') n = Some it"
  with assms(1,3) show "item_account it = a" "tx_nonce (item_tx it) = n"
    by (auto simp: sm_ok_def split: if_splits)
qed

section \<open>Committing\<close>

text \<open>Cleaning up an account removes its indexed items below the commit nonce, everywhere.\<close>

lemma mem_snk_nonce: "n \<in> snk_nonce ` S \<longleftrightarrow> SortedNonceKey n \<in> S"
  by (metis (no_types, lifting) image_iff sortedNonceKey.collapse sortedNonceKey.sel)

lemma clean_one_spec:
  fixes a :: string
  assumes rt: "runtime_ok E" and inv: "store_inv B st"
  defines "c \<equiv> fst (getCommitNonce E a (nonceCache st))"
  obtains st' where "clean_one B E a st = Some st'" and "store_inv B st'"
    and "\<And>b n. item_of st' b n = (if b = a \<and> n \<in> index_of B st a \<and> n < c then None else item_of st b n)"
    and "index_of B st' = (index_of B st)(a := {n \<in> index_of B st a. \<not> n < c})"
    and "txHashMap st' = txHashMap st" "batchedTxs st' = batchedTxs st"
    and "same_nonces E (nonceCache st) (nonceCache st')"
proof (cases "gget (allTxs st) a")
  case None
  define nc where "nc = snd (getCommitNonce E a (nonceCache st))"
  have "clean_one B E a st = Some (st\<lparr>nonceCache := nc\<rparr>)"
    by (simp add: clean_one_def case_prod_unfold Let_def None nc_def)
  moreover have "store_inv B (st\<lparr>nonceCache := nc\<rparr>)"
    using inv by (subst store_inv_same_pool[of st]) (simp_all add: same_pool_def nc_def)
  ultimately show thesis
    by (rule that) (auto simp: None item_of_def index_of_def fun_eq_iff nc_def same_nonces_def)
next
  case (Some l)
  define nc where "nc = snd (getCommitNonce E a (nonceCache st))"
  note inv' = pool_invD[OF inv[unfolded store_inv_def]]
  have ok: "btree_ok (time_ops B)" "btree_ok (nonce_ops B)" using inv'(1) by (simp_all add: btrees_ok_def)
  have sm: "sm_ok B a l" by (rule inv'(2)[OF Some])
  define N where "N = {n. SortedNonceKey n \<in> bt_set (nonce_ops B) (sm_index l) \<and> n < c}"
  have N: "N = {n \<in> index_of B st a. n < c}" by (auto simp: N_def index_of_def Some mem_snk_nonce)
  obtain its' rem where f: "forward B l c = Some (l\<lparr>sm_items := its'\<rparr>, rem)"
    "\<And>n. gget its' n = (if SortedNonceKey n \<in> bt_set (nonce_ops B) (sm_index l) \<and> n < c then None
           else gget (sm_items l) n)"
    "txs_pairs rem = {(a, item_tx it) |n it. gget (sm_items l) n = Some it \<and> n < c \<and>
           SortedNonceKey n \<in> bt_set (nonce_ops B) (sm_index l)}"
    by (rule forward_spec[OF inv'(1) sm, of c]) (rule that)
  have mem: "(b, tx) \<in> txs_pairs rem \<longleftrightarrow>
      b = a \<and> tx_nonce tx \<in> N \<and> (\<exists>it. gget (sm_items l) (tx_nonce tx) = Some it \<and> item_tx it = tx)" for b tx
    unfolding f(3) N_def using sm by (auto simp: sm_ok_def)
  have at: "\<exists>it. gget (sm_items l) n = Some it \<and> tx_nonce (item_tx it) = n" if "n \<in> N" for n
    using that sm by (fastforce simp: N_def sm_ok_def)
  have ptrs: "(\<lambda>(b, tx). (b, tx_nonce tx)) ` txs_pairs rem = Pair a ` N"
    using at mem by (force simp: image_iff)
  define l' where "l' = l\<lparr>sm_items := its',
    sm_index := removeBySortedNonceKey (nonce_ops B) (rt_order E 4) rem (sm_index l)\<rparr>"
  define st1 where "st1 = updateEarliestTimestamp B (st\<lparr>nonceCache := nc, allTxs := gset a l' (allTxs st),
    priorityIndex := removeByTimeoutKey (time_ops B) (rt_order E 5) rem (priorityIndex st),
    ttlIndex := tlm_removeByTtlKey B (rt_order E 6) rem (ttlIndex st)\<rparr>)"
  define st' where "st' = st1\<lparr>removeTimeoutIndex := tam_removeByTtlKey B (rt_order E 7) rem (removeTimeoutIndex st1),
    parkingLotIndex := removeByOrderedQueueKey (queue_ops B) (rt_order E 8) rem (parkingLotIndex st1)\<rparr>"
  have eq: "clean_one B E a st = Some st'"
    by (simp add: clean_one_def case_prod_unfold Let_def Some c_def[symmetric] f(1) nc_def[symmetric]
        l'_def st1_def st'_def)
  have fields: "allTxs st' = gset a l' (allTxs st)" "ttlIndex st' = tlm_removeByTtlKey B (rt_order E 6) rem (ttlIndex st)"
    "priorityIndex st' = removeByTimeoutKey (time_ops B) (rt_order E 5) rem (priorityIndex st)"
    "removeTimeoutIndex st' = tam_removeByTtlKey B (rt_order E 7) rem (removeTimeoutIndex st)"
    "nonceCache st' = nc" "txHashMap st' = txHashMap st" "batchedTxs st' = batchedTxs st"
    by (simp_all add: st'_def st1_def updateEarliestTimestamp_def)
  have idx: "bt_set (nonce_ops B) (sm_index l') = bt_set (nonce_ops B) (sm_index l) - SortedNonceKey ` N"
    using ptrs[THEN arg_cong[of _ _ "image (\<lambda>p. SortedNonceKey (snd p))"]] rt ok
    by (simp add: l'_def bt_set_removes makeSortedNonceKey_def image_image case_prod_unfold)
  have item: "item_of st' b n = (if (b, n) \<in> Pair a ` N then None else item_of st b n)" for b n
    by (auto simp: item_of_def fields l'_def f(2) Some N_def)
  have "pool_inv B (gget0 0 (pendingNonces (nonceCache st))) (set (keys (pendingNonces (nonceCache st)))) {} st'"
  proof (rule pool_inv_remove[OF inv[unfolded store_inv_def] item])
    show "sm_ok B b m" if "gget (allTxs st') b = Some m" for b m
    proof (cases "b = a")
      case True
      have "sm_ok B a l'" 
        by (rule sm_ok_removed[OF sm equalityD1[OF idx]]) (simp add: f(2) N_def l'_def)
      with True that show ?thesis by (simp add: fields)
    next
      case False
      with that inv'(2) show ?thesis by (simp add: fields)
    qed
    show "tlm_inv B (ttlIndex st')" "tam_inv B (removeTimeoutIndex st')"
      by (simp_all add: fields tlm_remove_inv tam_remove_inv inv')
    show "dom (tlm_times (ttlIndex st')) \<subseteq> dom (tlm_times (ttlIndex st)) - Pair a ` N"
      using rt by (simp add: fields live.dom_remove ptrs)
    have "(\<lambda>(b, tx). makeTimeoutKey b tx) ` txs_pairs rem \<inter> bt_set (time_ops B) (priorityIndex st)
        = {k \<in> bt_set (time_ops B) (priorityIndex st). (otk_account k, otk_nonce k) \<in> Pair a ` N}" (is "?L = ?R")
    proof
      show "?L \<subseteq> ?R" by (auto simp: mem makeTimeoutKey_def)
      show "?R \<subseteq> ?L"
      proof
        fix k assume k: "k \<in> ?R"
        then have "OrderedTimeoutKey a (otk_nonce k) (otk_timestamp k) \<in> bt_set (time_ops B) (priorityIndex st)"
          and n: "otk_account k = a" "otk_nonce k \<in> N" by (auto simp: image_iff)
        from inv'(6)[OF this(1)] obtain it where "gget (sm_items l) (otk_nonce k) = Some it"
          "tx_timestamp (item_tx it) = otk_timestamp k" by (auto simp: item_of_def Some)
        moreover from this sm have "tx_nonce (item_tx it) = otk_nonce k" by (simp add: sm_ok_def)
        ultimately have "(a, item_tx it) \<in> txs_pairs rem" "makeTimeoutKey a (item_tx it) = k"
          using n by (auto simp: mem makeTimeoutKey_def intro: orderedTimeoutKey.expand)
        with k show "k \<in> ?L" by force
      qed
    qed
    then show "bt_set (time_ops B) (priorityIndex st')
        = {k \<in> bt_set (time_ops B) (priorityIndex st). (otk_account k, otk_nonce k) \<notin> Pair a ` N}"
      using rt ok by (auto simp: fields bt_set_removes)
  qed
  then have "store_inv B st'" by (simp add: store_inv_def fields nc_def)
  moreover have "index_of B st' = (index_of B st)(a := {n \<in> index_of B st a. \<not> n < c})"
    by (rule ext) (auto simp: index_of_def fields idx Some N_def mem_snk_nonce set_eq_iff)
  ultimately show thesis
    by (intro that[OF eq]) (auto simp: item N fields nc_def same_nonces_def)
qed

text \<open>The first loop only touches the hash map, the batched keys and the cache.\<close>

lemma commit_one_simps:
  assumes "c' = commit_one E h c"
  shows "same_pool (cl_store c) ((cl_store c')\<lparr>txHashMap := txHashMap (cl_store c)\<rparr>)"
    and "same_nonces E (nonceCache (cl_store c)) (nonceCache (cl_store c'))"
    and "distinct (keys (cl_dirty c)) \<Longrightarrow> distinct (keys (cl_dirty c'))"
  unfolding assms
  by (auto simp: commit_one_def Let_def case_prod_unfold same_pool_def same_nonces_def simp del: set_map
      split: option.splits)

lemma commit_loop_simps:
  fixes c :: "('t, 'i, 'n) commit_loop"
  assumes "c' = fold (commit_one E) hs c"
  shows "same_pool (cl_store c) ((cl_store c')\<lparr>txHashMap := txHashMap (cl_store c)\<rparr>)"
    and "same_nonces E (nonceCache (cl_store c)) (nonceCache (cl_store c'))"
    and "distinct (keys (cl_dirty c)) \<Longrightarrow> distinct (keys (cl_dirty c'))"
proof -
  let ?P = "\<lambda>x :: ('t, 'i, 'n) commit_loop. same_pool (cl_store c) ((cl_store x)\<lparr>txHashMap := txHashMap (cl_store c)\<rparr>) \<and>
      same_nonces E (nonceCache (cl_store c)) (nonceCache (cl_store x)) \<and>
      (distinct (keys (cl_dirty c)) \<longrightarrow> distinct (keys (cl_dirty x)))"
  have "?P c'"
    unfolding assms
  proof (rule fold_invariant[where P = ?P])
    fix h x assume "?P x"
    with commit_one_simps[where c' = "commit_one E h x" and E = E and h = h and c = x, OF refl] show "?P (commit_one E h x)"
      by (simp add: same_pool_def same_nonces_def)
  qed (simp add: same_pool_def same_nonces_def)
  then show "same_pool (cl_store c) ((cl_store c')\<lparr>txHashMap := txHashMap (cl_store c)\<rparr>)"
    "same_nonces E (nonceCache (cl_store c)) (nonceCache (cl_store c'))"
    "distinct (keys (cl_dirty c)) \<Longrightarrow> distinct (keys (cl_dirty c'))" by auto
qed

lemma store_inv_hashes [simp]: "store_inv B (st\<lparr>txHashMap := h\<rparr>) \<longleftrightarrow> store_inv B st"
  unfolding store_inv_def by (subst pool_inv_cong[of _ st]) simp_all

lemma clean_loop_spec:
  fixes st :: "('t, 'i, 'n) transactionStore"
  assumes rt: "runtime_ok E" and inv: "store_inv B st" and "distinct as"
  defines "c \<equiv> \<lambda>a. fst (getCommitNonce E a (nonceCache st))"
  obtains st' where "ofold (clean_one B E) as st = Some st'" and "store_inv B st'"
    and "\<And>b n. item_of st' b n = (if b \<in> set as \<and> n \<in> index_of B st b \<and> n < c b then None else item_of st b n)"
    and "\<And>b. index_of B st' b = (if b \<in> set as then {n \<in> index_of B st b. \<not> n < c b} else index_of B st b)"
    and "txHashMap st' = txHashMap st" "batchedTxs st' = batchedTxs st"
    and "same_nonces E (nonceCache st) (nonceCache st')"
proof -
  let ?P = "\<lambda>vis (x :: ('t, 'i, 'n) transactionStore). store_inv B x \<and>
    (\<forall>b n. item_of x b n = (if b \<in> set vis \<and> n \<in> index_of B st b \<and> n < c b then None else item_of st b n)) \<and>
    (\<forall>b. index_of B x b = (if b \<in> set vis then {n \<in> index_of B st b. \<not> n < c b} else index_of B st b)) \<and>
    txHashMap x = txHashMap st \<and> batchedTxs x = batchedTxs st \<and> same_nonces E (nonceCache st) (nonceCache x)"
  have "\<exists>x. ofold (clean_one B E) as st = Some x \<and> ?P as x"
  proof (rule ofold_invariant)
    show "?P [] st" using inv by (simp add: same_nonces_def)
    fix vis a x assume P: "?P vis x" and split: "\<exists>rest. as = vis @ a # rest"
    have new: "a \<notin> set vis" using split assms(3) by auto
    have c: "fst (getCommitNonce E a (nonceCache x)) = c a" using P by (simp add: same_nonces_def c_def)
    obtain y where y: "clean_one B E a x = Some y" "store_inv B y"
      "\<And>b n. item_of y b n = (if b = a \<and> n \<in> index_of B x a \<and> n < c a then None else item_of x b n)"
      "index_of B y = (index_of B x)(a := {n \<in> index_of B x a. \<not> n < c a})"
      "txHashMap y = txHashMap x" "batchedTxs y = batchedTxs x"
      "same_nonces E (nonceCache x) (nonceCache y)"
      by (rule clean_one_spec[OF rt P[THEN conjunct1], of a, unfolded c]) (rule that)
    have "?P (vis @ [a]) y"
      using P new y by (auto simp: same_nonces_def)
    with y(1) show "\<exists>y. clean_one B E a x = Some y \<and> ?P (vis @ [a]) y" by blast
  qed
  then show thesis using that by blast
qed

text \<open>
  What the first loop collects: the hashes are gone, and the new commit nonces lie above the committed
  transactions and above the old ones.
\<close>

lemma commit_loop_collect:
  fixes c0 :: "('t, 'i, 'n) commit_loop" and E :: "'a env_scheme" and hs :: "string list"
  assumes "cl_update c0 = []"
  defines "cn \<equiv> \<lambda>a. fst (getCommitNonce E a (nonceCache (cl_store c0)))"
  defines "c \<equiv> fold (commit_one E) hs c0"
  shows "gget (txHashMap (cl_store c)) h = (if h \<in> set hs then None else gget (txHashMap (cl_store c0)) h)"
    and "gget (cl_update c) a = Some m \<Longrightarrow> cn a < m"
    and "h \<in> set hs \<Longrightarrow> gget (txHashMap (cl_store c0)) h = Some k \<Longrightarrow> gget (cl_dirty c) (oik_account k) \<noteq> None \<and>
      (oik_nonce k + 1 \<le> cn (oik_account k) \<or>
        (\<exists>m. gget (cl_update c) (oik_account k) = Some m \<and> oik_nonce k + 1 \<le> m))"
proof -
  let ?cov = "\<lambda>k (x :: ('t, 'i, 'n) commit_loop). gget (cl_dirty x) (oik_account k) \<noteq> None \<and>
      (oik_nonce k + 1 \<le> cn (oik_account k) \<or>
        (\<exists>m. gget (cl_update x) (oik_account k) = Some m \<and> oik_nonce k + 1 \<le> m))"
  let ?P = "\<lambda>vis (x :: ('t, 'i, 'n) commit_loop).
    (\<forall>h. gget (txHashMap (cl_store x)) h = (if h \<in> set vis then None else gget (txHashMap (cl_store c0)) h)) \<and>
    (\<forall>a m. gget (cl_update x) a = Some m \<longrightarrow> cn a < m) \<and>
    (\<forall>h k. h \<in> set vis \<longrightarrow> gget (txHashMap (cl_store c0)) h = Some k \<longrightarrow> ?cov k x)"
  have step: "?P (vis @ [h]) (commit_one E h x)"
    if P: "?P vis x" and same: "same_nonces E (nonceCache (cl_store c0)) (nonceCache (cl_store x))" for vis h x
  proof (cases "gget (txHashMap (cl_store x)) h")
    case None
    then have "commit_one E h x = x" by (simp add: commit_one_def Let_def)
    with P None show ?thesis by (auto split: if_splits)
  next
    case (Some k)
    define c1 where "c1 = commit_one E h x"
    have cn: "fst (getCommitNonce E (oik_account k) (nonceCache (cl_store x))) = cn (oik_account k)"
      using same by (simp add: same_nonces_def cn_def)
    have c1: "txHashMap (cl_store c1) = gdel h (txHashMap (cl_store x))"
      "cl_dirty c1 = gset (oik_account k) True (cl_dirty x)"
      "cl_update c1 = (if gget0 0 (cl_update x) (oik_account k) < oik_nonce k + 1 \<and>
          cn (oik_account k) < oik_nonce k + 1
        then gset (oik_account k) (oik_nonce k + 1) (cl_update x) else cl_update x)"
      using Some cn unfolding c1_def by (simp_all add: commit_one_def Let_def case_prod_unfold)
    have up: "\<exists>m'. gget (cl_update c1) b = Some m' \<and> m \<le> m'" if "gget (cl_update x) b = Some m" for b m
      using that by (cases "b = oik_account k") (simp_all add: c1 less_imp_le)
    have mono: "?cov k' c1" if "?cov k' x" for k'
    proof -
      have "gget (cl_dirty c1) (oik_account k') \<noteq> None" using that by (auto simp: c1)
      moreover have "\<exists>m. gget (cl_update c1) (oik_account k') = Some m \<and> oik_nonce k' + 1 \<le> m"
        if "gget (cl_update x) (oik_account k') = Some m" "oik_nonce k' + 1 \<le> m" for m
        using up[OF that(1)] order_trans[OF that(2)] by blast
      ultimately show ?thesis using that by blast
    qed
    have "?cov k c1"
      by (auto simp: c1 not_less gget0_def split: option.splits)
    have h: "gget (txHashMap (cl_store c0)) h = Some k" using P Some by (simp split: if_splits)
    show ?thesis
      unfolding c1_def[symmetric]
    proof (intro conjI allI impI)
      show "gget (txHashMap (cl_store c1)) h' =
          (if h' \<in> set (vis @ [h]) then None else gget (txHashMap (cl_store c0)) h')" for h'
        using P by (simp add: c1)
      show "cn a < m" if "gget (cl_update c1) a = Some m" for a m
        using P that by (cases "a = oik_account k") (simp_all add: c1 split: if_splits)
      fix h' k' assume k': "h' \<in> set (vis @ [h])" "gget (txHashMap (cl_store c0)) h' = Some k'"
      have "?cov k' c1"
      proof (cases "h' = h")
        case True
        with h k'(2) \<open>?cov k c1\<close> show ?thesis by simp
      next
        case False
        with P k' have "?cov k' x" by simp
        then show ?thesis by (rule mono)
      qed
      then show "gget (cl_dirty c1) (oik_account k') \<noteq> None"
        "oik_nonce k' + 1 \<le> cn (oik_account k') \<or>
          (\<exists>m. gget (cl_update c1) (oik_account k') = Some m \<and> oik_nonce k' + 1 \<le> m)" by blast+
    qed
  qed
  have "?P hs c \<and> same_nonces E (nonceCache (cl_store c0)) (nonceCache (cl_store c))"
    unfolding c_def
  proof (induction hs rule: rev_induct)
    case Nil
    show ?case using assms(1) by (simp add: same_nonces_def)
  next
    case (snoc h hs)
    have "same_nonces E (nonceCache (cl_store c0)) (nonceCache (cl_store (fold (commit_one E) (hs @ [h]) c0)))"
      by (rule commit_loop_simps(2)[OF refl])
    with step[OF conjunct1[OF snoc.IH] conjunct2[OF snoc.IH], of h] show ?case by simp
  qed
  then show "gget (txHashMap (cl_store c)) h = (if h \<in> set hs then None else gget (txHashMap (cl_store c0)) h)"
    "gget (cl_update c) a = Some m \<Longrightarrow> cn a < m"
    "h \<in> set hs \<Longrightarrow> gget (txHashMap (cl_store c0)) h = Some k \<Longrightarrow> gget (cl_dirty c) (oik_account k) \<noteq> None \<and>
      (oik_nonce k + 1 \<le> cn (oik_account k) \<or>
        (\<exists>m. gget (cl_update c) (oik_account k) = Some m \<and> oik_nonce k + 1 \<le> m))" by blast+
qed

text \<open>The nonces the pool holds as committed, before and after.\<close>

definition commit_nonce :: "'a env_scheme \<Rightarrow> ('t, 'i, 'n) mempool \<Rightarrow> string \<Rightarrow> u64" where
  "commit_nonce E mpi a = fst (getCommitNonce E a (nonceCache (txStore mpi)))"

lemma CommitTransactions_spec:
  fixes mpi :: "('t, 'i, 'n) mempool"
  assumes rt: "runtime_ok E" and inv: "store_inv B (txStore mpi)"
  obtains mpi' where "CommitTransactions B E state mpi = Some mpi'" and "store_inv B (txStore mpi')"
    and "txSliceSize mpi' = txSliceSize mpi"
    and "\<And>h. gget (txHashMap (txStore mpi')) h =
      (if h \<in> set (cs_TxHashList state) then None else gget (txHashMap (txStore mpi)) h)"
    and "\<And>a. commit_nonce E mpi a \<le> commit_nonce E mpi' a"
    and "\<And>h k. h \<in> set (cs_TxHashList state) \<Longrightarrow> gget (txHashMap (txStore mpi)) h = Some k \<Longrightarrow>
      oik_nonce k + 1 \<le> commit_nonce E mpi' (oik_account k) \<and>
      (\<forall>n \<in> index_of B (txStore mpi') (oik_account k). commit_nonce E mpi' (oik_account k) \<le> n) \<and>
      (\<forall>n. n \<in> index_of B (txStore mpi) (oik_account k) \<longrightarrow> n < commit_nonce E mpi' (oik_account k) \<longrightarrow>
        item_of (txStore mpi') (oik_account k) n = None)"
    and "\<And>a n. n \<notin> index_of B (txStore mpi) a \<or> \<not> n < commit_nonce E mpi' a \<Longrightarrow>
      item_of (txStore mpi') a n = item_of (txStore mpi) a n"
    and "unat (priorityNonBatchSize (txStore mpi')) \<le> card (bt_set (time_ops B) (priorityIndex (txStore mpi')))"
proof -
  define c0 :: "('t, 'i, 'n) commit_loop" where "c0 = \<lparr>cl_dirty = [], cl_update = [], cl_store = txStore mpi\<rparr>"
  define c where "c = fold (commit_one E) (cs_TxHashList state) c0"
  define st1 where "st1 = (cl_store c)\<lparr>nonceCache :=
    updateCommittedNonce (rt_order E 9) (cl_update c) (nonceCache (cl_store c))\<rparr>"
  let ?as = "map fst (go_range (rt_order E 10) (cl_dirty c))"
  have ok9: "order_ok (rt_order E 9)" and ok10: "order_ok (rt_order E 10)" using rt by simp_all
  note simps = commit_loop_simps[OF c_def] and
    collect = commit_loop_collect[where ?c0.0 = c0 and E = E and hs = "cs_TxHashList state", folded c_def,
      unfolded c0_def commit_loop.simps, OF refl]
  have same: "same_nonces E (nonceCache (txStore mpi)) (nonceCache (cl_store c))"
    and pool: "same_pool (txStore mpi) ((cl_store c)\<lparr>txHashMap := txHashMap (txStore mpi)\<rparr>)"
    using simps(1,2) by (simp_all add: c0_def)
  have "distinct (keys (cl_dirty c))" using simps(3) by (simp add: c0_def)
  then have dist: "distinct ?as" by (rule distinct_go_range[OF ok10])
  have as: "set ?as = {a. gget (cl_dirty c) a \<noteq> None}" using fst_go_range[OF ok10, of "cl_dirty c"] by simp
  have "store_inv B (cl_store c)" using inv store_inv_same_pool[OF pool, of B] by simp
  moreover have "same_pool (cl_store c) st1"
    by (simp add: same_pool_def st1_def updateCommittedNonce_simps[OF ok9])
  ultimately have inv1: "store_inv B st1" by (simp add: store_inv_same_pool)
  have cn1: "fst (getCommitNonce E a (nonceCache st1)) =
      (case gget (cl_update c) a of None \<Rightarrow> commit_nonce E mpi a | Some m \<Rightarrow> m)" for a
    using same unfolding getCommitNonce_fst
    by (cases "gget (cl_update c) a")
      (simp_all add: st1_def updateCommittedNonce_simps[OF ok9] same_nonces_def commit_nonce_def getCommitNonce_fst)
  obtain st2 where st2: "ofold (clean_one B E) ?as st1 = Some st2" "store_inv B st2"
    "\<And>b n. item_of st2 b n = (if b \<in> set ?as \<and> n \<in> index_of B st1 b \<and>
       n < fst (getCommitNonce E b (nonceCache st1)) then None else item_of st1 b n)"
    "\<And>b. index_of B st2 b = (if b \<in> set ?as then {n \<in> index_of B st1 b.
       \<not> n < fst (getCommitNonce E b (nonceCache st1))} else index_of B st1 b)"
    "txHashMap st2 = txHashMap st1" "same_nonces E (nonceCache st1) (nonceCache st2)"
    by (rule clean_loop_spec[OF rt inv1 dist]) (rule that)
  define mpi' where "mpi' = mpi\<lparr>txStore :=
    (if priorityNonBatchSize st2 > of_nat (btreeIndex_size (time_ops B) (priorityIndex st2))
     then st2\<lparr>priorityNonBatchSize := of_nat (btreeIndex_size (time_ops B) (priorityIndex st2))\<rparr> else st2)\<rparr>"
  have eq: "CommitTransactions B E state mpi = Some mpi'"
    by (simp add: CommitTransactions_def processCommitTransactions_def c0_def[symmetric] c_def[symmetric]
        st1_def[symmetric] Let_def st2(1) mpi'_def)
  have f: "allTxs (txStore mpi') = allTxs st2" "txHashMap (txStore mpi') = txHashMap st2"
    "nonceCache (txStore mpi') = nonceCache st2" "priorityIndex (txStore mpi') = priorityIndex st2"
    "same_pool st2 (txStore mpi')"
    by (simp_all add: mpi'_def same_pool_def)
  have all1: "allTxs st1 = allTxs (txStore mpi)" using pool by (simp add: same_pool_def st1_def)
  have item1: "item_of st1 = item_of (txStore mpi)" "item_of (txStore mpi') = item_of st2"
    by (rule item_of_cong, simp add: all1 f)+
  have index1: "index_of B st1 = index_of B (txStore mpi)" "index_of B (txStore mpi') = index_of B st2"
    by (simp_all add: index_of_def fun_eq_iff all1 f)
  have cn: "commit_nonce E mpi' a = (case gget (cl_update c) a of None \<Rightarrow> commit_nonce E mpi a | Some m \<Rightarrow> m)" for a
    using st2(6) cn1[of a] by (simp add: commit_nonce_def f same_nonces_def)
  have cn2: "fst (getCommitNonce E a (nonceCache st1)) = commit_nonce E mpi' a" for a
    by (simp add: cn cn1)
  show thesis
  proof (rule that[OF eq])
    show "store_inv B (txStore mpi')" using st2(2) by (simp add: store_inv_same_pool[OF f(5)])
    show "txSliceSize mpi' = txSliceSize mpi" by (simp add: mpi'_def)
    show "gget (txHashMap (txStore mpi')) h =
      (if h \<in> set (cs_TxHashList state) then None else gget (txHashMap (txStore mpi)) h)" for h
      using collect(1)[of h] by (simp add: f st2(5) st1_def)
    show "commit_nonce E mpi a \<le> commit_nonce E mpi' a" for a
      using collect(2)[of a] unfolding cn
      by (cases "gget (cl_update c) a") (simp_all add: commit_nonce_def less_imp_le)
    show "item_of (txStore mpi') a n = item_of (txStore mpi) a n"
      if "n \<notin> index_of B (txStore mpi) a \<or> \<not> n < commit_nonce E mpi' a" for a n
      using that by (auto simp: item1 st2(3) index1 cn2)
    show "unat (priorityNonBatchSize (txStore mpi')) \<le> card (bt_set (time_ops B) (priorityIndex (txStore mpi')))"
      using pool_invD(1)[OF inv[unfolded store_inv_def]]
      by (auto simp: mpi'_def btreeIndex_size_def btrees_ok_def btree_ok_Len word_less_nat_alt not_less
          unat_of_nat intro: order_trans take_bit_nat_less_eq_self)
    fix h k assume "h \<in> set (cs_TxHashList state)" "gget (txHashMap (txStore mpi)) h = Some k"
    from collect(3)[OF this] have d: "oik_account k \<in> set ?as" and le: "oik_nonce k + 1 \<le> commit_nonce E mpi (oik_account k) \<or>
        (\<exists>m. gget (cl_update c) (oik_account k) = Some m \<and> oik_nonce k + 1 \<le> m)"
      unfolding as by (auto simp: commit_nonce_def)
    from le collect(2)[of "oik_account k"] have "oik_nonce k + 1 \<le> commit_nonce E mpi' (oik_account k)"
      unfolding cn by (cases "gget (cl_update c) (oik_account k)")
        (auto simp: commit_nonce_def dest: order_trans[OF _ less_imp_le])
    moreover have "\<forall>n \<in> index_of B (txStore mpi') (oik_account k). commit_nonce E mpi' (oik_account k) \<le> n"
      using d by (simp add: index1 st2(4) cn2 not_less)
    ultimately show "oik_nonce k + 1 \<le> commit_nonce E mpi' (oik_account k) \<and>
      (\<forall>n \<in> index_of B (txStore mpi') (oik_account k). commit_nonce E mpi' (oik_account k) \<le> n) \<and>
      (\<forall>n. n \<in> index_of B (txStore mpi) (oik_account k) \<longrightarrow> n < commit_nonce E mpi' (oik_account k) \<longrightarrow>
        item_of (txStore mpi') (oik_account k) n = None)"
      using d by (simp add: item1 st2(3) index1 cn2)
  qed
qed

end
