(* ===== verification/Mempool_Timeouts.thy ===== *)
theory Mempool_Timeouts
  imports Mempool_Safety
begin

text \<open>
  The two timers of the transaction pool: rebroadcasting moves live times and cuts the due
  transactions into shards, without losing or repeating one; removing expired transactions only
  touches parked ones. Both keep the invariant.
\<close>

section \<open>Shards\<close>

text \<open>The specification: consecutive pieces of a fixed length, the last one shorter.\<close>

function chunks :: "nat \<Rightarrow> 'a list \<Rightarrow> 'a list list" where
  "chunks n xs = (if n = 0 \<or> xs = [] then [] else take n xs # chunks n (drop n xs))"
  by pat_completeness auto
termination by (relation "measure (\<lambda>(n, xs). length xs)") auto

declare chunks.simps [simp del]

lemma chunks_Nil [simp]: "chunks n [] = []"
  by (simp add: chunks.simps)

lemma concat_chunks: "0 < n \<Longrightarrow> concat (chunks n xs) = xs"
proof (induction n xs rule: chunks.induct)
  case (1 n xs)
  then show ?case by (cases "xs = []") (simp_all add: chunks.simps[of n xs])
qed

lemma length_chunks: "0 < n \<Longrightarrow> c \<in> set (chunks n xs) \<Longrightarrow> 0 < length c \<and> length c \<le> n"
proof (induction n xs rule: chunks.induct)
  case (1 n xs)
  then show ?case by (cases "xs = []") (auto simp: chunks.simps[of n xs])
qed

lemma chunks_number: "0 < n \<Longrightarrow> length (chunks n xs) = length xs div n + (if length xs mod n = 0 then 0 else 1)"
proof (induction n xs rule: chunks.induct)
  case (1 n xs)
  show ?case
  proof (cases "xs = []")
    case True
    then show ?thesis by (simp add: chunks.simps)
  next
    case False
    show ?thesis
    proof (cases "length xs < n")
      case True
      with False show ?thesis by (simp add: chunks.simps[of n xs])
    next
      case ge: False
      with 1 False show ?thesis
        by (simp add: chunks.simps[of n xs] le_div_geq le_mod_geq not_less)
    qed
  qed
qed

definition item_tx_at :: "('t, 'i, 'n) transactionStore \<Rightarrow> orderedTimeoutKey \<Rightarrow> transaction option" where
  "item_tx_at st k = getTxByOrderKey (otk_account k) (otk_nonce k) st"

lemma unat_pred_of_nat:
  assumes "0 < n" "n < 2 ^ 64" shows "unat (of_nat n - 1 :: u64) = n - 1"
proof -
  have "(of_nat n - 1 :: u64) = of_nat (n - 1)" using assms(1) by (simp add: of_nat_diff)
  with assms(2) unat_of_nat_u64[of "n - 1"] show ?thesis by simp
qed

lemma shard_fill_spec:
  assumes "\<forall>k \<in> set ts. item_tx_at st k \<noteq> None" "0 < length ts" "length ts < 2 ^ 64"
    and "j \<le> unat L" "b \<le> length ts" "length acc = j + min (unat L - j) (length ts - b)"
  shows "shard_fill st ts L (of_nat (length ts) - 1) (of_nat j) (of_nat b) acc =
    Some (of_nat (b + min (unat L - j) (length ts - b)),
      take j acc @ map (item_tx_at st) (take (unat L - j) (drop b ts)))"
  using assms(4-)
proof (induction "unat L - j" arbitrary: j b acc)
  case 0
  then have "j = unat L" by simp
  then have "\<not> (of_nat j :: u64) < L" by simp
  with 0 show ?case by (simp add: shard_fill.simps)
next
  case (Suc d)
  have j: "j < unat L" "unat (of_nat j :: u64) = j" "(of_nat j :: u64) < L"
    using Suc.hyps(2) unat_u64_less[of L] by (simp_all add: unat_of_nat_u64 word_less_nat_alt)
  have b: "unat (of_nat b :: u64) = b" using Suc.prems(2) assms(3) by (intro unat_of_nat_u64) simp
  have e: "unat (of_nat (length ts) - 1 :: u64) = length ts - 1" by (rule unat_pred_of_nat[OF assms(2,3)])
  show ?case
  proof (cases "b < length ts")
    case False
    with Suc.prems have "b = length ts" by simp
    moreover from this assms(2) have "\<not> (of_nat b :: u64) \<le> of_nat (length ts) - 1"
      unfolding word_le_nat_alt e b by linarith
    ultimately show ?thesis using Suc.prems by (simp add: shard_fill.simps[of st ts L _ "of_nat j"])
  next
    case True
    then have le: "(of_nat b :: u64) \<le> of_nat (length ts) - 1" unfolding word_le_nat_alt e b by simp
    obtain tx where tx: "item_tx_at st (ts ! b) = Some tx" using assms(1) True by (meson nth_mem not_None_eq)
    have lj: "j < length acc" using Suc.prems j True by simp
    have IH: "shard_fill st ts L (of_nat (length ts) - 1) (of_nat (Suc j)) (of_nat (Suc b)) (acc[j := Some tx]) =
      Some (of_nat (Suc b + min (unat L - Suc j) (length ts - Suc b)),
        take (Suc j) (acc[j := Some tx]) @ map (item_tx_at st) (take (unat L - Suc j) (drop (Suc b) ts)))"
    proof (rule Suc.hyps(1))
      show "d = unat L - Suc j" "Suc j \<le> unat L" "Suc b \<le> length ts" using Suc.hyps(2) True j by linarith+
      show "length (acc[j := Some tx]) = Suc j + min (unat L - Suc j) (length ts - Suc b)"
        using Suc.prems(3) True j(1) by (simp add: min_def) linarith
    qed
    have tk: "take (unat L - j) (drop b ts) = ts ! b # take (unat L - Suc j) (drop (Suc b) ts)"
      using True j by (simp add: Cons_nth_drop_Suc[symmetric] take_Cons' )
    have upd: "take (Suc j) (acc[j := Some tx]) = take j acc @ [Some tx]"
      using lj by (simp add: take_Suc_conv_app_nth)
    have sum: "Suc b + min (unat L - Suc j) (length ts - Suc b) = b + min (unat L - j) (length ts - b)"
      using True j by simp
    show ?thesis
      unfolding tk using IH[unfolded sum upd] j(2,3) le tx True lj b
      by (simp add: shard_fill.simps[of st ts L _ "of_nat j"] item_tx_at_def add.commute)
  qed
qed

lemma shard_loop_spec:
  assumes "\<forall>k \<in> set ts. item_tx_at st k \<noteq> None" "0 < length ts" "length ts < 2 ^ 64" "L \<noteq> 0"
    and "b \<le> length ts" "i + length (chunks (unat L) (drop b ts)) = unat M"
  shows "shard_loop st ts L (of_nat (length ts) - 1) M (of_nat i) (of_nat b) acc =
    Some (acc @ map (map (item_tx_at st)) (chunks (unat L) (drop b ts)))"
  using assms(5-)
proof (induction "unat M - i" arbitrary: i b acc)
  case 0
  then have "i = unat M" "length (chunks (unat L) (drop b ts)) = 0" by linarith+
  then show ?case by (simp add: shard_loop.simps)
next
  case (Suc d)
  have i: "(of_nat i :: u64) < M"
    using Suc.hyps(2) unat_u64_less[of M] by (simp add: unat_of_nat_u64 word_less_nat_alt)
  have L: "0 < unat L" using assms(4) by (simp add: unat_gt_0)
  let ?m = "min (unat L) (length ts - b)"
  have ne: "drop b ts \<noteq> []" using Suc.hyps(2) Suc.prems(2) by auto
  have ch: "chunks (unat L) (drop b ts) = take (unat L) (drop b ts) # chunks (unat L) (drop (b + ?m) ts)"
    using ne L by (subst chunks.simps) (auto simp: min_def add.commute)
  have rest: "(of_nat (length ts) - 1 - of_nat b + 1 :: u64) = of_nat (length ts - b)"
    using Suc.prems(1) by (simp add: of_nat_diff)
  have urest: "unat (of_nat (length ts - b) :: u64) = length ts - b"
    using assms(3) by (intro unat_of_nat_u64) simp
  have len: "unat (if (of_nat (length ts - b) :: u64) < L then of_nat (length ts - b) else L) = ?m"
    by (simp add: word_less_nat_alt urest min_def not_less)
  have fill: "shard_fill st ts L (of_nat (length ts) - 1) 0 (of_nat b) (replicate ?m None) =
      Some (of_nat (b + ?m), map (item_tx_at st) (take (unat L) (drop b ts)))"
    using shard_fill_spec[OF assms(1-3), where j = 0 and b = b and L = L and acc = "replicate ?m None"]
      Suc.prems(1) by simp
  have "shard_loop st ts L (of_nat (length ts) - 1) M (of_nat (Suc i)) (of_nat (b + ?m))
      (acc @ [map (item_tx_at st) (take (unat L) (drop b ts))]) =
    Some ((acc @ [map (item_tx_at st) (take (unat L) (drop b ts))]) @
      map (map (item_tx_at st)) (chunks (unat L) (drop (b + ?m) ts)))"
    using Suc.hyps(2) Suc.prems ch by (intro Suc.hyps(1)) auto
  then show ?case
    unfolding ch shard_loop.simps[of st ts L _ M "of_nat i"] Let_def rest len fill option.case prod.case
    using i by (simp add: add.commute)
qed

lemma shardTxList_spec:
  assumes "\<forall>k \<in> set ts. item_tx_at (txStore mpi) k \<noteq> None" "length ts < 2 ^ 64" "L \<noteq> 0"
  shows "shardTxList ts L mpi = Some (chunks (unat L) (map (item_tx_at (txStore mpi)) ts))"
proof (cases "ts = []")
  case True
  with assms(3) show ?thesis by (simp add: shardTxList_def Let_def shard_loop.simps)
next
  case False
  let ?N = "of_nat (length ts) :: u64"
  let ?M = "?N div L + (if ?N mod L \<noteq> 0 then 1 else 0)"
  have L: "0 < unat L" using assms(3) by (simp add: unat_gt_0)
  have N: "unat ?N = length ts" by (rule unat_of_nat_u64[OF assms(2)])
  have mod: "?N mod L = 0 \<longleftrightarrow> length ts mod unat L = 0"
    by (simp add: word_unat_eq_iff unat_mod_distrib N)
  have "unat ?M = length ts div unat L + (if length ts mod unat L = 0 then 0 else 1)"
  proof (cases "length ts mod unat L = 0")
    case True
    with mod show ?thesis by (simp add: unat_div_distrib N)
  next
    case nz: False
    have "unat L \<noteq> 1" using nz by (metis mod_by_1)
    with L have "1 < unat L" by linarith
    with False have "length ts div unat L < length ts" by (intro div_less_dividend) simp_all
    then have "?N div L < ?N" by (simp add: word_less_nat_alt unat_div_distrib N)
    from word_Suc_less[OF this] nz mod show ?thesis by (simp add: unat_div_distrib N)
  qed
  also have "\<dots> = 0 + length (chunks (unat L) (drop 0 ts))" using chunks_number[OF L, of ts] by simp
  finally have M: "0 + length (chunks (unat L) (drop 0 ts)) = unat ?M" ..
  have "shard_loop (txStore mpi) ts L (?N - 1) ?M (of_nat 0) (of_nat 0) [] =
      Some ([] @ map (map (item_tx_at (txStore mpi))) (chunks (unat L) (drop 0 ts)))"
    using False by (intro shard_loop_spec assms M) auto
  moreover have "map (map f) (chunks n xs) = chunks n (map f xs)" for f :: "orderedTimeoutKey \<Rightarrow> transaction option" and n xs
    by (induction n xs rule: chunks.induct) (subst (1 2) chunks.simps, simp add: take_map drop_map)
  ultimately show ?thesis using assms(3) by (simp add: shardTxList_def Let_def)
qed

section \<open>Rebroadcasting\<close>

lemma timeout_items_prefix:
  "\<exists>ys. timeout_items st now dur is acc = acc @ ys \<and> set ys \<subseteq> set is \<and> (distinct is \<longrightarrow> distinct ys)"
proof (induction "is" arbitrary: acc)
  case Nil
  then show ?case by simp
next
  case (Cons i "is")
  have skip: ?case if "timeout_items st now dur (i # is) acc = timeout_items st now dur is acc"
    using Cons.IH[of acc] that by auto
  have take: ?case if "timeout_items st now dur (i # is) acc = timeout_items st now dur is (acc @ [i])"
  proof -
    from Cons.IH[of "acc @ [i]"] obtain ys where "timeout_items st now dur is (acc @ [i]) = (acc @ [i]) @ ys"
      "set ys \<subseteq> set is" "distinct is \<longrightarrow> distinct ys" by blast
    with that show ?thesis by (intro exI[of _ "i # ys"]) auto
  qed
  show ?case using skip take by (auto simp: Let_def split: if_splits)
qed

text \<open>Moving several items of the live index, each once.\<close>

lemma tlm_update_fold:
  assumes "tlm_inv B m" "distinct ks" "set ks \<subseteq> bt_set (time_ops B) (tlm_index m)"
  shows "tlm_inv B (fold (\<lambda>k. tlm_updateByTtlKey B k now) ks m)"
    and "tlm_times (fold (\<lambda>k. tlm_updateByTtlKey B k now) ks m) (a, n) =
      (if OrderedIndexKey a n \<in> okey ` set ks then Some now else tlm_times m (a, n))"
proof -
  have "tlm_inv B (fold (\<lambda>k. tlm_updateByTtlKey B k now) ks m) \<and>
    (\<forall>a n. tlm_times (fold (\<lambda>k. tlm_updateByTtlKey B k now) ks m) (a, n) =
      (if OrderedIndexKey a n \<in> okey ` set ks then Some now else tlm_times m (a, n)))"
    using assms
  proof (induction ks arbitrary: m)
    case Nil
    then show ?case by simp
  next
    case (Cons k ks)
    let ?m = "tlm_updateByTtlKey B k now m"
    have k: "k \<in> timed_keys (tlm_times m)" and inv: "tlm_inv B ?m"
      using Cons.prems tlm_update_inv[of B m k] by (auto simp: tlm_inv_def)
    have "k' \<in> bt_set (time_ops B) (tlm_index ?m)" if "k' \<in> set ks" for k'
    proof -
      have k': "k' \<in> timed_keys (tlm_times m)" "k' \<noteq> k" using Cons.prems that by (auto simp: tlm_inv_def)
      with k have "(otk_account k', otk_nonce k') \<noteq> (otk_account k, otk_nonce k)"
        by (auto simp: timed_keys_def intro: orderedTimeoutKey.expand)
      with k'(1) inv show ?thesis
        by (auto simp: tlm_inv_def timed_keys_def tlm_update_times)
    qed
    with Cons.prems(2) have "tlm_inv B (fold (\<lambda>k. tlm_updateByTtlKey B k now) ks ?m) \<and>
      (\<forall>a n. tlm_times (fold (\<lambda>k. tlm_updateByTtlKey B k now) ks ?m) (a, n) =
        (if OrderedIndexKey a n \<in> okey ` set ks then Some now else tlm_times ?m (a, n)))"
      by (intro Cons.IH[OF inv]) auto
    then show ?case by (auto simp: tlm_update_times okey_def)
  qed
  then show "tlm_inv B (fold (\<lambda>k. tlm_updateByTtlKey B k now) ks m)"
    "tlm_times (fold (\<lambda>k. tlm_updateByTtlKey B k now) ks m) (a, n) =
      (if OrderedIndexKey a n \<in> okey ` set ks then Some now else tlm_times m (a, n))" by blast+
qed

definition due_items :: "('t, 'i, 'n) btrees \<Rightarrow> ('t, 'i, 'n) transactionStore \<Rightarrow> int \<Rightarrow> int \<Rightarrow> orderedTimeoutKey list" where
  "due_items B st now dur = timeout_items st now dur (bt_Ascend (time_ops B) (tlm_index (ttlIndex st))) []"

lemma GetTimeoutTransactions_spec:
  fixes E :: "'a env_scheme" and dur :: int
  assumes inv: "store_inv B (txStore mpi)" and "txSliceSize mpi \<noteq> 0"
    and small: "bt_Len (time_ops B) (tlm_index (ttlIndex (txStore mpi))) < 2 ^ 64"
  defines "ts \<equiv> (if rt_now E < int64 (earliestTimestamp (txStore mpi) + dur) then []
    else due_items B (txStore mpi) (rt_now E) dur)"
  obtains mpi' where "GetTimeoutTransactions B E dur mpi =
      Some (chunks (unat (txSliceSize mpi)) (map (item_tx_at (txStore mpi)) ts), mpi')"
    and "store_inv B (txStore mpi')" "txSliceSize mpi' = txSliceSize mpi"
    and "\<forall>k \<in> set ts. item_tx_at (txStore mpi) k \<noteq> None"
    and "\<And>a n. tlm_times (ttlIndex (txStore mpi')) (a, n) =
      (if OrderedIndexKey a n \<in> okey ` set ts then Some (rt_now E) else tlm_times (ttlIndex (txStore mpi)) (a, n))"
    and "allTxs (txStore mpi') = allTxs (txStore mpi)"
proof -
  define st where "st = txStore mpi"
  note inv' = pool_invD[OF inv[folded st_def, unfolded store_inv_def]]
  have ok: "btree_ok (time_ops B)" using inv'(1) by (simp add: btrees_ok_def)
  let ?is = "bt_Ascend (time_ops B) (tlm_index (ttlIndex st))"
  obtain ys where ys: "due_items B st (rt_now E) dur = ys" "set ys \<subseteq> set ?is" "distinct ys"
    using timeout_items_prefix[of st "rt_now E" dur ?is "[]"] btree_ok_distinct[OF ok] by (auto simp: due_items_def)
  have sub: "set ts \<subseteq> bt_set (time_ops B) (tlm_index (ttlIndex st))" and dist: "distinct ts"
    using ys by (simp_all add: ts_def st_def bt_set_def)
  have live: "set ts \<subseteq> timed_keys (tlm_times (ttlIndex st))"
    using sub inv'(3) by (simp add: tlm_inv_def)
  have tx: "\<forall>k \<in> set ts. item_tx_at st k \<noteq> None"
  proof
    fix k assume "k \<in> set ts"
    with live have "tlm_times (ttlIndex st) (otk_account k, otk_nonce k) = Some (otk_timestamp k)"
      by (auto simp: timed_keys_def)
    from inv'(4)[OF this] show "item_tx_at st k \<noteq> None"
      by (auto simp: item_tx_at_def getTxByOrderKey_item)
  qed
  have "length ts \<le> length ?is"
    using card_mono[OF finite_bt_set sub] dist btree_ok_distinct[OF ok, of "tlm_index (ttlIndex st)"]
    by (simp add: bt_set_def distinct_card)
  then have len: "length ts < 2 ^ 64" using small by (simp add: btree_okD(6)[OF ok] st_def)
  define mpi' where "mpi' = mpi\<lparr>txStore := st\<lparr>ttlIndex := fold (\<lambda>k. tlm_updateByTtlKey B k (rt_now E)) ts (ttlIndex st)\<rparr>\<rparr>"
  have at: "item_tx_at (txStore mpi') = item_tx_at st"
    by (simp add: mpi'_def fun_eq_iff item_tx_at_def getTxByOrderKey_def)
  have sh: "shardTxList ts (txSliceSize mpi) mpi' =
      Some (chunks (unat (txSliceSize mpi)) (map (item_tx_at st) ts))"
    using shardTxList_spec[of ts mpi', OF _ len assms(2)] tx by (simp add: at)
  have eq: "GetTimeoutTransactions B E dur mpi =
      Some (chunks (unat (txSliceSize mpi)) (map (item_tx_at (txStore mpi)) ts), mpi')"
  proof (cases "rt_now E < int64 (earliestTimestamp (txStore mpi) + dur)")
    case True
    then show ?thesis by (simp add: GetTimeoutTransactions_def Let_def ts_def mpi'_def st_def)
  next
    case False
    then have ts: "timeout_items st (rt_now E) dur ?is [] = ts" by (simp add: ts_def due_items_def st_def)
    show ?thesis
      unfolding GetTimeoutTransactions_def Let_def if_not_P[OF False]
      unfolding st_def[symmetric] ts mpi'_def[symmetric] sh by simp
  qed
  note upd = tlm_update_fold[OF inv'(3) dist sub, of "rt_now E"]
  have dom: "tlm_times (ttlIndex (txStore mpi')) (a, n) \<noteq> None \<longleftrightarrow> tlm_times (ttlIndex st) (a, n) \<noteq> None" for a n
    using live by (auto simp: mpi'_def upd(2) timed_keys_def okey_def)
  have "pool_inv B eff K D (txStore mpi')" if p: "pool_inv B eff K D st" for eff K D
  proof (rule pool_inv_remove[OF p, of _ "{}"])
    show "item_of (txStore mpi') b n = (if (b, n) \<in> {} then None else item_of st b n)" for b n
      by (simp add: mpi'_def item_of_def)
    show "dom (tlm_times (ttlIndex (txStore mpi'))) \<subseteq> dom (tlm_times (ttlIndex st)) - {}"
      using dom by (auto simp: dom_def)
  qed (use pool_invD[OF p] upd(1) in \<open>simp_all add: mpi'_def\<close>)
  then have "store_inv B (txStore mpi')"
    using inv[folded st_def] by (simp add: store_inv_def mpi'_def)
  with eq show thesis
    by (rule that) (use tx upd(2) in \<open>simp_all add: mpi'_def st_def\<close>)
qed

section \<open>Removing expired transactions\<close>

definition ptrs :: "(string \<times> transaction) set \<Rightarrow> (string \<times> u64) set" where
  "ptrs P = (\<lambda>(a, tx). (a, tx_nonce tx)) ` P"

text \<open>A transaction that may be removed: parked, not ready, not in a block, and older than \<open>dur\<close>.\<close>

definition expired :: "('t, 'i, 'n) btrees \<Rightarrow> ('t, 'i, 'n) transactionStore \<Rightarrow> int \<Rightarrow> int \<Rightarrow> string \<times> transaction \<Rightarrow> bool" where
  "expired B st now dur p \<longleftrightarrow> (case p of (a, tx) \<Rightarrow>
     (\<exists>it t. item_of st a (tx_nonce tx) = Some it \<and> item_tx it = tx \<and>
        tam_times (removeTimeoutIndex st) (a, tx_nonce tx) = Some t \<and> dur < int64 (now - t)) \<and>
     makeTimeoutKey a tx \<notin> bt_set (time_ops B) (priorityIndex st) \<and>
     makeOrderedIndexKey a tx \<in> bt_set (queue_ops B) (parkingLotIndex st) \<and>
     makeOrderedIndexKey a tx \<notin> taken (batchedTxs st))"

lemma getPoolTx_item: "getPoolTxByTxnPointer a n st = item_of st a n"
  by (simp add: getPoolTxByTxnPointer_def item_of_def)

lemma distinct_append_entry:
  "distinct (keys m) \<Longrightarrow> distinct (keys (gset a x (if c then gset a y m else m)))"
  by (simp del: set_map)

lemma remove_iter_spec:
  assumes inv: "store_inv B st" and "set is \<subseteq> bt_set (time_ops B) (tam_index (removeTimeoutIndex st))"
    and "\<forall>p \<in> txs_pairs rem. expired B st now dur p" "distinct (keys rem)"
  shows "\<exists>rem' cnt' hashes'. remove_iter B st now dur is rem cnt hashes = (rem', cnt', hashes') \<and>
    (\<forall>p \<in> txs_pairs rem'. expired B st now dur p) \<and> distinct (keys rem')"
  using assms(2-)
proof (induction "is" arbitrary: rem cnt hashes)
  case Nil
  then show ?case by simp
next
  case (Cons k "is")
  note inv' = pool_invD[OF inv[unfolded store_inv_def]]
  have ok: "btree_ok (time_ops B)" "btree_ok (queue_ops B)" using inv'(1) by (simp_all add: btrees_ok_def)
  let ?goal = "\<lambda>r. \<exists>rem' cnt' hashes'. r = (rem', cnt', hashes') \<and>
    (\<forall>p \<in> txs_pairs rem'. expired B st now dur p) \<and> distinct (keys rem')"
  have skip: "?goal (remove_iter B st now dur is rem cnt hashes)"
    using Cons by simp
  show ?case
  proof (cases "item_of st (otk_account k) (otk_nonce k)")
    case None
    with skip show ?thesis by (simp add: getPoolTx_item)
  next
    case (Some it)
    have it: "item_account it = otk_account k" "tx_nonce (item_tx it) = otk_nonce k"
      using Some inv'(2) by (auto simp: item_of_def sm_ok_def split: option.splits)
    let ?rem = "if gget rem (item_account it) = None then gset (item_account it) [] rem else rem"
    let ?rem' = "gset (item_account it) (gget0 [] ?rem (item_account it) @ [item_tx it]) ?rem"
    have time: "tam_times (removeTimeoutIndex st) (otk_account k, otk_nonce k) = Some (otk_timestamp k)"
      using Cons.prems(1) inv'(5) by (auto simp: tam_inv_def timed_keys_def)
    have pairs: "txs_pairs ?rem' = insert (item_account it, item_tx it) (txs_pairs rem)"
      by (rule txs_pairs_append)
    have dist: "distinct (keys ?rem')" by (rule distinct_append_entry[OF Cons.prems(3)])
    have take: "?goal (remove_iter B st now dur is ?rem' (cnt + 1) (gdel (tx_hash (item_tx it)) hashes))"
      if "expired B st now dur (item_account it, item_tx it)"
    proof (rule Cons.IH)
      show "set is \<subseteq> bt_set (time_ops B) (tam_index (removeTimeoutIndex st))" using Cons.prems(1) by simp
      show "\<forall>p \<in> txs_pairs ?rem'. expired B st now dur p"
        unfolding pairs using Cons.prems(2) that by blast
    qed (rule dist)
    show ?thesis
    proof (cases "dur < int64 (now - otk_timestamp k) \<and>
        gget (batchedTxs st) (OrderedIndexKey (otk_account k) (otk_nonce k)) = None \<and>
        \<not> bt_Has (time_ops B) (priorityIndex st) (makeTimeoutKey (item_account it) (item_tx it)) \<and>
        bt_Has (queue_ops B) (parkingLotIndex st) (makeOrderedIndexKey (item_account it) (item_tx it))")
      case True
      then have "remove_iter B st now dur (k # is) rem cnt hashes =
          remove_iter B st now dur is ?rem' (cnt + 1) (gdel (tx_hash (item_tx it)) hashes)"
        using Some by (simp add: getPoolTx_item makeTimeoutKey_def makeOrderedIndexKey_def Let_def)
      moreover have "expired B st now dur (item_account it, item_tx it)"
        using True Some it time ok
        by (auto simp: expired_def btree_okD taken_def makeOrderedIndexKey_def)
      ultimately show ?thesis using take by simp
    next
      case False
      with Some have "remove_iter B st now dur (k # is) rem cnt hashes =
          (if dur < int64 (now - otk_timestamp k) then remove_iter B st now dur is rem cnt hashes
           else (rem, cnt, hashes))"
        by (auto simp: getPoolTx_item makeTimeoutKey_def makeOrderedIndexKey_def Let_def)
      with skip Cons.prems show ?thesis by simp
    qed
  qed
qed

text \<open>
  One account of the clean-up. \<open>P\<close> are the transactions to remove; the account's nonce index loses
  the nonces of all of them, its items only its own.
\<close>

lemma remove_one_spec:
  assumes rt: "runtime_ok E" and inv: "pool_inv B eff K D x"
    and P: "\<forall>(a, tx) \<in> txs_pairs rem. makeTimeoutKey a tx \<notin> bt_set (time_ops B) (priorityIndex x) \<and>
      (\<forall>it. item_of x a (tx_nonce tx) = Some it \<longrightarrow> item_tx it = tx)"
    and a: "gget rem a = Some txs"
  defines "y \<equiv> remove_one B E rem (a, txs) x"
  shows "pool_inv B eff K D y"
    and "item_of y b n = (if b = a \<and> n \<in> tx_nonce ` set txs then None else item_of x b n)"
    and "bt_set (time_ops B) (priorityIndex y) = bt_set (time_ops B) (priorityIndex x)"
    and "nonceCache y = nonceCache x" "batchedTxs y = batchedTxs x" "txHashMap y = txHashMap x"
      "priorityNonBatchSize y = priorityNonBatchSize x"
proof -
  note inv' = pool_invD[OF inv]
  have ok: "btree_ok (time_ops B)" "btree_ok (nonce_ops B)" using inv'(1) by (simp_all add: btrees_ok_def)
  have own: "(a, tx) \<in> txs_pairs rem" if "tx \<in> set txs" for tx using a that by (auto simp: txs_pairs_def)
  have prio: "bt_set (time_ops B) (priorityIndex y) = bt_set (time_ops B) (priorityIndex x)"
    using P rt ok by (auto simp: y_def remove_one_def bt_set_removes split: option.splits)
  have item: "item_of y b n = (if (b, n) \<in> Pair a ` tx_nonce ` set txs then None else item_of x b n)" for b n
  proof -
    have "gget (fold (\<lambda>tx. gdel (tx_nonce tx)) txs m) n = (if n \<in> tx_nonce ` set txs then None else gget m n)" for m :: "(u64, txItem) gomap"
      by (induction txs arbitrary: m) auto
    then show ?thesis by (auto simp: y_def remove_one_def item_of_def split: option.splits)
  qed
  show "pool_inv B eff K D y"
  proof (cases "gget (allTxs x) a")
    case None
    then have "y = x" by (simp add: y_def remove_one_def)
    with inv show ?thesis by simp
  next
    case (Some l)
    define l' where "l' = l\<lparr>sm_index := removeBySortedNonceKey (nonce_ops B) (rt_order E 12) rem (sm_index l),
      sm_items := fold (\<lambda>tx. gdel (tx_nonce tx)) txs (sm_items l)\<rparr>"
    have fields: "allTxs y = gset a l' (allTxs x)" "ttlIndex y = tlm_removeByTtlKey B (rt_order E 15) rem (ttlIndex x)"
      "removeTimeoutIndex y = tam_removeByTtlKey B (rt_order E 16) rem (removeTimeoutIndex x)"
      by (simp_all add: y_def remove_one_def Some l'_def)
    have own': "(a, tx_nonce tx) \<in> (\<lambda>(a, tx). (a, tx_nonce tx)) ` txs_pairs rem" if "tx \<in> set txs" for tx
      using own[OF that] by (auto intro: rev_image_eqI)
    show ?thesis
    proof (rule pool_inv_remove[OF inv item])
      have "sm_ok B a l'"
      proof (rule sm_ok_removed[OF inv'(2)[OF Some]])
        show "bt_set (nonce_ops B) (sm_index l') \<subseteq> bt_set (nonce_ops B) (sm_index l) - SortedNonceKey ` tx_nonce ` set txs"
          using rt ok own by (force simp: l'_def bt_set_removes makeSortedNonceKey_def)
        show "gget (sm_items l') n = (if n \<in> tx_nonce ` set txs then None else gget (sm_items l) n)" for n
          using item[of a n] by (auto simp: item_of_def fields Some l'_def split: if_splits)
      qed
      then show "sm_ok B b m" if "gget (allTxs y) b = Some m" for b m
        using that inv'(2) by (auto simp: fields split: if_splits)
      show "tlm_inv B (ttlIndex y)" "tam_inv B (removeTimeoutIndex y)"
        by (simp_all add: fields tlm_remove_inv tam_remove_inv inv')
      show "dom (tlm_times (ttlIndex y)) \<subseteq> dom (tlm_times (ttlIndex x)) - Pair a ` tx_nonce ` set txs"
        unfolding fields live.dom_remove[OF runtime_ok_order[OF rt]] using own' by auto
      show "bt_set (time_ops B) (priorityIndex y) =
          {k \<in> bt_set (time_ops B) (priorityIndex x). (otk_account k, otk_nonce k) \<notin> Pair a ` tx_nonce ` set txs}"
        unfolding prio
      proof (intro equalityI subsetI)
        fix k assume k: "k \<in> bt_set (time_ops B) (priorityIndex x)"
        obtain it where it: "item_of x (otk_account k) (otk_nonce k) = Some it"
          "tx_timestamp (item_tx it) = otk_timestamp k"
          using inv'(6)[of "otk_account k" "otk_nonce k" "otk_timestamp k"] k by auto
        have "(otk_account k, otk_nonce k) \<notin> Pair a ` tx_nonce ` set txs"
        proof
          assume "(otk_account k, otk_nonce k) \<in> Pair a ` tx_nonce ` set txs"
          then obtain tx where tx: "tx \<in> set txs" "otk_account k = a" "otk_nonce k = tx_nonce tx" by auto
          with P own[OF tx(1)] it(1) have "item_tx it = tx" "makeTimeoutKey a tx \<notin> bt_set (time_ops B) (priorityIndex x)"
            by auto
          moreover from this tx it(2) have "makeTimeoutKey a tx = k"
            by (auto simp: makeTimeoutKey_def intro: orderedTimeoutKey.expand)
          ultimately show False using k by simp
        qed
        with k show "k \<in> {k \<in> bt_set (time_ops B) (priorityIndex x). (otk_account k, otk_nonce k) \<notin> Pair a ` tx_nonce ` set txs}"
          by simp
      qed simp
    qed
  qed
  show "item_of y b n = (if b = a \<and> n \<in> tx_nonce ` set txs then None else item_of x b n)"
    by (auto simp: item)
  show "nonceCache y = nonceCache x" "batchedTxs y = batchedTxs x" "txHashMap y = txHashMap x"
      "priorityNonBatchSize y = priorityNonBatchSize x"
    by (simp_all add: y_def remove_one_def split: option.split)
  show "bt_set (time_ops B) (priorityIndex y) = bt_set (time_ops B) (priorityIndex x)" by (rule prio)
qed

text \<open>
  The whole operation: what it removes had expired, every other item stays, and neither the ready
  transactions nor the batched ones are touched.
\<close>

lemma RemoveAliveTimeoutTxs_spec:
  assumes rt: "runtime_ok E" and inv: "store_inv B (txStore mpi)"
  obtains P mpi' cnt where "RemoveAliveTimeoutTxs B E dur mpi = (cnt, mpi')" and "store_inv B (txStore mpi')"
    and "\<And>p. p \<in> P \<Longrightarrow> expired B (txStore mpi) (rt_now E) dur p"
    and "\<And>b n. item_of (txStore mpi') b n = (if (b, n) \<in> ptrs P then None else item_of (txStore mpi) b n)"
    and "bt_set (time_ops B) (priorityIndex (txStore mpi')) = bt_set (time_ops B) (priorityIndex (txStore mpi))"
    and "batchedTxs (txStore mpi') = batchedTxs (txStore mpi)" "nonceCache (txStore mpi') = nonceCache (txStore mpi)"
    and "priorityNonBatchSize (txStore mpi') = priorityNonBatchSize (txStore mpi)"
    and "txSliceSize mpi' = txSliceSize mpi"
proof -
  define st where "st = txStore mpi"
  have ok11: "order_ok (rt_order E 11)" using rt by simp
  obtain rem cnt hashes where iter: "remove_iter B st (rt_now E) dur
      (bt_Ascend (time_ops B) (tam_index (removeTimeoutIndex st))) [] 0 (txHashMap st) = (rem, cnt, hashes)"
    and exp: "\<forall>p \<in> txs_pairs rem. expired B st (rt_now E) dur p"
    using remove_iter_spec[OF inv[folded st_def], of "bt_Ascend (time_ops B) (tam_index (removeTimeoutIndex st))"
        "[]" "rt_now E" dur 0 "txHashMap st"] by (auto simp: bt_set_def)
  let ?st0 = "st\<lparr>txHashMap := hashes\<rparr>"
  let ?I = "\<lambda>xs x. pool_inv B (gget0 0 (pendingNonces (nonceCache st))) (set (keys (pendingNonces (nonceCache st)))) {} x \<and>
    (\<forall>b n. item_of x b n = (if \<exists>txs. (b, txs) \<in> set xs \<and> n \<in> tx_nonce ` set txs then None else item_of st b n)) \<and>
    bt_set (time_ops B) (priorityIndex x) = bt_set (time_ops B) (priorityIndex st) \<and>
    nonceCache x = nonceCache st \<and> batchedTxs x = batchedTxs st \<and> priorityNonBatchSize x = priorityNonBatchSize st"
  have loop: "?I xs (fold (remove_one B E rem) xs ?st0)" if "set xs \<subseteq> {(a, txs). gget rem a = Some txs}" for xs
    using that
  proof (induction xs rule: rev_induct)
    case Nil
    have "pool_inv B (gget0 0 (pendingNonces (nonceCache st))) (set (keys (pendingNonces (nonceCache st)))) {} ?st0"
      using inv[folded st_def, unfolded store_inv_def] by (subst pool_inv_cong[of _ st]) simp_all
    moreover have "item_of ?st0 = item_of st" by (rule item_of_cong) simp
    ultimately show ?case by simp
  next
    case (snoc p xs)
    define x where "x = fold (remove_one B E rem) xs ?st0"
    obtain a txs where p: "p = (a, txs)" "gget rem a = Some txs" using snoc.prems by auto
    have I: "?I xs x" using snoc by (simp add: x_def)
    have P: "\<forall>(a, tx) \<in> txs_pairs rem. makeTimeoutKey a tx \<notin> bt_set (time_ops B) (priorityIndex x) \<and>
      (\<forall>it. item_of x a (tx_nonce tx) = Some it \<longrightarrow> item_tx it = tx)"
      using exp I by (fastforce simp: expired_def split: if_splits)
    note r = remove_one_spec[OF rt conjunct1[OF I] P p(2)]
    have "?I (xs @ [p]) (remove_one B E rem p x)"
      unfolding p(1) using I r by auto
    then show ?case by (simp add: x_def)
  qed
  define xs where "xs = go_range (rt_order E 11) rem"
  have xs: "set xs = {(a, txs). gget rem a = Some txs}" unfolding xs_def by (rule set_go_range[OF ok11])
  define st' where "st' = fold (remove_one B E rem) xs ?st0"
  have I: "?I xs st'" unfolding st'_def by (rule loop) (simp add: xs)
  have "(\<exists>txs. (b, txs) \<in> set xs \<and> n \<in> tx_nonce ` set txs) \<longleftrightarrow> (b, n) \<in> ptrs (txs_pairs rem)" for b n
    by (auto simp: xs ptrs_def txs_pairs_def image_iff)
  with I have item: "item_of st' b n = (if (b, n) \<in> ptrs (txs_pairs rem) then None else item_of st b n)" for b n
    by simp
  have "RemoveAliveTimeoutTxs B E dur mpi = (cnt, mpi\<lparr>txStore := st'\<rparr>)"
    by (simp add: RemoveAliveTimeoutTxs_def Let_def st_def[symmetric] iter st'_def xs_def)
  then show thesis
  proof (rule that[of _ _ "txs_pairs rem"])
    show "item_of (txStore (mpi\<lparr>txStore := st'\<rparr>)) b n =
        (if (b, n) \<in> ptrs (txs_pairs rem) then None else item_of (txStore mpi) b n)" for b n
      using item[of b n] by (simp add: st_def)
  qed (use I exp in \<open>simp_all add: store_inv_def st_def\<close>)
qed

end
