(* ===== verification/Mempool_Steps.thy ===== *)
theory Mempool_Steps
  imports Mempool_Timeouts
begin

text \<open>
  The transaction pool as a step system, and its main properties in every reachable state: no
  operation panics, blocks follow the nonce order and take all they can, accepted transactions are
  found again, commits and timers remove what they should and nothing else.
\<close>

section \<open>The step system\<close>

text \<open>
  A step is one call of an exported operation, under the lock of the pool. Every call comes with its
  own environment: the map iteration orders, the clock and the nonces the ledger reports. The
  transactions handed in do not carry the largest nonce, \<open>2\<^sup>6\<^sup>4 - 1\<close>, whose successor wraps around.
\<close>

inductive mempool_step ::
    "('t, 'i, 'n) btrees \<Rightarrow> ('t, 'i, 'n) mempool \<Rightarrow> ('t, 'i, 'n) mempool \<Rightarrow> bool"
  for B :: "('t, 'i, 'n) btrees" where
  step_process: "runtime_ok (E :: env) \<Longrightarrow> \<forall>tx \<in> set txs. tx_nonce tx \<noteq> -1 \<Longrightarrow>
    ProcessTransactions B E txs isLeader isLocal mpi = Some (b, mpi') \<Longrightarrow> mempool_step B mpi mpi'"
| step_generate: "GenerateBlock B (E :: env) mpi = Some (b, mpi') \<Longrightarrow> mempool_step B mpi mpi'"
| step_commit: "runtime_ok (E :: env) \<Longrightarrow> CommitTransactions B E state mpi = Some mpi' \<Longrightarrow> mempool_step B mpi mpi'"
| step_timeout: "bt_Len (time_ops B) (tlm_index (ttlIndex (txStore mpi))) < 2 ^ 64 \<Longrightarrow>
    GetTimeoutTransactions B (E :: env) dur mpi = Some (shards, mpi') \<Longrightarrow> mempool_step B mpi mpi'"
| step_remove: "runtime_ok (E :: env) \<Longrightarrow> RemoveAliveTimeoutTxs B E dur mpi = (cnt, mpi') \<Longrightarrow> mempool_step B mpi mpi'"
| step_pending: "GetPendingNonceByAccount (E :: env) a mpi = (n, mpi') \<Longrightarrow> mempool_step B mpi mpi'"
| step_seqno: "SetBatchSeqNo n mpi = mpi' \<Longrightarrow> mempool_step B mpi mpi'"

definition pool_initial :: "('t, 'i, 'n) btrees \<Rightarrow> ('t, 'i, 'n) mempool \<Rightarrow> bool" where
  "pool_initial B mpi \<longleftrightarrow> btrees_ok B \<and> (\<exists>config. mpi = newMempoolImpl B config)"

definition pool_ok :: "('t, 'i, 'n) btrees \<Rightarrow> ('t, 'i, 'n) mempool \<Rightarrow> bool" where
  "pool_ok B mpi \<longleftrightarrow> store_inv B (txStore mpi) \<and> txSliceSize mpi \<noteq> 0"

definition pool_reachable :: "('t, 'i, 'n) btrees \<Rightarrow> ('t, 'i, 'n) mempool \<Rightarrow> bool" where
  "pool_reachable B = reachable (pool_initial B) (mempool_step B)"

lemma pool_ok_step:
  assumes "pool_ok B mpi" "mempool_step B mpi mpi'"
  shows "pool_ok B mpi'"
proof -
  have inv: "store_inv B (txStore mpi)" "txSliceSize mpi \<noteq> 0" using assms(1) by (simp_all add: pool_ok_def)
  from assms(2) show ?thesis
  proof cases
    case (step_process E txs isLeader isLocal b)
    from ProcessTransactions_safe[OF step_process(1) inv(1) step_process(2), of isLeader isLocal] obtain b' m' where
      "ProcessTransactions B E txs isLeader isLocal mpi = Some (b', m')" "store_inv B (txStore m')"
      "txSliceSize m' = txSliceSize mpi" by blast
    with step_process(3) inv show ?thesis by (simp add: pool_ok_def)
  next
    case (step_generate E b)
    from GenerateBlock_safe[OF inv(1), of E] obtain b' m' where
      "GenerateBlock B E mpi = Some (b', m')" "store_inv B (txStore m')" "txSliceSize m' = txSliceSize mpi" by blast
    with step_generate inv show ?thesis by (simp add: pool_ok_def)
  next
    case (step_commit E state)
    from CommitTransactions_spec[OF step_commit(1) inv(1), of state] obtain m' where
      "CommitTransactions B E state mpi = Some m'" "store_inv B (txStore m')" "txSliceSize m' = txSliceSize mpi"
      by metis
    with step_commit(2) inv show ?thesis by (simp add: pool_ok_def)
  next
    case (step_timeout E dur shards)
    from GetTimeoutTransactions_spec[OF inv step_timeout(1), of E dur] obtain s m' where
      "GetTimeoutTransactions B E dur mpi = Some (s, m')" "store_inv B (txStore m')"
      "txSliceSize m' = txSliceSize mpi" by metis
    with step_timeout(2) inv show ?thesis by (simp add: pool_ok_def)
  next
    case (step_remove E dur cnt)
    from RemoveAliveTimeoutTxs_spec[OF step_remove(1) inv(1), of dur] obtain c m' where
      "RemoveAliveTimeoutTxs B E dur mpi = (c, m')" "store_inv B (txStore m')" "txSliceSize m' = txSliceSize mpi"
      by metis
    with step_remove(2) inv show ?thesis by (simp add: pool_ok_def)
  next
    case (step_pending E a n)
    then have m: "mpi' = mpi\<lparr>txStore := (txStore mpi)\<lparr>nonceCache :=
        snd (getPendingNonce E a (nonceCache (txStore mpi)))\<rparr>\<rparr>"
      by (simp add: GetPendingNonceByAccount_def case_prod_unfold Let_def)
    have "same_pool (txStore mpi) (txStore mpi')" by (simp add: m same_pool_def)
    from store_inv_same_pool[OF this, of B] inv show ?thesis by (simp add: m pool_ok_def)
  next
    case (step_seqno n)
    with inv show ?thesis by (auto simp: SetBatchSeqNo_def pool_ok_def)
  qed
qed

interpretation pool: invariant_system "pool_initial B" "mempool_step B" "pool_ok B"
  for B :: "('t, 'i, 'n) btrees"
proof unfold_locales
  fix mpi :: "('t, 'i, 'n) mempool" assume "pool_initial B mpi"
  then show "pool_ok B mpi"
    by (auto simp: pool_initial_def pool_ok_def newMempoolImpl_def store_inv_new DefaultTxSetSize_def
        split: if_splits)
qed (rule pool_ok_step)

lemma reachable_pool_ok: "pool_reachable B mpi \<Longrightarrow> store_inv B (txStore mpi) \<and> txSliceSize mpi \<noteq> 0"
  using pool.reachable_inv by (simp add: pool_reachable_def pool_ok_def)

section \<open>A pool for the witnesses\<close>

definition wB :: "(orderedTimeoutKey list, orderedIndexKey list, sortedNonceKey list) btrees" where
  "wB = \<lparr>time_ops = list_btree, queue_ops = list_btree, nonce_ops = list_btree\<rparr>"

definition wE :: env where
  "wE = \<lparr>rt_order = (\<lambda>_ ks. ks), rt_now = 1000, getAccountNonce = (\<lambda>_. 0)\<rparr>"

definition wtx :: "string \<Rightarrow> u64 \<Rightarrow> int \<Rightarrow> transaction" where
  "wtx a n t = \<lparr>tx_from = a, tx_nonce = n, tx_timestamp = t, tx_hash = a @ fmt_d n, tx_data = []\<rparr>"

definition wtxs :: "transaction list" where
  "wtxs = [wtx ''a'' 1 5, wtx ''a'' 0 7, wtx ''a'' 3 2, wtx ''b'' 0 9]"

definition wpool0 :: "(orderedTimeoutKey list, orderedIndexKey list, sortedNonceKey list) mempool" where
  "wpool0 = newMempoolImpl wB \<lparr>cfg_ID = 1, cfg_BatchSize = 2, cfg_PoolSize = 0, cfg_IsTimed = False,
     cfg_TxSliceSize = 2, cfg_ChainHeight = 7\<rparr>"

definition wpool1 :: "(orderedTimeoutKey list, orderedIndexKey list, sortedNonceKey list) mempool" where
  "wpool1 = snd (the (ProcessTransactions wB wE wtxs False True wpool0))"

lemma runtime_ok_wE [simp]: "runtime_ok wE"
  by (simp add: runtime_ok_def wE_def max_int64_def)

lemma btrees_ok_wB [simp]: "btrees_ok wB"
  by (simp add: btrees_ok_def wB_def)

lemma wtxs_nonces [simp]: "\<forall>tx \<in> set wtxs. tx_nonce tx \<noteq> -1"
  by (simp add: wtxs_def wtx_def)

lemma reachable_wpool0 [simp]: "pool_reachable wB wpool0"
  unfolding pool_reachable_def by (rule reach_init) (auto simp: pool_initial_def wpool0_def)

lemma reachable_wpool1 [simp]: "pool_reachable wB wpool1"
proof -
  have ok: "store_inv wB (txStore wpool0)" using reachable_pool_ok[of wB wpool0] by simp
  obtain b m where m: "ProcessTransactions wB wE wtxs False True wpool0 = Some (b, m)"
    by (rule ProcessTransactions_safe[OF runtime_ok_wE ok wtxs_nonces])
  have "mempool_step wB wpool0 m" by (rule step_process[OF _ _ m]) simp_all
  with reachable_wpool0 show ?thesis unfolding pool_reachable_def wpool1_def m by (auto intro: reach_step)
qed

section \<open>Safety\<close>


section \<open>Blocks\<close>

text \<open>
  C2. A generated block holds distinct pool transactions that were not in a block before; each one
  carries the commit nonce of its sender or follows a transaction already batched, earlier or in
  this block; the block is no longer than the batch size or the number of waiting transactions.
\<close>

theorem block_order:
  assumes "pool_reachable B mpi" "generateBlock B (E :: env) mpi = Some (Some batch, mpi')"
  shows "\<exists>ks. batch_TxList batch = map (\<lambda>k. getTxByOrderKey (oik_account k) (oik_nonce k) (txStore mpi)) ks \<and>
    None \<notin> set (batch_TxList batch) \<and> distinct ks \<and>
    (\<forall>i < length ks. ks ! i \<notin> taken (batchedTxs (txStore mpi)) \<and>
      (oik_nonce (ks ! i) = fst (getCommitNonce E (oik_account (ks ! i)) (nonceCache (txStore mpi))) \<or>
       oik_nonce (ks ! i) \<noteq> 0 \<and>
       pred_key (ks ! i) \<in> taken (batchedTxs (txStore mpi)) \<union> set (take i ks))) \<and>
    taken (batchedTxs (txStore mpi')) = taken (batchedTxs (txStore mpi)) \<union> set ks \<and>
    (priorityNonBatchSize (txStore mpi) \<noteq> 0 \<and> batchSize mpi \<noteq> 0 \<longrightarrow>
      length ks \<le> unat (batchSize mpi) \<and> length ks \<le> unat (priorityNonBatchSize (txStore mpi)))"
proof -
  have ok: "store_inv B (txStore mpi)" using reachable_pool_ok[OF assms(1)] by simp
  obtain ks ob m' where g: "generateBlock B E mpi = Some (ob, m')"
    "ob = (if \<not> isTimed mpi \<and> ks = [] \<and> priorityNonBatchSize (txStore mpi) > 0 then None
      else Some \<lparr>batch_TxList = map (\<lambda>k. Some (block_tx (txStore mpi) k)) ks, batch_Height = batchSeqNo mpi + 1,
                 batch_Timestamp = rt_now E\<rparr>)"
    "\<And>k. k \<in> set ks \<Longrightarrow> item_of (txStore mpi) (oik_account k) (oik_nonce k) \<noteq> None"
    "causal (\<lambda>a. fst (getCommitNonce E a (nonceCache (txStore mpi)))) (taken (batchedTxs (txStore mpi))) ks"
    "taken (batchedTxs (txStore m')) = taken (batchedTxs (txStore mpi)) \<union> set ks"
    "block_limit mpi \<noteq> 0 \<Longrightarrow> length ks \<le> unat (block_limit mpi)"
    by (rule generateBlock_spec[OF ok, of E]) (rule that)
  have batch: "batch_TxList batch = map (\<lambda>k. Some (block_tx (txStore mpi) k)) ks" "m' = mpi'"
    using assms(2) g(1,2) by (auto split: if_splits)
  have txs: "map (\<lambda>k. Some (block_tx (txStore mpi) k)) ks =
      map (\<lambda>k. getTxByOrderKey (oik_account k) (oik_nonce k) (txStore mpi)) ks"
    using g(3) by (intro map_cong refl) (force simp: getTxByOrderKey_item block_tx_def)
  have "block_limit mpi \<noteq> 0" if "priorityNonBatchSize (txStore mpi) \<noteq> 0" "batchSize mpi \<noteq> 0"
    using that by (auto simp: block_limit_def min_def)
  then have limit: "length ks \<le> unat (batchSize mpi) \<and> length ks \<le> unat (priorityNonBatchSize (txStore mpi))"
    if "priorityNonBatchSize (txStore mpi) \<noteq> 0" "batchSize mpi \<noteq> 0"
    using g(6) that by (auto simp: block_limit_def min_def word_le_nat_alt split: if_splits)
  have "None \<notin> set (batch_TxList batch)" by (auto simp: batch(1))
  then show ?thesis
    using batch txs causal_distinct[OF g(4)] causal_nth[OF g(4)] limit g(5)
    by (intro exI[of _ ks]) (auto simp: takeable_def)
qed

text \<open>
  C3. The generator is work conserving: when a block is not full, no transaction of the priority
  index is left that carries the commit nonce of its sender or follows a batched transaction.
\<close>

theorem block_complete:
  assumes "pool_reachable B mpi" "generateBlock B (E :: env) mpi = Some (Some batch, mpi')"
    and "of_nat (length (batch_TxList batch)) \<noteq> block_limit mpi"
    and "k \<in> bt_set (time_ops B) (priorityIndex (txStore mpi))"
    and "okey k \<notin> taken (batchedTxs (txStore mpi'))"
  shows "otk_nonce k \<noteq> fst (getCommitNonce E (otk_account k) (nonceCache (txStore mpi))) \<and>
    (otk_nonce k = 0 \<or> pred_key (okey k) \<notin> taken (batchedTxs (txStore mpi')))"
proof -
  have ok: "store_inv B (txStore mpi)" using reachable_pool_ok[OF assms(1)] by simp
  obtain ks ob m' where g: "generateBlock B E mpi = Some (ob, m')"
    "ob = (if \<not> isTimed mpi \<and> ks = [] \<and> priorityNonBatchSize (txStore mpi) > 0 then None
      else Some \<lparr>batch_TxList = map (\<lambda>k. Some (block_tx (txStore mpi) k)) ks, batch_Height = batchSeqNo mpi + 1,
                 batch_Timestamp = rt_now E\<rparr>)"
    "taken (batchedTxs (txStore m')) = taken (batchedTxs (txStore mpi)) \<union> set ks"
    "\<And>k. of_nat (length ks) \<noteq> block_limit mpi \<Longrightarrow> k \<in> okey ` bt_set (time_ops B) (priorityIndex (txStore mpi)) \<Longrightarrow>
      k \<in> taken (batchedTxs (txStore mpi)) \<union> set ks \<or>
      \<not> takeable (\<lambda>a. fst (getCommitNonce E a (nonceCache (txStore mpi)))) (taken (batchedTxs (txStore mpi)) \<union> set ks) k"
    by (rule generateBlock_spec[OF ok, of E]) (rule that)
  have batch: "length (batch_TxList batch) = length ks" "m' = mpi'"
    using assms(2) g(1,2) by (auto split: if_splits)
  with g(4)[of "okey k"] assms(3-5) g(3) show ?thesis
    by (auto simp: takeable_def okey_def)
qed

section \<open>Accepting\<close>

text \<open>
  The transactions a call accepts, by filters: those that are not below the pending nonce of their
  sender, of these the first one for each sender and nonce, of these the ones whose hash is new.
\<close>

fun first_by :: "('a \<Rightarrow> 'b) \<Rightarrow> 'a list \<Rightarrow> 'a list" where
  "first_by f [] = []"
| "first_by f (x # xs) = x # filter (\<lambda>y. f y \<noteq> f x) (first_by f xs)"

abbreviation tx_ptr :: "transaction \<Rightarrow> string \<times> u64" where
  "tx_ptr tx \<equiv> (tx_from tx, tx_nonce tx)"

definition accepted :: "'a env_scheme \<Rightarrow> ('t, 'i, 'n) transactionStore \<Rightarrow> transaction list \<Rightarrow> transaction list" where
  "accepted E st txs =
     filter (\<lambda>tx. gget (txHashMap st) (tx_hash tx) = None)
       (first_by tx_ptr
         (filter (\<lambda>tx. \<not> tx_nonce tx < fst (getPendingNonce E (tx_from tx) (nonceCache st))) txs))"

lemma first_by_snoc:
  "first_by f (xs @ [x]) = first_by f xs @ (if f x \<in> f ` set xs then [] else [x])"
  by (induction xs) auto

lemma first_by_subset: "set (first_by f xs) \<subseteq> set xs"
  by (induction xs) auto

lemma first_by_inj: "inj_on f (set (first_by f xs))"
  by (induction xs) (auto simp: inj_on_def)

lemma process_loop_accepted:
  fixes txs :: "transaction list"
  assumes "l = fold (process_one E (txHashMap st)) txs (process_start st)"
  shows "pl_validTxList l = accepted E st txs"
    and "txs_pairs (pl_validTxs l) = (\<lambda>tx. (tx_from tx, tx)) ` set (accepted E st txs)"
proof -
  let ?fresh = "\<lambda>tx. \<not> tx_nonce tx < fst (getPendingNonce E (tx_from tx) (nonceCache st))"
  have "pl_validTxList l = accepted E st txs \<and>
    txs_pairs (pl_validTxs l) = (\<lambda>tx. (tx_from tx, tx)) ` set (accepted E st txs) \<and>
    (\<forall>p. gget (pl_pointers l) p \<noteq> None \<longleftrightarrow> p \<in> tx_ptr ` set (filter ?fresh txs)) \<and>
    same_nonces E (nonceCache st) (pl_nonces l)"
    unfolding assms
  proof (induction txs rule: rev_induct)
    case Nil
    show ?case by (simp add: accepted_def same_nonces_def)
  next
    case (snoc tx txs)
    define m where "m = fold (process_one E (txHashMap st)) txs (process_start st)"
    note IH = snoc[folded m_def]
    have pend: "fst (getPendingNonce E (tx_from tx) (pl_nonces m)) = fst (getPendingNonce E (tx_from tx) (nonceCache st))"
      using IH by (simp add: same_nonces_def)
    have seen: "gget (pl_pointers m) (tx_ptr tx) \<noteq> None \<longleftrightarrow> tx_ptr tx \<in> tx_ptr ` set (filter ?fresh txs)"
      using IH by blast
    have acc: "accepted E st (txs @ [tx]) = accepted E st txs @
        (if ?fresh tx \<and> gget (pl_pointers m) (tx_ptr tx) = None \<and> gget (txHashMap st) (tx_hash tx) = None then [tx] else [])"
      using seen by (auto simp: accepted_def first_by_snoc)
    have same: "same_nonces E (nonceCache st) (pl_nonces (process_one E (txHashMap st) tx m))"
      using IH by (intro process_one_nonces) simp
    have "pl_validTxList (process_one E (txHashMap st) tx m) = accepted E st (txs @ [tx]) \<and>
      txs_pairs (pl_validTxs (process_one E (txHashMap st) tx m)) = (\<lambda>tx. (tx_from tx, tx)) ` set (accepted E st (txs @ [tx]))"
    proof (cases "?fresh tx \<and> gget (pl_pointers m) (tx_ptr tx) = None \<and> gget (txHashMap st) (tx_hash tx) = None")
      case True
      have "txs_pairs (pl_validTxs m) = (\<lambda>tx. (tx_from tx, tx)) ` set (accepted E st txs)"
        "pl_validTxList m = accepted E st txs" using IH by blast+
      with True pend txs_pairs_append[of "tx_from tx" "pl_validTxs m" tx] show ?thesis
        unfolding acc by (cases "gget (pl_validTxs m) (tx_from tx)")
          (simp_all add: process_one_def Let_def case_prod_unfold)
    next
      case False
      have "txs_pairs (pl_validTxs m) = (\<lambda>tx. (tx_from tx, tx)) ` set (accepted E st txs)"
        "pl_validTxList m = accepted E st txs" using IH by blast+
      with False pend show ?thesis
        unfolding acc by (auto simp: process_one_def Let_def case_prod_unfold)
    qed
    moreover have "gget (pl_pointers (process_one E (txHashMap st) tx m)) p \<noteq> None \<longleftrightarrow>
        gget (pl_pointers m) p \<noteq> None \<or> ?fresh tx \<and> p = tx_ptr tx" for p
      using pend by (auto simp: process_one_def Let_def case_prod_unfold)
    then have "\<forall>p. gget (pl_pointers (process_one E (txHashMap st) tx m)) p \<noteq> None \<longleftrightarrow>
        p \<in> tx_ptr ` set (filter ?fresh (txs @ [tx]))"
      using IH by auto
    ultimately show ?case using same by (simp add: m_def)
  qed
  then show "pl_validTxList l = accepted E st txs"
    "txs_pairs (pl_validTxs l) = (\<lambda>tx. (tx_from tx, tx)) ` set (accepted E st txs)" by blast+
qed

text \<open>What inserting a list of transactions, each pointer and each hash once, leaves in the store.\<close>

lemma insert_fold_lookup:
  assumes "inj_on (\<lambda>(a, tx). (a, tx_nonce tx)) (set ps)" "inj_on (\<lambda>(a, tx). tx_hash tx) (set ps)" "(a, tx) \<in> set ps"
    and st'_def: "st' = fold (\<lambda>(a, tx). insertTx B now loc a tx) ps st"
  shows "item_of st' a (tx_nonce tx) = Some \<lparr>item_account = a, item_tx = tx, item_local = loc\<rparr>"
    and "gget (txHashMap st') (tx_hash tx) = Some (OrderedIndexKey a (tx_nonce tx))"
proof -
  have "item_of st' a (tx_nonce tx) = Some \<lparr>item_account = a, item_tx = tx, item_local = loc\<rparr> \<and>
    gget (txHashMap st') (tx_hash tx) = Some (OrderedIndexKey a (tx_nonce tx))"
    using assms(1-3) unfolding st'_def
  proof (induction ps rule: rev_induct)
    case Nil
    then show ?case by simp
  next
    case (snoc p ps)
    obtain b t where p: "p = (b, t)" by (cases p)
    show ?case
    proof (cases "p = (a, tx)")
      case True
      with p show ?thesis by (simp add: insertTx_item)
    next
      case False
      with snoc.prems have "(a, tx) \<in> set ps" "(b, tx_nonce t) \<noteq> (a, tx_nonce tx)" "tx_hash t \<noteq> tx_hash tx"
        unfolding p by (auto simp: inj_on_def)
      moreover from this(1) snoc have "item_of (fold (\<lambda>(a, tx). insertTx B now loc a tx) ps st) a (tx_nonce tx) =
          Some \<lparr>item_account = a, item_tx = tx, item_local = loc\<rparr> \<and>
        gget (txHashMap (fold (\<lambda>(a, tx). insertTx B now loc a tx) ps st)) (tx_hash tx) = Some (OrderedIndexKey a (tx_nonce tx))"
        by (intro snoc.IH) (auto elim: inj_on_subset)
      ultimately show ?thesis unfolding p by (auto simp: insertTx_item)
    qed
  qed
  then show "item_of st' a (tx_nonce tx) = Some \<lparr>item_account = a, item_tx = tx, item_local = loc\<rparr>"
    "gget (txHashMap st') (tx_hash tx) = Some (OrderedIndexKey a (tx_nonce tx))" by blast+
qed

text \<open>
  C4. A call of \<^verbatim>\<open>ProcessTransactions\<close> posts to the subscribers, in order, exactly the transactions that
  are not below the sender's pending nonce, first for their sender and nonce and new by hash; each
  of them is then returned by \<^verbatim>\<open>GetTransaction\<close>. Different accepted transactions have different hashes.
\<close>

theorem process_accepts:
  assumes "pool_reachable B mpi" "runtime_ok (E :: env)" "\<forall>tx \<in> set txs. tx_nonce tx \<noteq> -1"
    and "inj_on tx_hash (set (accepted E (txStore mpi) txs))"
  shows "\<exists>b mpi'. ProcessTransactions B E txs isLeader isLocal mpi = Some (b, mpi') \<and>
    txFeed mpi' = txFeed mpi @ [accepted E (txStore mpi) txs] \<and>
    (\<forall>tx \<in> set (accepted E (txStore mpi) txs). GetTransaction (tx_hash tx) mpi' = Some tx)"
proof -
  have ok: "store_inv B (txStore mpi)" using reachable_pool_ok[OF assms(1)] by simp
  define l where "l = fold (process_one E (txHashMap (txStore mpi))) txs (process_start (txStore mpi))"
  define ins where "ins = insertTxs B E (pl_validTxs l) isLocal ((txStore mpi)\<lparr>nonceCache := pl_nonces l\<rparr>)"
  let ?acc = "accepted E (txStore mpi) txs"
  note acc = process_loop_accepted[OF l_def]
  obtain st2 where st2: "processDirtyAccount B E (fst ins) (snd ins) = Some st2" "store_inv B st2"
    "allTxs st2 = allTxs (snd ins)" "txHashMap st2 = txHashMap (snd ins)"
    by (rule process_store[OF assms(2) ok assms(3), of isLocal, folded l_def, folded ins_def]) (rule that)
  define mpi1 where "mpi1 = (postTxsEvent (pl_validTxList l) mpi)\<lparr>txStore := st2\<rparr>"
  have eq: "ProcessTransactions B E txs isLeader isLocal mpi =
      (if isLeader \<and> priorityNonBatchSize st2 \<ge> batchSize mpi \<and> \<not> isTimed mpi
       then generateBlock B E mpi1 else Some (None, mpi1))"
    by (simp add: ProcessTransactions_def Let_def case_prod_unfold l_def[symmetric] ins_def[symmetric]
        st2(1) mpi1_def)
  have get: "GetTransaction h m = (case gget (txHashMap (txStore m)) h of None \<Rightarrow> None
      | Some k \<Rightarrow> map_option item_tx (item_of (txStore m) (oik_account k) (oik_nonce k)))" for h and m :: "('t, 'i, 'n) mempool"
    by (auto simp: GetTransaction_def item_of_def split: option.splits)
  obtain ob mpi' where p: "ProcessTransactions B E txs isLeader isLocal mpi = Some (ob, mpi')"
    "same_pool st2 (txStore mpi')" "txFeed mpi' = txFeed mpi1"
  proof -
    obtain ob' m' where "generateBlock B E mpi1 = Some (ob', m')" "same_pool (txStore mpi1) (txStore m')" "txFeed m' = txFeed mpi1"
      by (rule generateBlock_spec[of B mpi1 E]) (auto simp: mpi1_def postTxsEvent_def st2(2) intro: that)
    note g = this
    have st: "txStore mpi1 = st2" by (simp add: mpi1_def postTxsEvent_def)
    show thesis
    proof (cases "isLeader \<and> priorityNonBatchSize st2 \<ge> batchSize mpi \<and> \<not> isTimed mpi")
      case True
      from g st show thesis by (intro that[of ob' m']) (simp_all add: eq if_P[OF True])
    next
      case False
      show thesis by (intro that[of None mpi1]) (simp_all add: eq if_not_P[OF False] st same_pool_def)
    qed
  qed
  obtain ps where ps: "set ps = txs_pairs (pl_validTxs l)"
    "snd ins = fold (\<lambda>(a, tx). insertTx B (rt_now E) isLocal a tx) ps ((txStore mpi)\<lparr>nonceCache := pl_nonces l\<rparr>)"
    by (rule insertTxs_eq[OF assms(2), where B = B and txs = "pl_validTxs l" and loc = isLocal
        and st = "(txStore mpi)\<lparr>nonceCache := pl_nonces l\<rparr>", folded ins_def]) (rule that)
  have "inj_on tx_ptr (set ?acc)"
    unfolding accepted_def by (rule inj_on_subset[OF first_by_inj]) auto
  then have inj: "inj_on (\<lambda>(a, tx). (a, tx_nonce tx)) (set ps)" "inj_on (\<lambda>(a, tx). tx_hash tx) (set ps)"
    using assms(4) unfolding ps(1) acc(2) by (auto simp: inj_on_def)
  have "GetTransaction (tx_hash tx) mpi' = Some tx" if "tx \<in> set ?acc" for tx
  proof -
    have "(tx_from tx, tx) \<in> set ps" using that by (simp add: ps(1) acc(2))
    note look = insert_fold_lookup[OF inj this ps(2)]
    have "item_of (txStore mpi') = item_of (snd ins)" "txHashMap (txStore mpi') = txHashMap (snd ins)"
      using p(2) st2(3,4) by (auto simp: same_pool_def intro: item_of_cong)
    with look show ?thesis by (simp add: get)
  qed
  moreover have "txFeed mpi' = txFeed mpi @ [?acc]"
    using p(3) by (simp add: mpi1_def postTxsEvent_def acc(1))
  ultimately show ?thesis using p(1) by blast
qed

end
