(* ===== verification/Mempool_Properties.thy ===== *)
theory Mempool_Properties
  imports Mempool_Steps
begin

text \<open>
  Commits, timers and nonce runs of the transaction pool in every reachable state.
\<close>

section \<open>Commits\<close>


section \<open>Rebroadcasts\<close>

text \<open>
  The items the iterator collects, when no sum overflows: exactly those whose time has come, because
  the index is ordered by time.
\<close>

lemma timeout_items_due:
  assumes "sorted_wrt (<) is" "\<forall>i \<in> set is. gget (allTxs st) (otk_account i) \<noteq> None"
    and "\<forall>i \<in> set is. otk_timestamp i \<le> max_int64 \<and> int64 (otk_timestamp i + dur) = otk_timestamp i + dur"
  shows "timeout_items st now dur is acc = acc @ filter (\<lambda>i. otk_timestamp i + dur \<le> now) is"
  using assms
proof (induction "is" arbitrary: acc)
  case Nil
  then show ?case by simp
next
  case (Cons i "is")
  show ?case
  proof (cases "otk_timestamp i + dur \<le> now")
    case True
    with Cons show ?thesis by (simp add: Let_def)
  next
    case False
    have "otk_timestamp i \<le> otk_timestamp j" if "j \<in> set is" for j
      using Cons.prems(1) that by (auto simp: less_orderedTimeoutKey_def otk_Less_def split: if_splits)
    then have "filter (\<lambda>i. otk_timestamp i + dur \<le> now) is = []"
      using False by (force simp: filter_empty_conv)
    with Cons.prems False show ?thesis by (simp add: Let_def)
  qed
qed

text \<open>
  C6. Once the earliest live time has passed, a rebroadcast returns exactly the live transactions
  whose waiting time is over, each once and in time order, cut into consecutive shards of at most
  the configured size, none of them empty, with no missing transaction; and the live times of
  exactly these transactions are set to the current time.
\<close>

theorem rebroadcast_shards:
  assumes "pool_reachable B mpi" "bt_Len (time_ops B) (tlm_index (ttlIndex (txStore mpi))) < 2 ^ 64"
    and "\<forall>k \<in> bt_set (time_ops B) (tlm_index (ttlIndex (txStore mpi))).
      otk_timestamp k \<le> max_int64 \<and> int64 (otk_timestamp k + dur) = otk_timestamp k + dur"
    and "int64 (earliestTimestamp (txStore mpi) + dur) \<le> rt_now E"
    and "GetTimeoutTransactions B (E :: env) dur mpi = Some (shards, mpi')"
  shows "\<exists>ts. set ts = {k \<in> bt_set (time_ops B) (tlm_index (ttlIndex (txStore mpi))). otk_timestamp k + dur \<le> rt_now E} \<and>
    sorted_wrt (<) ts \<and>
    concat shards = map (\<lambda>k. getTxByOrderKey (otk_account k) (otk_nonce k) (txStore mpi)) ts \<and>
    None \<notin> set (concat shards) \<and>
    (\<forall>s \<in> set shards. 0 < length s \<and> length s \<le> unat (txSliceSize mpi)) \<and>
    (\<forall>a n. tlm_times (ttlIndex (txStore mpi')) (a, n) =
      (if OrderedIndexKey a n \<in> okey ` set ts then Some (rt_now E) else tlm_times (ttlIndex (txStore mpi)) (a, n)))"
proof -
  have ok: "store_inv B (txStore mpi)" "txSliceSize mpi \<noteq> 0" using reachable_pool_ok[OF assms(1)] by simp_all
  note inv = pool_invD[OF ok(1)[unfolded store_inv_def]]
  have bt: "btree_ok (time_ops B)" using inv(1) by (simp add: btrees_ok_def)
  let ?is = "bt_Ascend (time_ops B) (tlm_index (ttlIndex (txStore mpi)))"
  define ts where "ts = filter (\<lambda>i. otk_timestamp i + dur \<le> rt_now E) ?is"
  have all: "gget (allTxs (txStore mpi)) (otk_account i) \<noteq> None" if "i \<in> set ?is" for i
  proof -
    have "tlm_times (ttlIndex (txStore mpi)) (otk_account i, otk_nonce i) = Some (otk_timestamp i)"
      using that inv(3) by (auto simp: tlm_inv_def timed_keys_def bt_set_def)
    from inv(4)[OF this] show ?thesis by (auto simp: item_of_def split: option.splits)
  qed
  have "due_items B (txStore mpi) (rt_now E) dur = ts"
    unfolding due_items_def ts_def
    using timeout_items_due[OF btree_okD(2)[OF bt], of "tlm_index (ttlIndex (txStore mpi))" "txStore mpi" dur "rt_now E" "[]"]
      all assms(3) by (auto simp: bt_set_def)
  then have due: "(if rt_now E < int64 (earliestTimestamp (txStore mpi) + dur) then []
      else due_items B (txStore mpi) (rt_now E) dur) = ts" using assms(4) by simp
  obtain m' where m: "GetTimeoutTransactions B E dur mpi =
      Some (chunks (unat (txSliceSize mpi)) (map (item_tx_at (txStore mpi)) ts), m')"
    "\<forall>k \<in> set ts. item_tx_at (txStore mpi) k \<noteq> None"
    "\<And>a n. tlm_times (ttlIndex (txStore m')) (a, n) =
      (if OrderedIndexKey a n \<in> okey ` set ts then Some (rt_now E) else tlm_times (ttlIndex (txStore mpi)) (a, n))"
    by (rule GetTimeoutTransactions_spec[OF ok assms(2), of E dur, unfolded due]) (rule that)
  have pos: "0 < unat (txSliceSize mpi)" using ok(2) by (simp add: unat_gt_0)
  have sh: "shards = chunks (unat (txSliceSize mpi)) (map (item_tx_at (txStore mpi)) ts)" "m' = mpi'"
    using m(1) assms(5) by simp_all
  have cc: "concat shards = map (item_tx_at (txStore mpi)) ts" by (simp add: sh concat_chunks[OF pos])
  show ?thesis
  proof (intro exI[of _ ts] conjI)
    show "set ts = {k \<in> bt_set (time_ops B) (tlm_index (ttlIndex (txStore mpi))). otk_timestamp k + dur \<le> rt_now E}"
      by (auto simp: ts_def bt_set_def)
    show "sorted_wrt (<) ts" unfolding ts_def by (intro sorted_wrt_filter btree_okD(2)[OF bt])
    show "concat shards = map (\<lambda>k. getTxByOrderKey (otk_account k) (otk_nonce k) (txStore mpi)) ts"
      unfolding cc by (simp add: item_tx_at_def[abs_def])
    show "None \<notin> set (concat shards)" unfolding cc using m(2) by auto
    show "\<forall>s \<in> set shards. 0 < length s \<and> length s \<le> unat (txSliceSize mpi)"
      unfolding sh using length_chunks[OF pos] by blast
    show "\<forall>a n. tlm_times (ttlIndex (txStore mpi')) (a, n) =
      (if OrderedIndexKey a n \<in> okey ` set ts then Some (rt_now E) else tlm_times (ttlIndex (txStore mpi)) (a, n))"
      using m(3) sh(2) by simp
  qed
qed

section \<open>Expiry\<close>

text \<open>
  C7. The expiry timer removes only transactions that are parked, neither ready nor batched, and
  that arrived longer ago than the given duration; every other transaction of the pool is still
  found, and the ready index, the batched keys, the nonces and the counter stay as they are.
\<close>

theorem expiry_removes_parked:
  assumes "pool_reachable B mpi" "runtime_ok (E :: env)" "RemoveAliveTimeoutTxs B E dur mpi = (cnt, mpi')"
  shows "(\<forall>a n. getTxByOrderKey a n (txStore mpi') = getTxByOrderKey a n (txStore mpi) \<or>
      getTxByOrderKey a n (txStore mpi') = None \<and>
      (\<exists>tx t. getTxByOrderKey a n (txStore mpi) = Some tx \<and>
        tam_times (removeTimeoutIndex (txStore mpi)) (a, n) = Some t \<and> dur < int64 (rt_now E - t) \<and>
        OrderedIndexKey a n \<in> bt_set (queue_ops B) (parkingLotIndex (txStore mpi)) \<and>
        OrderedTimeoutKey a n (tx_timestamp tx) \<notin> bt_set (time_ops B) (priorityIndex (txStore mpi)) \<and>
        OrderedIndexKey a n \<notin> taken (batchedTxs (txStore mpi)))) \<and>
    bt_set (time_ops B) (priorityIndex (txStore mpi')) = bt_set (time_ops B) (priorityIndex (txStore mpi)) \<and>
    batchedTxs (txStore mpi') = batchedTxs (txStore mpi) \<and> nonceCache (txStore mpi') = nonceCache (txStore mpi) \<and>
    priorityNonBatchSize (txStore mpi') = priorityNonBatchSize (txStore mpi)"
proof -
  have ok: "store_inv B (txStore mpi)" using reachable_pool_ok[OF assms(1)] by simp
  obtain P m c where m: "RemoveAliveTimeoutTxs B E dur mpi = (c, m)"
    "\<And>p. p \<in> P \<Longrightarrow> expired B (txStore mpi) (rt_now E) dur p"
    "\<And>b n. item_of (txStore m) b n = (if (b, n) \<in> ptrs P then None else item_of (txStore mpi) b n)"
    "bt_set (time_ops B) (priorityIndex (txStore m)) = bt_set (time_ops B) (priorityIndex (txStore mpi))"
    "batchedTxs (txStore m) = batchedTxs (txStore mpi)" "nonceCache (txStore m) = nonceCache (txStore mpi)"
    "priorityNonBatchSize (txStore m) = priorityNonBatchSize (txStore mpi)"
    by (rule RemoveAliveTimeoutTxs_spec[OF assms(2) ok, of dur]) (rule that)
  have "m = mpi'" using m(1) assms(3) by simp
  note m = m(2-)[unfolded this]
  have "getTxByOrderKey a n (txStore mpi') = None \<and>
      (\<exists>tx t. getTxByOrderKey a n (txStore mpi) = Some tx \<and>
        tam_times (removeTimeoutIndex (txStore mpi)) (a, n) = Some t \<and> dur < int64 (rt_now E - t) \<and>
        OrderedIndexKey a n \<in> bt_set (queue_ops B) (parkingLotIndex (txStore mpi)) \<and>
        OrderedTimeoutKey a n (tx_timestamp tx) \<notin> bt_set (time_ops B) (priorityIndex (txStore mpi)) \<and>
        OrderedIndexKey a n \<notin> taken (batchedTxs (txStore mpi)))" if p: "(a, n) \<in> ptrs P" for a n
  proof -
    obtain tx where tx: "(a, tx) \<in> P" "n = tx_nonce tx" using p by (auto simp: ptrs_def)
    from m(1)[OF tx(1)] tx(2) m(2)[of a n] p show ?thesis
      by (auto simp: expired_def getTxByOrderKey_item makeTimeoutKey_def makeOrderedIndexKey_def)
  qed
  moreover have "getTxByOrderKey a n (txStore mpi') = getTxByOrderKey a n (txStore mpi)" if "(a, n) \<notin> ptrs P" for a n
    using that m(2)[of a n] by (simp add: getTxByOrderKey_item)
  ultimately have "getTxByOrderKey a n (txStore mpi') = getTxByOrderKey a n (txStore mpi) \<or>
      getTxByOrderKey a n (txStore mpi') = None \<and>
      (\<exists>tx t. getTxByOrderKey a n (txStore mpi) = Some tx \<and>
        tam_times (removeTimeoutIndex (txStore mpi)) (a, n) = Some t \<and> dur < int64 (rt_now E - t) \<and>
        OrderedIndexKey a n \<in> bt_set (queue_ops B) (parkingLotIndex (txStore mpi)) \<and>
        OrderedTimeoutKey a n (tx_timestamp tx) \<notin> bt_set (time_ops B) (priorityIndex (txStore mpi)) \<and>
        OrderedIndexKey a n \<notin> taken (batchedTxs (txStore mpi)))" for a n
    by (cases "(a, n) \<in> ptrs P") simp_all
  with m(3-) show ?thesis by simp
qed

section \<open>Ready runs\<close>

text \<open>
  C8. For every account of a reachable pool and every demanded nonce \<open>d\<close>, \<^verbatim>\<open>filterReady\<close> returns the
  transactions with the nonces \<open>d, d + 1, ...\<close> up to the first nonce that the account's index lacks,
  that nonce, and as not ready exactly the indexed transactions above it.
\<close>

theorem filterReady_run_maximal:
  assumes "pool_reachable B mpi" "gget (allTxs (txStore mpi)) a = Some l"
  shows "\<exists>ready nonReady d'. filterReady B l d = Some (ready, nonReady, d') \<and>
    d \<le> d' \<and> d' = d + of_nat (length ready) \<and>
    map tx_nonce ready = map (\<lambda>i. d + of_nat i) [0..<length ready] \<and>
    SortedNonceKey d' \<notin> bt_set (nonce_ops B) (sm_index l) \<and>
    set ready = {item_tx it |n it. gget (sm_items l) n = Some it \<and> d \<le> n \<and> n < d'} \<and>
    set nonReady = {item_tx it |n it. gget (sm_items l) n = Some it \<and> d' < n \<and>
      SortedNonceKey n \<in> bt_set (nonce_ops B) (sm_index l)}"
proof -
  have ok: "store_inv B (txStore mpi)" using reachable_pool_ok[OF assms(1)] by simp
  note inv = pool_invD[OF ok[unfolded store_inv_def]]
  have sm: "sm_ok B a l" by (rule inv(2)[OF assms(2)])
  have "\<forall>k \<in> bt_set (nonce_ops B) (sm_index l). snk_nonce k \<noteq> -1"
  proof
    fix k assume "k \<in> bt_set (nonce_ops B) (sm_index l)"
    with sm obtain it where "item_of (txStore mpi) a (snk_nonce k) = Some it"
      by (auto simp: sm_ok_def item_of_def assms(2))
    from inv(8)[OF this] show "snk_nonce k \<noteq> -1" by simp
  qed
  then obtain ready nonReady d' where "filterReady B l d = Some (ready, nonReady, d')" "d \<le> d'"
    "SortedNonceKey d' \<notin> bt_set (nonce_ops B) (sm_index l)"
    "map tx_nonce ready = map (\<lambda>i. d + of_nat i) [0..<length ready]" "d' = d + of_nat (length ready)"
    "set ready = {item_tx it |n it. gget (sm_items l) n = Some it \<and> d \<le> n \<and> n < d'}"
    "set nonReady = {item_tx it |n it. gget (sm_items l) n = Some it \<and> d' < n \<and>
      SortedNonceKey n \<in> bt_set (nonce_ops B) (sm_index l)}"
    by (rule filterReady_spec[OF inv(1) sm, of d]) (rule that)
  then show ?thesis by (intro exI conjI)
qed

end

