(* ===== verification/Mempool_Runs.thy ===== *)
theory Mempool_Runs
  imports Mempool_Properties
begin

text \<open>
  Concrete runs of the transaction pool: the witnesses of the properties of the pool, and three runs
  that end in a state its comments exclude.
\<close>

section \<open>More reachable pools\<close>

lemma reachable_process:
  assumes "pool_reachable B mpi" "runtime_ok (E :: env)" "\<forall>tx \<in> set txs. tx_nonce tx \<noteq> -1"
  shows "pool_reachable B (snd (the (ProcessTransactions B E txs isLeader isLocal mpi)))"
proof -
  have ok: "store_inv B (txStore mpi)" using reachable_pool_ok[OF assms(1)] by simp
  obtain b m where m: "ProcessTransactions B E txs isLeader isLocal mpi = Some (b, m)"
    by (rule ProcessTransactions_safe[OF assms(2) ok assms(3), of isLeader isLocal]) (rule that)
  from step_process[OF assms(2,3) m] assms(1) show ?thesis
    unfolding pool_reachable_def m by (auto intro: reach_step)
qed

lemma reachable_commit_Some:
  assumes "pool_reachable B mpi" "runtime_ok (E :: env)"
  shows "\<exists>m. CommitTransactions B E state mpi = Some m"
proof -
  have ok: "store_inv B (txStore mpi)" using reachable_pool_ok[OF assms(1)] by simp
  show ?thesis by (rule CommitTransactions_spec[OF assms(2) ok, of state]) blast
qed

lemma reachable_commit:
  assumes "pool_reachable B mpi" "runtime_ok (E :: env)"
  shows "pool_reachable B (the (CommitTransactions B E state mpi))"
proof -
  obtain m where m: "CommitTransactions B E state mpi = Some m"
    using reachable_commit_Some[OF assms] by blast
  from step_commit[OF assms(2) m] assms(1) show ?thesis
    unfolding pool_reachable_def m by (auto intro: reach_step)
qed

text \<open>
  The pool of the witnesses holds the ready transactions 0 and 1 of \<open>a\<close> and 0 of \<open>b\<close>, and the
  parked transaction 3 of \<open>a\<close>. A block that was produced elsewhere then commits the parked one, and
  transaction 2 of \<open>a\<close> arrives.
\<close>

definition wpool3 :: "(orderedTimeoutKey list, orderedIndexKey list, sortedNonceKey list) mempool" where
  "wpool3 = the (CommitTransactions wB wE \<lparr>cs_Height = 8, cs_TxHashList = [''a3'']\<rparr> wpool1)"

definition wpool4 :: "(orderedTimeoutKey list, orderedIndexKey list, sortedNonceKey list) mempool" where
  "wpool4 = snd (the (ProcessTransactions wB wE [wtx ''a'' 2 4] False True wpool3))"

lemma reachable_wpool3 [simp]: "pool_reachable wB wpool3"
  unfolding wpool3_def by (rule reachable_commit) simp_all

lemma reachable_wpool4 [simp]: "pool_reachable wB wpool4"
  unfolding wpool4_def by (rule reachable_process) (simp_all add: wtx_def)

text \<open>What the witnesses look at; as a function, so that the pool is evaluated once.\<close>

definition wview1 where
  "wview1 p = (bt_Ascend (time_ops wB) (tlm_index (ttlIndex (txStore p))), earliestTimestamp (txStore p),
     batchedTxs (txStore p), priorityNonBatchSize (txStore p), map_option fst (generateBlock wB wE p),
     map_option fst (GetTimeoutTransactions wB wE 994 p))"

definition wview4 where
  "wview4 p = (bt_Ascend (time_ops wB) (priorityIndex (txStore p)), block_limit p,
     map_option (map_prod id (\<lambda>m. batchedTxs (txStore m))) (generateBlock wB wE p))"

lemma wpool1_facts:
  "wview1 wpool1
   = ([OrderedTimeoutKey ''a'' 3 2, OrderedTimeoutKey ''a'' 1 5, OrderedTimeoutKey ''a'' 0 7, OrderedTimeoutKey ''b'' 0 9],
      2, [], 3,
      Some (Some \<lparr>batch_TxList = [Some (wtx ''a'' 0 7), Some (wtx ''a'' 1 5)], batch_Height = 8, batch_Timestamp = 1000\<rparr>),
      Some [[Some (wtx ''a'' 3 2), Some (wtx ''a'' 1 5)]])"
  by code_simp

lemma wpool4_facts:
  "wview4 wpool4
   = ([OrderedTimeoutKey ''a'' 2 4, OrderedTimeoutKey ''b'' 0 9], 2,
      Some (Some \<lparr>batch_TxList = [Some (wtx ''b'' 0 9)], batch_Height = 8, batch_Timestamp = 1000\<rparr>,
        [(OrderedIndexKey ''b'' 0, True)]))"
  by code_simp

section \<open>Witnesses\<close>

lemma wpool1_live:
  "bt_set (time_ops wB) (tlm_index (ttlIndex (txStore wpool1))) =
    {OrderedTimeoutKey ''a'' 3 2, OrderedTimeoutKey ''a'' 1 5, OrderedTimeoutKey ''a'' 0 7, OrderedTimeoutKey ''b'' 0 9}"
  "bt_Len (time_ops wB) (tlm_index (ttlIndex (txStore wpool1))) = 4"
  "earliestTimestamp (txStore wpool1) = 2"
proof -
  have ok: "btree_ok (time_ops wB)" by (simp add: wB_def)
  show "bt_set (time_ops wB) (tlm_index (ttlIndex (txStore wpool1))) =
    {OrderedTimeoutKey ''a'' 3 2, OrderedTimeoutKey ''a'' 1 5, OrderedTimeoutKey ''a'' 0 7, OrderedTimeoutKey ''b'' 0 9}"
    "bt_Len (time_ops wB) (tlm_index (ttlIndex (txStore wpool1))) = 4"
    "earliestTimestamp (txStore wpool1) = 2"
    using wpool1_facts by (simp_all add: wview1_def bt_set_def btree_okD(6)[OF ok])
qed


definition wbatch :: request_batch where
  "wbatch = \<lparr>batch_TxList = [Some (wtx ''a'' 0 7), Some (wtx ''a'' 1 5)], batch_Height = 8, batch_Timestamp = 1000\<rparr>"

definition wpool2 :: "(orderedTimeoutKey list, orderedIndexKey list, sortedNonceKey list) mempool" where
  "wpool2 = snd (the (generateBlock wB wE wpool1))"

lemma wpool1_block: "generateBlock wB wE wpool1 = Some (Some wbatch, wpool2)"
  using wpool1_facts by (auto simp: wview1_def wpool2_def wbatch_def)

text \<open>Witness of C2: the block takes 0 and 1 of \<open>a\<close>, although 1 has the earlier timestamp.\<close>

theorem block_order_witness:
  "\<exists>ks. batch_TxList wbatch = map (\<lambda>k. getTxByOrderKey (oik_account k) (oik_nonce k) (txStore wpool1)) ks \<and>
    distinct ks \<and> length ks = 2"
proof -
  from block_order[OF reachable_wpool1 wpool1_block] obtain ks where
    ks: "batch_TxList wbatch = map (\<lambda>k. getTxByOrderKey (oik_account k) (oik_nonce k) (txStore wpool1)) ks"
      "distinct ks" by blast
  have "length (batch_TxList wbatch) = 2" by (simp add: wbatch_def)
  with ks(1) have "length ks = 2" by simp
  with ks show ?thesis by blast
qed

definition wbatch4 :: request_batch where
  "wbatch4 = \<lparr>batch_TxList = [Some (wtx ''b'' 0 9)], batch_Height = 8, batch_Timestamp = 1000\<rparr>"

definition wpool5 :: "(orderedTimeoutKey list, orderedIndexKey list, sortedNonceKey list) mempool" where
  "wpool5 = snd (the (generateBlock wB wE wpool4))"

lemma wpool4_block: "generateBlock wB wE wpool4 = Some (Some wbatch4, wpool5)"
  using wpool4_facts by (auto simp: wview4_def wpool5_def wbatch4_def)

text \<open>Witness of C3: the block is not full, and the transaction left over does not fit the nonces.\<close>

theorem block_complete_witness:
  "2 \<noteq> fst (getCommitNonce wE ''a'' (nonceCache (txStore wpool4)))"
  using block_complete[OF reachable_wpool4 wpool4_block, of "OrderedTimeoutKey ''a'' 2 4"] wpool4_facts
  by (auto simp: wview4_def wbatch4_def wpool5_def bt_set_def okey_def taken_def)

text \<open>Witness of C4: all four transactions are accepted and found.\<close>

theorem process_accepts_witness:
  "\<exists>b mpi'. ProcessTransactions wB wE wtxs True True wpool0 = Some (b, mpi') \<and>
    GetTransaction ''a3'' mpi' = Some (wtx ''a'' 3 2)"
proof -
  have acc: "accepted wE (txStore wpool0) wtxs = wtxs"
    by code_simp
  have hashes: "map tx_hash wtxs = [''a1'', ''a0'', ''a3'', ''b0'']"
    by code_simp
  then have "distinct (map tx_hash wtxs)" by simp
  then have "inj_on tx_hash (set (accepted wE (txStore wpool0) wtxs))"
    unfolding acc by (simp add: distinct_map)
  from process_accepts[OF reachable_wpool0 runtime_ok_wE wtxs_nonces this, of True True]
  obtain b mpi' where "ProcessTransactions wB wE wtxs True True wpool0 = Some (b, mpi')"
    "\<forall>tx \<in> set wtxs. GetTransaction (tx_hash tx) mpi' = Some tx" by (auto simp: acc)
  with hashes show ?thesis by (auto simp: wtxs_def)
qed


text \<open>Witness of C6: of the four live transactions the two oldest are due.\<close>

theorem rebroadcast_shards_witness:
  "\<exists>ts. set ts = {OrderedTimeoutKey ''a'' 3 2, OrderedTimeoutKey ''a'' 1 5} \<and> sorted_wrt (<) ts \<and>
    [Some (wtx ''a'' 3 2), Some (wtx ''a'' 1 5)] =
      map (\<lambda>k. getTxByOrderKey (otk_account k) (otk_nonce k) (txStore wpool1)) ts"
proof -
  obtain m where m: "GetTimeoutTransactions wB wE 994 wpool1 = Some ([[Some (wtx ''a'' 3 2), Some (wtx ''a'' 1 5)]], m)"
    using wpool1_facts by (auto simp: wview1_def)
  have "\<exists>ts. set ts = {k \<in> bt_set (time_ops wB) (tlm_index (ttlIndex (txStore wpool1))). otk_timestamp k + 994 \<le> rt_now wE} \<and>
    sorted_wrt (<) ts \<and>
    concat [[Some (wtx ''a'' 3 2), Some (wtx ''a'' 1 5)]] =
      map (\<lambda>k. getTxByOrderKey (otk_account k) (otk_nonce k) (txStore wpool1)) ts"
    using rebroadcast_shards[OF reachable_wpool1 _ _ _ m]
    by (auto simp: wpool1_live wE_def int64_def max_int64_def)
  moreover have "{k \<in> bt_set (time_ops wB) (tlm_index (ttlIndex (txStore wpool1))). otk_timestamp k + 994 \<le> rt_now wE}
      = {OrderedTimeoutKey ''a'' 3 2, OrderedTimeoutKey ''a'' 1 5}"
    by (auto simp: wpool1_live wE_def)
  ultimately show ?thesis by simp
qed

definition wE2 :: env where
  "wE2 = wE\<lparr>rt_now := 2000\<rparr>"

lemma runtime_ok_wE2 [simp]: "runtime_ok wE2"
  by (simp add: runtime_ok_def wE2_def wE_def max_int64_def)

definition wpool6 :: "(orderedTimeoutKey list, orderedIndexKey list, sortedNonceKey list) mempool" where
  "wpool6 = snd (RemoveAliveTimeoutTxs wB wE2 500 wpool1)"

definition wview6 where
  "wview6 p = (getTxByOrderKey ''a'' 3 (txStore p), getTxByOrderKey ''a'' 3 (txStore (snd (RemoveAliveTimeoutTxs wB wE2 500 p))),
     map_option (\<lambda>l. map_option (\<lambda>(r, n, d). (map tx_nonce r, map tx_nonce n, d)) (filterReady wB l 0)) (gget (allTxs (txStore p)) ''a''))"

lemma wpool6_facts: "wview6 wpool1 = (Some (wtx ''a'' 3 2), None, Some (Some ([0, 1], [3], 2)))"
  by code_simp

text \<open>Witness of C7: the parked transaction expires, the ready ones stay.\<close>

theorem expiry_removes_parked_witness:
  "getTxByOrderKey ''a'' 3 (txStore wpool1) = Some (wtx ''a'' 3 2) \<and> getTxByOrderKey ''a'' 3 (txStore wpool6) = None \<and>
   bt_set (time_ops wB) (priorityIndex (txStore wpool6)) = bt_set (time_ops wB) (priorityIndex (txStore wpool1))"
proof -
  have "RemoveAliveTimeoutTxs wB wE2 500 wpool1 = (fst (RemoveAliveTimeoutTxs wB wE2 500 wpool1), wpool6)"
    by (simp add: wpool6_def)
  from expiry_removes_parked[OF reachable_wpool1 runtime_ok_wE2 this] wpool6_facts show ?thesis
    by (simp add: wview6_def wpool6_def)
qed

text \<open>Witness of C8: the run of \<open>a\<close> from nonce 0 ends at 2, and 3 is not ready.\<close>

theorem filterReady_run_maximal_witness:
  "\<exists>l ready nonReady. gget (allTxs (txStore wpool1)) ''a'' = Some l \<and>
    filterReady wB l 0 = Some (ready, nonReady, 2) \<and> map tx_nonce ready = [0, 1] \<and>
    SortedNonceKey 2 \<notin> bt_set (nonce_ops wB) (sm_index l)"
proof -
  obtain l where l: "gget (allTxs (txStore wpool1)) ''a'' = Some l"
    "map_option (\<lambda>(r, n, d). (map tx_nonce r, map tx_nonce n, d)) (filterReady wB l 0) = Some ([0, 1], [3], 2)"
    using wpool6_facts by (auto simp: wview6_def)
  with filterReady_run_maximal[OF reachable_wpool1 l(1), of 0] show ?thesis by auto
qed

section \<open>Runs that end where they should not\<close>

definition wE0 :: "int \<Rightarrow> env" where
  "wE0 t = wE\<lparr>rt_now := t\<rparr>"

text \<open>
  Transactions 3 of \<open>a\<close> and 5 of \<open>b\<close> are parked at time 0, transaction 3 of \<open>b\<close> at time 900. At
  time 1000 the first two expire.
\<close>

definition wexpired :: "(orderedTimeoutKey list, orderedIndexKey list, sortedNonceKey list) mempool" where
  "wexpired = snd (RemoveAliveTimeoutTxs wB (wE0 1000) 500
     (snd (the (ProcessTransactions wB (wE0 900) [wtx ''b'' 3 3] False True
       (snd (the (ProcessTransactions wB (wE0 0) [wtx ''a'' 3 1, wtx ''b'' 5 2] False True wpool0)))))))"

text \<open>The pool still holds a transaction that fills the gap, but the run of ready nonces stops at it.\<close>

definition lost_nonce ::
    "string \<Rightarrow> transaction list \<Rightarrow> transaction \<Rightarrow> (orderedTimeoutKey list, orderedIndexKey list, sortedNonceKey list) mempool \<Rightarrow> bool" where
  "lost_nonce a fill tx p \<longleftrightarrow>
     (let p' = snd (the (ProcessTransactions wB (wE0 1001) fill False True p))
      in GetTransaction (tx_hash tx) p' = Some tx \<and> fst (GetPendingNonceByAccount (wE0 1001) a p') = tx_nonce tx)"


text \<open>
  Replacing a parked transaction by another one with the same nonce leaves the hash of the old
  one in the hash map: a lookup of the old hash returns the new transaction, which has another hash.
\<close>

theorem replaced_hash_is_stale:
  "GetTransaction ''a3'' (snd (the (ProcessTransactions wB wE [(wtx ''a'' 3 9)\<lparr>tx_hash := ''new''\<rparr>] False True wpool1)))
     = Some ((wtx ''a'' 3 9)\<lparr>tx_hash := ''new''\<rparr>)"
  by code_simp

definition nonces_of :: "string \<Rightarrow> (orderedTimeoutKey list, orderedIndexKey list, sortedNonceKey list) mempool \<Rightarrow> u64 \<times> u64" where
  "nonces_of a p = (commit_nonce wE p a, fst (GetPendingNonceByAccount wE a p))"

text \<open>
  A commit of a parked transaction raises the commit nonce of its sender above the pending
  nonce, against the invariant the comment of the nonce cache states.
\<close>

theorem pending_below_commit:
  "nonces_of ''a'' wpool3 = (4, 2)"
  by code_simp

end
