(* ===== verification/Tx_Cache.thy ===== *)
theory Tx_Cache
  imports Mempool
begin

text \<open>
  The cache in front of the transaction pool (\<^verbatim>\<open>pkg/order/mempool/tx_cache.go\<close>): it collects the
  transactions of the clients into sets, and posts a set when it is full or when a timer has
  elapsed. The listening goroutine and the goroutines of the timers are a step system; a timer that
  was not stopped in time may still fire for a later set.
\<close>

section \<open>Data\<close>

definition DefaultTxCacheSize :: nat where "DefaultTxCacheSize = 10000"
definition DefaultTxSetTick :: int where "DefaultTxSetTick = 100 * 1000000"

text \<open>
  The goroutine of a timer: it has been started, it waits for the clock or for the close of the stop
  channel it has read, or the clock has won and it waits to be heard.
\<close>

datatype timer = Started | Waiting nat | Elapsed

text \<open>
  \<^verbatim>\<open>RecvTxC\<close> is a buffered channel; what was received from \<^verbatim>\<open>TxSetC\<close>, which has no buffer, is kept in
  order. The stop channels are numbered, all but the last one are closed. \<^verbatim>\<open>xc_sent\<close> records what the
  clients have sent; \<^term>\<open>None\<close> is a nil transaction.
\<close>

record 'tx txCache =
  xc_TxSetC :: "'tx list list"
  xc_RecvTxC :: "'tx option list"
  xc_txSet :: "'tx list"
  xc_timers :: "timer list"
  xc_stopTimerC :: nat
  xc_txSetTick :: int
  xc_txSetSize :: u64
  xc_sent :: "'tx option list"

definition NewTxCache :: "int \<Rightarrow> u64 \<Rightarrow> 'tx txCache" where
  "NewTxCache txSliceTimeout txSetSize =
     \<lparr>xc_TxSetC = [], xc_RecvTxC = [], xc_txSet = [], xc_timers = [], xc_stopTimerC = 0,
      xc_txSetTick = (if txSliceTimeout = 0 then DefaultTxSetTick else txSliceTimeout),
      xc_txSetSize = (if txSetSize = 0 then DefaultTxSetSize else txSetSize), xc_sent = []\<rparr>"

section \<open>Operations\<close>

definition IsFull :: "'tx txCache \<Rightarrow> bool" where
  "IsFull tc \<longleftrightarrow> length (xc_RecvTxC tc) = DefaultTxCacheSize"

definition startTxSetTimer :: "'tx txCache \<Rightarrow> 'tx txCache" where
  "startTxSetTimer tc = tc\<lparr>xc_timers := xc_timers tc @ [Started]\<rparr>"

definition stopTxSetTimer :: "'tx txCache \<Rightarrow> 'tx txCache" where
  "stopTxSetTimer tc = tc\<lparr>xc_stopTimerC := xc_stopTimerC tc + 1\<rparr>"

definition postTxSet :: "'tx txCache \<Rightarrow> 'tx txCache" where
  "postTxSet tc = tc\<lparr>xc_TxSetC := xc_TxSetC tc @ [xc_txSet tc], xc_txSet := []\<rparr>"

definition appendTx :: "'tx option \<Rightarrow> 'tx txCache \<Rightarrow> 'tx txCache" where
  "appendTx tx tc =
     (case tx of
        None \<Rightarrow> tc
      | Some t \<Rightarrow>
          let tc1 = (if length (xc_txSet tc) = 0 then startTxSetTimer tc else tc);
              tc2 = tc1\<lparr>xc_txSet := xc_txSet tc1 @ [t]\<rparr>
          in if of_nat (length (xc_txSet tc2)) \<ge> xc_txSetSize tc2 then postTxSet (stopTxSetTimer tc2) else tc2)"

section \<open>Steps\<close>

text \<open>
  A client sends when the buffer has room; \<^verbatim>\<open>ListenEvent\<close> takes a transaction from the buffer or hears a
  timer; a timer goroutine reads the stop channel, sees the clock, or sees its channel closed.
\<close>

inductive cache_step :: "'tx txCache \<Rightarrow> 'tx txCache \<Rightarrow> bool" where
  client_sends: "length (xc_RecvTxC tc) < DefaultTxCacheSize \<Longrightarrow>
    cache_step tc (tc\<lparr>xc_RecvTxC := xc_RecvTxC tc @ [tx], xc_sent := xc_sent tc @ [tx]\<rparr>)"
| listen_tx: "xc_RecvTxC tc = tx # txs \<Longrightarrow> cache_step tc (appendTx tx (tc\<lparr>xc_RecvTxC := txs\<rparr>))"
| listen_timer: "xc_timers tc = as @ Elapsed # bs \<Longrightarrow>
    cache_step tc (postTxSet (stopTxSetTimer (tc\<lparr>xc_timers := as @ bs\<rparr>)))"
| timer_selects: "xc_timers tc = as @ Started # bs \<Longrightarrow>
    cache_step tc (tc\<lparr>xc_timers := as @ Waiting (xc_stopTimerC tc) # bs\<rparr>)"
| timer_elapses: "xc_timers tc = as @ Waiting g # bs \<Longrightarrow> cache_step tc (tc\<lparr>xc_timers := as @ Elapsed # bs\<rparr>)"
| timer_stopped: "xc_timers tc = as @ Waiting g # bs \<Longrightarrow> g < xc_stopTimerC tc \<Longrightarrow>
    cache_step tc (tc\<lparr>xc_timers := as @ bs\<rparr>)"

definition cache_initial :: "'tx txCache \<Rightarrow> bool" where
  "cache_initial tc \<longleftrightarrow> (\<exists>t n. tc = NewTxCache t n)"

text \<open>A timer that can still make the current set be posted.\<close>

definition pending :: "nat \<Rightarrow> timer \<Rightarrow> bool" where
  "pending g t \<longleftrightarrow> t = Started \<or> t = Elapsed \<or> t = Waiting g"

definition cache_inv :: "'tx txCache \<Rightarrow> bool" where
  "cache_inv tc \<longleftrightarrow>
     concat (xc_TxSetC tc) @ xc_txSet tc @ List.map_filter id (xc_RecvTxC tc) = List.map_filter id (xc_sent tc) \<and>
     0 < xc_txSetSize tc \<and> length (xc_txSet tc) < unat (xc_txSetSize tc) \<and>
     (\<forall>ts \<in> set (xc_TxSetC tc). length ts \<le> unat (xc_txSetSize tc)) \<and>
     length (xc_RecvTxC tc) \<le> DefaultTxCacheSize \<and>
     (xc_txSet tc \<noteq> [] \<longrightarrow> (\<exists>t \<in> set (xc_timers tc). pending (xc_stopTimerC tc) t)) \<and>
     (\<forall>g. Waiting g \<in> set (xc_timers tc) \<longrightarrow> g \<le> xc_stopTimerC tc)"

lemma map_filter_append: "List.map_filter f (xs @ ys) = List.map_filter f xs @ List.map_filter f ys"
  by (simp add: List.map_filter_def)

lemma length_reaches:
  assumes "n < unat (k :: u64)"
  shows "of_nat (Suc n) \<ge> k \<longleftrightarrow> Suc n = unat k"
proof -
  have "Suc n < 2 ^ 64" using assms unat_u64_less[of k] by simp
  then have "unat (of_nat (Suc n) :: u64) = Suc n" by (rule unat_of_nat_u64)
  then have "of_nat (Suc n) \<ge> k \<longleftrightarrow> unat k \<le> Suc n" by (simp only: word_le_nat_alt)
  with assms show ?thesis by auto
qed

lemma appendTx_inv:
  assumes "cache_inv tc" "xc_RecvTxC tc = tx # txs"
  shows "cache_inv (appendTx tx (tc\<lparr>xc_RecvTxC := txs\<rparr>))"
proof (cases tx)
  case None
  with assms show ?thesis by (simp add: cache_inv_def appendTx_def List.map_filter_simps)
next
  case (Some t)
  let ?n = "length (xc_txSet tc)"
  have n: "?n < unat (xc_txSetSize tc)" using assms(1) by (simp add: cache_inv_def)
  note r = length_reaches[OF n]
  show ?thesis
  proof (cases "Suc ?n = unat (xc_txSetSize tc)")
    case True
    then have "of_nat (Suc ?n) \<ge> xc_txSetSize tc" using r by blast
    then show ?thesis using assms Some n True
      by (auto simp: cache_inv_def appendTx_def Let_def postTxSet_def stopTxSetTimer_def startTxSetTimer_def
          List.map_filter_simps le_Suc_eq simp del: of_nat_Suc)
  next
    case False
    then have "\<not> of_nat (Suc ?n) \<ge> xc_txSetSize tc" using r by blast
    then show ?thesis using assms Some n False
      by (auto simp: cache_inv_def appendTx_def Let_def startTxSetTimer_def pending_def
          List.map_filter_simps simp del: of_nat_Suc)
  qed
qed

lemma cache_inv_step:
  assumes "cache_inv tc" "cache_step tc tc'"
  shows "cache_inv tc'"
  using assms(2)
proof cases
  case (client_sends tx)
  then show ?thesis using assms(1) by (cases tx) (auto simp: cache_inv_def map_filter_append List.map_filter_simps)
next
  case (listen_tx tx txs)
  then show ?thesis using appendTx_inv[OF assms(1)] by simp
next
  case (listen_timer as bs)
  then show ?thesis using assms(1)
    by (auto simp: cache_inv_def postTxSet_def stopTxSetTimer_def word_gt_0 unat_gt_0 le_Suc_eq)
qed (use assms(1) in \<open>auto simp: cache_inv_def pending_def\<close>)

lemma cache_inv_initial: "cache_initial tc \<Longrightarrow> cache_inv tc"
  by (auto simp: cache_initial_def cache_inv_def NewTxCache_def DefaultTxSetSize_def List.map_filter_simps
      word_gt_0 unat_gt_0 split: if_splits)

interpretation cacherun: invariant_system cache_initial cache_step cache_inv
  by unfold_locales (rule cache_inv_initial, assumption, rule cache_inv_step)

section \<open>The set is posted\<close>

lemma elapsed_posts:
  assumes "Elapsed \<in> set (xc_timers tc)"
  shows "\<exists>tc'. cache_step tc tc' \<and> xc_TxSetC tc' = xc_TxSetC tc @ [xc_txSet tc]"
proof -
  from assms obtain as bs where t: "xc_timers tc = as @ Elapsed # bs" by (meson split_list)
  show ?thesis by (rule exI, rule conjI, rule listen_timer[OF t]) (simp add: postTxSet_def stopTxSetTimer_def)
qed

lemma pending_posts:
  assumes "t \<in> set (xc_timers tc)" "pending (xc_stopTimerC tc) t"
  shows "\<exists>tc'. cache_step\<^sup>*\<^sup>* tc tc' \<and> xc_TxSetC tc' = xc_TxSetC tc @ [xc_txSet tc]"
proof -
  have waiting: "\<exists>tc'. cache_step\<^sup>*\<^sup>* tc tc' \<and> xc_TxSetC tc' = xc_TxSetC tc @ [xc_txSet tc]"
    if "Waiting g \<in> set (xc_timers tc)" for tc :: "'a txCache" and g
  proof -
    from that obtain as bs where w: "xc_timers tc = as @ Waiting g # bs" by (meson split_list)
    let ?e = "tc\<lparr>xc_timers := as @ Elapsed # bs\<rparr>"
    have "cache_step tc ?e" by (rule timer_elapses[OF w])
    moreover obtain tc' where "cache_step ?e tc'" "xc_TxSetC tc' = xc_TxSetC ?e @ [xc_txSet ?e]"
      using elapsed_posts[of ?e] by auto
    ultimately show ?thesis by (auto intro: exI[of _ tc'] rtranclp.rtrancl_into_rtrancl)
  qed
  from assms(2) consider "t = Started" | "t = Elapsed" | "t = Waiting (xc_stopTimerC tc)" unfolding pending_def by blast
  then show ?thesis
  proof cases
    case 1
    with assms(1) obtain as bs where s: "xc_timers tc = as @ Started # bs" by (meson split_list)
    let ?w = "tc\<lparr>xc_timers := as @ Waiting (xc_stopTimerC tc) # bs\<rparr>"
    have "cache_step tc ?w" by (rule timer_selects[OF s])
    moreover obtain tc' where "cache_step\<^sup>*\<^sup>* ?w tc'" "xc_TxSetC tc' = xc_TxSetC ?w @ [xc_txSet ?w]"
      using waiting[where tc = ?w] by auto
    ultimately show ?thesis by (auto intro: exI[of _ tc'] converse_rtranclp_into_rtranclp)
  next
    case 2
    with assms(1) elapsed_posts[of tc] show ?thesis by blast
  next
    case 3
    with assms(1) waiting show ?thesis by blast
  qed
qed


definition w_cache0 :: "nat txCache" where "w_cache0 = NewTxCache 0 2"
definition w_cache1 :: "nat txCache" where
  "w_cache1 = w_cache0\<lparr>xc_RecvTxC := xc_RecvTxC w_cache0 @ [Some 7], xc_sent := xc_sent w_cache0 @ [Some 7]\<rparr>"
definition w_cache2 :: "nat txCache" where "w_cache2 = appendTx (Some 7) (w_cache1\<lparr>xc_RecvTxC := []\<rparr>)"

lemma w_cache_reachable: "reachable cache_initial cache_step w_cache2"
proof -
  have "reachable cache_initial cache_step w_cache0"
    by (rule reach_init) (auto simp: cache_initial_def w_cache0_def)
  then have "reachable cache_initial cache_step w_cache1"
    unfolding w_cache1_def by (rule reach_step) (rule client_sends, code_simp)
  then show ?thesis unfolding w_cache2_def by (rule reach_step) (rule listen_tx, code_simp)
qed


end
