(* ===== verification/Ledger_Base.thy ===== *)
theory Ledger_Base
  imports Prelude "HOL-Library.Monad_Syntax" "HOL-Library.Sublist"
begin

text \<open>
  What the state ledger (\<^verbatim>\<open>src/internal/ledger\<close>) is written in: byte slices, accounts of the
  state, the keys of the database, the block journal, and the libraries the package calls. The
  libraries are parameters: the key-value store and its batches, the LRU cache, the access list,
  and the codecs and hash functions, collected in the record \<^verbatim>\<open>ext\<close>. What the code relies on is
  the predicate \<^verbatim>\<open>ext_ok\<close>; its conjuncts are the documented contracts of those libraries.
\<close>

section \<open>Byte slices\<close>

text \<open>
  A \<^verbatim>\<open>[]byte\<close> is nil (\<^term>\<open>None\<close>) or some bytes. \<^verbatim>\<open>bytes.Equal\<close> and conversions to
  \<^verbatim>\<open>string\<close> treat nil as empty; a comparison with nil does not.
\<close>

type_synonym slice = "string option"

definition content :: "slice \<Rightarrow> string" where
  "content s = (case s of None \<Rightarrow> [] | Some b \<Rightarrow> b)"

definition bytes_Equal :: "slice \<Rightarrow> slice \<Rightarrow> bool" where
  "bytes_Equal a b \<longleftrightarrow> content a = content b"

lemma content_simps [simp]: "content None = []" "content (Some b) = b"
  by (simp_all add: content_def)

lemma bytes_Equal_refl [simp]: "bytes_Equal a a"
  by (simp add: bytes_Equal_def)

lemma bytes_Equal_None [simp]:
  "bytes_Equal a None \<longleftrightarrow> content a = []" "bytes_Equal None a \<longleftrightarrow> content a = []"
  by (auto simp: bytes_Equal_def)

section \<open>Addresses, hashes and accounts\<close>

text \<open>
  A \<^verbatim>\<open>types.Address\<close> is its bytes; hashes are their bytes. The textual forms are parameters.
\<close>

datatype address = Address (addr_Bytes: string)

type_synonym hash = string

record innerAccount =
  ia_Nonce :: u64
  ia_Balance :: int
  ia_CodeHash :: slice

record blockJournalEntry =
  je_Address :: address
  je_PrevAccount :: "innerAccount option"
  je_AccountChanged :: bool
  je_PrevStates :: "(string, slice) gomap"
  je_PrevCode :: slice
  je_CodeChanged :: bool

record blockJournal =
  bj_Journals :: "blockJournalEntry list"
  bj_ChangedHash :: hash

section \<open>The key-value store\<close>

text \<open>
  The store answers \<^verbatim>\<open>Get\<close>, commits a batch of writes at once, and iterates over a range of
  keys; the contract says that a committed batch takes effect in order.
\<close>

datatype batch_op = Put string string | Delete string

type_synonym batch = "batch_op list"

fun apply_op :: "batch_op \<Rightarrow> (string \<Rightarrow> slice) \<Rightarrow> string \<Rightarrow> slice" where
  "apply_op (Put k v) m = m(k := Some v)"
| "apply_op (Delete k) m = m(k := None)"

abbreviation apply_batch :: "batch \<Rightarrow> (string \<Rightarrow> slice) \<Rightarrow> string \<Rightarrow> slice" where
  "apply_batch \<equiv> fold apply_op"

fun op_key :: "batch_op \<Rightarrow> string" where
  "op_key (Put k v) = k"
| "op_key (Delete k) = k"

fun op_value :: "batch_op \<Rightarrow> slice" where
  "op_value (Put k v) = Some v"
| "op_value (Delete k) = None"

lemma apply_op_eq: "apply_op b m = m(op_key b := op_value b)"
  by (cases b) simp_all

lemma apply_batch_other: "k \<notin> op_key ` set bs \<Longrightarrow> apply_batch bs m k = m k"
  by (induction bs arbitrary: m) (auto simp: apply_op_eq)

text \<open>If all the writes of a batch to one key carry the same value, the batch leaves that value.\<close>

lemma apply_batch_same:
  assumes "\<And>b. b \<in> set bs \<Longrightarrow> op_key b = k \<Longrightarrow> op_value b = v" and "k \<in> op_key ` set bs"
  shows "apply_batch bs m k = v"
  using assms
proof (induction bs rule: rev_induct)
  case (snoc b bs)
  then show ?case by (cases "op_key b = k") (auto simp: apply_op_eq)
qed simp

record 'd storage_ops =
  db_Get :: "'d \<Rightarrow> string \<Rightarrow> slice"
  db_Commit :: "batch \<Rightarrow> 'd \<Rightarrow> 'd"
  db_Iterator :: "'d \<Rightarrow> string \<Rightarrow> slice \<Rightarrow> (string \<times> string) list"

definition storage_ok :: "('d, 'z) storage_ops_scheme \<Rightarrow> bool" where
  "storage_ok D \<longleftrightarrow>
     (\<forall>bs d. db_Get D (db_Commit D bs d) = apply_batch bs (db_Get D d)) \<and>
     (\<forall>d a b k v. (k, v) \<in> set (db_Iterator D d a b) \<longleftrightarrow>
        a \<le> k \<and> (\<forall>l. b = Some l \<longrightarrow> k < l) \<and> db_Get D d k = Some v)"

lemma storage_commit [simp]:
  "storage_ok D \<Longrightarrow> db_Get D (db_Commit D bs d) = apply_batch bs (db_Get D d)"
  by (simp add: storage_ok_def)

section \<open>LRU caches\<close>

text \<open>
  A cache of the \<^verbatim>\<open>golang-lru\<close> library. A lookup reorders the entries but keeps them; an insertion
  may evict any other entry.
\<close>

record ('v, 'c) lru_ops =
  lru_New :: "'c"
  lru_Get :: "string \<Rightarrow> 'c \<Rightarrow> 'v option \<times> 'c"
  lru_Add :: "string \<Rightarrow> 'v \<Rightarrow> 'c \<Rightarrow> 'c"
  lru_Remove :: "string \<Rightarrow> 'c \<Rightarrow> 'c"
  lru_Purge :: "'c \<Rightarrow> 'c"
  lru_Len :: "'c \<Rightarrow> nat"

definition peek :: "('v, 'c, 'z) lru_ops_scheme \<Rightarrow> 'c \<Rightarrow> string \<Rightarrow> 'v option" where
  "peek L c k = fst (lru_Get L k c)"

definition lru_ok :: "('v, 'c, 'z) lru_ops_scheme \<Rightarrow> bool" where
  "lru_ok L \<longleftrightarrow>
     (\<forall>k. peek L (lru_New L) k = None) \<and>
     (\<forall>c k. peek L (snd (lru_Get L k c)) = peek L c) \<and>
     (\<forall>c k v. peek L (lru_Add L k v c) k = Some v) \<and>
     (\<forall>c k v k'. k' \<noteq> k \<longrightarrow> peek L (lru_Add L k v c) k' \<in> {None, peek L c k'}) \<and>
     (\<forall>c k. peek L (lru_Remove L k c) = (peek L c)(k := None)) \<and>
     (\<forall>c k. peek L (lru_Purge L c) k = None) \<and>
     (\<forall>c. lru_Len L c = 0 \<longleftrightarrow> (\<forall>k. peek L c k = None))"

section \<open>Access lists\<close>

record 'l access_ops =
  al_New :: "'l"
  al_AddAddress :: "address \<Rightarrow> 'l \<Rightarrow> bool \<times> 'l"
  al_AddSlot :: "address \<Rightarrow> hash \<Rightarrow> 'l \<Rightarrow> (bool \<times> bool) \<times> 'l"
  al_DeleteAddress :: "address \<Rightarrow> 'l \<Rightarrow> 'l"
  al_DeleteSlot :: "address \<Rightarrow> hash \<Rightarrow> 'l \<Rightarrow> 'l"
  al_ContainsAddress :: "'l \<Rightarrow> address \<Rightarrow> bool"
  al_Contains :: "'l \<Rightarrow> address \<Rightarrow> hash \<Rightarrow> bool \<times> bool"

text \<open>
  The observations of an access list are its addresses and its slots. The deletions promise their
  effect only in the reverse order of the additions: a slot that is present, an address without
  slots.
\<close>

definition has_slot :: "('l, 'z) access_ops_scheme \<Rightarrow> 'l \<Rightarrow> address \<Rightarrow> hash \<Rightarrow> bool" where
  "has_slot A l a s = snd (al_Contains A l a s)"

definition access_ok :: "('l, 'z) access_ops_scheme \<Rightarrow> bool" where
  "access_ok A \<longleftrightarrow>
     (\<forall>a. \<not> al_ContainsAddress A (al_New A) a) \<and>
     (\<forall>l a s. has_slot A l a s \<longrightarrow> al_ContainsAddress A l a) \<and>
     (\<forall>l a b l'. al_AddAddress A a l = (b, l') \<longrightarrow>
        b = (\<not> al_ContainsAddress A l a) \<and>
        al_ContainsAddress A l' = (al_ContainsAddress A l)(a := True) \<and>
        has_slot A l' = has_slot A l) \<and>
     (\<forall>l a s b c l'. al_AddSlot A a s l = ((b, c), l') \<longrightarrow>
        b = (\<not> al_ContainsAddress A l a) \<and> c = (\<not> has_slot A l a s) \<and>
        al_ContainsAddress A l' = (al_ContainsAddress A l)(a := True) \<and>
        has_slot A l' = (has_slot A l)(a := (has_slot A l a)(s := True))) \<and>
     (\<forall>l a. (\<forall>s. \<not> has_slot A l a s) \<longrightarrow>
        al_ContainsAddress A (al_DeleteAddress A a l) = (al_ContainsAddress A l)(a := False) \<and>
        has_slot A (al_DeleteAddress A a l) = has_slot A l) \<and>
     (\<forall>l a s. has_slot A l a s \<longrightarrow>
        al_ContainsAddress A (al_DeleteSlot A a s l) = al_ContainsAddress A l \<and>
        has_slot A (al_DeleteSlot A a s l) = (has_slot A l)(a := (has_slot A l a)(s := False)))"

section \<open>The libraries of the ledger\<close>

text \<open>
  Codecs return an option: \<^term>\<open>None\<close> is an error. \<^verbatim>\<open>X_copy\<close> and \<^verbatim>\<open>X_changed\<close> are
  \<^verbatim>\<open>CopyOrNewIfEmpty\<close> and \<^verbatim>\<open>InnerAccountChanged\<close> of the package that declares inner accounts.
\<close>

record ('d, 'a, 's, 'i, 'l) ext =
  X_db :: "'d storage_ops"
  X_accounts :: "(innerAccount, 'a) lru_ops"
  X_states :: "(nat, 's) lru_ops"
  X_bytes :: "(slice, 'i) lru_ops"
  X_access :: "'l access_ops"
  X_addrString :: "address \<Rightarrow> string"
  X_hashString :: "hash \<Rightarrow> string"
  X_newAddress :: "string \<Rightarrow> address"
  X_newHash :: "slice \<Rightarrow> hash"
  X_bytesToHash :: "slice \<Rightarrow> hash"
  X_zeroHash :: hash
  X_keccak :: "slice \<Rightarrow> hash"
  X_sha256 :: "string \<Rightarrow> hash"
  X_copy :: "innerAccount option \<Rightarrow> innerAccount"
  X_changed :: "innerAccount option \<Rightarrow> innerAccount option \<Rightarrow> bool"
  X_marshal :: "innerAccount \<Rightarrow> string option"
  X_unmarshal :: "string \<Rightarrow> innerAccount option"
  X_json :: "blockJournal \<Rightarrow> string option"
  X_unjson :: "string \<Rightarrow> blockJournal option"

definition new_inner :: innerAccount where
  "new_inner = \<lparr>ia_Nonce = 0, ia_Balance = 0, ia_CodeHash = None\<rparr>"

definition copy_ok :: "(innerAccount option \<Rightarrow> innerAccount) \<Rightarrow> bool" where
  "copy_ok cp \<longleftrightarrow> cp None = new_inner \<and> (\<forall>a. cp (Some a) = a)"

definition changed_ok :: "(innerAccount option \<Rightarrow> innerAccount option \<Rightarrow> bool) \<Rightarrow> bool" where
  "changed_ok ch \<longleftrightarrow>
     (\<forall>a. \<not> ch a None) \<and> (\<forall>b. ch None (Some b)) \<and>
     (\<forall>a b. ch (Some a) (Some b) \<longleftrightarrow>
        ia_Nonce a \<noteq> ia_Nonce b \<or> ia_Balance a \<noteq> ia_Balance b \<or>
        \<not> bytes_Equal (ia_CodeHash a) (ia_CodeHash b))"

definition codec_ok :: "('x \<Rightarrow> string option) \<Rightarrow> (string \<Rightarrow> 'x option) \<Rightarrow> bool" where
  "codec_ok enc unc \<longleftrightarrow> (\<forall>x. \<exists>d. enc x = Some d \<and> unc d = Some x)"

text \<open>
  The textual form of an address is injective, and an address has 20 bytes (40 hexadecimal
  digits after \<^verbatim>\<open>0x\<close>). The encoder of journals is \<^verbatim>\<open>encoding/json\<close>, which replaces bytes that
  are not UTF-8 in the keys of a map: the round trip is only promised for journals whose state
  keys are ASCII.
\<close>

definition ascii_journal :: "blockJournal \<Rightarrow> bool" where
  "ascii_journal j \<longleftrightarrow>
     (\<forall>e \<in> set (bj_Journals j). \<forall>k \<in> set (keys (je_PrevStates e)). \<forall>c \<in> set k. (of_char c :: nat) < 128)"

definition json_ok :: "(blockJournal \<Rightarrow> string option) \<Rightarrow> (string \<Rightarrow> blockJournal option) \<Rightarrow> bool" where
  "json_ok enc unc \<longleftrightarrow>
     (\<forall>j. \<exists>d. enc j = Some d \<and> (\<exists>j'. unc d = Some j' \<and> (ascii_journal j \<longrightarrow> j' = j)))"

definition ext_ok :: "('d, 'a, 's, 'i, 'l, 'z) ext_scheme \<Rightarrow> bool" where
  "ext_ok X \<longleftrightarrow>
     storage_ok (X_db X) \<and> lru_ok (X_accounts X) \<and> lru_ok (X_states X) \<and> lru_ok (X_bytes X) \<and>
     access_ok (X_access X) \<and> inj (X_addrString X) \<and> copy_ok (X_copy X) \<and>
     changed_ok (X_changed X) \<and> codec_ok (X_marshal X) (X_unmarshal X) \<and>
     json_ok (X_json X) (X_unjson X) \<and> (\<forall>c. X_keccak X c \<noteq> [])"

lemma ext_okD:
  assumes "ext_ok X"
  shows "storage_ok (X_db X)" "lru_ok (X_accounts X)" "lru_ok (X_states X)" "lru_ok (X_bytes X)"
    "access_ok (X_access X)" "inj (X_addrString X)" "copy_ok (X_copy X)" "changed_ok (X_changed X)"
    "codec_ok (X_marshal X) (X_unmarshal X)" "json_ok (X_json X) (X_unjson X)" "X_keccak X c \<noteq> []"
  using assms by (simp_all add: ext_ok_def)

lemma addrString_eq [simp]: "ext_ok X \<Longrightarrow> X_addrString X a = X_addrString X b \<longleftrightarrow> a = b"
  by (simp add: ext_ok_def inj_eq)

section \<open>Keys of the database\<close>

definition accountKey :: string where "accountKey = ''account-''"
definition codeKey :: string where "codeKey = ''code-''"
definition journalKey :: string where "journalKey = ''journal-''"
definition minHeightStr :: string where "minHeightStr = ''minHeight''"
definition maxHeightStr :: string where "maxHeightStr = ''maxHeight''"

text \<open>The verb \<^verbatim>\<open>%v\<close> prints an address by its \<^verbatim>\<open>String\<close> method and an integer in decimal.\<close>

definition compositeKey :: "string \<Rightarrow> string \<Rightarrow> string" where
  "compositeKey p v = p @ v"

definition composeStateKey :: "address \<Rightarrow> string \<Rightarrow> string" where
  "composeStateKey addr key = addr_Bytes addr @ key"

definition account_key :: "('d, 'a, 's, 'i, 'l, 'z) ext_scheme \<Rightarrow> address \<Rightarrow> string" where
  "account_key X a = compositeKey accountKey (X_addrString X a)"

definition code_key :: "('d, 'a, 's, 'i, 'l, 'z) ext_scheme \<Rightarrow> address \<Rightarrow> string" where
  "code_key X a = compositeKey codeKey (X_addrString X a)"

definition journal_key :: "u64 \<Rightarrow> string" where
  "journal_key h = compositeKey journalKey (fmt_d h)"

section \<open>Binary search\<close>

text \<open>\<^verbatim>\<open>sort.Search(n, f)\<close>: halves the interval until it is empty.\<close>

function search_loop :: "(nat \<Rightarrow> bool) \<Rightarrow> nat \<Rightarrow> nat \<Rightarrow> nat" where
  "search_loop f i j =
     (if i < j then
        (let h = (i + j) div 2 in if \<not> f h then search_loop f (h + 1) j else search_loop f i h)
      else i)"
  by pat_completeness auto
termination
  by (relation "measure (\<lambda>(f, i, j). j - i)") (auto simp: Let_def)

declare search_loop.simps [simp del]

definition sort_Search :: "nat \<Rightarrow> (nat \<Rightarrow> bool) \<Rightarrow> nat" where
  "sort_Search n f = search_loop f 0 n"

lemma search_loop_first:
  assumes "\<And>a b. a \<le> b \<Longrightarrow> b < j \<Longrightarrow> f a \<Longrightarrow> f b" "i \<le> j"
  shows "i \<le> search_loop f i j \<and> search_loop f i j \<le> j \<and>
    (\<forall>k. i \<le> k \<longrightarrow> k < search_loop f i j \<longrightarrow> \<not> f k) \<and>
    (search_loop f i j < j \<longrightarrow> f (search_loop f i j))"
  using assms
proof (induction f i j rule: search_loop.induct)
  case (1 f i j)
  show ?case
  proof (cases "i < j")
    case True
    define h where "h = (i + j) div 2"
    from True have h: "i \<le> h" "h < j" by (auto simp: h_def)
    show ?thesis
    proof (cases "f h")
      case True
      define r where "r = search_loop f i h"
      have eq: "search_loop f i j = r"
        using True \<open>i < j\<close> unfolding r_def by (subst search_loop.simps) (simp add: h_def Let_def)
      have "i \<le> r \<and> r \<le> h \<and> (\<forall>k. i \<le> k \<longrightarrow> k < r \<longrightarrow> \<not> f k) \<and> (r < h \<longrightarrow> f r)"
        unfolding r_def by (rule "1.IH"(2)[OF \<open>i < j\<close> h_def]) (use True h "1.prems" in auto)
      then show ?thesis using True h unfolding eq by (auto simp: le_less)
    next
      case False
      define r where "r = search_loop f (h + 1) j"
      have eq: "search_loop f i j = r"
        using False \<open>i < j\<close> unfolding r_def by (subst search_loop.simps) (simp add: h_def Let_def)
      have IH: "h + 1 \<le> r \<and> r \<le> j \<and> (\<forall>k. h + 1 \<le> k \<longrightarrow> k < r \<longrightarrow> \<not> f k) \<and> (r < j \<longrightarrow> f r)"
        unfolding r_def by (rule "1.IH"(1)[OF \<open>i < j\<close> h_def]) (use False h "1.prems" in auto)
      have "\<not> f k" if "k \<le> h" for k using "1.prems"(1)[OF that] False h by blast
      with IH have "\<not> f k" if "k < r" for k using that by (cases "k \<le> h") auto
      then show ?thesis using IH h unfolding eq by simp
    qed
  next
    case False
    then have "search_loop f i j = i" by (subst search_loop.simps) simp
    with False "1.prems" show ?thesis by simp
  qed
qed

lemma sort_Search_first:
  assumes "\<And>a b. a \<le> b \<Longrightarrow> b < n \<Longrightarrow> f a \<Longrightarrow> f b"
  shows "sort_Search n f \<le> n" "k < sort_Search n f \<Longrightarrow> \<not> f k"
    "sort_Search n f < n \<Longrightarrow> f (sort_Search n f)"
  using search_loop_first[of n f 0, OF assms] by (auto simp: sort_Search_def)

text \<open>On a strictly increasing list of numbers, the search for a member finds its position.\<close>

lemma sort_Search_nth:
  fixes key :: "'b \<Rightarrow> 'a :: linorder"
  assumes "sorted_wrt (\<lambda>x y. key x < key y) xs" "i < length xs"
  shows "sort_Search (length xs) (\<lambda>j. key (xs ! i) \<le> key (xs ! j)) = i"
proof -
  let ?f = "\<lambda>j. key (xs ! i) \<le> key (xs ! j)"
  have mono: "key (xs ! a) < key (xs ! b)" if "a < b" "b < length xs" for a b
    using assms(1) that by (simp add: sorted_wrt_iff_nth_less)
  have up: "?f b" if "a \<le> b" "b < length xs" "?f a" for a b
    using that mono[of a b] by (cases "a = b") auto
  note s = sort_Search_first[of "length xs" ?f, OF up]
  have "\<not> sort_Search (length xs) ?f > i" using s(2)[where k = i] by auto
  moreover have "\<not> sort_Search (length xs) ?f < i"
    using s(3) mono[of "sort_Search (length xs) ?f" i] assms(2) by force
  ultimately show ?thesis by simp
qed

end
