(* ===== verification/Ledger.thy ===== *)
theory Ledger
  imports Ledger_Base
begin

text \<open>
  The state ledger of \<^verbatim>\<open>src/internal/ledger\<close>: accounts (\<^verbatim>\<open>account.go\<close>), their cache
  (\<^verbatim>\<open>account_cache.go\<close>), the change log of a transaction (\<^verbatim>\<open>state_changer.go\<close>), the journal of a
  block (\<^verbatim>\<open>block_journal.go\<close>) and the ledger itself (\<^verbatim>\<open>simple_ledger.go\<close>,
  \<^verbatim>\<open>state_accessor.go\<close>, \<^verbatim>\<open>evmstate_accessor.go\<close>).

  Accounts and the ledger refer to change logs by pointer, and an account keeps the log it was
  created with while the ledger starts new ones; so the logs live in a heap and are named by
  their index. The inner caches of the two-layer state cache are named the same way. An operation
  that panics, or that blocks on a lock its own call holds, returns \<^term>\<open>None\<close>.
\<close>

section \<open>Data\<close>

record simpleAccount =
  sa_Addr :: address
  sa_originAccount :: "innerAccount option"
  sa_dirtyAccount :: "innerAccount option"
  sa_originState :: "(string, slice) gomap"
  sa_dirtyState :: "(string, slice) gomap"
  sa_originCode :: slice
  sa_dirtyCode :: slice
  sa_dirtyStateHash :: "hash option"
  sa_changer :: nat
  sa_suicided :: bool

record ('a, 's, 'i) accountCache =
  ac_innerAccountCache :: 'a
  ac_stateCache :: 's
  ac_codeCache :: 'i
  ac_heap :: "nat \<Rightarrow> 'i"
  ac_next :: nat

datatype stateChange =
    CreateObjectChange address
  | SuicideChange address bool int
  | BalanceChange address int
  | NonceChange address u64
  | StorageChange address string slice
  | CodeChange address slice
  | RefundChange u64
  | AddLogChange "hash option"
  | AddPreimageChange hash
  | AccessListAddAccountChange address
  | AccessListAddSlotChange address hash

record stateChanger =
  sc_changes :: "stateChange list"
  sc_dirties :: "(address, int) gomap"

record revision =
  rv_id :: int
  rv_changerIndex :: nat

record changeInstance =
  ci_changer :: nat
  ci_validRevisions :: "revision list"
  ci_nextRevisionId :: int

record evmLog =
  lg_Address :: address
  lg_Topics :: "hash list"
  lg_Data :: string
  lg_BlockNumber :: u64
  lg_TransactionHash :: "hash option"
  lg_TransactionIndex :: u64
  lg_BlockHash :: "hash option"
  lg_LogIndex :: u64
  lg_Removed :: bool

record evmLogs =
  el_logs :: "(hash, evmLog list) gomap"
  el_logSize :: u64
  el_thash :: "hash option"
  el_bhash :: "hash option"
  el_txIndex :: int

record event =
  ev_TxHash :: "hash option"
  ev_Data :: string

record ('d, 'a, 's, 'i, 'l) ledger =
  l_ldb :: 'd
  l_minJnlHeight :: u64
  l_maxJnlHeight :: u64
  l_events :: "(string, event list) gomap"
  l_accounts :: "(string, simpleAccount) gomap"
  l_accountCache :: "('a, 's, 'i) accountCache"
  l_blockJournals :: "(string, blockJournal) gomap"
  l_prevJnlHash :: hash
  l_blockHeight :: u64
  l_pool :: "changeInstance list"
  l_validRevisions :: "revision list"
  l_nextRevisionId :: int
  l_changer :: nat
  l_changers :: "nat \<Rightarrow> stateChanger"
  l_nextChanger :: nat
  l_accessList :: 'l
  l_preimages :: "(hash, string) gomap"
  l_refund :: u64
  l_logs :: evmLogs

section \<open>The account cache\<close>

definition NewAccountCache :: "('d, 'a, 's, 'i, 'l, 'z) ext_scheme \<Rightarrow> ('a, 's, 'i) accountCache" where
  "NewAccountCache X = \<lparr>ac_innerAccountCache = lru_New (X_accounts X),
     ac_stateCache = lru_New (X_states X), ac_codeCache = lru_New (X_bytes X),
     ac_heap = (\<lambda>_. lru_New (X_bytes X)), ac_next = 0\<rparr>"

definition ac_getInnerAccount ::
  "('d, 'a, 's, 'i, 'l, 'z) ext_scheme \<Rightarrow> address \<Rightarrow> ('a, 's, 'i) accountCache \<Rightarrow>
   innerAccount option \<times> ('a, 's, 'i) accountCache" where
  "ac_getInnerAccount X addr ac =
     (let (v, c) = lru_Get (X_accounts X) (X_addrString X addr) (ac_innerAccountCache ac)
      in (v, ac\<lparr>ac_innerAccountCache := c\<rparr>))"

definition ac_getState ::
  "('d, 'a, 's, 'i, 'l, 'z) ext_scheme \<Rightarrow> address \<Rightarrow> string \<Rightarrow> ('a, 's, 'i) accountCache \<Rightarrow>
   slice option \<times> ('a, 's, 'i) accountCache" where
  "ac_getState X addr key ac =
     (let (v, c) = lru_Get (X_states X) (X_addrString X addr) (ac_stateCache ac);
          ac = ac\<lparr>ac_stateCache := c\<rparr>
      in case v of
           None \<Rightarrow> (None, ac)
         | Some p \<Rightarrow>
             (let (w, i) = lru_Get (X_bytes X) key (ac_heap ac p)
              in (w, ac\<lparr>ac_heap := (ac_heap ac)(p := i)\<rparr>)))"

definition ac_getCode ::
  "('d, 'a, 's, 'i, 'l, 'z) ext_scheme \<Rightarrow> address \<Rightarrow> ('a, 's, 'i) accountCache \<Rightarrow>
   slice option \<times> ('a, 's, 'i) accountCache" where
  "ac_getCode X addr ac =
     (let (v, c) = lru_Get (X_bytes X) (X_addrString X addr) (ac_codeCache ac)
      in (v, ac\<lparr>ac_codeCache := c\<rparr>))"

definition ac_rmAccount ::
  "('d, 'a, 's, 'i, 'l, 'z) ext_scheme \<Rightarrow> address \<Rightarrow> ('a, 's, 'i) accountCache \<Rightarrow>
   ('a, 's, 'i) accountCache" where
  "ac_rmAccount X addr ac = ac\<lparr>ac_innerAccountCache :=
     lru_Remove (X_accounts X) (X_addrString X addr) (ac_innerAccountCache ac)\<rparr>"

definition ac_clear ::
  "('d, 'a, 's, 'i, 'l, 'z) ext_scheme \<Rightarrow> ('a, 's, 'i) accountCache \<Rightarrow>
   ('a, 's, 'i) accountCache" where
  "ac_clear X ac = ac\<lparr>
     ac_innerAccountCache := lru_Purge (X_accounts X) (ac_innerAccountCache ac),
     ac_stateCache := lru_Purge (X_states X) (ac_stateCache ac),
     ac_codeCache := lru_Purge (X_bytes X) (ac_codeCache ac)\<rparr>"

text \<open>The loop body of \<^verbatim>\<open>add\<close>, for one account, and the loop.\<close>

definition ac_add_one ::
  "('d, 'a, 's, 'i, 'l, 'z) ext_scheme \<Rightarrow> 'e runtime_scheme \<Rightarrow> string \<times> simpleAccount \<Rightarrow>
   ('a, 's, 'i) accountCache \<Rightarrow> ('a, 's, 'i) accountCache" where
  "ac_add_one X E = (\<lambda>(addr, account) ac.
     let ac = (case sa_dirtyAccount account of
                 None \<Rightarrow> ac
               | Some ia \<Rightarrow> ac\<lparr>ac_innerAccountCache :=
                     lru_Add (X_accounts X) addr ia (ac_innerAccountCache ac)\<rparr>);
         (v, c) = lru_Get (X_states X) addr (ac_stateCache ac);
         ac = ac\<lparr>ac_stateCache := c\<rparr>;
         (p, ac) = (case v of
                      Some p \<Rightarrow> (p, ac)
                    | None \<Rightarrow> (ac_next ac,
                        ac\<lparr>ac_heap := (ac_heap ac)(ac_next ac := lru_New (X_bytes X)),
                           ac_next := Suc (ac_next ac)\<rparr>));
         i = fold (\<lambda>(k, w). lru_Add (X_bytes X) k w)
                  (go_range (rt_order E 21) (sa_dirtyState account)) (ac_heap ac p);
         ac = ac\<lparr>ac_heap := (ac_heap ac)(p := i)\<rparr>;
         ac = (if v = None \<and> lru_Len (X_bytes X) i \<noteq> 0
               then ac\<lparr>ac_stateCache := lru_Add (X_states X) addr p (ac_stateCache ac)\<rparr> else ac)
     in if \<not> bytes_Equal (sa_originCode account) (sa_dirtyCode account) then
          (case sa_dirtyAccount account of
             None \<Rightarrow> ac
           | Some da \<Rightarrow>
               (case sa_originAccount account of
                  Some oa \<Rightarrow>
                    if \<not> bytes_Equal (ia_CodeHash da) (ia_CodeHash oa)
                    then ac\<lparr>ac_codeCache :=
                      lru_Add (X_bytes X) addr (sa_dirtyCode account) (ac_codeCache ac)\<rparr>
                    else ac
                | None \<Rightarrow> ac\<lparr>ac_codeCache :=
                      lru_Add (X_bytes X) addr (sa_dirtyCode account) (ac_codeCache ac)\<rparr>))
        else ac)"

definition ac_add ::
  "('d, 'a, 's, 'i, 'l, 'z) ext_scheme \<Rightarrow> 'e runtime_scheme \<Rightarrow> (string, simpleAccount) gomap \<Rightarrow>
   ('a, 's, 'i) accountCache \<Rightarrow> ('a, 's, 'i) accountCache" where
  "ac_add X E accounts ac = fold (ac_add_one X E) (go_range (rt_order E 20) accounts) ac"

section \<open>The change log\<close>

definition newChanger :: stateChanger where
  "newChanger = \<lparr>sc_changes = [], sc_dirties = []\<rparr>"

fun dirtied :: "stateChange \<Rightarrow> address option" where
  "dirtied (CreateObjectChange a) = Some a"
| "dirtied (SuicideChange a p b) = Some a"
| "dirtied (BalanceChange a p) = Some a"
| "dirtied (NonceChange a p) = Some a"
| "dirtied (CodeChange a p) = Some a"
| "dirtied (StorageChange a k p) = Some a"
| "dirtied (RefundChange p) = None"
| "dirtied (AddPreimageChange h) = None"
| "dirtied (AccessListAddAccountChange a) = None"
| "dirtied (AccessListAddSlotChange a s) = None"
| "dirtied (AddLogChange h) = None"

definition sc_dirty :: "address \<Rightarrow> stateChanger \<Rightarrow> stateChanger" where
  "sc_dirty a s = s\<lparr>sc_dirties := gset a (gget0 0 (sc_dirties s) a + 1) (sc_dirties s)\<rparr>"

definition sc_append :: "stateChange \<Rightarrow> stateChanger \<Rightarrow> stateChanger" where
  "sc_append ch s =
     (let s = s\<lparr>sc_changes := sc_changes s @ [ch]\<rparr>
      in case dirtied ch of None \<Rightarrow> s | Some a \<Rightarrow> sc_dirty a s)"

text \<open>The decrement that \<^verbatim>\<open>revert\<close> does for an entry it has undone.\<close>

definition sc_undirty :: "stateChange \<Rightarrow> stateChanger \<Rightarrow> stateChanger" where
  "sc_undirty ch s =
     (case dirtied ch of
        None \<Rightarrow> s
      | Some a \<Rightarrow>
          (let d = gset a (gget0 0 (sc_dirties s) a - 1) (sc_dirties s)
           in s\<lparr>sc_dirties := (if gget0 0 d a = 0 then gdel a d else d)\<rparr>))"

text \<open>Appending to a log of the heap, and a fresh log.\<close>

definition append_change ::
  "nat \<Rightarrow> stateChange \<Rightarrow> ('d, 'a, 's, 'i, 'l) ledger \<Rightarrow> ('d, 'a, 's, 'i, 'l) ledger" where
  "append_change c ch l = l\<lparr>l_changers := (l_changers l)(c := sc_append ch (l_changers l c))\<rparr>"

definition alloc_changer :: "('d, 'a, 's, 'i, 'l) ledger \<Rightarrow> nat \<times> ('d, 'a, 's, 'i, 'l) ledger" where
  "alloc_changer l = (l_nextChanger l,
     l\<lparr>l_changers := (l_changers l)(l_nextChanger l := newChanger),
       l_nextChanger := Suc (l_nextChanger l)\<rparr>)"

section \<open>Accounts\<close>

definition newAccount :: "address \<Rightarrow> nat \<Rightarrow> simpleAccount" where
  "newAccount addr c = \<lparr>sa_Addr = addr, sa_originAccount = None, sa_dirtyAccount = None,
     sa_originState = [], sa_dirtyState = [], sa_originCode = None, sa_dirtyCode = None,
     sa_dirtyStateHash = None, sa_changer = c, sa_suicided = False\<rparr>"

text \<open>
  A method of an account runs against the store and the cache of its ledger; it returns its
  result, the account and the ledger.
\<close>

text \<open>The value a state key has beneath the account: in the cache, else in the store.\<close>

definition acc_loadState ::
  "('d, 'a, 's, 'i, 'l, 'z) ext_scheme \<Rightarrow> address \<Rightarrow> string \<Rightarrow> ('d, 'a, 's, 'i, 'l) ledger \<Rightarrow>
   slice \<times> ('d, 'a, 's, 'i, 'l) ledger" where
  "acc_loadState X addr key l =
     (let (v, ac) = ac_getState X addr key (l_accountCache l);
          l = l\<lparr>l_accountCache := ac\<rparr>
      in case v of
           Some val \<Rightarrow> (val, l)
         | None \<Rightarrow> (db_Get (X_db X) (l_ldb l) (composeStateKey addr key), l))"

definition acc_GetState ::
  "('d, 'a, 's, 'i, 'l, 'z) ext_scheme \<Rightarrow> string \<Rightarrow> simpleAccount \<Rightarrow> ('d, 'a, 's, 'i, 'l) ledger \<Rightarrow>
   (bool \<times> slice) \<times> simpleAccount \<times> ('d, 'a, 's, 'i, 'l) ledger" where
  "acc_GetState X key o1 l =
     (case gget (sa_dirtyState o1) key of
        Some value \<Rightarrow> ((value \<noteq> None, value), o1, l)
      | None \<Rightarrow>
     (case gget (sa_originState o1) key of
        Some value \<Rightarrow> ((value \<noteq> None, value), o1, l)
      | None \<Rightarrow>
          (let (val, l) = acc_loadState X (sa_Addr o1) key l
           in ((val \<noteq> None, val),
               o1\<lparr>sa_originState := gset key val (sa_originState o1)\<rparr>, l))))"

definition acc_GetCommittedState ::
  "('d, 'a, 's, 'i, 'l, 'z) ext_scheme \<Rightarrow> string \<Rightarrow> simpleAccount \<Rightarrow> ('d, 'a, 's, 'i, 'l) ledger \<Rightarrow>
   slice \<times> simpleAccount \<times> ('d, 'a, 's, 'i, 'l) ledger" where
  "acc_GetCommittedState X key o1 l =
     (case gget (sa_originState o1) key of
        Some value \<Rightarrow> (Some (X_zeroHash X), o1, l)
      | None \<Rightarrow>
          (let (val, l) = acc_loadState X (sa_Addr o1) key l;
               o1 = o1\<lparr>sa_originState := gset key val (sa_originState o1)\<rparr>
           in (if val \<noteq> None then Some (X_zeroHash X) else val, o1, l)))"

definition acc_setState :: "string \<Rightarrow> slice \<Rightarrow> simpleAccount \<Rightarrow> simpleAccount" where
  "acc_setState key value o1 = o1\<lparr>sa_dirtyState := gset key value (sa_dirtyState o1)\<rparr>"

definition acc_SetState ::
  "('d, 'a, 's, 'i, 'l, 'z) ext_scheme \<Rightarrow> string \<Rightarrow> slice \<Rightarrow> changeInstance option \<Rightarrow> simpleAccount \<Rightarrow>
   ('d, 'a, 's, 'i, 'l) ledger \<Rightarrow> simpleAccount \<times> ('d, 'a, 's, 'i, 'l) ledger" where
  "acc_SetState X key value changer o1 l =
     (let ((_, prev), o1, l) = acc_GetState X key o1 l;
          o1 = o1\<lparr>sa_dirtyState := gset key value (sa_dirtyState o1)\<rparr>
      in case changer of
           None \<Rightarrow> (o1, append_change (sa_changer o1) (StorageChange (sa_Addr o1) key prev) l)
         | Some c \<Rightarrow> (o1, append_change (ci_changer c) (StorageChange (sa_Addr o1) key prev) l))"

definition acc_AddState :: "string \<Rightarrow> slice \<Rightarrow> simpleAccount \<Rightarrow> simpleAccount" where
  "acc_AddState key value o1 = o1\<lparr>sa_dirtyState := gset key value (sa_dirtyState o1)\<rparr>"

definition acc_CodeHash :: "simpleAccount \<Rightarrow> slice" where
  "acc_CodeHash o1 =
     (case sa_dirtyAccount o1 of
        Some d \<Rightarrow> ia_CodeHash d
      | None \<Rightarrow> (case sa_originAccount o1 of Some a \<Rightarrow> ia_CodeHash a | None \<Rightarrow> None))"

definition acc_GetNonce :: "simpleAccount \<Rightarrow> u64" where
  "acc_GetNonce o1 =
     (case sa_dirtyAccount o1 of
        Some d \<Rightarrow> ia_Nonce d
      | None \<Rightarrow> (case sa_originAccount o1 of Some a \<Rightarrow> ia_Nonce a | None \<Rightarrow> 0))"

definition acc_GetBalance :: "simpleAccount \<Rightarrow> int" where
  "acc_GetBalance o1 =
     (case sa_dirtyAccount o1 of
        Some d \<Rightarrow> ia_Balance d
      | None \<Rightarrow> (case sa_originAccount o1 of Some a \<Rightarrow> ia_Balance a | None \<Rightarrow> 0))"

text \<open>The code beneath the account: in the cache, else in the store.\<close>

definition acc_loadCode ::
  "('d, 'a, 's, 'i, 'l, 'z) ext_scheme \<Rightarrow> address \<Rightarrow> ('d, 'a, 's, 'i, 'l) ledger \<Rightarrow>
   slice \<times> ('d, 'a, 's, 'i, 'l) ledger" where
  "acc_loadCode X addr l =
     (let (v, ac) = ac_getCode X addr (l_accountCache l);
          l = l\<lparr>l_accountCache := ac\<rparr>
      in case v of
           Some code \<Rightarrow> (code, l)
         | None \<Rightarrow> (db_Get (X_db X) (l_ldb l) (code_key X addr), l))"

definition acc_Code ::
  "('d, 'a, 's, 'i, 'l, 'z) ext_scheme \<Rightarrow> simpleAccount \<Rightarrow> ('d, 'a, 's, 'i, 'l) ledger \<Rightarrow>
   slice \<times> simpleAccount \<times> ('d, 'a, 's, 'i, 'l) ledger" where
  "acc_Code X o1 l =
     (if sa_dirtyCode o1 \<noteq> None then (sa_dirtyCode o1, o1, l)
      else if sa_originCode o1 \<noteq> None then (sa_originCode o1, o1, l)
      else if bytes_Equal (acc_CodeHash o1) None then (None, o1, l)
      else
        (let (code, l) = acc_loadCode X (sa_Addr o1) l
         in (code, o1\<lparr>sa_originCode := code, sa_dirtyCode := code\<rparr>, l)))"

text \<open>The first statement of every setter: the dirty account, copied from the origin if needed.\<close>

definition acc_dirty :: "('d, 'a, 's, 'i, 'l, 'z) ext_scheme \<Rightarrow> simpleAccount \<Rightarrow> innerAccount" where
  "acc_dirty X o1 =
     (case sa_dirtyAccount o1 of None \<Rightarrow> X_copy X (sa_originAccount o1) | Some d \<Rightarrow> d)"

definition acc_setCodeAndHash ::
  "('d, 'a, 's, 'i, 'l, 'z) ext_scheme \<Rightarrow> slice \<Rightarrow> simpleAccount \<Rightarrow> simpleAccount" where
  "acc_setCodeAndHash X code o1 =
     o1\<lparr>sa_dirtyAccount := Some ((acc_dirty X o1)\<lparr>ia_CodeHash := Some (X_keccak X code)\<rparr>),
        sa_dirtyCode := code\<rparr>"

definition acc_SetCodeAndHash ::
  "('d, 'a, 's, 'i, 'l, 'z) ext_scheme \<Rightarrow> slice \<Rightarrow> simpleAccount \<Rightarrow> ('d, 'a, 's, 'i, 'l) ledger \<Rightarrow>
   simpleAccount \<times> ('d, 'a, 's, 'i, 'l) ledger" where
  "acc_SetCodeAndHash X code o1 l =
     (let (prev, o1, l) = acc_Code X o1 l;
          l = append_change (sa_changer o1) (CodeChange (sa_Addr o1) prev) l
      in (o1\<lparr>sa_dirtyAccount := Some ((acc_dirty X o1)\<lparr>ia_CodeHash := Some (X_keccak X code)\<rparr>),
             sa_dirtyCode := code\<rparr>, l))"

definition acc_setNonce ::
  "('d, 'a, 's, 'i, 'l, 'z) ext_scheme \<Rightarrow> u64 \<Rightarrow> simpleAccount \<Rightarrow> simpleAccount" where
  "acc_setNonce X nonce o1 =
     o1\<lparr>sa_dirtyAccount := Some ((acc_dirty X o1)\<lparr>ia_Nonce := nonce\<rparr>)\<rparr>"

definition acc_SetNonce ::
  "('d, 'a, 's, 'i, 'l, 'z) ext_scheme \<Rightarrow> u64 \<Rightarrow> simpleAccount \<Rightarrow> ('d, 'a, 's, 'i, 'l) ledger \<Rightarrow>
   simpleAccount \<times> ('d, 'a, 's, 'i, 'l) ledger" where
  "acc_SetNonce X nonce o1 l =
     (o1\<lparr>sa_dirtyAccount := Some ((acc_dirty X o1)\<lparr>ia_Nonce := nonce\<rparr>)\<rparr>,
      append_change (sa_changer o1) (NonceChange (sa_Addr o1) (acc_GetNonce o1)) l)"

definition acc_setBalance ::
  "('d, 'a, 's, 'i, 'l, 'z) ext_scheme \<Rightarrow> int \<Rightarrow> simpleAccount \<Rightarrow> simpleAccount" where
  "acc_setBalance X balance o1 =
     o1\<lparr>sa_dirtyAccount := Some ((acc_dirty X o1)\<lparr>ia_Balance := balance\<rparr>)\<rparr>"

definition acc_SetBalance ::
  "('d, 'a, 's, 'i, 'l, 'z) ext_scheme \<Rightarrow> int \<Rightarrow> simpleAccount \<Rightarrow> ('d, 'a, 's, 'i, 'l) ledger \<Rightarrow>
   simpleAccount \<times> ('d, 'a, 's, 'i, 'l) ledger" where
  "acc_SetBalance X balance o1 l =
     (o1\<lparr>sa_dirtyAccount := Some ((acc_dirty X o1)\<lparr>ia_Balance := balance\<rparr>)\<rparr>,
      append_change (sa_changer o1) (BalanceChange (sa_Addr o1) (acc_GetBalance o1)) l)"

definition acc_SubBalance ::
  "('d, 'a, 's, 'i, 'l, 'z) ext_scheme \<Rightarrow> int \<Rightarrow> simpleAccount \<Rightarrow> ('d, 'a, 's, 'i, 'l) ledger \<Rightarrow>
   simpleAccount \<times> ('d, 'a, 's, 'i, 'l) ledger" where
  "acc_SubBalance X amount o1 l =
     (if amount = 0 then (o1, l) else acc_SetBalance X (acc_GetBalance o1 - amount) o1 l)"

definition acc_AddBalance ::
  "('d, 'a, 's, 'i, 'l, 'z) ext_scheme \<Rightarrow> int \<Rightarrow> simpleAccount \<Rightarrow> ('d, 'a, 's, 'i, 'l) ledger \<Rightarrow>
   simpleAccount \<times> ('d, 'a, 's, 'i, 'l) ledger" where
  "acc_AddBalance X amount o1 l =
     (if amount = 0 then (o1, l) else acc_SetBalance X (acc_GetBalance o1 + amount) o1 l)"

definition acc_SetSuicided :: "bool \<Rightarrow> simpleAccount \<Rightarrow> simpleAccount" where
  "acc_SetSuicided b o1 = o1\<lparr>sa_suicided := b\<rparr>"

definition acc_Suicided :: "simpleAccount \<Rightarrow> bool" where
  "acc_Suicided o1 = False"

text \<open>\<^verbatim>\<open>IsEmpty\<close> evaluates its conjuncts from the left; the third one loads the code.\<close>

definition acc_IsEmpty ::
  "('d, 'a, 's, 'i, 'l, 'z) ext_scheme \<Rightarrow> simpleAccount \<Rightarrow> ('d, 'a, 's, 'i, 'l) ledger \<Rightarrow>
   bool \<times> simpleAccount \<times> ('d, 'a, 's, 'i, 'l) ledger" where
  "acc_IsEmpty X o1 l =
     (if acc_GetBalance o1 = 0 \<and> acc_GetNonce o1 = 0 then
        (let (code, o1, l) = acc_Code X o1 l in (code = None \<and> \<not> sa_suicided o1, o1, l))
      else (False, o1, l))"

text \<open>The key range that holds exactly the keys with a given prefix.\<close>

fun bytesPrefix_limit :: "string \<Rightarrow> nat \<Rightarrow> slice" where
  "bytesPrefix_limit pre 0 = None"
| "bytesPrefix_limit pre (Suc i) =
     (let c = of_char (pre ! i) :: nat
      in if c < 255 then Some (take i pre @ [char_of (c + 1)]) else bytesPrefix_limit pre i)"

definition bytesPrefix :: "string \<Rightarrow> string \<times> slice" where
  "bytesPrefix pre = (pre, bytesPrefix_limit pre (length pre))"

definition acc_Query ::
  "('d, 'a, 's, 'i, 'l, 'z) ext_scheme \<Rightarrow> 'e runtime_scheme \<Rightarrow> string \<Rightarrow> simpleAccount \<Rightarrow>
   ('d, 'a, 's, 'i, 'l) ledger \<Rightarrow> bool \<times> slice list" where
  "acc_Query X E pre o1 l =
     (let (begin1, end1) = bytesPrefix (addr_Bytes (sa_Addr o1) @ pre);
          stored = fold (\<lambda>(k, v). gset k (Some v)) (db_Iterator (X_db X) (l_ldb l) begin1 end1) [];
          stored = fold (\<lambda>(k, v) m. if take (length pre) k = pre then gset k v m else m)
                        (go_range (rt_order E 22) (sa_dirtyState o1)) stored;
          ret = sort_key content (map snd (go_range (rt_order E 23) stored))
      in (ret \<noteq> [], ret))"

section \<open>The journal of a block\<close>

text \<open>One entry of the dirty states: recorded when its bytes differ from the origin.\<close>

definition stateJournal_one ::
  "simpleAccount \<Rightarrow> string \<times> slice \<Rightarrow> (string, slice) gomap \<times> string list \<Rightarrow>
   (string, slice) gomap \<times> string list" where
  "stateJournal_one o1 = (\<lambda>(key, value) (prevStates, dirtyStateKeys).
     let origVal = (case gget (sa_originState o1) key of Some v \<Rightarrow> v | None \<Rightarrow> None)
     in if \<not> bytes_Equal origVal value
        then (gset key origVal prevStates, dirtyStateKeys @ [key])
        else (prevStates, dirtyStateKeys))"

definition getStateJournalAndComputeHash ::
  "('d, 'a, 's, 'i, 'l, 'z) ext_scheme \<Rightarrow> 'e runtime_scheme \<Rightarrow> simpleAccount \<Rightarrow>
   (string, slice) gomap \<times> simpleAccount" where
  "getStateJournalAndComputeHash X E o1 =
     (let (prevStates, dirtyStateKeys) =
            fold (stateJournal_one o1) (go_range (rt_order E 24) (sa_dirtyState o1)) ([], []);
          dirtyStateData =
            concat (map (\<lambda>key. key @ content (gget0 None (sa_dirtyState o1) key)) (sort dirtyStateKeys))
      in (prevStates,
          o1\<lparr>sa_dirtyStateHash := Some (X_newHash X (Some (X_sha256 X dirtyStateData)))\<rparr>))"

definition getJournalIfModified ::
  "('d, 'a, 's, 'i, 'l, 'z) ext_scheme \<Rightarrow> 'e runtime_scheme \<Rightarrow> 'd \<Rightarrow> simpleAccount \<Rightarrow>
   blockJournalEntry option \<times> simpleAccount" where
  "getJournalIfModified X E ldb o1 =
     (let accountChanged = X_changed X (sa_originAccount o1) (sa_dirtyAccount o1);
          prevAccount = (if accountChanged then sa_originAccount o1 else None);
          o1 = (if sa_originCode o1 = None \<and>
                   \<not> (case sa_originAccount o1 of None \<Rightarrow> True | Some a \<Rightarrow> ia_CodeHash a = None)
                then o1\<lparr>sa_originCode := db_Get (X_db X) ldb (code_key X (sa_Addr o1))\<rparr> else o1);
          codeChanged = (\<not> bytes_Equal (sa_originCode o1) (sa_dirtyCode o1));
          prevCode = (if codeChanged then sa_originCode o1 else None);
          (prevStates, o1) = getStateJournalAndComputeHash X E o1
      in (if accountChanged \<or> codeChanged \<or> prevStates \<noteq> []
          then Some \<lparr>je_Address = sa_Addr o1, je_PrevAccount = prevAccount,
                 je_AccountChanged = accountChanged, je_PrevStates = prevStates,
                 je_PrevCode = prevCode, je_CodeChanged = codeChanged\<rparr>
          else None, o1))"

text \<open>\<^verbatim>\<open>dirtyStateHash\<close> is a nil pointer until the state journal has been computed.\<close>

definition getDirtyData ::
  "('d, 'a, 's, 'i, 'l, 'z) ext_scheme \<Rightarrow> simpleAccount \<Rightarrow> string option" where
  "getDirtyData X o1 = do {
     data \<leftarrow> (case sa_dirtyAccount o1 of None \<Rightarrow> Some [] | Some d \<Rightarrow> X_marshal X d);
     h \<leftarrow> sa_dirtyStateHash o1;
     Some (addr_Bytes (sa_Addr o1) @ data @ h)}"

definition revertJournal ::
  "('d, 'a, 's, 'i, 'l, 'z) ext_scheme \<Rightarrow> 'e runtime_scheme \<Rightarrow> blockJournalEntry \<Rightarrow> batch \<Rightarrow> batch option" where
  "revertJournal X E journal bs = do {
     bs \<leftarrow> (if je_AccountChanged journal then
              (case je_PrevAccount journal of
                 Some a \<Rightarrow> do {
                   data \<leftarrow> X_marshal X a;
                   Some (bs @ [Put (account_key X (je_Address journal)) data])}
               | None \<Rightarrow> Some (bs @ [Delete (account_key X (je_Address journal))]))
            else Some bs);
     let bs = bs @ map (\<lambda>(key, val). case val of
                 Some v \<Rightarrow> Put (composeStateKey (je_Address journal) key) v
               | None \<Rightarrow> Delete (composeStateKey (je_Address journal) key))
               (go_range (rt_order E 25) (je_PrevStates journal));
     Some (if je_CodeChanged journal then
             (case je_PrevCode journal of
                Some c \<Rightarrow> bs @ [Put (code_key X (je_Address journal)) c]
              | None \<Rightarrow> bs @ [Delete (code_key X (je_Address journal))])
           else bs)}"

definition marshalHeight :: "u64 \<Rightarrow> string" where
  "marshalHeight height = fmt_d height"

definition unmarshalHeight :: "string \<Rightarrow> u64 option" where
  "unmarshalHeight data = parse_uint data"

definition getJournalRange ::
  "('d, 'a, 's, 'i, 'l, 'z) ext_scheme \<Rightarrow> 'd \<Rightarrow> (u64 \<times> u64) option" where
  "getJournalRange X ldb = do {
     minHeight \<leftarrow> (case db_Get (X_db X) ldb (compositeKey journalKey minHeightStr) of
                     None \<Rightarrow> Some 0 | Some data \<Rightarrow> unmarshalHeight data);
     maxHeight \<leftarrow> (case db_Get (X_db X) ldb (compositeKey journalKey maxHeightStr) of
                     None \<Rightarrow> Some 0 | Some data \<Rightarrow> unmarshalHeight data);
     Some (minHeight, maxHeight)}"

text \<open>The outer option is the panic on a record that cannot be decoded, the inner one a missing record.\<close>

definition getBlockJournal ::
  "('d, 'a, 's, 'i, 'l, 'z) ext_scheme \<Rightarrow> u64 \<Rightarrow> 'd \<Rightarrow> blockJournal option option" where
  "getBlockJournal X height ldb =
     (case db_Get (X_db X) ldb (journal_key height) of
        None \<Rightarrow> Some None
      | Some data \<Rightarrow> (case X_unjson X data of None \<Rightarrow> None | Some j \<Rightarrow> Some (Some j)))"

section \<open>The ledger\<close>

definition NewEvmLogs :: evmLogs where
  "NewEvmLogs = \<lparr>el_logs = [], el_logSize = 0, el_thash = None, el_bhash = None, el_txIndex = 0\<rparr>"

text \<open>\<^verbatim>\<open>NewSimpleLedger\<close>, with the cache it is given or a new one; \<^term>\<open>Inl\<close> is its error.\<close>

datatype ledger_error =
    ErrorRollbackToHigherNumber
  | ErrorRollbackWithoutJournal
  | ErrorRollbackTooMuch
  | ErrorRemoveJournalOutOfRange
  | ErrorEmptyJournal u64
  | ErrorNoBlockJournal u64
  | ErrorMarshalJournal
  | ErrorRemoveJournals u64 ledger_error

definition NewSimpleLedger ::
  "('d, 'a, 's, 'i, 'l, 'z) ext_scheme \<Rightarrow> 'd \<Rightarrow> ('a, 's, 'i) accountCache option \<Rightarrow>
   (ledger_error + ('d, 'a, 's, 'i, 'l) ledger) option" where
  "NewSimpleLedger X ldb cache = do {
     (minJnlHeight, maxJnlHeight) \<leftarrow> getJournalRange X ldb;
     r \<leftarrow> (if maxJnlHeight \<noteq> 0 then
             do { j \<leftarrow> getBlockJournal X maxJnlHeight ldb;
                  Some (case j of None \<Rightarrow> Inl (ErrorEmptyJournal maxJnlHeight)
                                | Some j \<Rightarrow> Inr (bj_ChangedHash j)) }
           else Some (Inr (X_zeroHash X)));
     Some (case r of
        Inl e \<Rightarrow> Inl e
      | Inr prevJnlHash \<Rightarrow>
          Inr \<lparr>l_ldb = ldb, l_minJnlHeight = minJnlHeight, l_maxJnlHeight = maxJnlHeight,
               l_events = [], l_accounts = [],
               l_accountCache = (case cache of None \<Rightarrow> NewAccountCache X | Some ac \<Rightarrow> ac),
               l_blockJournals = [], l_prevJnlHash = prevJnlHash, l_blockHeight = 0,
               l_pool = [], l_validRevisions = [], l_nextRevisionId = 0,
               l_changer = 0, l_changers = (\<lambda>_. newChanger), l_nextChanger = 1,
               l_accessList = al_New (X_access X), l_preimages = [], l_refund = 0,
               l_logs = NewEvmLogs\<rparr>)}"

text \<open>
  \<^verbatim>\<open>GetAccount\<close> installs what it finds under the address; the account then in the map is
  the object the caller goes on to mutate. The outer option is the panic on a record that
  cannot be decoded.
\<close>

definition GetAccount ::
  "('d, 'a, 's, 'i, 'l, 'z) ext_scheme \<Rightarrow> address \<Rightarrow> ('d, 'a, 's, 'i, 'l) ledger \<Rightarrow>
   (simpleAccount option \<times> ('d, 'a, 's, 'i, 'l) ledger) option" where
  "GetAccount X address l =
     (let addr = X_addrString X address in
      case gget (l_accounts l) addr of
        Some value \<Rightarrow> Some (Some value, l)
      | None \<Rightarrow>
          (let account = newAccount address (l_changer l);
               (ia, ac) = ac_getInnerAccount X address (l_accountCache l);
               l = l\<lparr>l_accountCache := ac\<rparr>
           in case ia of
                Some innerAccount \<Rightarrow>
                  (let account = account\<lparr>sa_originAccount := Some innerAccount\<rparr>;
                       (account, l) =
                         (if \<not> bytes_Equal (ia_CodeHash innerAccount) None then
                            (let (code, l) = acc_loadCode X address l
                             in (account\<lparr>sa_originCode := code, sa_dirtyCode := code\<rparr>, l))
                          else (account, l));
                       l = l\<lparr>l_accounts := gset addr account (l_accounts l)\<rparr>
                   in Some (Some account, l))
              | None \<Rightarrow>
                  (case db_Get (X_db X) (l_ldb l) (account_key X address) of
                     None \<Rightarrow> Some (None, l)
                   | Some data \<Rightarrow>
                       (case X_unmarshal X data of
                          None \<Rightarrow> None
                        | Some innerAccount \<Rightarrow>
                            (let account = account\<lparr>sa_originAccount := Some innerAccount\<rparr>;
                                 account =
                                   (if \<not> bytes_Equal (ia_CodeHash innerAccount) None then
                                      (let code = db_Get (X_db X) (l_ldb l) (code_key X address)
                                       in account\<lparr>sa_originCode := code, sa_dirtyCode := code\<rparr>)
                                    else account);
                                 l = l\<lparr>l_accounts := gset addr account (l_accounts l)\<rparr>
                             in Some (Some account, l))))))"

text \<open>
  The change log \<^term>\<open>lk\<close> is the one whose lock the caller already holds: appending to it blocks
  for ever.
\<close>

definition GetOrCreateAccount_locked ::
  "('d, 'a, 's, 'i, 'l, 'z) ext_scheme \<Rightarrow> nat option \<Rightarrow> address \<Rightarrow> ('d, 'a, 's, 'i, 'l) ledger \<Rightarrow>
   (simpleAccount \<times> ('d, 'a, 's, 'i, 'l) ledger) option" where
  "GetOrCreateAccount_locked X lk addr l = do {
     (a, l) \<leftarrow> GetAccount X addr l;
     case a of
       Some account \<Rightarrow> Some (account, l)
     | None \<Rightarrow>
         if lk = Some (l_changer l) then None
         else
           (let account = newAccount addr (l_changer l);
                l = append_change (l_changer l) (CreateObjectChange addr) l
            in Some (account, l\<lparr>l_accounts := gset (X_addrString X addr) account (l_accounts l)\<rparr>))}"

abbreviation GetOrCreateAccount ::
  "('d, 'a, 's, 'i, 'l, 'z) ext_scheme \<Rightarrow> address \<Rightarrow> ('d, 'a, 's, 'i, 'l) ledger \<Rightarrow>
   (simpleAccount \<times> ('d, 'a, 's, 'i, 'l) ledger) option" where
  "GetOrCreateAccount X \<equiv> GetOrCreateAccount_locked X None"

text \<open>The account object the map holds under an address, after a method has mutated it.\<close>

definition put_account ::
  "('d, 'a, 's, 'i, 'l, 'z) ext_scheme \<Rightarrow> address \<Rightarrow> simpleAccount \<Rightarrow> ('d, 'a, 's, 'i, 'l) ledger \<Rightarrow>
   ('d, 'a, 's, 'i, 'l) ledger" where
  "put_account X addr o1 l = l\<lparr>l_accounts := gset (X_addrString X addr) o1 (l_accounts l)\<rparr>"

definition setAccount ::
  "('d, 'a, 's, 'i, 'l, 'z) ext_scheme \<Rightarrow> simpleAccount \<Rightarrow> ('d, 'a, 's, 'i, 'l) ledger \<Rightarrow>
   ('d, 'a, 's, 'i, 'l) ledger" where
  "setAccount X o1 l = l\<lparr>l_accounts := gset (X_addrString X (sa_Addr o1)) o1 (l_accounts l)\<rparr>"

definition GetBalance where
  "GetBalance X addr l = do {
     (account, l) \<leftarrow> GetOrCreateAccount X addr l;
     Some (acc_GetBalance account, l)}"

definition SetBalance where
  "SetBalance X addr value l = do {
     (account, l) \<leftarrow> GetOrCreateAccount X addr l;
     let (account, l) = acc_SetBalance X value account l;
     Some (put_account X addr account l)}"

definition SubBalance where
  "SubBalance X addr value l = do {
     (account, l) \<leftarrow> GetOrCreateAccount X addr l;
     let (empty, account, l) = acc_IsEmpty X account l;
     let (account, l) = (if \<not> empty then acc_SubBalance X value account l else (account, l));
     Some (put_account X addr account l)}"

definition AddBalance where
  "AddBalance X addr value l = do {
     (account, l) \<leftarrow> GetOrCreateAccount X addr l;
     let (account, l) = acc_AddBalance X value account l;
     Some (put_account X addr account l)}"

definition GetState where
  "GetState X addr key l = do {
     (account, l) \<leftarrow> GetOrCreateAccount X addr l;
     let (r, account, l) = acc_GetState X key account l;
     Some (r, put_account X addr account l)}"

definition GetCommittedState where
  "GetCommittedState X addr key l = do {
     (account, l) \<leftarrow> GetOrCreateAccount X addr l;
     let (empty, account, l) = acc_IsEmpty X account l;
     let (r, account, l) = (if empty then (Some (X_zeroHash X), account, l)
                            else acc_GetCommittedState X key account l);
     Some (r, put_account X addr account l)}"

definition SetState where
  "SetState X addr key v changer l = do {
     (account, l) \<leftarrow> GetOrCreateAccount X addr l;
     let (account, l) = acc_SetState X key v changer account l;
     Some (put_account X addr account l)}"

definition AddState where
  "AddState X addr key v l = do {
     (account, l) \<leftarrow> GetOrCreateAccount X addr l;
     Some (put_account X addr (acc_AddState key v account) l)}"

definition SetCode where
  "SetCode X addr code l = do {
     (account, l) \<leftarrow> GetOrCreateAccount X addr l;
     let (account, l) = acc_SetCodeAndHash X code account l;
     Some (put_account X addr account l)}"

definition GetCode where
  "GetCode X addr l = do {
     (account, l) \<leftarrow> GetOrCreateAccount X addr l;
     let (code, account, l) = acc_Code X account l;
     Some (code, put_account X addr account l)}"

definition GetCodeHash where
  "GetCodeHash X addr l = do {
     (account, l) \<leftarrow> GetOrCreateAccount X addr l;
     let (empty, account, l) = acc_IsEmpty X account l;
     Some (if empty then X_zeroHash X else X_newHash X (acc_CodeHash account),
           put_account X addr account l)}"

definition GetCodeSize where
  "GetCodeSize X addr l = do {
     (account, l) \<leftarrow> GetOrCreateAccount X addr l;
     let (empty, account, l) = acc_IsEmpty X account l;
     let (code, account, l) = (if \<not> empty then acc_Code X account l else (None, account, l));
     Some (case code of Some c \<Rightarrow> length c | None \<Rightarrow> 0, put_account X addr account l)}"

definition AddRefund :: "u64 \<Rightarrow> ('d, 'a, 's, 'i, 'l) ledger \<Rightarrow> ('d, 'a, 's, 'i, 'l) ledger" where
  "AddRefund gas l =
     (let l = append_change (l_changer l) (RefundChange (l_refund l)) l
      in l\<lparr>l_refund := l_refund l + gas\<rparr>)"

definition SubRefund :: "u64 \<Rightarrow> ('d, 'a, 's, 'i, 'l) ledger \<Rightarrow> ('d, 'a, 's, 'i, 'l) ledger option" where
  "SubRefund gas l =
     (let l = append_change (l_changer l) (RefundChange (l_refund l)) l
      in if gas > l_refund l then None else Some (l\<lparr>l_refund := l_refund l - gas\<rparr>))"

definition GetRefund :: "('d, 'a, 's, 'i, 'l) ledger \<Rightarrow> u64" where
  "GetRefund l = l_refund l"

definition GetNonce where
  "GetNonce X addr l = do {
     (account, l) \<leftarrow> GetOrCreateAccount X addr l;
     Some (acc_GetNonce account, l)}"

definition SetNonce where
  "SetNonce X addr nonce l = do {
     (account, l) \<leftarrow> GetOrCreateAccount X addr l;
     let (account, l) = acc_SetNonce X nonce account l;
     Some (put_account X addr account l)}"

definition QueryByPrefix where
  "QueryByPrefix X E addr pre l = do {
     (account, l) \<leftarrow> GetOrCreateAccount X addr l;
     Some (acc_Query X E pre account l, l)}"

definition Clear :: "('d, 'a, 's, 'i, 'l) ledger \<Rightarrow> ('d, 'a, 's, 'i, 'l) ledger" where
  "Clear l = l\<lparr>l_events := [], l_accounts := []\<rparr>"

section \<open>Flushing, committing and rolling back a block\<close>

text \<open>
  The loop of \<^verbatim>\<open>FlushDirtyData\<close> over the accounts: journal entries and the data of the dirty
  accounts, in the order of the visit. The journal computation also mutates the visited account.
\<close>

record flush_acc =
  fl_journals :: "blockJournalEntry list"
  fl_sortedAddr :: "string list"
  fl_accountData :: "(string, string) gomap"
  fl_dirtyAccounts :: "(string, simpleAccount) gomap"

definition flush_one ::
  "('d, 'a, 's, 'i, 'l, 'z) ext_scheme \<Rightarrow> 'e runtime_scheme \<Rightarrow> 'd \<Rightarrow> string \<times> simpleAccount \<Rightarrow>
   flush_acc \<Rightarrow> flush_acc option" where
  "flush_one X E ldb = (\<lambda>(addr, account) f.
     let (journal, account) = getJournalIfModified X E ldb account
     in case journal of
          None \<Rightarrow> Some f
        | Some j \<Rightarrow> do {
            data \<leftarrow> getDirtyData X account;
            Some (f\<lparr>fl_journals := fl_journals f @ [j],
                    fl_sortedAddr := fl_sortedAddr f @ [addr],
                    fl_accountData := gset addr data (fl_accountData f),
                    fl_dirtyAccounts := gset addr account (fl_dirtyAccounts f)\<rparr>)})"

definition FlushDirtyData ::
  "('d, 'a, 's, 'i, 'l, 'z) ext_scheme \<Rightarrow> 'e runtime_scheme \<Rightarrow> ('d, 'a, 's, 'i, 'l) ledger \<Rightarrow>
   (((string, simpleAccount) gomap \<times> hash) \<times> ('d, 'a, 's, 'i, 'l) ledger) option" where
  "FlushDirtyData X E l = do {
     f \<leftarrow> ofold (flush_one X E (l_ldb l)) (go_range (rt_order E 26) (l_accounts l))
            \<lparr>fl_journals = [], fl_sortedAddr = [], fl_accountData = [], fl_dirtyAccounts = []\<rparr>;
     let dirtyAccountData =
           concat (map (gget0 [] (fl_accountData f)) (sort (fl_sortedAddr f))) @ l_prevJnlHash l;
     let changedHash = X_newHash X (Some (X_sha256 X dirtyAccountData));
     let blockJournal = \<lparr>bj_Journals = fl_journals f, bj_ChangedHash = changedHash\<rparr>;
     let l = l\<lparr>l_blockJournals :=
                 gset (X_hashString X changedHash) blockJournal (l_blockJournals l),
               l_prevJnlHash := changedHash\<rparr>;
     let l = Clear l;
     let l = l\<lparr>l_accountCache := ac_add X E (fl_dirtyAccounts f) (l_accountCache l)\<rparr>;
     Some ((fl_dirtyAccounts f, changedHash), l)}"

definition commit_code ::
  "('d, 'a, 's, 'i, 'l, 'z) ext_scheme \<Rightarrow> simpleAccount \<Rightarrow> batch option" where
  "commit_code X account =
     (if \<not> bytes_Equal (sa_originCode account) (sa_dirtyCode account) then
        (case sa_dirtyCode account of
           Some c \<Rightarrow> Some [Put (code_key X (sa_Addr account)) c]
         | None \<Rightarrow>
             (case sa_dirtyAccount account of
                None \<Rightarrow> Some []
              | Some d \<Rightarrow>
                  (case sa_originAccount account of
                     None \<Rightarrow> None
                   | Some oa \<Rightarrow>
                       Some (if \<not> bytes_Equal (ia_CodeHash oa) (ia_CodeHash d) \<and>
                                bytes_Equal (ia_CodeHash d) None
                             then [Delete (code_key X (sa_Addr account))] else []))))
      else Some [])"

definition commit_state_one :: "simpleAccount \<Rightarrow> string \<times> slice \<Rightarrow> batch" where
  "commit_state_one account = (\<lambda>(key, value).
     let origVal = (case gget (sa_originState account) key of Some v \<Rightarrow> v | None \<Rightarrow> None)
     in if \<not> bytes_Equal origVal value
        then [case value of
                Some v \<Rightarrow> Put (composeStateKey (sa_Addr account) key) v
              | None \<Rightarrow> Delete (composeStateKey (sa_Addr account) key)]
        else [])"

definition commit_account ::
  "('d, 'a, 's, 'i, 'l, 'z) ext_scheme \<Rightarrow> 'e runtime_scheme \<Rightarrow> 'd \<Rightarrow> simpleAccount \<Rightarrow> batch option" where
  "commit_account X E ldb account =
     (if acc_Suicided account then
        Some (if db_Get (X_db X) ldb (account_key X (sa_Addr account)) \<noteq> None
              then [Delete (account_key X (sa_Addr account))] else [])
      else do {
        b1 \<leftarrow> (if X_changed X (sa_originAccount account) (sa_dirtyAccount account) then
                 do { d \<leftarrow> sa_dirtyAccount account;
                      data \<leftarrow> X_marshal X d;
                      Some [Put (account_key X (sa_Addr account)) data] }
               else Some []);
        b2 \<leftarrow> commit_code X account;
        Some (b1 @ b2 @ concat (map (commit_state_one account)
                (go_range (rt_order E 27) (sa_dirtyState account))))})"

definition removeJournalsBeforeBlock ::
  "('d, 'a, 's, 'i, 'l, 'z) ext_scheme \<Rightarrow> u64 \<Rightarrow> ('d, 'a, 's, 'i, 'l) ledger \<Rightarrow>
   ledger_error option \<times> ('d, 'a, 's, 'i, 'l) ledger" where
  "removeJournalsBeforeBlock X height l =
     (if height > l_maxJnlHeight l then (Some ErrorRemoveJournalOutOfRange, l)
      else if height \<le> l_minJnlHeight l then (None, l)
      else
        (let b = map (\<lambda>i. Delete (journal_key (of_nat i))) [unat (l_minJnlHeight l) ..< unat height] @
                 [Put (compositeKey journalKey minHeightStr) (marshalHeight height)]
         in (None, l\<lparr>l_ldb := db_Commit (X_db X) b (l_ldb l), l_minJnlHeight := height\<rparr>)))"

definition Commit ::
  "('d, 'a, 's, 'i, 'l, 'z) ext_scheme \<Rightarrow> 'e runtime_scheme \<Rightarrow> u64 \<Rightarrow>
   (string, simpleAccount) gomap \<Rightarrow> hash \<Rightarrow> ('d, 'a, 's, 'i, 'l) ledger \<Rightarrow>
   (ledger_error option \<times> ('d, 'a, 's, 'i, 'l) ledger) option" where
  "Commit X E height accounts stateRoot l = do {
     ldbBatch \<leftarrow> ofold (\<lambda>(_, account) b. do {
                    b' \<leftarrow> commit_account X E (l_ldb l) account; Some (b @ b')})
                  (go_range (rt_order E 28) accounts) [];
     case gget (l_blockJournals l) (X_hashString X stateRoot) of
       None \<Rightarrow> Some (Some (ErrorNoBlockJournal height), l)
     | Some blockJournal \<Rightarrow>
         (case X_json X blockJournal of
            None \<Rightarrow> Some (Some ErrorMarshalJournal, l)
          | Some data \<Rightarrow>
              (let ldbBatch = ldbBatch @
                     [Put (journal_key height) data,
                      Put (compositeKey journalKey maxHeightStr) (marshalHeight height)];
                   (l, ldbBatch) =
                     (if l_minJnlHeight l = 0
                      then (l\<lparr>l_minJnlHeight := height\<rparr>,
                            ldbBatch @ [Put (compositeKey journalKey minHeightStr) (marshalHeight height)])
                      else (l, ldbBatch));
                   l = l\<lparr>l_ldb := db_Commit (X_db X) ldbBatch (l_ldb l), l_maxJnlHeight := height\<rparr>;
                   (err, l) = (if height > 10 then removeJournalsBeforeBlock X (height - 10) l
                               else (None, l))
               in case err of
                    Some e \<Rightarrow> Some (Some (ErrorRemoveJournals (height - 10) e), l)
                  | None \<Rightarrow> Some (None, l\<lparr>l_blockJournals := []\<rparr>)))}"

definition Version :: "('d, 'a, 's, 'i, 'l) ledger \<Rightarrow> u64" where
  "Version l = l_maxJnlHeight l"

text \<open>One iteration of \<^verbatim>\<open>RollbackState\<close>: undo block \<^term>\<open>i\<close>, one batch per block.\<close>

definition rollback_one ::
  "('d, 'a, 's, 'i, 'l, 'z) ext_scheme \<Rightarrow> 'e runtime_scheme \<Rightarrow> u64 \<Rightarrow> 'd \<Rightarrow>
   (ledger_error option \<times> 'd) option" where
  "rollback_one X E i ldb = do {
     j \<leftarrow> getBlockJournal X i ldb;
     case j of
       None \<Rightarrow> Some (Some ErrorRollbackWithoutJournal, ldb)
     | Some blockJournal \<Rightarrow> do {
         b \<leftarrow> ofold (revertJournal X E) (bj_Journals blockJournal) [];
         Some (None, db_Commit (X_db X)
           (b @ [Delete (journal_key i),
                 Put (compositeKey journalKey maxHeightStr) (marshalHeight (i - 1))]) ldb)}}"

fun rollback_loop ::
  "('d, 'a, 's, 'i, 'l, 'z) ext_scheme \<Rightarrow> 'e runtime_scheme \<Rightarrow> u64 list \<Rightarrow> 'd \<Rightarrow>
   (ledger_error option \<times> 'd) option" where
  "rollback_loop X E [] ldb = Some (None, ldb)"
| "rollback_loop X E (i # is) ldb =
     (case rollback_one X E i ldb of
        None \<Rightarrow> None
      | Some (Some e, ldb) \<Rightarrow> Some (Some e, ldb)
      | Some (None, ldb) \<Rightarrow> rollback_loop X E is ldb)"

definition heights_down :: "u64 \<Rightarrow> u64 \<Rightarrow> u64 list" where
  "heights_down hi lo = rev (map of_nat [Suc (unat lo) ..< Suc (unat hi)])"

definition RollbackState ::
  "('d, 'a, 's, 'i, 'l, 'z) ext_scheme \<Rightarrow> 'e runtime_scheme \<Rightarrow> u64 \<Rightarrow>
   ('d, 'a, 's, 'i, 'l) ledger \<Rightarrow> (ledger_error option \<times> ('d, 'a, 's, 'i, 'l) ledger) option" where
  "RollbackState X E height l =
     (if l_maxJnlHeight l < height then Some (Some ErrorRollbackToHigherNumber, l)
      else if l_minJnlHeight l > height \<and> \<not> (l_minJnlHeight l = 1 \<and> height = 0)
      then Some (Some ErrorRollbackTooMuch, l)
      else if l_maxJnlHeight l = height then Some (None, l)
      else
        (let l = Clear l;
             l = l\<lparr>l_accountCache := ac_clear X (l_accountCache l)\<rparr>
         in do {
           (err, ldb) \<leftarrow> rollback_loop X E (heights_down (l_maxJnlHeight l) height) (l_ldb l);
           let l = l\<lparr>l_ldb := ldb\<rparr>;
           case err of
             Some e \<Rightarrow> Some (Some e, l)
           | None \<Rightarrow>
               if height \<noteq> 0 then do {
                 j \<leftarrow> getBlockJournal X height ldb;
                 journal \<leftarrow> j;
                 Some (None, l\<lparr>l_prevJnlHash := bj_ChangedHash journal, l_maxJnlHeight := height\<rparr>)}
               else
                 Some (None, l\<lparr>l_prevJnlHash := X_zeroHash X, l_minJnlHeight := 0,
                               l_maxJnlHeight := height\<rparr>)}))"

section \<open>Self-destruction and emptiness\<close>

text \<open>\<^verbatim>\<open>Suiside\<close> panics on an address without an account (a type assertion on nil).\<close>

definition Suiside where
  "Suiside X addr l = do {
     (a, l) \<leftarrow> GetAccount X addr l;
     account \<leftarrow> a;
     let l = append_change (l_changer l)
               (SuicideChange addr (acc_Suicided account) (acc_GetBalance account)) l;
     let account = acc_SetSuicided True account;
     let (account, l) = acc_SetBalance X 0 account l;
     Some (True, put_account X addr account l)}"

definition HasSuiside where
  "HasSuiside X addr l = do {
     (account, l) \<leftarrow> GetOrCreateAccount X addr l;
     let (empty, account, l) = acc_IsEmpty X account l;
     Some (if empty then False else acc_Suicided account, put_account X addr account l)}"

definition Exist where
  "Exist X addr l = do {
     (account, l) \<leftarrow> GetOrCreateAccount X addr l;
     let (empty, account, l) = acc_IsEmpty X account l;
     Some (\<not> empty, put_account X addr account l)}"

definition Empty where
  "Empty X addr l = do {
     (account, l) \<leftarrow> GetOrCreateAccount X addr l;
     let (empty, account, l) = acc_IsEmpty X account l;
     Some (empty, put_account X addr account l)}"

section \<open>Snapshots\<close>

text \<open>Undoing one change, while the lock of the log \<^term>\<open>c\<close> is held.\<close>

definition on_account where
  "on_account X c addr f l = do {
     (account, l) \<leftarrow> GetOrCreateAccount_locked X (Some c) addr l;
     Some (put_account X addr (f account) l)}"

fun revert_change ::
  "('d, 'a, 's, 'i, 'l, 'z) ext_scheme \<Rightarrow> nat \<Rightarrow> stateChange \<Rightarrow> ('d, 'a, 's, 'i, 'l) ledger \<Rightarrow>
   ('d, 'a, 's, 'i, 'l) ledger option" where
  "revert_change X c (CreateObjectChange a) l =
     Some (l\<lparr>l_accounts := gdel (X_addrString X a) (l_accounts l),
             l_accountCache := ac_rmAccount X a (l_accountCache l)\<rparr>)"
| "revert_change X c (SuicideChange a p b) l =
     on_account X c a (\<lambda>o1. acc_setBalance X b (o1\<lparr>sa_suicided := p\<rparr>)) l"
| "revert_change X c (BalanceChange a p) l = on_account X c a (acc_setBalance X p) l"
| "revert_change X c (NonceChange a p) l = on_account X c a (acc_setNonce X p) l"
| "revert_change X c (CodeChange a p) l = on_account X c a (acc_setCodeAndHash X p) l"
| "revert_change X c (StorageChange a k p) l = on_account X c a (acc_setState k p) l"
| "revert_change X c (RefundChange p) l = Some (l\<lparr>l_refund := p\<rparr>)"
| "revert_change X c (AddPreimageChange h) l = Some (l\<lparr>l_preimages := gdel h (l_preimages l)\<rparr>)"
| "revert_change X c (AccessListAddAccountChange a) l =
     Some (l\<lparr>l_accessList := al_DeleteAddress (X_access X) a (l_accessList l)\<rparr>)"
| "revert_change X c (AccessListAddSlotChange a s) l =
     Some (l\<lparr>l_accessList := al_DeleteSlot (X_access X) a s (l_accessList l)\<rparr>)"
| "revert_change X c (AddLogChange None) l = None"
| "revert_change X c (AddLogChange (Some h)) l =
     (let logs = gget0 [] (el_logs (l_logs l)) h in
      if logs = [] then None
      else Some (l\<lparr>l_logs := (l_logs l)\<lparr>
        el_logs := (if length logs = 1 then gdel h (el_logs (l_logs l))
                    else gset h (butlast logs) (el_logs (l_logs l))),
        el_logSize := el_logSize (l_logs l) - 1\<rparr>\<rparr>))"

text \<open>
  \<^verbatim>\<open>revert\<close> walks the log from its end down to the snapshot, then cuts it there. The snapshot
  of a valid revision never exceeds the length of the log; a larger index is out of range.
\<close>

fun revert_loop ::
  "('d, 'a, 's, 'i, 'l, 'z) ext_scheme \<Rightarrow> nat \<Rightarrow> stateChange list \<Rightarrow> ('d, 'a, 's, 'i, 'l) ledger \<Rightarrow>
   ('d, 'a, 's, 'i, 'l) ledger option" where
  "revert_loop X c [] l = Some l"
| "revert_loop X c (ch # chs) l = do {
     l \<leftarrow> revert_change X c ch l;
     revert_loop X c chs (l\<lparr>l_changers := (l_changers l)(c := sc_undirty ch (l_changers l c))\<rparr>)}"

definition changer_revert ::
  "('d, 'a, 's, 'i, 'l, 'z) ext_scheme \<Rightarrow> nat \<Rightarrow> nat \<Rightarrow> ('d, 'a, 's, 'i, 'l) ledger \<Rightarrow>
   ('d, 'a, 's, 'i, 'l) ledger option" where
  "changer_revert X c snapshot l = do {
     l \<leftarrow> revert_loop X c (rev (drop snapshot (sc_changes (l_changers l c)))) l;
     let s = l_changers l c;
     if snapshot > length (sc_changes s) then None
     else Some (l\<lparr>l_changers := (l_changers l)(c := s\<lparr>sc_changes := take snapshot (sc_changes s)\<rparr>)\<rparr>)}"

definition Snapshot :: "('d, 'a, 's, 'i, 'l) ledger \<Rightarrow> int \<times> ('d, 'a, 's, 'i, 'l) ledger" where
  "Snapshot l =
     (let id = l_nextRevisionId l;
          n = length (sc_changes (l_changers l (l_changer l)))
      in (id, l\<lparr>l_nextRevisionId := id + 1,
                l_validRevisions := l_validRevisions l @ [\<lparr>rv_id = id, rv_changerIndex = n\<rparr>]\<rparr>))"

definition RevertToSnapshot ::
  "('d, 'a, 's, 'i, 'l, 'z) ext_scheme \<Rightarrow> int \<Rightarrow> ('d, 'a, 's, 'i, 'l) ledger \<Rightarrow>
   ('d, 'a, 's, 'i, 'l) ledger option" where
  "RevertToSnapshot X revid l =
     (let revs = l_validRevisions l;
          idx = sort_Search (length revs) (\<lambda>i. rv_id (revs ! i) \<ge> revid)
      in if idx = length revs \<or> rv_id (revs ! idx) \<noteq> revid then None
         else do {
           l \<leftarrow> changer_revert X (l_changer l) (rv_changerIndex (revs ! idx)) l;
           Some (l\<lparr>l_validRevisions := take idx (l_validRevisions l)\<rparr>)})"

definition ClearChangerAndRefund :: "('d, 'a, 's, 'i, 'l) ledger \<Rightarrow> ('d, 'a, 's, 'i, 'l) ledger" where
  "ClearChangerAndRefund l =
     (let l = (if length (sc_changes (l_changers l (l_changer l))) > 0
               then (let (c, l) = alloc_changer l in l\<lparr>l_changer := c, l_refund := 0\<rparr>)
               else l)
      in l\<lparr>l_validRevisions := [], l_nextRevisionId := 0\<rparr>)"

definition Finalise :: "bool \<Rightarrow> ('d, 'a, 's, 'i, 'l) ledger \<Rightarrow> ('d, 'a, 's, 'i, 'l) ledger" where
  "Finalise b l = ClearChangerAndRefund l"

text \<open>
  Change instances of transactions that run in parallel: a pool hands out a pooled instance
  (which one, or none of them, is the choice of \<^verbatim>\<open>sync.Pool\<close>) or a new one.
\<close>

definition newChangeInstance ::
  "('d, 'a, 's, 'i, 'l) ledger \<Rightarrow> changeInstance \<times> ('d, 'a, 's, 'i, 'l) ledger" where
  "newChangeInstance l =
     (let (c, l) = alloc_changer l
      in (\<lparr>ci_changer = c, ci_validRevisions = [], ci_nextRevisionId = 0\<rparr>, l))"

definition GetInstance ::
  "nat option \<Rightarrow> ('d, 'a, 's, 'i, 'l) ledger \<Rightarrow> changeInstance \<times> ('d, 'a, 's, 'i, 'l) ledger" where
  "GetInstance pick l =
     (case pick of
        Some i \<Rightarrow>
          if i < length (l_pool l)
          then (l_pool l ! i, l\<lparr>l_pool := take i (l_pool l) @ drop (Suc i) (l_pool l)\<rparr>)
          else newChangeInstance l
      | None \<Rightarrow> newChangeInstance l)"

definition ReleaseChangeInstance ::
  "changeInstance \<Rightarrow> ('d, 'a, 's, 'i, 'l) ledger \<Rightarrow> ('d, 'a, 's, 'i, 'l) ledger" where
  "ReleaseChangeInstance ci l =
     (let (ci, l) = (if length (sc_changes (l_changers l (ci_changer ci))) > 0
                     then (let (c, l) = alloc_changer l in (ci\<lparr>ci_changer := c\<rparr>, l\<lparr>l_refund := 0\<rparr>))
                     else (ci, l))
      in l\<lparr>l_pool := ci\<lparr>ci_validRevisions := [], ci_nextRevisionId := 0\<rparr> # l_pool l\<rparr>)"

definition SnapshotForParallel ::
  "changeInstance \<Rightarrow> ('d, 'a, 's, 'i, 'l) ledger \<Rightarrow> int \<times> changeInstance" where
  "SnapshotForParallel ci l =
     (let id = ci_nextRevisionId ci;
          n = length (sc_changes (l_changers l (ci_changer ci)))
      in (id, ci\<lparr>ci_nextRevisionId := id + 1,
                 ci_validRevisions := ci_validRevisions ci @ [\<lparr>rv_id = id, rv_changerIndex = n\<rparr>]\<rparr>))"

definition RevertToSnapshotForParallel ::
  "('d, 'a, 's, 'i, 'l, 'z) ext_scheme \<Rightarrow> int \<Rightarrow> changeInstance \<Rightarrow> ('d, 'a, 's, 'i, 'l) ledger \<Rightarrow>
   (changeInstance \<times> ('d, 'a, 's, 'i, 'l) ledger) option" where
  "RevertToSnapshotForParallel X revid change l =
     (let revs = ci_validRevisions change;
          idx = sort_Search (length revs) (\<lambda>i. rv_id (revs ! i) \<ge> revid)
      in if idx = length revs \<or> rv_id (revs ! idx) \<noteq> revid then None
         else do {
           l \<leftarrow> changer_revert X (ci_changer change) (rv_changerIndex (revs ! idx)) l;
           Some (change\<lparr>ci_validRevisions := take idx (ci_validRevisions change)\<rparr>, l)})"

section \<open>Access list, preimages, logs and events\<close>

definition AddAddressToAccessList ::
  "('d, 'a, 's, 'i, 'l, 'z) ext_scheme \<Rightarrow> address \<Rightarrow> ('d, 'a, 's, 'i, 'l) ledger \<Rightarrow>
   ('d, 'a, 's, 'i, 'l) ledger" where
  "AddAddressToAccessList X addr l =
     (let (new, al) = al_AddAddress (X_access X) addr (l_accessList l);
          l = l\<lparr>l_accessList := al\<rparr>
      in if new then append_change (l_changer l) (AccessListAddAccountChange addr) l else l)"

definition AddSlotToAccessList ::
  "('d, 'a, 's, 'i, 'l, 'z) ext_scheme \<Rightarrow> address \<Rightarrow> hash \<Rightarrow> ('d, 'a, 's, 'i, 'l) ledger \<Rightarrow>
   ('d, 'a, 's, 'i, 'l) ledger" where
  "AddSlotToAccessList X addr slot l =
     (let ((addrMod, slotMod), al) = al_AddSlot (X_access X) addr slot (l_accessList l);
          l = l\<lparr>l_accessList := al\<rparr>;
          l = (if addrMod then append_change (l_changer l) (AccessListAddAccountChange addr) l else l)
      in if slotMod then append_change (l_changer l) (AccessListAddSlotChange addr slot) l else l)"

definition PrepareAccessList ::
  "('d, 'a, 's, 'i, 'l, 'z) ext_scheme \<Rightarrow> address \<Rightarrow> address option \<Rightarrow> address list \<Rightarrow>
   (address \<times> hash list) list \<Rightarrow> ('d, 'a, 's, 'i, 'l) ledger \<Rightarrow> ('d, 'a, 's, 'i, 'l) ledger" where
  "PrepareAccessList X sender dst precompiles list l =
     (let l = AddAddressToAccessList X sender l;
          l = (case dst of Some d \<Rightarrow> AddAddressToAccessList X d l | None \<Rightarrow> l);
          l = fold (AddAddressToAccessList X) precompiles l
      in fold (\<lambda>(addr, slots) l.
           fold (AddSlotToAccessList X addr) slots (AddAddressToAccessList X addr l)) list l)"

definition AddressInAccessList ::
  "('d, 'a, 's, 'i, 'l, 'z) ext_scheme \<Rightarrow> address \<Rightarrow> ('d, 'a, 's, 'i, 'l) ledger \<Rightarrow> bool" where
  "AddressInAccessList X addr l = al_ContainsAddress (X_access X) (l_accessList l) addr"

definition SlotInAccessList ::
  "('d, 'a, 's, 'i, 'l, 'z) ext_scheme \<Rightarrow> address \<Rightarrow> hash \<Rightarrow> ('d, 'a, 's, 'i, 'l) ledger \<Rightarrow>
   bool \<times> bool" where
  "SlotInAccessList X addr slot l = al_Contains (X_access X) (l_accessList l) addr slot"

definition AddPreimage ::
  "hash \<Rightarrow> slice \<Rightarrow> ('d, 'a, 's, 'i, 'l) ledger \<Rightarrow> ('d, 'a, 's, 'i, 'l) ledger" where
  "AddPreimage hash preimage l =
     (case gget (l_preimages l) hash of
        Some _ \<Rightarrow> l
      | None \<Rightarrow>
          (let l = append_change (l_changer l) (AddPreimageChange hash) l
           in l\<lparr>l_preimages := gset hash (content preimage) (l_preimages l)\<rparr>))"

definition PrepareBlock ::
  "hash option \<Rightarrow> u64 \<Rightarrow> ('d, 'a, 's, 'i, 'l) ledger \<Rightarrow> ('d, 'a, 's, 'i, 'l) ledger" where
  "PrepareBlock hash height l = l\<lparr>l_logs := NewEvmLogs\<lparr>el_bhash := hash\<rparr>, l_blockHeight := height\<rparr>"

text \<open>Without a current transaction \<^verbatim>\<open>AddLog\<close> dereferences a nil pointer.\<close>

definition AddLog ::
  "evmLog \<Rightarrow> ('d, 'a, 's, 'i, 'l) ledger \<Rightarrow> ('d, 'a, 's, 'i, 'l) ledger option" where
  "AddLog log l =
     (let l = append_change (l_changer l) (AddLogChange (el_thash (l_logs l))) l;
          log = log\<lparr>lg_TransactionHash := el_thash (l_logs l), lg_BlockHash := el_bhash (l_logs l),
                    lg_TransactionIndex := of_int (el_txIndex (l_logs l)),
                    lg_LogIndex := el_logSize (l_logs l)\<rparr>
      in do {
        h \<leftarrow> el_thash (l_logs l);
        Some (l\<lparr>l_logs := (l_logs l)\<lparr>
          el_logs := gset h (gget0 [] (el_logs (l_logs l)) h @ [log]) (el_logs (l_logs l)),
          el_logSize := el_logSize (l_logs l) + 1\<rparr>\<rparr>)})"

definition GetLogs :: "hash \<Rightarrow> ('d, 'a, 's, 'i, 'l) ledger \<Rightarrow> evmLog list" where
  "GetLogs hash l = gget0 [] (el_logs (l_logs l)) hash"

definition Logs :: "'e runtime_scheme \<Rightarrow> ('d, 'a, 's, 'i, 'l) ledger \<Rightarrow> evmLog list" where
  "Logs E l = concat (map snd (go_range (rt_order E 29) (el_logs (l_logs l))))"

definition AddEvent ::
  "('d, 'a, 's, 'i, 'l, 'z) ext_scheme \<Rightarrow> event \<Rightarrow> ('d, 'a, 's, 'i, 'l) ledger \<Rightarrow>
   ('d, 'a, 's, 'i, 'l) ledger option" where
  "AddEvent X event l = do {
     hash \<leftarrow> (case ev_TxHash event of Some h \<Rightarrow> Some h | None \<Rightarrow> el_thash (l_logs l));
     let key = X_hashString X hash;
     Some (l\<lparr>l_events := gset key (gget0 [] (l_events l) key @ [event]) (l_events l)\<rparr>)}"

definition Events :: "string \<Rightarrow> ('d, 'a, 's, 'i, 'l) ledger \<Rightarrow> event list" where
  "Events txHash l = gget0 [] (l_events l) txHash"

definition PrepareEVM ::
  "('d, 'a, 's, 'i, 'l, 'z) ext_scheme \<Rightarrow> hash \<Rightarrow> int \<Rightarrow> ('d, 'a, 's, 'i, 'l) ledger \<Rightarrow>
   ('d, 'a, 's, 'i, 'l) ledger" where
  "PrepareEVM X hash index l =
     l\<lparr>l_logs := (l_logs l)\<lparr>el_thash := Some (X_newHash X (Some hash)), el_txIndex := index\<rparr>,
       l_accessList := al_New (X_access X)\<rparr>"

end
