(* ===== verification/Ledger_View.thy ===== *)
theory Ledger_View
  imports Ledger
begin

text \<open>
  What the state ledger promises, free of caches, copies and loading: a view that gives every
  address its balance, nonce, code, storage and flags, together with the refund counter,
  preimages, logs and the access list. The refinement lemmas say that loading an account, reading
  and undoing a change act on the view as they should; the well-formedness invariant that they
  need and keep is \<^verbatim>\<open>lwf\<close>.
\<close>

section \<open>The contents beneath the accounts\<close>

definition cached_inner where
  "cached_inner X ac s = peek (X_accounts X) (ac_innerAccountCache ac) s"

definition cached_code where
  "cached_code X ac s = peek (X_bytes X) (ac_codeCache ac) s"

definition cached_state where
  "cached_state X ac s k =
     (case peek (X_states X) (ac_stateCache ac) s of
        None \<Rightarrow> None | Some p \<Rightarrow> peek (X_bytes X) (ac_heap ac p) k)"

lemma cached_update [simp]:
  "cached_inner X (ac\<lparr>ac_stateCache := s\<rparr>) = cached_inner X ac"
  "cached_inner X (ac\<lparr>ac_codeCache := i\<rparr>) = cached_inner X ac"
  "cached_inner X (ac\<lparr>ac_heap := h\<rparr>) = cached_inner X ac"
  "cached_inner X (ac\<lparr>ac_next := n\<rparr>) = cached_inner X ac"
  "cached_code X (ac\<lparr>ac_innerAccountCache := x\<rparr>) = cached_code X ac"
  "cached_code X (ac\<lparr>ac_stateCache := s\<rparr>) = cached_code X ac"
  "cached_code X (ac\<lparr>ac_heap := h\<rparr>) = cached_code X ac"
  "cached_code X (ac\<lparr>ac_next := n\<rparr>) = cached_code X ac"
  "cached_state X (ac\<lparr>ac_innerAccountCache := x\<rparr>) = cached_state X ac"
  "cached_state X (ac\<lparr>ac_codeCache := i\<rparr>) = cached_state X ac"
  "cached_state X (ac\<lparr>ac_next := n\<rparr>) = cached_state X ac"
  by (auto simp: cached_inner_def cached_code_def cached_state_def fun_eq_iff split: option.split)

definition same_cache :: "('d, 'a, 's, 'i, 'l, 'z) ext_scheme \<Rightarrow> ('a, 's, 'i) accountCache \<Rightarrow>
  ('a, 's, 'i) accountCache \<Rightarrow> bool" where
  "same_cache X ac ac' \<longleftrightarrow>
     cached_inner X ac' = cached_inner X ac \<and> cached_code X ac' = cached_code X ac \<and>
     cached_state X ac' = cached_state X ac"

lemma same_cache_refl [simp]: "same_cache X ac ac"
  by (simp add: same_cache_def)

lemma same_cache_trans [trans]: "same_cache X a b \<Longrightarrow> same_cache X b c \<Longrightarrow> same_cache X a c"
  by (simp add: same_cache_def)

record bases =
  b_inner :: "address \<Rightarrow> innerAccount option"
  b_code :: "address \<Rightarrow> slice"
  b_state :: "address \<Rightarrow> string \<Rightarrow> slice"

definition base_of where
  "base_of X ac ldb = \<lparr>
     b_inner = (\<lambda>a. case cached_inner X ac (X_addrString X a) of
        Some ia \<Rightarrow> Some ia
      | None \<Rightarrow> (case db_Get (X_db X) ldb (account_key X a) of
                   None \<Rightarrow> None | Some d \<Rightarrow> X_unmarshal X d)),
     b_code = (\<lambda>a. case cached_code X ac (X_addrString X a) of
        Some c \<Rightarrow> c | None \<Rightarrow> db_Get (X_db X) ldb (code_key X a)),
     b_state = (\<lambda>a k. case cached_state X ac (X_addrString X a) k of
        Some v \<Rightarrow> v | None \<Rightarrow> db_Get (X_db X) ldb (composeStateKey a k))\<rparr>"

abbreviation bases_of where
  "bases_of X l \<equiv> base_of X (l_accountCache l) (l_ldb l)"

lemma same_cache_base: "same_cache X ac ac' \<Longrightarrow> base_of X ac' ldb = base_of X ac ldb"
  by (simp add: same_cache_def base_of_def)

section \<open>The view\<close>

record aview =
  av_exists :: "address \<Rightarrow> bool"
  av_balance :: "address \<Rightarrow> int"
  av_nonce :: "address \<Rightarrow> u64"
  av_code :: "address \<Rightarrow> slice"
  av_state :: "address \<Rightarrow> string \<Rightarrow> slice"
  av_suicided :: "address \<Rightarrow> bool"
  av_refund :: u64
  av_preimage :: "hash \<Rightarrow> slice"
  av_logs :: "hash \<Rightarrow> evmLog list"
  av_logSize :: u64
  av_addrs :: "address \<Rightarrow> bool"
  av_slots :: "address \<Rightarrow> hash \<Rightarrow> bool"

definition or_else :: "'x option \<Rightarrow> 'x option \<Rightarrow> 'x option" where
  "or_else x y = (case x of None \<Rightarrow> y | Some _ \<Rightarrow> x)"

lemma or_else_simps [simp]: "or_else None y = y" "or_else (Some v) y = Some v"
  by (simp_all add: or_else_def)

definition code_of :: "bases \<Rightarrow> simpleAccount \<Rightarrow> slice" where
  "code_of B o1 = or_else (sa_dirtyCode o1) (or_else (sa_originCode o1) (b_code B (sa_Addr o1)))"

definition state_of :: "bases \<Rightarrow> simpleAccount \<Rightarrow> string \<Rightarrow> slice" where
  "state_of B o1 k =
     (case gget (sa_dirtyState o1) k of Some v \<Rightarrow> v | None \<Rightarrow> b_state B (sa_Addr o1) k)"

definition view ::
  "('d, 'a, 's, 'i, 'l, 'z) ext_scheme \<Rightarrow> ('d, 'a, 's, 'i, 'l) ledger \<Rightarrow> aview" where
  "view X l = (let B = bases_of X l; acc = (\<lambda>a. gget (l_accounts l) (X_addrString X a)) in \<lparr>
     av_exists = (\<lambda>a. acc a \<noteq> None \<or> b_inner B a \<noteq> None),
     av_balance = (\<lambda>a. case acc a of Some o1 \<Rightarrow> acc_GetBalance o1
        | None \<Rightarrow> (case b_inner B a of Some ia \<Rightarrow> ia_Balance ia | None \<Rightarrow> 0)),
     av_nonce = (\<lambda>a. case acc a of Some o1 \<Rightarrow> acc_GetNonce o1
        | None \<Rightarrow> (case b_inner B a of Some ia \<Rightarrow> ia_Nonce ia | None \<Rightarrow> 0)),
     av_code = (\<lambda>a. case acc a of Some o1 \<Rightarrow> code_of B o1 | None \<Rightarrow> b_code B a),
     av_state = (\<lambda>a. case acc a of Some o1 \<Rightarrow> state_of B o1 | None \<Rightarrow> b_state B a),
     av_suicided = (\<lambda>a. case acc a of Some o1 \<Rightarrow> sa_suicided o1 | None \<Rightarrow> False),
     av_refund = l_refund l,
     av_preimage = gget (l_preimages l),
     av_logs = gget0 [] (el_logs (l_logs l)),
     av_logSize = el_logSize (l_logs l),
     av_addrs = al_ContainsAddress (X_access X) (l_accessList l),
     av_slots = has_slot (X_access X) (l_accessList l)\<rparr>)"

lemma view_sel:
  "av_exists (view X l) a \<longleftrightarrow>
     gget (l_accounts l) (X_addrString X a) \<noteq> None \<or> b_inner (bases_of X l) a \<noteq> None"
  "gget (l_accounts l) (X_addrString X a) = Some o1 \<Longrightarrow> av_balance (view X l) a = acc_GetBalance o1"
  "gget (l_accounts l) (X_addrString X a) = Some o1 \<Longrightarrow> av_nonce (view X l) a = acc_GetNonce o1"
  "gget (l_accounts l) (X_addrString X a) = Some o1 \<Longrightarrow> av_code (view X l) a = code_of (bases_of X l) o1"
  "gget (l_accounts l) (X_addrString X a) = Some o1 \<Longrightarrow> av_state (view X l) a = state_of (bases_of X l) o1"
  "gget (l_accounts l) (X_addrString X a) = Some o1 \<Longrightarrow> av_suicided (view X l) a = sa_suicided o1"
  by (simp_all add: view_def Let_def)

section \<open>Well-formedness\<close>

definition acc_wf :: "bases \<Rightarrow> nat \<Rightarrow> simpleAccount \<Rightarrow> bool" where
  "acc_wf B c o1 \<longleftrightarrow>
     sa_changer o1 = c \<and> sa_originAccount o1 = b_inner B (sa_Addr o1) \<and>
     (\<forall>k v. gget (sa_originState o1) k = Some v \<longrightarrow> v = b_state B (sa_Addr o1) k) \<and>
     sa_originCode o1 \<in> {None, b_code B (sa_Addr o1)} \<and>
     (content (acc_CodeHash o1) = [] \<and> sa_originCode o1 = None \<and> sa_dirtyCode o1 = None \<longrightarrow>
        b_code B (sa_Addr o1) = None)"

text \<open>
  The store decodes; an address without an inner account, or whose code hash is empty, has no
  code; and a cached code whose inner account was evicted is the one of the store.
\<close>

definition base_wf where
  "base_wf X ac ldb \<longleftrightarrow>
     (\<forall>a d. db_Get (X_db X) ldb (account_key X a) = Some d \<longrightarrow> X_unmarshal X d \<noteq> None) \<and>
     (\<forall>a. (case b_inner (base_of X ac ldb) a of None \<Rightarrow> True | Some ia \<Rightarrow> content (ia_CodeHash ia) = [])
        \<longrightarrow> b_code (base_of X ac ldb) a = None) \<and>
     (\<forall>a. cached_inner X ac (X_addrString X a) = None \<longrightarrow>
        cached_code X ac (X_addrString X a) \<in> {None, Some (db_Get (X_db X) ldb (code_key X a))})"

definition lwf :: "('d, 'a, 's, 'i, 'l, 'z) ext_scheme \<Rightarrow> ('d, 'a, 's, 'i, 'l) ledger \<Rightarrow> bool" where
  "lwf X l \<longleftrightarrow>
     base_wf X (l_accountCache l) (l_ldb l) \<and>
     (\<forall>s o1. gget (l_accounts l) s = Some o1 \<longrightarrow>
        s = X_addrString X (sa_Addr o1) \<and> acc_wf (bases_of X l) (l_changer l) o1)"

lemma same_cache_base_wf: "same_cache X ac ac' \<Longrightarrow> base_wf X ac' ldb = base_wf X ac ldb"
  by (simp add: base_wf_def same_cache_base) (simp add: same_cache_def)

section \<open>Lookups in the cache\<close>

lemma lru_Get_peek:
  assumes "lru_ok L" "lru_Get L k c = (v, c')"
  shows "v = peek L c k" "peek L c' = peek L c"
proof -
  show "v = peek L c k" using assms(2) by (simp add: peek_def)
  have "peek L (snd (lru_Get L k c)) = peek L c" using assms(1) by (simp add: lru_ok_def)
  then show "peek L c' = peek L c" using assms(2) by simp
qed

lemma ac_getInnerAccount_spec:
  assumes "ext_ok X" "ac_getInnerAccount X a ac = (v, ac')"
  shows "v = cached_inner X ac (X_addrString X a)" "same_cache X ac ac'"
proof -
  obtain w c where g: "lru_Get (X_accounts X) (X_addrString X a) (ac_innerAccountCache ac) = (w, c)"
    by fastforce
  note p = lru_Get_peek[OF ext_okD(2)[OF assms(1)] g]
  from assms(2) g have e: "v = w" "ac' = ac\<lparr>ac_innerAccountCache := c\<rparr>"
    by (simp_all add: ac_getInnerAccount_def)
  show "v = cached_inner X ac (X_addrString X a)" "same_cache X ac ac'"
    unfolding e by (simp_all add: same_cache_def cached_inner_def p fun_eq_iff)
qed

lemma ac_getCode_spec:
  assumes "ext_ok X" "ac_getCode X a ac = (v, ac')"
  shows "v = cached_code X ac (X_addrString X a)" "same_cache X ac ac'"
proof -
  obtain w c where g: "lru_Get (X_bytes X) (X_addrString X a) (ac_codeCache ac) = (w, c)"
    by fastforce
  note p = lru_Get_peek[OF ext_okD(4)[OF assms(1)] g]
  from assms(2) g have e: "v = w" "ac' = ac\<lparr>ac_codeCache := c\<rparr>"
    by (simp_all add: ac_getCode_def)
  show "v = cached_code X ac (X_addrString X a)" "same_cache X ac ac'"
    unfolding e by (simp_all add: same_cache_def cached_code_def p fun_eq_iff)
qed

lemma ac_getState_spec:
  assumes "ext_ok X" "ac_getState X a k ac = (v, ac')"
  shows "v = cached_state X ac (X_addrString X a) k" "same_cache X ac ac'"
proof -
  obtain w c where g: "lru_Get (X_states X) (X_addrString X a) (ac_stateCache ac) = (w, c)"
    by fastforce
  note p = lru_Get_peek[OF ext_okD(3)[OF assms(1)] g]
  have "v = cached_state X ac (X_addrString X a) k \<and> same_cache X ac ac'"
  proof (cases w)
    case None
    with assms(2) g have e: "v = None" "ac' = ac\<lparr>ac_stateCache := c\<rparr>"
      by (simp_all add: ac_getState_def)
    have "peek (X_states X) (ac_stateCache ac) (X_addrString X a) = None" using p(1) None by simp
    then show ?thesis unfolding e 
      by (simp add: same_cache_def cached_state_def p(2) fun_eq_iff split: option.split)
  next
    case (Some q)
    obtain u i where h: "lru_Get (X_bytes X) k (ac_heap ac q) = (u, i)" by fastforce
    note r = lru_Get_peek[OF ext_okD(4)[OF assms(1)] h]
    from assms(2) g h Some have e: "v = u"
      "ac' = ac\<lparr>ac_stateCache := c, ac_heap := (ac_heap ac)(q := i)\<rparr>"
      by (simp_all add: ac_getState_def)
    have "peek (X_states X) (ac_stateCache ac) (X_addrString X a) = Some q" using p(1) Some by simp
    then show ?thesis unfolding e
      by (simp add: same_cache_def cached_state_def p(2) r fun_eq_iff split: option.split)
  qed
  then show "v = cached_state X ac (X_addrString X a) k" "same_cache X ac ac'" by simp_all
qed

lemma acc_loadState_spec:
  assumes "ext_ok X" "acc_loadState X a k l = (v, l')"
  obtains ac where "l' = l\<lparr>l_accountCache := ac\<rparr>" "same_cache X (l_accountCache l) ac"
    "v = b_state (bases_of X l) a k"
proof -
  obtain w ac where g: "ac_getState X a k (l_accountCache l) = (w, ac)" by fastforce
  note p = ac_getState_spec[OF assms(1) g]
  show thesis
    by (rule that[of ac]) (use assms(2) g p in \<open>auto simp: acc_loadState_def base_of_def Let_def split: option.splits\<close>)
qed

lemma acc_loadCode_spec:
  assumes "ext_ok X" "acc_loadCode X a l = (v, l')"
  obtains ac where "l' = l\<lparr>l_accountCache := ac\<rparr>" "same_cache X (l_accountCache l) ac"
    "v = b_code (bases_of X l) a"
proof -
  obtain w ac where g: "ac_getCode X a (l_accountCache l) = (w, ac)" by fastforce
  note p = ac_getCode_spec[OF assms(1) g]
  show thesis
    by (rule that[of ac]) (use assms(2) g p in \<open>auto simp: acc_loadCode_def base_of_def Let_def split: option.splits\<close>)
qed

section \<open>Installing an account\<close>

lemma view_simps [simp]:
  "view X (l\<lparr>l_changers := h\<rparr>) = view X l"
  "view X (l\<lparr>l_validRevisions := rs\<rparr>) = view X l"
  "view X (l\<lparr>l_nextRevisionId := n\<rparr>) = view X l"
  by (simp_all add: view_def)

lemma lwf_simps [simp]:
  "lwf X (l\<lparr>l_changers := h\<rparr>) = lwf X l"
  "lwf X (l\<lparr>l_validRevisions := rs\<rparr>) = lwf X l"
  "lwf X (l\<lparr>l_nextRevisionId := n\<rparr>) = lwf X l"
  "lwf X (l\<lparr>l_refund := f\<rparr>) = lwf X l"
  "lwf X (l\<lparr>l_logs := lg\<rparr>) = lwf X l"
  "lwf X (l\<lparr>l_preimages := pm\<rparr>) = lwf X l"
  "lwf X (l\<lparr>l_accessList := al\<rparr>) = lwf X l"
  by (simp_all add: lwf_def)

lemma view_same_cache:
  "same_cache X (l_accountCache l) ac \<Longrightarrow> view X (l\<lparr>l_accountCache := ac\<rparr>) = view X l"
  by (simp add: view_def same_cache_base)

lemma lwf_same_cache:
  "same_cache X (l_accountCache l) ac \<Longrightarrow> lwf X (l\<lparr>l_accountCache := ac\<rparr>) = lwf X l"
  by (simp add: lwf_def same_cache_base same_cache_base_wf)

lemma lwf_acc: "lwf X l \<Longrightarrow> gget (l_accounts l) (X_addrString X a) = Some o1 \<Longrightarrow> ext_ok X \<Longrightarrow>
  sa_Addr o1 = a \<and> acc_wf (bases_of X l) (l_changer l) o1"
  by (metis addrString_eq lwf_def)

text \<open>Replacing the object under an address changes the view of that address only.\<close>

lemma view_put:
  assumes "ext_ok X"
  shows "view X (l\<lparr>l_accounts := gset (X_addrString X a) o1 (l_accounts l)\<rparr>) = (view X l)\<lparr>
    av_exists := (av_exists (view X l))(a := True),
    av_balance := (av_balance (view X l))(a := acc_GetBalance o1),
    av_nonce := (av_nonce (view X l))(a := acc_GetNonce o1),
    av_code := (av_code (view X l))(a := code_of (bases_of X l) o1),
    av_state := (av_state (view X l))(a := state_of (bases_of X l) o1),
    av_suicided := (av_suicided (view X l))(a := sa_suicided o1)\<rparr>"
  by (simp add: view_def Let_def addrString_eq[OF assms] fun_eq_iff)

lemma lwf_put:
  assumes "lwf X l" "sa_Addr o1 = a" "acc_wf (bases_of X l) (l_changer l) o1"
  shows "lwf X (l\<lparr>l_accounts := gset (X_addrString X a) o1 (l_accounts l)\<rparr>)"
  using assms by (auto simp: lwf_def)

definition loaded :: "bases \<Rightarrow> nat \<Rightarrow> address \<Rightarrow> innerAccount \<Rightarrow> simpleAccount" where
  "loaded B c a ia = (newAccount a c)\<lparr>sa_originAccount := Some ia,
     sa_originCode := b_code B a, sa_dirtyCode := b_code B a\<rparr>"

lemma loaded_wf: "b_inner B a = Some ia \<Longrightarrow> acc_wf B c (loaded B c a ia)"
  by (auto simp: acc_wf_def loaded_def newAccount_def)

lemma view_loaded:
  assumes "ext_ok X" "gget (l_accounts l) (X_addrString X a) = None" "b_inner (bases_of X l) a = Some ia"
  shows "view X (l\<lparr>l_accounts := gset (X_addrString X a) (loaded (bases_of X l) c a ia) (l_accounts l)\<rparr>)
    = view X l"
  unfolding view_put[OF assms(1)]
  by (rule aview.equality)
    (use assms(2,3) in \<open>auto simp: view_def Let_def loaded_def newAccount_def acc_GetBalance_def
       acc_GetNonce_def code_of_def state_of_def fun_eq_iff or_else_def split: option.splits\<close>)

lemma GetAccount_loads:
  assumes "ext_ok X" "lwf X l" "gget (l_accounts l) (X_addrString X a) = None"
    "b_inner (bases_of X l) a = Some ia"
  obtains ac where "same_cache X (l_accountCache l) ac"
    "GetAccount X a l = Some (Some (loaded (bases_of X l) (l_changer l) a ia),
       l\<lparr>l_accountCache := ac,
         l_accounts := gset (X_addrString X a) (loaded (bases_of X l) (l_changer l) a ia) (l_accounts l)\<rparr>)"
proof -
  let ?B = "bases_of X l"
  have bw: "base_wf X (l_accountCache l) (l_ldb l)" using assms(2) by (simp add: lwf_def)
  obtain v ac where g: "ac_getInnerAccount X a (l_accountCache l) = (v, ac)" by fastforce
  note gv = ac_getInnerAccount_spec[OF assms(1) g]
  have nocode: "b_code ?B a = None" if "content (ia_CodeHash ia) = []"
    using bw assms(4) that by (auto simp: base_wf_def)
  show thesis
  proof (cases v)
    case (Some ia')
    then have ia: "ia' = ia" using gv(1) assms(4) by (simp add: base_of_def)
    let ?l = "l\<lparr>l_accountCache := ac\<rparr>"
    show thesis
    proof (cases "content (ia_CodeHash ia) = []")
      case True
      then show thesis
        using assms(3) g Some ia nocode
        by (intro that[OF gv(2)]) (simp add: GetAccount_def loaded_def newAccount_def Let_def)
    next
      case False
      obtain c l1 where c: "acc_loadCode X a ?l = (c, l1)" by fastforce
      from acc_loadCode_spec[OF assms(1) c] obtain ac1 where ac1: "l1 = ?l\<lparr>l_accountCache := ac1\<rparr>"
        "same_cache X ac ac1" "c = b_code (bases_of X ?l) a" by auto
      have "same_cache X (l_accountCache l) ac1" using gv(2) ac1(2) by (rule same_cache_trans)
      then show thesis
        using assms(3) g Some ia False c ac1 same_cache_base[OF gv(2)]
        by (intro that[of ac1]) (simp_all add: GetAccount_def loaded_def newAccount_def Let_def)
    qed
  next
    case None
    then have n: "cached_inner X (l_accountCache l) (X_addrString X a) = None" using gv(1) by simp
    then obtain d where d: "db_Get (X_db X) (l_ldb l) (account_key X a) = Some d" "X_unmarshal X d = Some ia"
      using assms(4) by (auto simp: base_of_def split: option.splits)
    have "cached_code X (l_accountCache l) (X_addrString X a)
        \<in> {None, Some (db_Get (X_db X) (l_ldb l) (code_key X a))}"
      using bw n unfolding base_wf_def by blast
    then have "b_code ?B a = db_Get (X_db X) (l_ldb l) (code_key X a)"
      by (auto simp: base_of_def)
    then show thesis
      using assms(3) g None d nocode
      by (intro that[OF gv(2)]) (simp add: GetAccount_def loaded_def newAccount_def Let_def)
  qed
qed

lemma GetAccount_spec:
  assumes "ext_ok X" "lwf X l"
  obtains r acs ac where
    "GetAccount X a l = Some (r, l\<lparr>l_accountCache := ac, l_accounts := acs\<rparr>)"
    "same_cache X (l_accountCache l) ac" "gget acs (X_addrString X a) = r"
    "lwf X (l\<lparr>l_accountCache := ac, l_accounts := acs\<rparr>)"
    "view X (l\<lparr>l_accountCache := ac, l_accounts := acs\<rparr>) = view X l"
    "r = None \<longleftrightarrow> \<not> av_exists (view X l) a"
proof (cases "gget (l_accounts l) (X_addrString X a)")
  case (Some o1)
  then show thesis
    using assms(2)
    by (intro that[of "Some o1" "l_accounts l" "l_accountCache l"]) (auto simp: GetAccount_def view_sel)
next
  case None
  let ?B = "bases_of X l"
  show thesis
  proof (cases "b_inner ?B a")
    case bn: None
    obtain v ac where g: "ac_getInnerAccount X a (l_accountCache l) = (v, ac)" by fastforce
    note gv = ac_getInnerAccount_spec[OF assms(1) g]
    have v: "v = None" using bn gv(1) by (simp add: base_of_def split: option.splits)
    have bw: "base_wf X (l_accountCache l) (l_ldb l)" using assms(2) by (simp add: lwf_def)
    have "db_Get (X_db X) (l_ldb l) (account_key X a) = None"
    proof (rule ccontr)
      assume "db_Get (X_db X) (l_ldb l) (account_key X a) \<noteq> None"
      then obtain d where d: "db_Get (X_db X) (l_ldb l) (account_key X a) = Some d" by blast
      then have "X_unmarshal X d \<noteq> None" using bw unfolding base_wf_def by blast
      then show False using bn d v gv(1) by (simp add: base_of_def)
    qed
    then have "GetAccount X a l = Some (None, l\<lparr>l_accountCache := ac, l_accounts := l_accounts l\<rparr>)"
      using None g v by (simp add: GetAccount_def)
    then show thesis
      using None bn assms(2) view_same_cache[OF gv(2)] lwf_same_cache[OF gv(2)]
      by (intro that[OF _ gv(2)]) (auto simp: view_sel)
  next
    case (Some ia)
    from GetAccount_loads[OF assms None Some] obtain ac where ac: "same_cache X (l_accountCache l) ac"
      "GetAccount X a l = Some (Some (loaded ?B (l_changer l) a ia),
         l\<lparr>l_accountCache := ac,
           l_accounts := gset (X_addrString X a) (loaded ?B (l_changer l) a ia) (l_accounts l)\<rparr>)"
      by blast
    let ?l = "l\<lparr>l_accountCache := ac\<rparr>"
    have b: "bases_of X ?l = ?B" using same_cache_base[OF ac(1)] by simp
    have lw: "lwf X ?l" using assms(2) lwf_same_cache[OF ac(1)] by simp
    have "lwf X (?l\<lparr>l_accounts := gset (X_addrString X a) (loaded ?B (l_changer l) a ia) (l_accounts ?l)\<rparr>)"
      using loaded_wf[OF Some, of "l_changer l"] b
      by (intro lwf_put[OF lw]) (simp_all add: loaded_def newAccount_def)
    moreover have "view X (?l\<lparr>l_accounts :=
        gset (X_addrString X a) (loaded ?B (l_changer l) a ia) (l_accounts ?l)\<rparr>) = view X ?l"
      using view_loaded[OF assms(1), of ?l a ia "l_changer l"] None Some unfolding b by simp
    ultimately show thesis
      using ac view_same_cache[OF ac(1)] Some
      by (intro that[OF ac(2) ac(1)]) (auto simp: view_sel)
  qed
qed

section \<open>Finding or creating an account\<close>

lemma created_wf: "b_inner B a = None \<Longrightarrow> b_code B a = None \<Longrightarrow> acc_wf B c (newAccount a c)"
  by (auto simp: acc_wf_def newAccount_def)

lemma base_no_code: "lwf X l \<Longrightarrow> b_inner (bases_of X l) a = None \<Longrightarrow> b_code (bases_of X l) a = None"
proof -
  assume "lwf X l" and n: "b_inner (bases_of X l) a = None"
  then have "base_wf X (l_accountCache l) (l_ldb l)" by (simp add: lwf_def)
  then have "(case b_inner (bases_of X l) a of None \<Rightarrow> True | Some ia \<Rightarrow> content (ia_CodeHash ia) = [])
      \<longrightarrow> b_code (bases_of X l) a = None"
    unfolding base_wf_def by blast
  then show ?thesis using n by simp
qed

lemma GetOrCreate_exists:
  assumes "ext_ok X" "lwf X l" "av_exists (view X l) a"
  obtains o1 acs ac where
    "GetOrCreateAccount_locked X lk a l = Some (o1, l\<lparr>l_accountCache := ac, l_accounts := acs\<rparr>)"
    "same_cache X (l_accountCache l) ac" "gget acs (X_addrString X a) = Some o1"
    "lwf X (l\<lparr>l_accountCache := ac, l_accounts := acs\<rparr>)"
    "view X (l\<lparr>l_accountCache := ac, l_accounts := acs\<rparr>) = view X l"
proof -
  obtain r acs ac where r:
    "GetAccount X a l = Some (r, l\<lparr>l_accountCache := ac, l_accounts := acs\<rparr>)"
    "same_cache X (l_accountCache l) ac" "gget acs (X_addrString X a) = r"
    "lwf X (l\<lparr>l_accountCache := ac, l_accounts := acs\<rparr>)"
    "view X (l\<lparr>l_accountCache := ac, l_accounts := acs\<rparr>) = view X l"
    "r = None \<longleftrightarrow> \<not> av_exists (view X l) a"
    by (rule GetAccount_spec[OF assms(1,2), of a])
  with assms(3) obtain o1 where "r = Some o1" by auto
  with r show thesis by (intro that[of o1 acs ac]) (simp_all add: GetOrCreateAccount_locked_def)
qed

section \<open>Undoing changes on the view\<close>

text \<open>
  What undoing a change means, and when it is meaningful. The contents beneath the accounts do
  not change during a transaction; they are the parameter \<^term>\<open>B\<close>.
\<close>

fun arevert :: "bases \<Rightarrow> stateChange \<Rightarrow> aview \<Rightarrow> aview" where
  "arevert B (CreateObjectChange a) v = v\<lparr>
     av_exists := (av_exists v)(a := False), av_balance := (av_balance v)(a := 0),
     av_nonce := (av_nonce v)(a := 0), av_code := (av_code v)(a := b_code B a),
     av_state := (av_state v)(a := b_state B a), av_suicided := (av_suicided v)(a := False)\<rparr>"
| "arevert B (SuicideChange a p b) v =
     v\<lparr>av_suicided := (av_suicided v)(a := p), av_balance := (av_balance v)(a := b)\<rparr>"
| "arevert B (BalanceChange a p) v = v\<lparr>av_balance := (av_balance v)(a := p)\<rparr>"
| "arevert B (NonceChange a p) v = v\<lparr>av_nonce := (av_nonce v)(a := p)\<rparr>"
| "arevert B (StorageChange a k p) v = v\<lparr>av_state := (av_state v)(a := (av_state v a)(k := p))\<rparr>"
| "arevert B (CodeChange a p) v = v\<lparr>av_code := (av_code v)(a := p)\<rparr>"
| "arevert B (RefundChange p) v = v\<lparr>av_refund := p\<rparr>"
| "arevert B (AddLogChange h) v = (case h of None \<Rightarrow> v | Some h \<Rightarrow>
     v\<lparr>av_logs := (av_logs v)(h := butlast (av_logs v h)), av_logSize := av_logSize v - 1\<rparr>)"
| "arevert B (AddPreimageChange h) v = v\<lparr>av_preimage := (av_preimage v)(h := None)\<rparr>"
| "arevert B (AccessListAddAccountChange a) v = v\<lparr>av_addrs := (av_addrs v)(a := False)\<rparr>"
| "arevert B (AccessListAddSlotChange a s) v =
     v\<lparr>av_slots := (av_slots v)(a := (av_slots v a)(s := False))\<rparr>"

fun arevert_pre :: "bases \<Rightarrow> stateChange \<Rightarrow> aview \<Rightarrow> bool" where
  "arevert_pre B (CreateObjectChange a) v = (b_inner B a = None)"
| "arevert_pre B (SuicideChange a p b) v = av_exists v a"
| "arevert_pre B (BalanceChange a p) v = av_exists v a"
| "arevert_pre B (NonceChange a p) v = av_exists v a"
| "arevert_pre B (StorageChange a k p) v = av_exists v a"
| "arevert_pre B (CodeChange a p) v = (av_exists v a \<and> (p = None \<longrightarrow> b_code B a = None))"
| "arevert_pre B (RefundChange p) v = True"
| "arevert_pre B (AddLogChange h) v = (\<exists>h'. h = Some h' \<and> av_logs v h' \<noteq> [])"
| "arevert_pre B (AddPreimageChange h) v = True"
| "arevert_pre B (AccessListAddAccountChange a) v = (\<forall>s. \<not> av_slots v a s)"
| "arevert_pre B (AccessListAddSlotChange a s) v = av_slots v a s"

text \<open>\<^term>\<open>undo B cs v v'\<close>: undoing the log \<^term>\<open>cs\<close> from its end takes \<^term>\<open>v'\<close> back to \<^term>\<open>v\<close>.\<close>

fun undo_rev :: "bases \<Rightarrow> stateChange list \<Rightarrow> aview \<Rightarrow> aview \<Rightarrow> bool" where
  "undo_rev B [] v v' = (v' = v)"
| "undo_rev B (c # cs) v v' = (arevert_pre B c v' \<and> undo_rev B cs v (arevert B c v'))"

definition undo :: "bases \<Rightarrow> stateChange list \<Rightarrow> aview \<Rightarrow> aview \<Rightarrow> bool" where
  "undo B cs = undo_rev B (rev cs)"

lemma undo_rev_append:
  "undo_rev B (cs @ ds) v v'' \<longleftrightarrow> (\<exists>v'. undo_rev B cs v' v'' \<and> undo_rev B ds v v')"
  by (induction cs arbitrary: v'') auto

lemma undo_append: "undo B cs v v' \<Longrightarrow> undo B ds v' v'' \<Longrightarrow> undo B (cs @ ds) v v''"
  by (auto simp: undo_def undo_rev_append)

lemma undo_Nil [simp]: "undo B [] v v' \<longleftrightarrow> v' = v"
  by (simp add: undo_def)

lemma undo_one [simp]: "undo B [c] v v' \<longleftrightarrow> arevert_pre B c v' \<and> arevert B c v' = v"
  by (simp add: undo_def)

section \<open>Undoing one change in the ledger refines undoing it on the view\<close>

lemma acc_dirty_sel:
  assumes "ext_ok X"
  shows "ia_Balance (acc_dirty X o1) = acc_GetBalance o1" "ia_Nonce (acc_dirty X o1) = acc_GetNonce o1"
    "ia_CodeHash (acc_dirty X o1) = acc_CodeHash o1"
  using ext_okD(7)[OF assms]
  by (auto simp: acc_dirty_def acc_GetBalance_def acc_GetNonce_def acc_CodeHash_def copy_ok_def
      new_inner_def split: option.split)

text \<open>A setter of an account, and what of the account it leaves alone.\<close>

lemma setter_sel:
  assumes "ext_ok X"
  shows
    "acc_GetBalance (acc_setBalance X b o1) = b" "acc_GetNonce (acc_setBalance X b o1) = acc_GetNonce o1"
    "acc_CodeHash (acc_setBalance X b o1) = acc_CodeHash o1"
    "acc_GetNonce (acc_setNonce X n o1) = n" "acc_GetBalance (acc_setNonce X n o1) = acc_GetBalance o1"
    "acc_CodeHash (acc_setNonce X n o1) = acc_CodeHash o1"
    "acc_GetBalance (acc_setCodeAndHash X c o1) = acc_GetBalance o1"
    "acc_GetNonce (acc_setCodeAndHash X c o1) = acc_GetNonce o1"
    "acc_CodeHash (acc_setCodeAndHash X c o1) = Some (X_keccak X c)"
  by (simp_all add: acc_setBalance_def acc_setNonce_def acc_setCodeAndHash_def acc_GetBalance_def
      acc_GetNonce_def acc_CodeHash_def acc_dirty_sel[OF assms, unfolded acc_GetBalance_def
      acc_GetNonce_def acc_CodeHash_def])

lemma setter_fields [simp]:
  "sa_Addr (acc_setBalance X b o1) = sa_Addr o1" "sa_Addr (acc_setNonce X n o1) = sa_Addr o1"
  "sa_Addr (acc_setCodeAndHash X c o1) = sa_Addr o1" "sa_Addr (acc_setState k w o1) = sa_Addr o1"
  "sa_suicided (acc_setBalance X b o1) = sa_suicided o1" "sa_suicided (acc_setNonce X n o1) = sa_suicided o1"
  "sa_suicided (acc_setCodeAndHash X c o1) = sa_suicided o1" "sa_suicided (acc_setState k w o1) = sa_suicided o1"
  "code_of B (acc_setBalance X b o1) = code_of B o1" "code_of B (acc_setNonce X n o1) = code_of B o1"
  "code_of B (acc_setState k w o1) = code_of B o1"
  "state_of B (acc_setBalance X b o1) = state_of B o1" "state_of B (acc_setNonce X n o1) = state_of B o1"
  "state_of B (acc_setCodeAndHash X c o1) = state_of B o1"
  "state_of B (acc_setState k w o1) = (state_of B o1)(k := w)"
  "acc_GetBalance (acc_setState k w o1) = acc_GetBalance o1"
  "acc_GetNonce (acc_setState k w o1) = acc_GetNonce o1"
  by (simp_all add: acc_setBalance_def acc_setNonce_def acc_setCodeAndHash_def acc_setState_def
      code_of_def state_of_def acc_GetBalance_def acc_GetNonce_def fun_eq_iff split: option.split)

lemma setter_wf:
  assumes "ext_ok X" "acc_wf B c o1"
  shows "acc_wf B c (acc_setBalance X b o1)" "acc_wf B c (acc_setNonce X n o1)"
    "acc_wf B c (acc_setState k w o1)" "acc_wf B c (acc_setCodeAndHash X cd o1)"
    "acc_wf B c (o1\<lparr>sa_suicided := p\<rparr>)"
proof -
  note h = setter_sel(3,6,9)[OF assms(1), of _ o1]
  show "acc_wf B c (acc_setBalance X b o1)"
    using assms(2) h(1)[of b] by (simp add: acc_wf_def) (simp add: acc_setBalance_def)
  show "acc_wf B c (acc_setNonce X n o1)"
    using assms(2) h(2)[of n] by (simp add: acc_wf_def) (simp add: acc_setNonce_def)
  show "acc_wf B c (acc_setCodeAndHash X cd o1)"
    using assms(2) h(3)[of cd] ext_okD(11)[OF assms(1)] by (simp add: acc_wf_def) (simp add: acc_setCodeAndHash_def)
  show "acc_wf B c (acc_setState k w o1)" "acc_wf B c (o1\<lparr>sa_suicided := p\<rparr>)"
    using assms(2) by (simp_all add: acc_wf_def acc_setState_def acc_CodeHash_def cong: option.case_cong)
qed

lemma on_account_refines:
  assumes X: "ext_ok X" and l: "lwf X l" "av_exists (view X l) a"
    and f: "\<And>o1. sa_Addr o1 = a \<Longrightarrow> acc_wf (bases_of X l) (l_changer l) o1 \<Longrightarrow>
      sa_Addr (f o1) = a \<and> acc_wf (bases_of X l) (l_changer l) (f o1)"
  obtains o1 acs ac where
    "on_account X c a f l = Some (l\<lparr>l_accountCache := ac, l_accounts := acs\<rparr>)"
    "same_cache X (l_accountCache l) ac"
    "lwf X (l\<lparr>l_accountCache := ac, l_accounts := acs\<rparr>)"
    "view X (l\<lparr>l_accountCache := ac, l_accounts := acs\<rparr>) = (view X l)\<lparr>
       av_balance := (av_balance (view X l))(a := acc_GetBalance (f o1)),
       av_nonce := (av_nonce (view X l))(a := acc_GetNonce (f o1)),
       av_code := (av_code (view X l))(a := code_of (bases_of X l) (f o1)),
       av_state := (av_state (view X l))(a := state_of (bases_of X l) (f o1)),
       av_suicided := (av_suicided (view X l))(a := sa_suicided (f o1))\<rparr>"
    "av_balance (view X l) a = acc_GetBalance o1" "av_nonce (view X l) a = acc_GetNonce o1"
    "av_code (view X l) a = code_of (bases_of X l) o1" "av_state (view X l) a = state_of (bases_of X l) o1"
    "av_suicided (view X l) a = sa_suicided o1"
    "sa_Addr o1 = a" "acc_wf (bases_of X l) (l_changer l) o1"
proof -
  obtain o1 acs ac where g:
    "GetOrCreateAccount_locked X (Some c) a l = Some (o1, l\<lparr>l_accountCache := ac, l_accounts := acs\<rparr>)"
    "same_cache X (l_accountCache l) ac" "gget acs (X_addrString X a) = Some o1"
    "lwf X (l\<lparr>l_accountCache := ac, l_accounts := acs\<rparr>)"
    "view X (l\<lparr>l_accountCache := ac, l_accounts := acs\<rparr>) = view X l"
    by (rule GetOrCreate_exists[OF assms(1-3), of "Some c"])
  let ?l = "l\<lparr>l_accountCache := ac, l_accounts := acs\<rparr>"
  have b: "bases_of X ?l = bases_of X l" using same_cache_base[OF g(2)] by simp
  have o1: "sa_Addr o1 = a" "acc_wf (bases_of X l) (l_changer l) o1"
    using lwf_acc[OF g(4) _ X, of a o1] g(3) b by auto
  have ex: "(av_exists (view X l))(a := True) = av_exists (view X l)" using l(2) by (simp add: fun_upd_idem)
  have "view X (?l\<lparr>l_accounts := gset (X_addrString X a) (f o1) (l_accounts ?l)\<rparr>) = (view X l)\<lparr>
       av_balance := (av_balance (view X l))(a := acc_GetBalance (f o1)),
       av_nonce := (av_nonce (view X l))(a := acc_GetNonce (f o1)),
       av_code := (av_code (view X l))(a := code_of (bases_of X l) (f o1)),
       av_state := (av_state (view X l))(a := state_of (bases_of X l) (f o1)),
       av_suicided := (av_suicided (view X l))(a := sa_suicided (f o1))\<rparr>"
    unfolding view_put[OF X] g(5) b ex by simp
  moreover have "lwf X (?l\<lparr>l_accounts := gset (X_addrString X a) (f o1) (l_accounts ?l)\<rparr>)"
    using f[OF o1] b by (intro lwf_put[OF g(4)]) simp_all
  ultimately show thesis
    using g(1,2,3) o1 view_sel(2-)[of ?l X a o1] unfolding g(5) b
    by (intro that[of "gset (X_addrString X a) (f o1) acs" ac o1]) (simp_all add: on_account_def put_account_def)
qed

definition tx_frame where
  "tx_frame X l l' \<longleftrightarrow> bases_of X l' = bases_of X l \<and> l_changer l' = l_changer l \<and>
     l_validRevisions l' = l_validRevisions l \<and> l_nextRevisionId l' = l_nextRevisionId l"

lemma tx_frame_refl [simp]: "tx_frame X l l"
  by (simp add: tx_frame_def)

lemma tx_frame_trans [trans]: "tx_frame X a b \<Longrightarrow> tx_frame X b c \<Longrightarrow> tx_frame X a c"
  by (simp add: tx_frame_def)

lemma tx_frame_cache:
  "same_cache X (l_accountCache l) ac \<Longrightarrow> tx_frame X l (l\<lparr>l_accountCache := ac, l_accounts := acs\<rparr>)"
  by (simp add: tx_frame_def same_cache_base)

lemma code_of_reverted:
  assumes "acc_wf B c o1" "p = None \<longrightarrow> b_code B (sa_Addr o1) = None"
  shows "code_of B (acc_setCodeAndHash X p o1) = p"
  using assms by (cases p) (auto simp: code_of_def acc_setCodeAndHash_def acc_wf_def)

lemma rmAccount_same:
  assumes "ext_ok X" "b_inner (base_of X ac ldb) a = None"
  shows "same_cache X ac (ac_rmAccount X a ac)"
proof -
  have n: "cached_inner X ac (X_addrString X a) = None"
    using assms(2) by (simp add: base_of_def split: option.splits)
  have "peek (X_accounts X) (lru_Remove (X_accounts X) (X_addrString X a) (ac_innerAccountCache ac))
      = (peek (X_accounts X) (ac_innerAccountCache ac))(X_addrString X a := None)"
    using ext_okD(2)[OF assms(1)] by (simp add: lru_ok_def)
  then show ?thesis using n
    by (simp add: same_cache_def ac_rmAccount_def) (auto simp: cached_inner_def fun_eq_iff)
qed

lemma access_okD:
  assumes "access_ok A"
  shows "\<not> al_ContainsAddress A (al_New A) a" "has_slot A l a s \<Longrightarrow> al_ContainsAddress A l a"
    "al_AddAddress A a l = (b, l') \<Longrightarrow> b = (\<not> al_ContainsAddress A l a) \<and>
        al_ContainsAddress A l' = (al_ContainsAddress A l)(a := True) \<and> has_slot A l' = has_slot A l"
    "al_AddSlot A a s l = ((b, c), l') \<Longrightarrow>
        b = (\<not> al_ContainsAddress A l a) \<and> c = (\<not> has_slot A l a s) \<and>
        al_ContainsAddress A l' = (al_ContainsAddress A l)(a := True) \<and>
        has_slot A l' = (has_slot A l)(a := (has_slot A l a)(s := True))"
    "(\<And>s. \<not> has_slot A l a s) \<Longrightarrow>
        al_ContainsAddress A (al_DeleteAddress A a l) = (al_ContainsAddress A l)(a := False) \<and>
        has_slot A (al_DeleteAddress A a l) = has_slot A l"
    "has_slot A l a s \<Longrightarrow>
        al_ContainsAddress A (al_DeleteSlot A a s l) = al_ContainsAddress A l \<and>
        has_slot A (al_DeleteSlot A a s l) = (has_slot A l)(a := (has_slot A l a)(s := False))"
  using assms unfolding access_ok_def by blast+

lemma view_rest:
  "av_refund (view X l) = l_refund l" "av_preimage (view X l) = gget (l_preimages l)"
  "av_logs (view X l) = gget0 [] (el_logs (l_logs l))" "av_logSize (view X l) = el_logSize (l_logs l)"
  "av_addrs (view X l) = al_ContainsAddress (X_access X) (l_accessList l)"
  "av_slots (view X l) = has_slot (X_access X) (l_accessList l)"
  by (simp_all add: view_def Let_def)

lemma view_rest_update:
  "view X (l\<lparr>l_refund := r\<rparr>) = (view X l)\<lparr>av_refund := r\<rparr>"
  "view X (l\<lparr>l_preimages := pm\<rparr>) = (view X l)\<lparr>av_preimage := gget pm\<rparr>"
  "view X (l\<lparr>l_logs := lg\<rparr>) = (view X l)\<lparr>av_logs := gget0 [] (el_logs lg), av_logSize := el_logSize lg\<rparr>"
  "view X (l\<lparr>l_accessList := al\<rparr>) = (view X l)\<lparr>
     av_addrs := al_ContainsAddress (X_access X) al, av_slots := has_slot (X_access X) al\<rparr>"
  by (simp_all add: view_def Let_def)

lemma gget0_gset [simp]: "gget0 z (gset k v m) = (gget0 z m)(k := v)"
  by (auto simp: gget0_def fun_eq_iff)

lemma gget0_gdel [simp]: "gget0 z (gdel k m) = (gget0 z m)(k := z)"
  by (auto simp: gget0_def fun_eq_iff)

definition reverts_to where
  "reverts_to X c ch l l' \<longleftrightarrow> revert_change X c ch l = Some l' \<and> lwf X l' \<and>
     view X l' = arevert (bases_of X l) ch (view X l) \<and> tx_frame X l l' \<and> l_changers l' = l_changers l"

text \<open>The refinement for the changes that go through the object of an account.\<close>

lemma reverts_on_account:
  assumes "ext_ok X" "lwf X l" "av_exists (view X l) a"
    and "revert_change X c ch l = on_account X c a f l"
    and f: "\<And>o1. sa_Addr o1 = a \<Longrightarrow> acc_wf (bases_of X l) (l_changer l) o1 \<Longrightarrow>
      sa_Addr (f o1) = a \<and> acc_wf (bases_of X l) (l_changer l) (f o1)"
    and v: "\<And>o1 V. \<lbrakk>sa_Addr o1 = a; acc_wf (bases_of X l) (l_changer l) o1;
       av_balance V a = acc_GetBalance o1; av_nonce V a = acc_GetNonce o1;
       av_code V a = code_of (bases_of X l) o1; av_state V a = state_of (bases_of X l) o1;
       av_suicided V a = sa_suicided o1\<rbrakk> \<Longrightarrow>
       arevert (bases_of X l) ch V = V\<lparr>
         av_balance := (av_balance V)(a := acc_GetBalance (f o1)),
         av_nonce := (av_nonce V)(a := acc_GetNonce (f o1)),
         av_code := (av_code V)(a := code_of (bases_of X l) (f o1)),
         av_state := (av_state V)(a := state_of (bases_of X l) (f o1)),
         av_suicided := (av_suicided V)(a := sa_suicided (f o1))\<rparr>"
  shows "\<exists>l'. reverts_to X c ch l l'"
proof -
  obtain o1 acs ac where r:
    "on_account X c a f l = Some (l\<lparr>l_accountCache := ac, l_accounts := acs\<rparr>)"
    "same_cache X (l_accountCache l) ac"
    "lwf X (l\<lparr>l_accountCache := ac, l_accounts := acs\<rparr>)"
    "view X (l\<lparr>l_accountCache := ac, l_accounts := acs\<rparr>) = (view X l)\<lparr>
       av_balance := (av_balance (view X l))(a := acc_GetBalance (f o1)),
       av_nonce := (av_nonce (view X l))(a := acc_GetNonce (f o1)),
       av_code := (av_code (view X l))(a := code_of (bases_of X l) (f o1)),
       av_state := (av_state (view X l))(a := state_of (bases_of X l) (f o1)),
       av_suicided := (av_suicided (view X l))(a := sa_suicided (f o1))\<rparr>"
    "av_balance (view X l) a = acc_GetBalance o1" "av_nonce (view X l) a = acc_GetNonce o1"
    "av_code (view X l) a = code_of (bases_of X l) o1" "av_state (view X l) a = state_of (bases_of X l) o1"
    "av_suicided (view X l) a = sa_suicided o1"
    "sa_Addr o1 = a" "acc_wf (bases_of X l) (l_changer l) o1"
    by (rule on_account_refines[OF assms(1-3) f])
  have "reverts_to X c ch l (l\<lparr>l_accountCache := ac, l_accounts := acs\<rparr>)"
    unfolding reverts_to_def assms(4) v[OF r(10,11,5-9)]
    using r(1,3,4) tx_frame_cache[OF r(2)] by simp
  then show ?thesis by blast
qed

lemma fun_upd_same: "f a = x \<Longrightarrow> f(a := x) = f"
  by auto

lemma suicided_fields [simp]:
  "acc_GetBalance (o1\<lparr>sa_suicided := p\<rparr>) = acc_GetBalance o1"
  "acc_GetNonce (o1\<lparr>sa_suicided := p\<rparr>) = acc_GetNonce o1"
  "code_of B (o1\<lparr>sa_suicided := p\<rparr>) = code_of B o1"
  "state_of B (o1\<lparr>sa_suicided := p\<rparr>) = state_of B o1"
  by (simp_all add: acc_GetBalance_def acc_GetNonce_def code_of_def state_of_def fun_eq_iff
      split: option.split)

lemma revert_change_refines:
  assumes "ext_ok X" "lwf X l" "arevert_pre (bases_of X l) ch (view X l)"
  shows "\<exists>l'. reverts_to X c ch l l'"
proof (cases ch)
  case (CreateObjectChange a)
  let ?ac = "ac_rmAccount X a (l_accountCache l)"
  let ?l = "l\<lparr>l_accounts := gdel (X_addrString X a) (l_accounts l), l_accountCache := ?ac\<rparr>"
  have n: "b_inner (bases_of X l) a = None" using assms(3) CreateObjectChange by simp
  have sc: "same_cache X (l_accountCache l) ?ac" by (rule rmAccount_same[OF assms(1) n])
  have b: "bases_of X ?l = bases_of X l" using same_cache_base[OF sc] by simp
  have "lwf X ?l" using assms(2) b by (auto simp: lwf_def same_cache_base_wf[OF sc])
  moreover have "view X ?l = arevert (bases_of X l) ch (view X l)"
    using n unfolding CreateObjectChange
    by (simp add: view_def same_cache_base[OF sc] Let_def)
      (auto simp: fun_eq_iff addrString_eq[OF assms(1)])
  ultimately have "reverts_to X c ch l ?l"
    using b by (simp add: reverts_to_def CreateObjectChange tx_frame_def)
  then show ?thesis by blast
next
  case (SuicideChange a p b)
  with assms show ?thesis
    by (intro reverts_on_account[where a = a and f = "\<lambda>o1. acc_setBalance X b (o1\<lparr>sa_suicided := p\<rparr>)"]) (auto simp: setter_sel setter_wf fun_upd_same)
next
  case (BalanceChange a p)
  with assms show ?thesis
    by (intro reverts_on_account[where a = a and f = "acc_setBalance X p"]) (auto simp: setter_sel setter_wf fun_upd_same)
next
  case (NonceChange a p)
  with assms show ?thesis
    by (intro reverts_on_account[where a = a and f = "acc_setNonce X p"]) (auto simp: setter_sel setter_wf fun_upd_same)
next
  case (StorageChange a k p)
  with assms show ?thesis
    by (intro reverts_on_account[where a = a and f = "acc_setState k p"]) (auto simp: setter_sel setter_wf fun_upd_same)
next
  case (CodeChange a p)
  with assms show ?thesis
    by (intro reverts_on_account[where a = a and f = "acc_setCodeAndHash X p"]) (auto simp: setter_sel setter_wf fun_upd_same code_of_reverted)
next
  case (RefundChange p)
  with assms show ?thesis by (auto simp: reverts_to_def tx_frame_def view_rest_update)
next
  case (AddPreimageChange h)
  with assms show ?thesis
    by (simp add: reverts_to_def tx_frame_def view_rest_update view_rest delete_conv')
next
  case (AddLogChange h)
  with assms show ?thesis
    by (auto simp: reverts_to_def tx_frame_def view_rest_update view_rest Let_def length_Suc_conv)
next
  case (AccessListAddAccountChange a)
  with assms access_okD(5)[OF ext_okD(5)[OF assms(1)], of "l_accessList l" a] show ?thesis
    by (auto simp: reverts_to_def tx_frame_def view_rest_update view_rest)
next
  case (AccessListAddSlotChange a s)
  with assms access_okD(6)[OF ext_okD(5)[OF assms(1)], of "l_accessList l" a s] show ?thesis
    by (auto simp: reverts_to_def tx_frame_def view_rest_update view_rest)
qed

end
