(* ===== verification/Ledger_Revert.thy ===== *)
theory Ledger_Revert
  imports Ledger_View
begin

text \<open>
  Snapshots. Every operation of a transaction logs what undoes it, so that reverting to a
  snapshot that is still valid gives back the view of the moment the snapshot was taken, through
  nested snapshots and earlier reverts.
\<close>

section \<open>Reverting a part of the log\<close>

lemma revert_loop_refines:
  assumes "ext_ok X" "lwf X l" "undo_rev (bases_of X l) cs v (view X l)"
  shows "\<exists>l'. revert_loop X c cs l = Some l' \<and> lwf X l' \<and> view X l' = v \<and> tx_frame X l l' \<and>
    sc_changes (l_changers l' c) = sc_changes (l_changers l c)"
  using assms(2,3)
proof (induction cs arbitrary: l)
  case Nil
  then show ?case by simp
next
  case (Cons ch cs)
  from Cons.prems have pre: "arevert_pre (bases_of X l) ch (view X l)"
    and rest: "undo_rev (bases_of X l) cs v (arevert (bases_of X l) ch (view X l))" by simp_all
  from revert_change_refines[OF assms(1) Cons.prems(1) pre] obtain l1 where l1: "reverts_to X c ch l l1"
    by blast
  let ?l = "l1\<lparr>l_changers := (l_changers l1)(c := sc_undirty ch (l_changers l1 c))\<rparr>"
  from l1 have b: "bases_of X ?l = bases_of X l" by (simp add: reverts_to_def tx_frame_def)
  have "\<exists>l'. revert_loop X c cs ?l = Some l' \<and> lwf X l' \<and> view X l' = v \<and> tx_frame X ?l l' \<and>
    sc_changes (l_changers l' c) = sc_changes (l_changers ?l c)"
    by (rule Cons.IH) (use l1 rest b in \<open>simp_all add: reverts_to_def\<close>)
  then obtain l' where l': "revert_loop X c cs ?l = Some l'" "lwf X l'" "view X l' = v" "tx_frame X ?l l'"
    "sc_changes (l_changers l' c) = sc_changes (l_changers ?l c)" by blast
  have "sc_changes (sc_undirty ch s) = sc_changes s" for s
    by (simp add: sc_undirty_def Let_def split: option.split)
  then show ?case using l' l1 by (auto simp: reverts_to_def tx_frame_def)
qed

lemma changer_revert_refines:
  assumes "ext_ok X" "lwf X l" "sc_changes (l_changers l c) = cs @ ds"
    and "undo (bases_of X l) ds v (view X l)"
  shows "\<exists>l'. changer_revert X c (length cs) l = Some l' \<and> lwf X l' \<and> view X l' = v \<and>
    tx_frame X l l' \<and> sc_changes (l_changers l' c) = cs"
proof -
  from revert_loop_refines[OF assms(1,2) assms(4)[unfolded undo_def], of c] obtain l' where
    "revert_loop X c (rev ds) l = Some l'" "lwf X l'" "view X l' = v" "tx_frame X l l'"
    "sc_changes (l_changers l' c) = sc_changes (l_changers l c)" by blast
  then show ?thesis using assms(3) by (simp add: changer_revert_def tx_frame_def Let_def)
qed

section \<open>Operations and what they log\<close>

definition tx_ok where
  "tx_ok X l l' cs \<longleftrightarrow> lwf X l' \<and> tx_frame X l l' \<and>
     sc_changes (l_changers l' (l_changer l)) = sc_changes (l_changers l (l_changer l)) @ cs \<and>
     undo (bases_of X l) cs (view X l) (view X l')"

lemma tx_ok_refl: "lwf X l \<Longrightarrow> tx_ok X l l []"
  by (simp add: tx_ok_def)

lemma tx_ok_trans: "tx_ok X l l' cs \<Longrightarrow> tx_ok X l' l'' ds \<Longrightarrow> tx_ok X l l'' (cs @ ds)"
  by (auto simp: tx_ok_def tx_frame_def intro: undo_append)

lemma sc_append_changes [simp]: "sc_changes (sc_append ch s) = sc_changes s @ [ch]"
  by (simp add: sc_append_def sc_dirty_def Let_def split: option.split)

text \<open>The log of a change that is recorded by the ledger itself.\<close>

lemma tx_ok_logged:
  assumes "lwf X l" "lwf X l'" "tx_frame X l l'" "l_changers l' = l_changers l"
    "arevert_pre (bases_of X l) ch (view X l')" "arevert (bases_of X l) ch (view X l') = view X l"
  shows "tx_ok X l (append_change (l_changer l) ch l') [ch]"
  using assms by (simp add: tx_ok_def append_change_def tx_frame_def)

lemma newAccount_sel:
  "acc_GetBalance (newAccount a c) = 0" "acc_GetNonce (newAccount a c) = 0"
  "code_of B (newAccount a c) = b_code B a" "state_of B (newAccount a c) = b_state B a"
  "sa_suicided (newAccount a c) = False"
  by (simp_all add: newAccount_def acc_GetBalance_def acc_GetNonce_def code_of_def state_of_def fun_eq_iff)

lemma view_absent:
  assumes "\<not> av_exists (view X l) a"
  shows "av_exists (view X l) a = False" "av_balance (view X l) a = 0" "av_nonce (view X l) a = 0"
    "av_code (view X l) a = b_code (bases_of X l) a" "av_state (view X l) a = b_state (bases_of X l) a"
    "av_suicided (view X l) a = False"
  using assms by (simp_all add: view_def Let_def)

definition touch :: "address \<Rightarrow> aview \<Rightarrow> aview" where
  "touch a v = v\<lparr>av_exists := (av_exists v)(a := True)\<rparr>"

lemma GetOrCreate_ok:
  assumes "ext_ok X" "lwf X l"
  obtains o1 l1 cs where "GetOrCreateAccount X a l = Some (o1, l1)" "tx_ok X l l1 cs"
    "gget (l_accounts l1) (X_addrString X a) = Some o1" "view X l1 = touch a (view X l)"
    "l_logs l1 = l_logs l"
proof (cases "av_exists (view X l) a")
  case True
  obtain o1 acs ac where g:
    "GetOrCreateAccount X a l = Some (o1, l\<lparr>l_accountCache := ac, l_accounts := acs\<rparr>)"
    "same_cache X (l_accountCache l) ac" "gget acs (X_addrString X a) = Some o1"
    "lwf X (l\<lparr>l_accountCache := ac, l_accounts := acs\<rparr>)"
    "view X (l\<lparr>l_accountCache := ac, l_accounts := acs\<rparr>) = view X l"
    by (rule GetOrCreate_exists[OF assms True, of None])
  show thesis
    by (rule that[OF g(1), of "[]"]) (use g tx_frame_cache[OF g(2)] True in
      \<open>simp_all add: tx_ok_def touch_def fun_upd_same\<close>)
next
  case False
  obtain r acs ac where r:
    "GetAccount X a l = Some (r, l\<lparr>l_accountCache := ac, l_accounts := acs\<rparr>)"
    "same_cache X (l_accountCache l) ac" "gget acs (X_addrString X a) = r"
    "lwf X (l\<lparr>l_accountCache := ac, l_accounts := acs\<rparr>)"
    "view X (l\<lparr>l_accountCache := ac, l_accounts := acs\<rparr>) = view X l"
    "r = None \<longleftrightarrow> \<not> av_exists (view X l) a"
    by (rule GetAccount_spec[OF assms, of a])
  let ?l = "l\<lparr>l_accountCache := ac, l_accounts := acs\<rparr>"
  let ?o = "newAccount a (l_changer l)"
  let ?l1 = "?l\<lparr>l_accounts := gset (X_addrString X a) ?o (l_accounts ?l)\<rparr>"
  have b: "bases_of X ?l = bases_of X l" using same_cache_base[OF r(2)] by simp
  have n: "gget acs (X_addrString X a) = None" "b_inner (bases_of X l) a = None"
    using r(3,6) False by (auto simp: view_sel)
  have wf1: "lwf X ?l1"
    using created_wf[OF n(2) base_no_code[OF assms(2) n(2)], of "l_changer l"] b
    by (intro lwf_put[OF r(4)]) (simp_all add: newAccount_def)
  have v1: "view X ?l1 = (view X l)\<lparr>
    av_exists := (av_exists (view X l))(a := True), av_balance := (av_balance (view X l))(a := 0),
    av_nonce := (av_nonce (view X l))(a := 0),
    av_code := (av_code (view X l))(a := b_code (bases_of X l) a),
    av_state := (av_state (view X l))(a := b_state (bases_of X l) a),
    av_suicided := (av_suicided (view X l))(a := False)\<rparr>"
    unfolding view_put[OF assms(1)] r(5) b newAccount_sel by simp
  have rev: "arevert (bases_of X l) (CreateObjectChange a) (view X ?l1) = view X l"
    unfolding v1 using view_absent[OF False] by (simp add: fun_upd_same)
  have "tx_ok X l (append_change (l_changer l) (CreateObjectChange a) ?l1) [CreateObjectChange a]"
    by (rule tx_ok_logged[OF assms(2) wf1]) (use rev n b in \<open>simp_all add: tx_frame_def\<close>)
  then show thesis
    by (rule that[rotated]) (use r n v1 view_absent[OF False] in
      \<open>simp_all add: GetOrCreateAccount_locked_def append_change_def Let_def touch_def fun_upd_same\<close>)
qed

section \<open>Methods of an account\<close>

text \<open>
  A method runs on the object the map holds under an address: \<^term>\<open>holds X a o1 l\<close>. What it does is
  judged on the ledger with the object put back.
\<close>

definition holds where
  "holds X a o1 l \<longleftrightarrow> lwf X l \<and> sa_Addr o1 = a \<and> acc_wf (bases_of X l) (l_changer l) o1"

definition acc_tx where
  "acc_tx X a o1 l o2 l' cs \<longleftrightarrow> holds X a o2 l' \<and> tx_frame X l l' \<and> view X l' = view X l \<and>
     sc_changes (l_changers l' (l_changer l)) = sc_changes (l_changers l (l_changer l)) @ cs \<and>
     undo (bases_of X l) cs (view X (put_account X a o1 l)) (view X (put_account X a o2 l'))"

lemma acc_tx_refl: "holds X a o1 l \<Longrightarrow> acc_tx X a o1 l o1 l []"
  by (simp add: acc_tx_def)

lemma acc_tx_trans: "acc_tx X a o1 l o2 l' cs \<Longrightarrow> acc_tx X a o2 l' o3 l'' ds \<Longrightarrow> acc_tx X a o1 l o3 l'' (cs @ ds)"
  by (auto simp: acc_tx_def tx_frame_def intro: undo_append)

lemma acc_tx_put:
  assumes "lwf X l" "gget (l_accounts l) (X_addrString X a) = Some o1" "acc_tx X a o1 l o2 l' cs"
  shows "tx_ok X l (put_account X a o2 l') cs"
proof -
  have "put_account X a o1 l = l" using assms(2) by (simp add: put_account_def update_triv)
  then show ?thesis using assms(3)
    by (auto simp: tx_ok_def acc_tx_def holds_def tx_frame_def put_account_def intro: lwf_put)
qed

lemma view_put_account:
  assumes "ext_ok X"
  shows "view X (put_account X a o1 l) = (view X l)\<lparr>
    av_exists := (av_exists (view X l))(a := True),
    av_balance := (av_balance (view X l))(a := acc_GetBalance o1),
    av_nonce := (av_nonce (view X l))(a := acc_GetNonce o1),
    av_code := (av_code (view X l))(a := code_of (bases_of X l) o1),
    av_state := (av_state (view X l))(a := state_of (bases_of X l) o1),
    av_suicided := (av_suicided (view X l))(a := sa_suicided o1)\<rparr>"
  unfolding put_account_def by (rule view_put[OF assms])

text \<open>A method that only loads.\<close>

lemma acc_tx_load:
  assumes "ext_ok X" "holds X a o1 l" "l' = l\<lparr>l_accountCache := ac\<rparr>" "same_cache X (l_accountCache l) ac"
    and "sa_Addr o2 = sa_Addr o1" "acc_wf (bases_of X l) (l_changer l) o2"
      "acc_GetBalance o2 = acc_GetBalance o1" "acc_GetNonce o2 = acc_GetNonce o1"
      "code_of (bases_of X l) o2 = code_of (bases_of X l) o1"
      "state_of (bases_of X l) o2 = state_of (bases_of X l) o1" "sa_suicided o2 = sa_suicided o1"
  shows "acc_tx X a o1 l o2 l' []"
  using assms same_cache_base[OF assms(4)] lwf_same_cache[OF assms(4)] view_same_cache[OF assms(4)]
  by (simp add: acc_tx_def holds_def tx_frame_def view_put_account[OF assms(1)])

text \<open>A method that changes the object and logs how to undo it.\<close>

lemma acc_tx_change:
  assumes "ext_ok X" "holds X a o1 l" "sa_Addr o2 = sa_Addr o1"
    "acc_wf (bases_of X l) (l_changer l) o2"
    and pre: "arevert_pre (bases_of X l) ch (view X (put_account X a o2 l))"
    and rev: "arevert (bases_of X l) ch (view X (put_account X a o2 l)) = view X (put_account X a o1 l)"
  shows "acc_tx X a o1 l o2 (append_change (sa_changer o1) ch l) [ch]"
proof -
  have "sa_changer o1 = l_changer l" using assms(2) by (simp add: holds_def acc_wf_def)
  moreover have "view X (put_account X a o2 (append_change (l_changer l) ch l)) = view X (put_account X a o2 l)"
    by (simp add: append_change_def view_put_account[OF assms(1)])
  ultimately show ?thesis using assms(2-4) pre rev
    by (simp add: acc_tx_def holds_def tx_frame_def append_change_def)
qed

lemma acc_GetState_tx:
  assumes "ext_ok X" "holds X a o1 l" "acc_GetState X k o1 l = (r, o2, l')"
  shows "acc_tx X a o1 l o2 l' []" "r = (state_of (bases_of X l) o1 k \<noteq> None, state_of (bases_of X l) o1 k)"
    "sa_dirtyState o2 = sa_dirtyState o1"
proof -
  have wf: "acc_wf (bases_of X l) (l_changer l) o1" and a: "sa_Addr o1 = a"
    using assms(2) by (simp_all add: holds_def)
  have "acc_tx X a o1 l o2 l' [] \<and> snd r = state_of (bases_of X l) o1 k \<and> fst r = (snd r \<noteq> None) \<and>
    sa_dirtyState o2 = sa_dirtyState o1"
  proof (cases "gget (sa_dirtyState o1) k")
    case (Some v)
    then show ?thesis using assms(3) acc_tx_refl[OF assms(2)] by (auto simp: acc_GetState_def state_of_def)
  next
    case None
    show ?thesis
    proof (cases "gget (sa_originState o1) k")
      case (Some v)
      then have "v = b_state (bases_of X l) a k" using wf a by (simp add: acc_wf_def)
      then show ?thesis using assms(3) None Some acc_tx_refl[OF assms(2)] a
        by (auto simp: acc_GetState_def state_of_def)
    next
      case no: None
      obtain v l1 where v: "acc_loadState X a k l = (v, l1)" by fastforce
      obtain ac where ac: "l1 = l\<lparr>l_accountCache := ac\<rparr>" "same_cache X (l_accountCache l) ac"
        "v = b_state (bases_of X l) a k" by (rule acc_loadState_spec[OF assms(1) v])
      let ?o = "o1\<lparr>sa_originState := gset k v (sa_originState o1)\<rparr>"
      have "acc_tx X a o1 l ?o l1 []"
        by (rule acc_tx_load[OF assms(1,2) ac(1,2)])
          (use wf a ac(3) in \<open>auto simp: acc_wf_def acc_CodeHash_def acc_GetBalance_def acc_GetNonce_def
             code_of_def state_of_def fun_eq_iff cong: option.case_cong\<close>)
      then show ?thesis using assms(3) None no v a ac(3)
        by (auto simp: acc_GetState_def state_of_def)
    qed
  qed
  then show "acc_tx X a o1 l o2 l' []" "r = (state_of (bases_of X l) o1 k \<noteq> None, state_of (bases_of X l) o1 k)"
    "sa_dirtyState o2 = sa_dirtyState o1"
    by (simp_all add: prod_eq_iff)
qed

lemma acc_Code_tx:
  assumes "ext_ok X" "holds X a o1 l" "acc_Code X o1 l = (code, o2, l')"
  shows "acc_tx X a o1 l o2 l' []" "code = code_of (bases_of X l) o1"
    "sa_suicided o2 = sa_suicided o1"
    "code = None \<Longrightarrow> b_code (bases_of X l) a = None"
proof -
  let ?B = "bases_of X l"
  have wf: "acc_wf ?B (l_changer l) o1" and a: "sa_Addr o1 = a"
    using assms(2) by (simp_all add: holds_def)
  have "acc_tx X a o1 l o2 l' [] \<and> code = code_of ?B o1 \<and> sa_suicided o2 = sa_suicided o1 \<and>
    (code = None \<longrightarrow> b_code ?B a = None)"
  proof (cases "sa_dirtyCode o1 = None \<and> sa_originCode o1 = None \<and> content (acc_CodeHash o1) \<noteq> []")
    case False
    then have "acc_Code X o1 l = (or_else (sa_dirtyCode o1) (sa_originCode o1), o1, l)"
      by (cases "sa_dirtyCode o1"; cases "sa_originCode o1") (simp_all add: acc_Code_def)
    then have "o2 = o1 \<and> l' = l \<and> code = or_else (sa_dirtyCode o1) (sa_originCode o1)"
      using assms(3) by simp
    moreover have "sa_dirtyCode o1 = None \<Longrightarrow> sa_originCode o1 = None \<Longrightarrow> b_code ?B a = None"
      using False wf a by (simp add: acc_wf_def)
    ultimately show ?thesis using acc_tx_refl[OF assms(2)] a
      by (auto simp: code_of_def or_else_def split: option.splits)
  next
    case True
    obtain v l1 where v: "acc_loadCode X a l = (v, l1)" by fastforce
    obtain ac where ac: "l1 = l\<lparr>l_accountCache := ac\<rparr>" "same_cache X (l_accountCache l) ac"
      "v = b_code ?B a" by (rule acc_loadCode_spec[OF assms(1) v])
    let ?o = "o1\<lparr>sa_originCode := v, sa_dirtyCode := v\<rparr>"
    have "acc_tx X a o1 l ?o l1 []"
      by (rule acc_tx_load[OF assms(1,2) ac(1,2)])
        (use wf a ac(3) True in \<open>auto simp: acc_wf_def acc_CodeHash_def acc_GetBalance_def
           acc_GetNonce_def code_of_def state_of_def fun_eq_iff or_else_def split: option.split\<close>)
    moreover have "acc_Code X o1 l = (v, ?o, l1)" using v a True by (simp add: acc_Code_def)
    then have "code = v" "o2 = ?o" "l' = l1" using assms(3) by simp_all
    ultimately show ?thesis using a ac(3) True by (simp add: code_of_def)
  qed
  then show "acc_tx X a o1 l o2 l' []" "code = code_of (bases_of X l) o1"
    "sa_suicided o2 = sa_suicided o1" "code = None \<Longrightarrow> b_code (bases_of X l) a = None" by simp_all
qed

lemma acc_IsEmpty_tx:
  assumes "ext_ok X" "holds X a o1 l" "acc_IsEmpty X o1 l = (e, o2, l')"
  shows "acc_tx X a o1 l o2 l' []"
    "e \<longleftrightarrow> acc_GetBalance o1 = 0 \<and> acc_GetNonce o1 = 0 \<and> code_of (bases_of X l) o1 = None \<and> \<not> sa_suicided o1"
proof -
  obtain code o3 l3 where c: "acc_Code X o1 l = (code, o3, l3)" by (metis prod_cases3)
  note t = acc_Code_tx[OF assms(1,2) c]
  show "acc_tx X a o1 l o2 l' []"
    "e \<longleftrightarrow> acc_GetBalance o1 = 0 \<and> acc_GetNonce o1 = 0 \<and> code_of (bases_of X l) o1 = None \<and> \<not> sa_suicided o1"
    using assms(3) c t acc_tx_refl[OF assms(2)] by (auto simp: acc_IsEmpty_def split: if_splits)
qed

lemma acc_GetCommittedState_tx:
  assumes "ext_ok X" "holds X a o1 l" "acc_GetCommittedState X k o1 l = (r, o2, l')"
  shows "acc_tx X a o1 l o2 l' []"
proof (cases "gget (sa_originState o1) k")
  case (Some v)
  then show ?thesis using assms(3) acc_tx_refl[OF assms(2)] by (simp add: acc_GetCommittedState_def)
next
  case None
  have wf: "acc_wf (bases_of X l) (l_changer l) o1" and a: "sa_Addr o1 = a"
    using assms(2) by (simp_all add: holds_def)
  obtain v l1 where v: "acc_loadState X a k l = (v, l1)" by fastforce
  obtain ac where ac: "l1 = l\<lparr>l_accountCache := ac\<rparr>" "same_cache X (l_accountCache l) ac"
    "v = b_state (bases_of X l) a k" by (rule acc_loadState_spec[OF assms(1) v])
  let ?o = "o1\<lparr>sa_originState := gset k v (sa_originState o1)\<rparr>"
  have "acc_tx X a o1 l ?o l1 []"
    by (rule acc_tx_load[OF assms(1,2) ac(1,2)])
      (use wf a ac(3) in \<open>auto simp: acc_wf_def acc_CodeHash_def acc_GetBalance_def acc_GetNonce_def
         code_of_def state_of_def fun_eq_iff cong: option.case_cong\<close>)
  then show ?thesis using assms(3) None v a by (auto simp: acc_GetCommittedState_def Let_def)
qed

text \<open>The setters. Their public variants change the object as the private ones do, and log.\<close>

lemma acc_SetBalance_eq: "acc_SetBalance X b o1 l =
    (acc_setBalance X b o1, append_change (sa_changer o1) (BalanceChange (sa_Addr o1) (acc_GetBalance o1)) l)"
  by (simp add: acc_SetBalance_def acc_setBalance_def)

lemma acc_SetNonce_eq: "acc_SetNonce X n o1 l =
    (acc_setNonce X n o1, append_change (sa_changer o1) (NonceChange (sa_Addr o1) (acc_GetNonce o1)) l)"
  by (simp add: acc_SetNonce_def acc_setNonce_def)

lemma acc_SetBalance_tx:
  assumes "ext_ok X" "holds X a o1 l" "acc_SetBalance X b o1 l = (o2, l')"
  shows "acc_tx X a o1 l o2 l' [BalanceChange a (acc_GetBalance o1)]"
proof -
  have h: "acc_wf (bases_of X l) (l_changer l) o1" "sa_Addr o1 = a" using assms(2) by (simp_all add: holds_def)
  have "acc_tx X a o1 l (acc_setBalance X b o1)
      (append_change (sa_changer o1) (BalanceChange a (acc_GetBalance o1)) l) [BalanceChange a (acc_GetBalance o1)]"
    by (rule acc_tx_change[OF assms(1,2)])
      (use h assms(1) in \<open>simp_all add: setter_wf setter_sel view_put_account\<close>)
  then show ?thesis using assms(3) h by (simp add: acc_SetBalance_eq)
qed

lemma acc_SetNonce_tx:
  assumes "ext_ok X" "holds X a o1 l" "acc_SetNonce X n o1 l = (o2, l')"
  shows "acc_tx X a o1 l o2 l' [NonceChange a (acc_GetNonce o1)]"
proof -
  have h: "acc_wf (bases_of X l) (l_changer l) o1" "sa_Addr o1 = a" using assms(2) by (simp_all add: holds_def)
  have "acc_tx X a o1 l (acc_setNonce X n o1)
      (append_change (sa_changer o1) (NonceChange a (acc_GetNonce o1)) l) [NonceChange a (acc_GetNonce o1)]"
    by (rule acc_tx_change[OF assms(1,2)])
      (use h assms(1) in \<open>simp_all add: setter_wf setter_sel view_put_account\<close>)
  then show ?thesis using assms(3) h by (simp add: acc_SetNonce_eq)
qed

lemma acc_SetState_tx:
  assumes "ext_ok X" "holds X a o1 l" "acc_SetState X k v None o1 l = (o2, l')"
  shows "acc_tx X a o1 l o2 l' [StorageChange a k (state_of (bases_of X l) o1 k)]"
proof -
  obtain r o3 l3 where g: "acc_GetState X k o1 l = (r, o3, l3)" by (metis prod_cases3)
  note t = acc_GetState_tx[OF assms(1,2) g]
  have h3: "holds X a o3 l3" using t(1) by (simp add: acc_tx_def)
  have h: "acc_wf (bases_of X l3) (l_changer l3) o3" "sa_Addr o3 = a" using h3 by (simp_all add: holds_def)
  have b: "bases_of X l3 = bases_of X l" using t(1) by (simp add: acc_tx_def tx_frame_def)
  have ad: "sa_Addr o1 = a" using assms(2) by (simp add: holds_def)
  have s: "state_of (bases_of X l) o3 k = state_of (bases_of X l) o1 k"
    using t(3) h(2) ad by (simp add: state_of_def cong: option.case_cong)
  let ?ch = "StorageChange a k (state_of (bases_of X l) o1 k)"
  have "acc_tx X a o3 l3 (acc_setState k v o3) (append_change (sa_changer o3) ?ch l3) [?ch]"
    by (rule acc_tx_change[OF assms(1) h3])
      (use h assms(1) s b in \<open>simp_all add: setter_wf setter_sel view_put_account fun_upd_idem\<close>)
  with t(1) have "acc_tx X a o1 l (acc_setState k v o3) (append_change (sa_changer o3) ?ch l3) ([] @ [?ch])"
    by (rule acc_tx_trans)
  then show ?thesis using assms(3) g t(2) h by (simp add: acc_SetState_def acc_setState_def)
qed

lemma acc_SetCodeAndHash_tx:
  assumes "ext_ok X" "holds X a o1 l" "acc_SetCodeAndHash X c o1 l = (o2, l')"
  shows "acc_tx X a o1 l o2 l' [CodeChange a (code_of (bases_of X l) o1)]"
proof -
  obtain p o3 l3 where g: "acc_Code X o1 l = (p, o3, l3)" by (metis prod_cases3)
  note t = acc_Code_tx[OF assms(1,2) g]
  have h3: "holds X a o3 l3" using t(1) by (simp add: acc_tx_def)
  have h: "acc_wf (bases_of X l3) (l_changer l3) o3" "sa_Addr o3 = a" using h3 by (simp_all add: holds_def)
  have b: "bases_of X l3 = bases_of X l" using t(1) by (simp add: acc_tx_def tx_frame_def)
  have "view X (put_account X a o3 l3) = view X (put_account X a o1 l)" using t(1) by (simp add: acc_tx_def)
  then have "av_code (view X (put_account X a o3 l3)) a = av_code (view X (put_account X a o1 l)) a" by simp
  then have s: "code_of (bases_of X l) o3 = p"
    using t(2) b by (simp add: view_put_account[OF assms(1)])
  let ?ch = "CodeChange a p"
  have "acc_tx X a o3 l3 (acc_setCodeAndHash X c o3) (append_change (sa_changer o3) ?ch l3) [?ch]"
    by (rule acc_tx_change[OF assms(1) h3])
      (use h assms(1) s b t(4) in \<open>simp_all add: setter_wf setter_sel view_put_account\<close>)
  with t(1) have "acc_tx X a o1 l (acc_setCodeAndHash X c o3) (append_change (sa_changer o3) ?ch l3) ([] @ [?ch])"
    by (rule acc_tx_trans)
  then show ?thesis using assms(3) g t(2) h by (simp add: acc_SetCodeAndHash_def acc_setCodeAndHash_def Let_def)
qed

section \<open>The operations of a transaction\<close>

text \<open>
  The operations a contract or the executor calls on the ledger between the start and the end of
  a transaction, outside the parallel mode. \<^verbatim>\<open>AddState\<close> is not among them: it logs nothing.
\<close>

datatype tx_op =
    OpGetBalance address | OpSetBalance address int | OpSubBalance address int | OpAddBalance address int
  | OpGetState address string | OpGetCommittedState address string
  | OpSetState address string slice
  | OpSetCode address slice | OpGetCode address | OpGetCodeHash address | OpGetCodeSize address
  | OpAddRefund u64 | OpSubRefund u64 | OpGetNonce address | OpSetNonce address u64
  | OpSuiside address | OpHasSuiside address | OpExist address | OpEmpty address
  | OpAddAddress address | OpAddSlot address hash | OpAddPreimage hash slice | OpAddLog evmLog

fun run_op ::
  "('d, 'a, 's, 'i, 'l, 'z) ext_scheme \<Rightarrow> tx_op \<Rightarrow> ('d, 'a, 's, 'i, 'l) ledger \<Rightarrow>
   ('d, 'a, 's, 'i, 'l) ledger option" where
  "run_op X (OpGetBalance a) l = map_option snd (GetBalance X a l)"
| "run_op X (OpSetBalance a v) l = SetBalance X a v l"
| "run_op X (OpSubBalance a v) l = SubBalance X a v l"
| "run_op X (OpAddBalance a v) l = AddBalance X a v l"
| "run_op X (OpGetState a k) l = map_option snd (GetState X a k l)"
| "run_op X (OpGetCommittedState a k) l = map_option snd (GetCommittedState X a k l)"
| "run_op X (OpSetState a k v) l = SetState X a k v None l"
| "run_op X (OpSetCode a c) l = SetCode X a c l"
| "run_op X (OpGetCode a) l = map_option snd (GetCode X a l)"
| "run_op X (OpGetCodeHash a) l = map_option snd (GetCodeHash X a l)"
| "run_op X (OpGetCodeSize a) l = map_option snd (GetCodeSize X a l)"
| "run_op X (OpAddRefund g) l = Some (AddRefund g l)"
| "run_op X (OpSubRefund g) l = SubRefund g l"
| "run_op X (OpGetNonce a) l = map_option snd (GetNonce X a l)"
| "run_op X (OpSetNonce a n) l = SetNonce X a n l"
| "run_op X (OpSuiside a) l = map_option snd (Suiside X a l)"
| "run_op X (OpHasSuiside a) l = map_option snd (HasSuiside X a l)"
| "run_op X (OpExist a) l = map_option snd (Exist X a l)"
| "run_op X (OpEmpty a) l = map_option snd (Empty X a l)"
| "run_op X (OpAddAddress a) l = Some (AddAddressToAccessList X a l)"
| "run_op X (OpAddSlot a s) l = Some (AddSlotToAccessList X a s l)"
| "run_op X (OpAddPreimage h p) l = Some (AddPreimage h p l)"
| "run_op X (OpAddLog lg) l = AddLog lg l"

text \<open>An operation that finds its account, runs a method on it and puts it back.\<close>

lemma on_object:
  assumes "ext_ok X" "lwf X l"
    and m: "\<And>o1 l1. holds X a o1 l1 \<Longrightarrow> \<exists>cs. acc_tx X a o1 l1 (fst (m o1 l1)) (snd (m o1 l1)) cs"
  shows "\<exists>l' cs. do {(o1, l1) \<leftarrow> GetOrCreateAccount X a l;
      Some (put_account X a (fst (m o1 l1)) (snd (m o1 l1)))} = Some l' \<and> tx_ok X l l' cs"
proof -
  obtain o1 l1 cs where g: "GetOrCreateAccount X a l = Some (o1, l1)" "tx_ok X l l1 cs"
    "gget (l_accounts l1) (X_addrString X a) = Some o1"
    by (rule GetOrCreate_ok[OF assms(1,2)])
  have lw: "lwf X l1" using g(2) by (simp add: tx_ok_def)
  then have "holds X a o1 l1" using lwf_acc[OF _ g(3) assms(1)] by (simp add: holds_def)
  from m[OF this] obtain ds where "acc_tx X a o1 l1 (fst (m o1 l1)) (snd (m o1 l1)) ds" by blast
  from acc_tx_put[OF lw g(3) this] have "tx_ok X l1 (put_account X a (fst (m o1 l1)) (snd (m o1 l1))) ds" .
  from tx_ok_trans[OF g(2) this] show ?thesis using g(1) by auto
qed

text \<open>When an operation neither panics nor logs something that reverting would lose.\<close>

fun op_guard where
  "op_guard X (OpSubRefund g) l = (g \<le> l_refund l)"
| "op_guard X (OpAddLog lg) l = (el_thash (l_logs l) \<noteq> None)"
| "op_guard X (OpSuiside a) l = (av_exists (view X l) a \<and> \<not> av_suicided (view X l) a)"
| "op_guard X op l = True"

lemma on_object_eq:
  assumes "ext_ok X" "lwf X l"
    and "\<And>o1 l1. holds X a o1 l1 \<Longrightarrow> \<exists>cs. acc_tx X a o1 l1 (fst (m o1 l1)) (snd (m o1 l1)) cs"
    and "r = do {(o1, l1) \<leftarrow> GetOrCreateAccount X a l;
      Some (put_account X a (fst (m o1 l1)) (snd (m o1 l1)))}"
  shows "\<exists>l' cs. r = Some l' \<and> tx_ok X l l' cs"
  unfolding assms(4) by (rule on_object[OF assms(1-3)])

lemma get_only:
  assumes "ext_ok X" "lwf X l" "r = do {(o1, l1) \<leftarrow> GetOrCreateAccount X a l; Some l1}"
  shows "\<exists>l' cs. r = Some l' \<and> tx_ok X l l' cs"
proof -
  obtain o1 l1 cs where "GetOrCreateAccount X a l = Some (o1, l1)" "tx_ok X l l1 cs"
    by (rule GetOrCreate_ok[OF assms(1,2)])
  then show ?thesis using assms(3) by auto
qed

lemma acc_SubBalance_tx:
  assumes "ext_ok X" "holds X a o1 l"
  shows "\<exists>cs. acc_tx X a o1 l (fst (acc_SubBalance X v o1 l)) (snd (acc_SubBalance X v o1 l)) cs"
    "\<exists>cs. acc_tx X a o1 l (fst (acc_AddBalance X v o1 l)) (snd (acc_AddBalance X v o1 l)) cs"
  using acc_SetBalance_tx[OF assms surjective_pairing] acc_tx_refl[OF assms(2)]
  by (auto simp: acc_SubBalance_def acc_AddBalance_def)

lemma acc_IsEmpty_pair:
  assumes "ext_ok X" "holds X a o1 l"
  shows "acc_tx X a o1 l (fst (snd (acc_IsEmpty X o1 l))) (snd (snd (acc_IsEmpty X o1 l))) []"
  using acc_IsEmpty_tx(1)[OF assms, of "fst (acc_IsEmpty X o1 l)"] by simp

lemma acc_Code_pair:
  assumes "ext_ok X" "holds X a o1 l"
  shows "acc_tx X a o1 l (fst (snd (acc_Code X o1 l))) (snd (snd (acc_Code X o1 l))) []"
  using acc_Code_tx(1)[OF assms, of "fst (acc_Code X o1 l)"] by simp

lemma acc_tx_holds: "acc_tx X a o1 l o2 l' cs \<Longrightarrow> holds X a o2 l'"
  by (simp add: acc_tx_def)

lemma SubBalance_ok:
  assumes "ext_ok X" "lwf X l"
  shows "\<exists>l' cs. SubBalance X a v l = Some l' \<and> tx_ok X l l' cs"
proof -
  define m where "m = (\<lambda>o1 l1. let (e, o2, l2) = acc_IsEmpty X o1 l1
    in if \<not> e then acc_SubBalance X v o2 l2 else (o2, l2))"
  show ?thesis
  proof (rule on_object_eq[OF assms, of a m])
    fix o1 and l1 :: "('a, 'b, 'c, 'd, 'e) ledger"
    assume h: "holds X a o1 l1"
    note e = acc_IsEmpty_pair[OF assms(1) h]
    from acc_SubBalance_tx(1)[OF assms(1) acc_tx_holds[OF e], of v] acc_tx_trans[OF e]
    show "\<exists>cs. acc_tx X a o1 l1 (fst (m o1 l1)) (snd (m o1 l1)) cs"
      using e unfolding m_def split_def Let_def by auto
  qed (simp add: SubBalance_def m_def split_def Let_def)
qed

lemma IsEmpty_ops_ok:
  assumes "ext_ok X" "lwf X l"
    and k: "\<And>e o1 l1. holds X a o1 l1 \<Longrightarrow> \<exists>cs. acc_tx X a o1 l1 (fst (k e o1 l1)) (snd (k e o1 l1)) cs"
    and r: "r = do {(o1, l1) \<leftarrow> GetOrCreateAccount X a l;
        let (e, o1, l1) = acc_IsEmpty X o1 l1;
        Some (put_account X a (fst (k e o1 l1)) (snd (k e o1 l1)))}"
  shows "\<exists>l' cs. r = Some l' \<and> tx_ok X l l' cs"
proof -
  define m where "m = (\<lambda>o1 l1. let (e, o2, l2) = acc_IsEmpty X o1 l1 in k e o2 l2)"
  show ?thesis
  proof (rule on_object_eq[OF assms(1,2), of a m])
    fix o1 and l1 :: "('a, 'b, 'c, 'd, 'e) ledger"
    assume h: "holds X a o1 l1"
    note e = acc_IsEmpty_pair[OF assms(1) h]
    from k[OF acc_tx_holds[OF e], of "fst (acc_IsEmpty X o1 l1)"] acc_tx_trans[OF e]
    show "\<exists>cs. acc_tx X a o1 l1 (fst (m o1 l1)) (snd (m o1 l1)) cs"
      unfolding m_def split_def Let_def by auto
  qed (simp add: r m_def split_def Let_def)
qed

lemma map_snd_bind: "map_option snd (Option.bind x f) = Option.bind x (\<lambda>y. map_option snd (f y))"
  by (cases x) simp_all

lemma AddSlot_ok:
  assumes "ext_ok X" "lwf X l"
  shows "\<exists>cs. tx_ok X l (AddSlotToAccessList X a s l) cs"
proof -
  obtain b c al where s: "al_AddSlot (X_access X) a s (l_accessList l) = ((b, c), al)" by (metis prod.collapse)
  note A = ext_okD(5)[OF assms(1)]
  note d = access_okD(4)[OF A s]
  have "\<not> al_ContainsAddress (X_access X) (l_accessList l) a \<Longrightarrow> has_slot (X_access X) (l_accessList l) a t = False" for t
    using access_okD(2)[OF A, of "l_accessList l" a t] by blast
  note n = this
  have "tx_ok X l (AddSlotToAccessList X a s l)
      ((if b then [AccessListAddAccountChange a] else []) @ (if c then [AccessListAddSlotChange a s] else []))"
    using assms(2) d n
    by (auto simp: tx_ok_def AddSlotToAccessList_def s append_change_def tx_frame_def undo_def
        view_rest_update view_rest fun_upd_same)
  then show ?thesis by blast
qed

lemma AddAddress_ok:
  assumes "ext_ok X" "lwf X l"
  shows "\<exists>cs. tx_ok X l (AddAddressToAccessList X a l) cs"
proof -
  obtain b al where s: "al_AddAddress (X_access X) a (l_accessList l) = (b, al)" by fastforce
  note A = ext_okD(5)[OF assms(1)]
  note d = access_okD(3)[OF A s]
  have "\<not> al_ContainsAddress (X_access X) (l_accessList l) a \<Longrightarrow> has_slot (X_access X) (l_accessList l) a t = False" for t
    using access_okD(2)[OF A, of "l_accessList l" a t] by blast
  note n = this
  have "tx_ok X l (AddAddressToAccessList X a l) (if b then [AccessListAddAccountChange a] else [])"
    using assms(2) d n
    by (auto simp: tx_ok_def AddAddressToAccessList_def s append_change_def tx_frame_def undo_def
        view_rest_update view_rest fun_upd_same)
  then show ?thesis by blast
qed

lemma AddPreimage_ok:
  assumes "lwf X l"
  shows "\<exists>cs. tx_ok X l (AddPreimage h p l) cs"
proof (cases "gget (l_preimages l) h")
  case (Some q)
  then show ?thesis using tx_ok_refl[OF assms] by (auto simp: AddPreimage_def)
next
  case None
  then have "tx_ok X l (AddPreimage h p l) [AddPreimageChange h]"
    using assms by (simp add: tx_ok_def AddPreimage_def append_change_def tx_frame_def
        view_rest_update view_rest update_conv' fun_upd_same)
  then show ?thesis by blast
qed

lemma AddLog_ok:
  assumes "lwf X l" "el_thash (l_logs l) \<noteq> None"
  shows "\<exists>l' cs. AddLog lg l = Some l' \<and> tx_ok X l l' cs"
proof -
  obtain h where h: "el_thash (l_logs l) = Some h" using assms(2) by blast
  then obtain l' where l': "AddLog lg l = Some l'" by (simp add: AddLog_def Let_def append_change_def)
  have "tx_ok X l l' [AddLogChange (Some h)]"
    using assms(1) h l' by (auto simp: tx_ok_def AddLog_def Let_def append_change_def tx_frame_def
        view_rest_update view_rest fun_upd_same)
  with l' show ?thesis by blast
qed

lemma Suiside_ok:
  assumes X: "ext_ok X" "lwf X l" "av_exists (view X l) a" "\<not> av_suicided (view X l) a"
  shows "\<exists>l' cs. map_option snd (Suiside X a l) = Some l' \<and> tx_ok X l l' cs"
proof -
  obtain r acs ac where r:
    "GetAccount X a l = Some (r, l\<lparr>l_accountCache := ac, l_accounts := acs\<rparr>)"
    "same_cache X (l_accountCache l) ac" "gget acs (X_addrString X a) = r"
    "lwf X (l\<lparr>l_accountCache := ac, l_accounts := acs\<rparr>)"
    "view X (l\<lparr>l_accountCache := ac, l_accounts := acs\<rparr>) = view X l"
    "r = None \<longleftrightarrow> \<not> av_exists (view X l) a"
    by (rule GetAccount_spec[OF assms(1,2), of a])
  let ?l = "l\<lparr>l_accountCache := ac, l_accounts := acs\<rparr>"
  from r(6) assms(3) obtain o1 where o1: "r = Some o1" by auto
  have h: "holds X a o1 ?l" using lwf_acc[OF r(4) _ X(1), of a o1] r(3,4) o1 by (simp add: holds_def)
  then have c: "sa_changer o1 = l_changer ?l" and ad: "sa_Addr o1 = a" by (simp_all add: holds_def acc_wf_def)
  have ns: "\<not> sa_suicided o1" using assms(4) view_sel(6)[of ?l X a o1] r(3,5) o1 by simp
  let ?s = "SuicideChange a False (acc_GetBalance o1)"
  let ?o = "o1\<lparr>sa_suicided := True\<rparr>"
  let ?l1 = "append_change (sa_changer o1) ?s ?l"
  have wf: "acc_wf (bases_of X ?l) (l_changer ?l) ?o"
    using h setter_wf(5)[OF X(1)] by (simp add: holds_def)
  have t1: "acc_tx X a o1 ?l ?o ?l1 [?s]"
    by (rule acc_tx_change[OF X(1) h]) (use wf ns in \<open>simp_all add: view_put_account[OF X(1)]\<close>)
  obtain o2 l2 where e: "acc_SetBalance X 0 ?o ?l1 = (o2, l2)" by fastforce
  note t2 = acc_SetBalance_tx[OF X(1) acc_tx_holds[OF t1] e]
  have g: "gget (l_accounts ?l) (X_addrString X a) = Some o1" using r(3) o1 by simp
  note t = acc_tx_put[OF r(4) g acc_tx_trans[OF t1 t2]]
  have "tx_ok X l ?l []" using r(2,4,5) tx_frame_cache[OF r(2)] by (simp add: tx_ok_def)
  from tx_ok_trans[OF this t] have "\<exists>cs. tx_ok X l (put_account X a o2 l2) cs" by blast
  moreover have "Suiside X a l = Some (True, put_account X a o2 l2)"
    using r(1) o1 e c by (simp add: Suiside_def acc_Suicided_def acc_SetSuicided_def)
  ultimately show ?thesis by auto
qed

lemma refund_ok:
  assumes "lwf X l"
  shows "\<exists>cs. tx_ok X l (AddRefund g l) cs" "g \<le> l_refund l \<Longrightarrow> \<exists>l' cs. SubRefund g l = Some l' \<and> tx_ok X l l' cs"
proof -
  have "tx_ok X l (AddRefund g l) [RefundChange (l_refund l)]"
    using assms by (simp add: tx_ok_def AddRefund_def append_change_def tx_frame_def view_rest_update view_rest)
  then show "\<exists>cs. tx_ok X l (AddRefund g l) cs" by blast
  assume "g \<le> l_refund l"
  then obtain l' where l': "SubRefund g l = Some l'" by (simp add: SubRefund_def append_change_def Let_def not_less)
  have "tx_ok X l l' [RefundChange (l_refund l)]"
    using assms l' by (auto simp: tx_ok_def SubRefund_def append_change_def tx_frame_def view_rest_update
        view_rest Let_def split: if_splits)
  with l' show "\<exists>l' cs. SubRefund g l = Some l' \<and> tx_ok X l l' cs" by blast
qed

lemma acc_tx_pairs:
  assumes "ext_ok X" "holds X a o1 l"
  shows "\<exists>cs. acc_tx X a o1 l (fst (acc_SetBalance X v o1 l)) (snd (acc_SetBalance X v o1 l)) cs"
    "\<exists>cs. acc_tx X a o1 l (fst (acc_SetNonce X n o1 l)) (snd (acc_SetNonce X n o1 l)) cs"
    "\<exists>cs. acc_tx X a o1 l (fst (acc_SetState X k w None o1 l)) (snd (acc_SetState X k w None o1 l)) cs"
    "\<exists>cs. acc_tx X a o1 l (fst (acc_SetCodeAndHash X c o1 l)) (snd (acc_SetCodeAndHash X c o1 l)) cs"
    "\<exists>cs. acc_tx X a o1 l (fst (snd (acc_GetState X k o1 l))) (snd (snd (acc_GetState X k o1 l))) cs"
    "\<exists>cs. acc_tx X a o1 l (fst (snd (acc_Code X o1 l))) (snd (snd (acc_Code X o1 l))) cs"
    "\<exists>cs. acc_tx X a o1 l (fst (snd (acc_GetCommittedState X k o1 l))) (snd (snd (acc_GetCommittedState X k o1 l))) cs"
    "\<exists>cs. acc_tx X a o1 l o1 l cs"
proof -
  show "\<exists>cs. acc_tx X a o1 l (fst (acc_SetBalance X v o1 l)) (snd (acc_SetBalance X v o1 l)) cs"
    by (rule exI, rule acc_SetBalance_tx[OF assms surjective_pairing])
  show "\<exists>cs. acc_tx X a o1 l (fst (acc_SetNonce X n o1 l)) (snd (acc_SetNonce X n o1 l)) cs"
    by (rule exI, rule acc_SetNonce_tx[OF assms surjective_pairing])
  show "\<exists>cs. acc_tx X a o1 l (fst (acc_SetState X k w None o1 l)) (snd (acc_SetState X k w None o1 l)) cs"
    by (rule exI, rule acc_SetState_tx[OF assms surjective_pairing])
  show "\<exists>cs. acc_tx X a o1 l (fst (acc_SetCodeAndHash X c o1 l)) (snd (acc_SetCodeAndHash X c o1 l)) cs"
    by (rule exI, rule acc_SetCodeAndHash_tx[OF assms surjective_pairing])
  show "\<exists>cs. acc_tx X a o1 l (fst (snd (acc_GetState X k o1 l))) (snd (snd (acc_GetState X k o1 l))) cs"
    by (rule exI, rule acc_GetState_tx(1)[OF assms, where r = "fst (acc_GetState X k o1 l)" and k = k]) simp
  show "\<exists>cs. acc_tx X a o1 l (fst (snd (acc_Code X o1 l))) (snd (snd (acc_Code X o1 l))) cs"
    by (rule exI, rule acc_Code_pair[OF assms])
  show "\<exists>cs. acc_tx X a o1 l (fst (snd (acc_GetCommittedState X k o1 l)))
      (snd (snd (acc_GetCommittedState X k o1 l))) cs"
    by (rule exI, rule acc_GetCommittedState_tx[OF assms, where r = "fst (acc_GetCommittedState X k o1 l)"
        and k = k]) simp
  show "\<exists>cs. acc_tx X a o1 l o1 l cs" using acc_tx_refl[OF assms(2)] by blast
qed

text \<open>
  Every operation returns when its guard holds, keeps the ledger well-formed, and appends to the
  log entries that undo exactly its effect on the view.
\<close>

lemma run_op_ok:
  assumes "ext_ok X" "lwf X l" "op_guard X op l"
  shows "\<exists>l' cs. run_op X op l = Some l' \<and> tx_ok X l l' cs"
proof (cases op)
  case (OpGetBalance a)
  then show ?thesis
    using get_only[OF assms(1,2) refl, of a] by (simp add: GetBalance_def map_snd_bind split_def)
next
  case (OpGetNonce a)
  then show ?thesis
    using get_only[OF assms(1,2) refl, of a] by (simp add: GetNonce_def map_snd_bind split_def)
next
  case (OpSetBalance a v)
  then show ?thesis
    by (intro on_object_eq[OF assms(1,2), where a = a and m = "acc_SetBalance X v"])
      (use acc_tx_pairs(1)[OF assms(1), of a] in \<open>auto simp: SetBalance_def split_def Let_def\<close>)
next
  case (OpSubBalance a v)
  then show ?thesis using SubBalance_ok[OF assms(1,2)] by simp
next
  case (OpAddBalance a v)
  then show ?thesis
    by (intro on_object_eq[OF assms(1,2), where a = a and m = "acc_AddBalance X v"])
      (use acc_SubBalance_tx(2)[OF assms(1), of a] in \<open>auto simp: AddBalance_def split_def Let_def\<close>)
next
  case (OpSetNonce a v)
  then show ?thesis
    by (intro on_object_eq[OF assms(1,2), where a = a and m = "acc_SetNonce X v"])
      (use acc_tx_pairs(2)[OF assms(1), of a] in \<open>auto simp: SetNonce_def split_def Let_def\<close>)
next
  case (OpGetState a k)
  then show ?thesis
    by (intro on_object_eq[OF assms(1,2), where a = a and m = "\<lambda>o1 l1. snd (acc_GetState X k o1 l1)"])
      (use acc_tx_pairs(5)[OF assms(1), of a] in \<open>auto simp: GetState_def split_def Let_def map_snd_bind\<close>)
next
  case (OpGetCommittedState a k)
  then show ?thesis
    by (intro IsEmpty_ops_ok[OF assms(1,2), where a = a and
          k = "\<lambda>e o1 l1. if e then (o1, l1) else snd (acc_GetCommittedState X k o1 l1)"])
      (use acc_tx_pairs(7,8)[OF assms(1), of a] in
        \<open>auto simp: GetCommittedState_def split_def Let_def map_snd_bind intro!: Option.bind_cong\<close>)
next
  case (OpSetState a k v)
  then show ?thesis
    by (intro on_object_eq[OF assms(1,2), where a = a and m = "acc_SetState X k v None"])
      (use acc_tx_pairs(3)[OF assms(1), of a] in \<open>auto simp: SetState_def split_def Let_def\<close>)
next
  case (OpSetCode a c)
  then show ?thesis
    by (intro on_object_eq[OF assms(1,2), where a = a and m = "acc_SetCodeAndHash X c"])
      (use acc_tx_pairs(4)[OF assms(1), of a] in \<open>auto simp: SetCode_def split_def Let_def\<close>)
next
  case (OpGetCode a)
  then show ?thesis
    by (intro on_object_eq[OF assms(1,2), where a = a and m = "\<lambda>o1 l1. snd (acc_Code X o1 l1)"])
      (use acc_tx_pairs(6)[OF assms(1), of a] in \<open>auto simp: GetCode_def split_def Let_def map_snd_bind\<close>)
next
  case (OpGetCodeHash a)
  then show ?thesis
    by (intro IsEmpty_ops_ok[OF assms(1,2), where a = a and k = "\<lambda>e o1 l1. (o1, l1)"])
      (use acc_tx_pairs(8)[OF assms(1), of a] in \<open>auto simp: GetCodeHash_def split_def Let_def map_snd_bind\<close>)
next
  case (OpGetCodeSize a)
  then show ?thesis
    by (intro IsEmpty_ops_ok[OF assms(1,2), where a = a and
          k = "\<lambda>e o1 l1. if e then (o1, l1) else snd (acc_Code X o1 l1)"])
      (use acc_tx_pairs(6,8)[OF assms(1), of a] in
        \<open>auto simp: GetCodeSize_def split_def Let_def map_snd_bind intro!: Option.bind_cong\<close>)
next
  case (OpHasSuiside a)
  then show ?thesis
    by (intro IsEmpty_ops_ok[OF assms(1,2), where a = a and k = "\<lambda>e o1 l1. (o1, l1)"])
      (use acc_tx_pairs(8)[OF assms(1), of a] in \<open>auto simp: HasSuiside_def split_def Let_def map_snd_bind\<close>)
next
  case (OpExist a)
  then show ?thesis
    by (intro IsEmpty_ops_ok[OF assms(1,2), where a = a and k = "\<lambda>e o1 l1. (o1, l1)"])
      (use acc_tx_pairs(8)[OF assms(1), of a] in \<open>auto simp: Exist_def split_def Let_def map_snd_bind\<close>)
next
  case (OpEmpty a)
  then show ?thesis
    by (intro IsEmpty_ops_ok[OF assms(1,2), where a = a and k = "\<lambda>e o1 l1. (o1, l1)"])
      (use acc_tx_pairs(8)[OF assms(1), of a] in \<open>auto simp: Empty_def split_def Let_def map_snd_bind\<close>)
next
  case (OpSuiside a)
  then show ?thesis using Suiside_ok[OF assms(1,2), of a] assms(3) by simp
next
  case (OpAddLog lg)
  then show ?thesis using AddLog_ok[OF assms(2), of lg] assms(3) by simp
qed (use AddSlot_ok[OF assms(1,2)] AddAddress_ok[OF assms(1,2)] AddPreimage_ok[OF assms(2)]
      refund_ok[OF assms(2)] assms(3) in simp_all)

section \<open>Runs with snapshots\<close>

text \<open>
  A state of a run is the ledger with, for every revision that is valid, the view of the moment it
  was taken; that second component is only recorded, no operation reads it.
\<close>

inductive tx_step ::
  "('d, 'a, 's, 'i, 'l, 'z) ext_scheme \<Rightarrow> ('d, 'a, 's, 'i, 'l) ledger \<times> aview list \<Rightarrow>
   ('d, 'a, 's, 'i, 'l) ledger \<times> aview list \<Rightarrow> bool"
  for X where
  step_op: "op_guard X op l \<Longrightarrow> run_op X op l = Some l' \<Longrightarrow> tx_step X (l, vs) (l', vs)"
| step_snapshot: "Snapshot l = (revid, l') \<Longrightarrow> tx_step X (l, vs) (l', vs @ [view X l])"
| step_revert: "RevertToSnapshot X revid l = Some l' \<Longrightarrow>
    tx_step X (l, vs) (l', take (length (l_validRevisions l')) vs)"

definition tx_initial where
  "tx_initial X = (\<lambda>(l, vs). ext_ok X \<and> lwf X l \<and> l_validRevisions l = [] \<and> vs = [])"

definition log_of :: "('d, 'a, 's, 'i, 'l) ledger \<Rightarrow> stateChange list" where
  "log_of l = sc_changes (l_changers l (l_changer l))"

definition revs_wf where
  "revs_wf l \<longleftrightarrow> sorted_wrt (\<lambda>r r'. rv_id r < rv_id r' \<and> rv_changerIndex r \<le> rv_changerIndex r') (l_validRevisions l) \<and>
     (\<forall>r \<in> set (l_validRevisions l). rv_id r < l_nextRevisionId l \<and> rv_changerIndex r \<le> length (log_of l))"

definition tx_inv where
  "tx_inv X = (\<lambda>(l, vs). ext_ok X \<and> lwf X l \<and> revs_wf l \<and> length vs = length (l_validRevisions l) \<and>
     (\<forall>i < length vs. undo (bases_of X l) (drop (rv_changerIndex (l_validRevisions l ! i)) (log_of l))
        (vs ! i) (view X l)))"

lemma undo_rev_det: "undo_rev B cs v v'' \<Longrightarrow> undo_rev B cs v' v'' \<Longrightarrow> v = v'"
  by (induction cs arbitrary: v'') auto

lemma undo_prefix:
  assumes "undo B (cs @ ds) v v''" "undo B ds v' v''"
  shows "undo B cs v v'"
proof -
  from assms(1) obtain w where w: "undo_rev B (rev ds) w v''" "undo_rev B (rev cs) v w"
    unfolding undo_def rev_append undo_rev_append by blast
  from undo_rev_det[OF w(1) assms(2)[unfolded undo_def]] w(2) show ?thesis by (simp add: undo_def)
qed

lemma RevertToSnapshot_valid:
  assumes "tx_inv X (l, vs)" "i < length (l_validRevisions l)"
  shows "\<exists>l'. RevertToSnapshot X (rv_id (l_validRevisions l ! i)) l = Some l' \<and> view X l' = vs ! i \<and>
    l_validRevisions l' = take i (l_validRevisions l) \<and> tx_inv X (l', take i vs)"
proof -
  let ?revs = "l_validRevisions l"
  let ?n = "rv_changerIndex (?revs ! i)"
  from assms have X: "ext_ok X" and l: "lwf X l" and rw: "revs_wf l" and len: "length vs = length ?revs"
    and un: "\<And>j. j < length vs \<Longrightarrow>
      undo (bases_of X l) (drop (rv_changerIndex (?revs ! j)) (log_of l)) (vs ! j) (view X l)"
    by (auto simp: tx_inv_def)
  have n: "?n \<le> length (log_of l)" and mono: "rv_changerIndex (?revs ! j) \<le> ?n" if "j < i" for j
    using rw assms(2) that by (auto simp: revs_wf_def sorted_wrt_iff_nth_less)
  have n: "?n \<le> length (log_of l)" using rw assms(2) by (simp add: revs_wf_def)
  have idx: "sort_Search (length ?revs) (\<lambda>j. rv_id (?revs ! j) \<ge> rv_id (?revs ! i)) = i"
    using rw assms(2) by (intro sort_Search_nth) (auto simp: revs_wf_def elim: sorted_wrt_mono_rel[rotated])
  have "undo (bases_of X l) (drop ?n (log_of l)) (vs ! i) (view X l)" using un assms(2) len by simp
  with changer_revert_refines[OF X l, of "l_changer l" "take ?n (log_of l)" "drop ?n (log_of l)" "vs ! i"] n
  obtain l1 where l1: "changer_revert X (l_changer l) ?n l = Some l1" "lwf X l1" "view X l1 = vs ! i"
    "tx_frame X l l1" "sc_changes (l_changers l1 (l_changer l)) = take ?n (log_of l)"
    by (auto simp: log_of_def min_absorb2)
  let ?l = "l1\<lparr>l_validRevisions := take i (l_validRevisions l1)\<rparr>"
  have fr: "bases_of X ?l = bases_of X l" "l_validRevisions ?l = take i ?revs" "l_changer ?l = l_changer l"
    "l_nextRevisionId ?l = l_nextRevisionId l" "log_of ?l = take ?n (log_of l)"
    using l1(4,5) by (simp_all add: tx_frame_def log_of_def)
  have "RevertToSnapshot X (rv_id (?revs ! i)) l = Some ?l"
    using l1(1) assms(2) idx by (simp add: RevertToSnapshot_def)
  moreover have "revs_wf ?l"
    using rw mono assms(2) n unfolding revs_wf_def fr
    by (auto simp: sorted_wrt_take in_set_conv_nth min_absorb2 dest: in_set_takeD)
  moreover have "undo (bases_of X l) (drop (rv_changerIndex (?revs ! j)) (take ?n (log_of l))) (vs ! j) (vs ! i)"
    if "j < i" for j
  proof (rule undo_prefix)
    have "drop (rv_changerIndex (?revs ! j)) (take ?n (log_of l)) @ drop ?n (log_of l)
        = drop (rv_changerIndex (?revs ! j)) (log_of l)"
      using mono[OF that] n by (metis append_take_drop_id diff_is_0_eq drop_0 drop_append length_take min_absorb2)
    then show "undo (bases_of X l) (drop (rv_changerIndex (?revs ! j)) (take ?n (log_of l)) @ drop ?n (log_of l))
        (vs ! j) (view X l)" using un[of j] that assms(2) len by simp
    show "undo (bases_of X l) (drop ?n (log_of l)) (vs ! i) (view X l)" using un assms(2) len by simp
  qed
  ultimately have "tx_inv X (?l, take i vs)"
    using X l1(2,3) len assms(2) fr(1) unfolding tx_inv_def by (simp add: fr(2-))
  then show ?thesis using \<open>RevertToSnapshot X (rv_id (?revs ! i)) l = Some ?l\<close> l1(3) fr(2) by auto
qed

lemma tx_inv_op:
  assumes "tx_inv X (l, vs)" "op_guard X op l" "run_op X op l = Some l'"
  shows "tx_inv X (l', vs)"
proof -
  from assms(1) have "ext_ok X" "lwf X l" by (simp_all add: tx_inv_def)
  from run_op_ok[OF this assms(2)] assms(3) obtain cs where t: "tx_ok X l l' cs" by auto
  then have "log_of l' = log_of l @ cs" by (simp add: tx_ok_def tx_frame_def log_of_def)
  then show ?thesis using assms(1) t
    by (auto simp: tx_inv_def tx_ok_def tx_frame_def revs_wf_def intro: undo_append)
qed

lemma tx_inv_snapshot:
  assumes "tx_inv X (l, vs)" "Snapshot l = (revid, l')"
  shows "tx_inv X (l', vs @ [view X l])"
  using assms
  by (auto simp: tx_inv_def Snapshot_def Let_def revs_wf_def log_of_def nth_append sorted_wrt_append
      less_Suc_eq) force

lemma RevertToSnapshot_index:
  assumes "revs_wf l" "RevertToSnapshot X revid l = Some l'"
  shows "\<exists>i < length (l_validRevisions l). revid = rv_id (l_validRevisions l ! i)"
proof -
  let ?revs = "l_validRevisions l"
  let ?f = "\<lambda>i. rv_id (?revs ! i) \<ge> revid"
  let ?idx = "sort_Search (length ?revs) ?f"
  have lt: "rv_id (?revs ! a) < rv_id (?revs ! b)" if "a < b" "b < length ?revs" for a b
    using assms(1) that by (simp add: revs_wf_def sorted_wrt_iff_nth_less)
  have "?f b" if "a \<le> b" "b < length ?revs" "?f a" for a b
    using lt[of a b] that by (cases "a = b") auto
  then have "?idx \<le> length ?revs" by (rule sort_Search_first(1))
  moreover have "?idx \<noteq> length ?revs" "rv_id (?revs ! ?idx) = revid"
    using assms(2) by (auto simp: RevertToSnapshot_def Let_def split: if_splits)
  ultimately show ?thesis by (intro exI[of _ ?idx]) auto
qed

lemma tx_inv_revert:
  assumes "tx_inv X (l, vs)" "RevertToSnapshot X revid l = Some l'"
  shows "tx_inv X (l', take (length (l_validRevisions l')) vs)"
proof -
  from assms(1) have "revs_wf l" by (simp add: tx_inv_def)
  from RevertToSnapshot_index[OF this assms(2)] obtain i where
    i: "i < length (l_validRevisions l)" "revid = rv_id (l_validRevisions l ! i)" by blast
  from RevertToSnapshot_valid[OF assms(1) i(1)] assms(2) i show ?thesis by auto
qed

lemma tx_inv_step: "tx_inv X s \<Longrightarrow> tx_step X s t \<Longrightarrow> tx_inv X t"
  by (erule tx_step.cases) (auto intro: tx_inv_op tx_inv_snapshot tx_inv_revert)

lemma tx_inv_initial: "tx_initial X s \<Longrightarrow> tx_inv X s"
  by (auto simp: tx_initial_def tx_inv_def revs_wf_def)

interpretation txrun: invariant_system "tx_initial X" "tx_step X" "tx_inv X"
  by unfold_locales (rule tx_inv_initial, assumption, rule tx_inv_step)

end
