(* ===== verification/Ledger_Spec.thy ===== *)
theory Ledger_Spec
  imports Ledger_Revert
begin

text \<open>
  The specification of the state ledger: what each operation of a transaction does to the view,
  and the theorem that the operations over caches, copies and logs implement it. The properties
  of reads, writes and snapshots follow.
\<close>

section \<open>The specification\<close>

definition aempty :: "aview \<Rightarrow> address \<Rightarrow> bool" where
  "aempty v a \<longleftrightarrow> av_balance v a = 0 \<and> av_nonce v a = 0 \<and> av_code v a = None \<and> \<not> av_suicided v a"

fun aspec :: "bases \<Rightarrow> evmLogs \<Rightarrow> tx_op \<Rightarrow> aview \<Rightarrow> aview" where
  "aspec B lg (OpSetBalance a x) v = (touch a v)\<lparr>av_balance := (av_balance v)(a := x)\<rparr>"
| "aspec B lg (OpSubBalance a x) v =
     (if aempty v a then touch a v
      else (touch a v)\<lparr>av_balance := (av_balance v)(a := av_balance v a - x)\<rparr>)"
| "aspec B lg (OpAddBalance a x) v = (touch a v)\<lparr>av_balance := (av_balance v)(a := av_balance v a + x)\<rparr>"
| "aspec B lg (OpSetNonce a n) v = (touch a v)\<lparr>av_nonce := (av_nonce v)(a := n)\<rparr>"
| "aspec B lg (OpSetState a k w) v = (touch a v)\<lparr>av_state := (av_state v)(a := (av_state v a)(k := w))\<rparr>"
| "aspec B lg (OpSetCode a c) v = (touch a v)\<lparr>av_code := (av_code v)(a := or_else c (b_code B a))\<rparr>"
| "aspec B lg (OpAddRefund g) v = v\<lparr>av_refund := av_refund v + g\<rparr>"
| "aspec B lg (OpSubRefund g) v = v\<lparr>av_refund := av_refund v - g\<rparr>"
| "aspec B lg (OpSuiside a) v = (touch a v)\<lparr>
     av_suicided := (av_suicided v)(a := True), av_balance := (av_balance v)(a := 0)\<rparr>"
| "aspec B lg (OpAddAddress a) v = v\<lparr>av_addrs := (av_addrs v)(a := True)\<rparr>"
| "aspec B lg (OpAddSlot a s) v = v\<lparr>av_addrs := (av_addrs v)(a := True),
     av_slots := (av_slots v)(a := (av_slots v a)(s := True))\<rparr>"
| "aspec B lg (OpAddPreimage h p) v =
     (if av_preimage v h = None then v\<lparr>av_preimage := (av_preimage v)(h := Some (content p))\<rparr> else v)"
| "aspec B lg (OpAddLog e) v = (case el_thash lg of None \<Rightarrow> v | Some h \<Rightarrow>
     v\<lparr>av_logs := (av_logs v)(h := av_logs v h @ [e\<lparr>lg_TransactionHash := Some h,
         lg_BlockHash := el_bhash lg, lg_TransactionIndex := of_int (el_txIndex lg),
         lg_LogIndex := av_logSize v\<rparr>]), av_logSize := av_logSize v + 1\<rparr>)"
| "aspec B lg (OpGetBalance a) v = touch a v"
| "aspec B lg (OpGetState a k) v = touch a v"
| "aspec B lg (OpGetCommittedState a k) v = touch a v"
| "aspec B lg (OpGetCode a) v = touch a v"
| "aspec B lg (OpGetCodeHash a) v = touch a v"
| "aspec B lg (OpGetCodeSize a) v = touch a v"
| "aspec B lg (OpGetNonce a) v = touch a v"
| "aspec B lg (OpHasSuiside a) v = touch a v"
| "aspec B lg (OpExist a) v = touch a v"
| "aspec B lg (OpEmpty a) v = touch a v"

section \<open>Refinement\<close>

text \<open>The state in which an operation has found its account.\<close>

definition found where
  "found X a l o1 l1 \<longleftrightarrow> holds X a o1 l1 \<and> view X l1 = touch a (view X l) \<and> bases_of X l1 = bases_of X l \<and>
     gget (l_accounts l1) (X_addrString X a) = Some o1"

lemma GetOrCreate_found:
  assumes "ext_ok X" "lwf X l"
  obtains o1 l1 where "GetOrCreateAccount X a l = Some (o1, l1)" "found X a l o1 l1"
proof -
  obtain o1 l1 cs where g: "GetOrCreateAccount X a l = Some (o1, l1)" "tx_ok X l l1 cs"
    "gget (l_accounts l1) (X_addrString X a) = Some o1" "view X l1 = touch a (view X l)"
    by (rule GetOrCreate_ok[OF assms])
  have lw: "lwf X l1" using g(2) by (simp add: tx_ok_def)
  then have "holds X a o1 l1" using lwf_acc[OF _ g(3) assms(1)] by (simp add: holds_def)
  then show thesis using g by (intro that[of o1 l1]) (simp_all add: found_def tx_ok_def tx_frame_def)
qed

lemma found_sel:
  assumes "found X a l o1 l1"
  shows "acc_GetBalance o1 = av_balance (view X l) a" "acc_GetNonce o1 = av_nonce (view X l) a"
    "code_of (bases_of X l) o1 = av_code (view X l) a" "state_of (bases_of X l) o1 = av_state (view X l) a"
    "sa_suicided o1 = av_suicided (view X l) a" "holds X a o1 l1"
proof -
  from assms have f: "view X l1 = touch a (view X l)" "bases_of X l1 = bases_of X l"
    "gget (l_accounts l1) (X_addrString X a) = Some o1" "holds X a o1 l1" by (simp_all add: found_def)
  note s = view_sel(2-)[OF f(3)]
  show "acc_GetBalance o1 = av_balance (view X l) a" using s(1) unfolding f(1) by (simp add: touch_def)
  show "acc_GetNonce o1 = av_nonce (view X l) a" using s(2) unfolding f(1) by (simp add: touch_def)
  show "code_of (bases_of X l) o1 = av_code (view X l) a" using s(3) unfolding f(1,2) by (simp add: touch_def)
  show "state_of (bases_of X l) o1 = av_state (view X l) a" using s(4) unfolding f(1,2) by (simp add: touch_def)
  show "sa_suicided o1 = av_suicided (view X l) a" using s(5) unfolding f(1) by (simp add: touch_def)
  show "holds X a o1 l1" by (rule f(4))
qed

text \<open>A method without log entries keeps every field of the object's view.\<close>

lemma acc_tx_same:
  assumes "ext_ok X" "acc_tx X a o1 l o2 l' []"
  shows "acc_GetBalance o2 = acc_GetBalance o1" "acc_GetNonce o2 = acc_GetNonce o1"
    "code_of (bases_of X l) o2 = code_of (bases_of X l) o1"
    "state_of (bases_of X l) o2 = state_of (bases_of X l) o1" "sa_suicided o2 = sa_suicided o1"
    "view X l' = view X l" "bases_of X l' = bases_of X l" "holds X a o2 l'"
proof -
  from assms(2) have e: "view X (put_account X a o2 l') = view X (put_account X a o1 l)"
    and f: "view X l' = view X l" "bases_of X l' = bases_of X l" "holds X a o2 l'"
    by (simp_all add: acc_tx_def tx_frame_def)
  from arg_cong[OF e, of "\<lambda>v. av_balance v a"] show "acc_GetBalance o2 = acc_GetBalance o1"
    by (simp add: view_put_account[OF assms(1)])
  from arg_cong[OF e, of "\<lambda>v. av_nonce v a"] show "acc_GetNonce o2 = acc_GetNonce o1"
    by (simp add: view_put_account[OF assms(1)])
  from arg_cong[OF e, of "\<lambda>v. av_code v a"] f(2) show "code_of (bases_of X l) o2 = code_of (bases_of X l) o1"
    by (simp add: view_put_account[OF assms(1)])
  from arg_cong[OF e, of "\<lambda>v. av_state v a"] f(2) show "state_of (bases_of X l) o2 = state_of (bases_of X l) o1"
    by (simp add: view_put_account[OF assms(1)])
  from arg_cong[OF e, of "\<lambda>v. av_suicided v a"] show "sa_suicided o2 = sa_suicided o1"
    by (simp add: view_put_account[OF assms(1)])
  show "view X l' = view X l" "bases_of X l' = bases_of X l" "holds X a o2 l'" by (rule f)+
qed

text \<open>Putting back an object whose view is known.\<close>

lemma put_found:
  assumes "ext_ok X" "found X a l o1 l1" "view X l2 = view X l1" "bases_of X l2 = bases_of X l1"
  shows "view X (put_account X a o2 l2) = (touch a (view X l))\<lparr>
    av_balance := (av_balance (view X l))(a := acc_GetBalance o2),
    av_nonce := (av_nonce (view X l))(a := acc_GetNonce o2),
    av_code := (av_code (view X l))(a := code_of (bases_of X l) o2),
    av_state := (av_state (view X l))(a := state_of (bases_of X l) o2),
    av_suicided := (av_suicided (view X l))(a := sa_suicided o2)\<rparr>"
  using assms(2-4) by (simp add: view_put_account[OF assms(1)] found_def touch_def)

lemma put_found_same:
  assumes "ext_ok X" "found X a l o1 l1" "acc_tx X a o1 l1 o2 l2 []"
  shows "view X (put_account X a o2 l2) = touch a (view X l)"
proof -
  have b: "bases_of X l1 = bases_of X l" using assms(2) by (simp add: found_def)
  note s = acc_tx_same[OF assms(1,3)]
  show ?thesis
    unfolding put_found[OF assms(1,2) s(6,7)] s(1,2) s(3,4)[unfolded b] s(5) found_sel[OF assms(2)]
    by (simp add: touch_def)
qed

section \<open>Reads\<close>

lemma GetBalance_view:
  assumes "ext_ok X" "lwf X l"
  shows "\<exists>l'. GetBalance X a l = Some (av_balance (view X l) a, l') \<and> view X l' = touch a (view X l)"
    and "\<exists>l'. GetNonce X a l = Some (av_nonce (view X l) a, l') \<and> view X l' = touch a (view X l)"
proof -
  obtain o1 l1 where g: "GetOrCreateAccount X a l = Some (o1, l1)" "found X a l o1 l1"
    by (rule GetOrCreate_found[OF assms])
  note s = found_sel[OF g(2)]
  have v: "view X l1 = touch a (view X l)" using g(2) by (simp add: found_def)
  show "\<exists>l'. GetBalance X a l = Some (av_balance (view X l) a, l') \<and> view X l' = touch a (view X l)"
    using g(1) s(1) v by (simp add: GetBalance_def)
  show "\<exists>l'. GetNonce X a l = Some (av_nonce (view X l) a, l') \<and> view X l' = touch a (view X l)"
    using g(1) s(2) v by (simp add: GetNonce_def)
qed

lemma GetState_view:
  assumes "ext_ok X" "lwf X l"
  shows "\<exists>l'. GetState X a k l = Some ((av_state (view X l) a k \<noteq> None, av_state (view X l) a k), l') \<and>
    view X l' = touch a (view X l)"
proof -
  obtain o1 l1 where g: "GetOrCreateAccount X a l = Some (o1, l1)" "found X a l o1 l1"
    by (rule GetOrCreate_found[OF assms])
  note s = found_sel[OF g(2)]
  obtain r o2 l2 where m: "acc_GetState X k o1 l1 = (r, o2, l2)" by (metis prod_cases3)
  note t = acc_GetState_tx[OF assms(1) s(6) m]
  have b: "bases_of X l1 = bases_of X l" using g(2) by (simp add: found_def)
  show ?thesis
    using g(1) m t(2) put_found_same[OF assms(1) g(2) t(1)] unfolding b s(4) by (simp add: GetState_def)
qed

lemma GetCode_view:
  assumes "ext_ok X" "lwf X l"
  shows "\<exists>l'. GetCode X a l = Some (av_code (view X l) a, l') \<and> view X l' = touch a (view X l)"
proof -
  obtain o1 l1 where g: "GetOrCreateAccount X a l = Some (o1, l1)" "found X a l o1 l1"
    by (rule GetOrCreate_found[OF assms])
  note s = found_sel[OF g(2)]
  obtain r o2 l2 where m: "acc_Code X o1 l1 = (r, o2, l2)" by (metis prod_cases3)
  note t = acc_Code_tx[OF assms(1) s(6) m]
  have b: "bases_of X l1 = bases_of X l" using g(2) by (simp add: found_def)
  show ?thesis
    using g(1) m t(2) put_found_same[OF assms(1) g(2) t(1)] unfolding b s(3) by (simp add: GetCode_def)
qed

text \<open>The operations that first test whether the account is empty.\<close>

lemma IsEmpty_found:
  assumes "ext_ok X" "lwf X l"
  obtains o1 l1 o2 l2 where "GetOrCreateAccount X a l = Some (o1, l1)" "found X a l o1 l1"
    "acc_IsEmpty X o1 l1 = (aempty (view X l) a, o2, l2)" "acc_tx X a o1 l1 o2 l2 []"
proof -
  obtain o1 l1 where g: "GetOrCreateAccount X a l = Some (o1, l1)" "found X a l o1 l1"
    by (rule GetOrCreate_found[OF assms])
  note s = found_sel[OF g(2)]
  obtain e o2 l2 where m: "acc_IsEmpty X o1 l1 = (e, o2, l2)" by (metis prod_cases3)
  note t = acc_IsEmpty_tx[OF assms(1) s(6) m]
  have b: "bases_of X l1 = bases_of X l" using g(2) by (simp add: found_def)
  have "e = aempty (view X l) a" using t(2) unfolding b s by (simp add: aempty_def)
  then show thesis using g m t(1) by (intro that[of o1 l1 o2 l2]) simp_all
qed

lemma Empty_view:
  assumes "ext_ok X" "lwf X l"
  shows "\<exists>l'. Empty X a l = Some (aempty (view X l) a, l') \<and> view X l' = touch a (view X l)"
    and "\<exists>l'. Exist X a l = Some (\<not> aempty (view X l) a, l') \<and> view X l' = touch a (view X l)"
    and "\<exists>l'. HasSuiside X a l = Some (False, l') \<and> view X l' = touch a (view X l)"
    and "\<exists>h l'. GetCodeHash X a l = Some (h, l') \<and> view X l' = touch a (view X l)"
proof -
  obtain o1 l1 o2 l2 where g: "GetOrCreateAccount X a l = Some (o1, l1)" "found X a l o1 l1"
    "acc_IsEmpty X o1 l1 = (aempty (view X l) a, o2, l2)" "acc_tx X a o1 l1 o2 l2 []"
    by (rule IsEmpty_found[OF assms])
  note v = put_found_same[OF assms(1) g(2,4)]
  show "\<exists>l'. Empty X a l = Some (aempty (view X l) a, l') \<and> view X l' = touch a (view X l)"
    using g v by (simp add: Empty_def)
  show "\<exists>l'. Exist X a l = Some (\<not> aempty (view X l) a, l') \<and> view X l' = touch a (view X l)"
    using g v by (simp add: Exist_def)
  show "\<exists>l'. HasSuiside X a l = Some (False, l') \<and> view X l' = touch a (view X l)"
    using g v by (simp add: HasSuiside_def acc_Suicided_def)
  show "\<exists>h l'. GetCodeHash X a l = Some (h, l') \<and> view X l' = touch a (view X l)"
    using g v by (simp add: GetCodeHash_def)
qed

lemma GetCodeSize_view:
  assumes "ext_ok X" "lwf X l"
  shows "\<exists>l'. GetCodeSize X a l = Some (case av_code (view X l) a of Some c \<Rightarrow> length c | None \<Rightarrow> 0, l') \<and>
      view X l' = touch a (view X l)"
    and "\<exists>r l'. GetCommittedState X a k l = Some (r, l') \<and> view X l' = touch a (view X l)"
proof -
  obtain o1 l1 o2 l2 where g: "GetOrCreateAccount X a l = Some (o1, l1)" "found X a l o1 l1"
    "acc_IsEmpty X o1 l1 = (aempty (view X l) a, o2, l2)" "acc_tx X a o1 l1 o2 l2 []"
    by (rule IsEmpty_found[OF assms])
  note s = found_sel[OF g(2)] and e = acc_tx_same[OF assms(1) g(4)]
  have b: "bases_of X l1 = bases_of X l" using g(2) by (simp add: found_def)
  obtain c o3 l3 where m: "acc_Code X o2 l2 = (c, o3, l3)" by (metis prod_cases3)
  note t = acc_Code_tx[OF assms(1) e(8) m]
  obtain r o4 l4 where n: "acc_GetCommittedState X k o2 l2 = (r, o4, l4)" by (metis prod_cases3)
  note u = acc_GetCommittedState_tx[OF assms(1) e(8) n]
  have c: "c = av_code (view X l) a" using t(2) e(3,7) s(3) b by simp
  have v: "view X (put_account X a o2 l2) = touch a (view X l)" "view X (put_account X a o3 l3) = touch a (view X l)"
    "view X (put_account X a o4 l4) = touch a (view X l)"
    using put_found_same[OF assms(1) g(2,4)] put_found_same[OF assms(1) g(2) acc_tx_trans[OF g(4) t(1), simplified]]
      put_found_same[OF assms(1) g(2) acc_tx_trans[OF g(4) u, simplified]] by simp_all
  show "\<exists>l'. GetCodeSize X a l = Some (case av_code (view X l) a of Some c \<Rightarrow> length c | None \<Rightarrow> 0, l') \<and>
      view X l' = touch a (view X l)"
    using g v m c by (cases "aempty (view X l) a") (simp_all add: GetCodeSize_def aempty_def)
  show "\<exists>r l'. GetCommittedState X a k l = Some (r, l') \<and> view X l' = touch a (view X l)"
    using g v n by (cases "aempty (view X l) a") (simp_all add: GetCommittedState_def)
qed

section \<open>Writes\<close>

lemma append_change_view [simp]:
  "view X (append_change c ch l) = view X l" "bases_of X (append_change c ch l) = bases_of X l"
  "l_logs (append_change c ch l) = l_logs l"
  by (simp_all add: append_change_def)

lemma SetBalance_view:
  assumes "ext_ok X" "lwf X l"
  shows "\<exists>l'. SetBalance X a x l = Some l' \<and>
      view X l' = (touch a (view X l))\<lparr>av_balance := (av_balance (view X l))(a := x)\<rparr>"
    and "\<exists>l'. AddBalance X a x l = Some l' \<and>
      view X l' = (touch a (view X l))\<lparr>av_balance := (av_balance (view X l))(a := av_balance (view X l) a + x)\<rparr>"
    and "\<exists>l'. SetNonce X a n l = Some l' \<and>
      view X l' = (touch a (view X l))\<lparr>av_nonce := (av_nonce (view X l))(a := n)\<rparr>"
proof -
  obtain o1 l1 where g: "GetOrCreateAccount X a l = Some (o1, l1)" "found X a l o1 l1"
    by (rule GetOrCreate_found[OF assms])
  note s = found_sel[OF g(2)] and q = setter_sel[OF assms(1)]
  have bal: "view X (put_account X a (acc_setBalance X y o1) (append_change c ch l1))
      = (touch a (view X l))\<lparr>av_balance := (av_balance (view X l))(a := y)\<rparr>" for y c ch
    unfolding put_found[OF assms(1) g(2) append_change_view(1,2)] q using s by (simp add: touch_def)
  have nonce: "view X (put_account X a (acc_setNonce X n o1) (append_change c ch l1))
      = (touch a (view X l))\<lparr>av_nonce := (av_nonce (view X l))(a := n)\<rparr>" for c ch
    unfolding put_found[OF assms(1) g(2) append_change_view(1,2)] q using s by (simp add: touch_def)
  have same: "view X (put_account X a o1 l1) = touch a (view X l)"
    by (rule put_found_same[OF assms(1) g(2) acc_tx_refl[OF s(6)]])
  show "\<exists>l'. SetBalance X a x l = Some l' \<and>
      view X l' = (touch a (view X l))\<lparr>av_balance := (av_balance (view X l))(a := x)\<rparr>"
    using g(1) bal by (simp add: SetBalance_def acc_SetBalance_eq)
  show "\<exists>l'. AddBalance X a x l = Some l' \<and>
      view X l' = (touch a (view X l))\<lparr>av_balance := (av_balance (view X l))(a := av_balance (view X l) a + x)\<rparr>"
    using g(1) bal s(1) same by (simp add: AddBalance_def acc_AddBalance_def acc_SetBalance_eq touch_def)
  show "\<exists>l'. SetNonce X a n l = Some l' \<and>
      view X l' = (touch a (view X l))\<lparr>av_nonce := (av_nonce (view X l))(a := n)\<rparr>"
    using g(1) nonce by (simp add: SetNonce_def acc_SetNonce_eq)
qed

lemma SubBalance_view:
  assumes "ext_ok X" "lwf X l"
  shows "\<exists>l'. SubBalance X a x l = Some l' \<and> view X l' =
     (if aempty (view X l) a then touch a (view X l)
      else (touch a (view X l))\<lparr>av_balance := (av_balance (view X l))(a := av_balance (view X l) a - x)\<rparr>)"
proof -
  obtain o1 l1 o2 l2 where g: "GetOrCreateAccount X a l = Some (o1, l1)" "found X a l o1 l1"
    "acc_IsEmpty X o1 l1 = (aempty (view X l) a, o2, l2)" "acc_tx X a o1 l1 o2 l2 []"
    by (rule IsEmpty_found[OF assms])
  note v = put_found_same[OF assms(1) g(2,4)]
  note s = found_sel[OF g(2)] and e = acc_tx_same[OF assms(1) g(4)]
  have b: "bases_of X l1 = bases_of X l" using g(2) by (simp add: found_def)
  have "view X (put_account X a (acc_setBalance X y o2) (append_change c ch l2))
      = (touch a (view X l))\<lparr>av_balance := (av_balance (view X l))(a := y)\<rparr>" for y c ch
    using put_found[OF assms(1) g(2), of "append_change c ch l2"] e b s setter_sel[OF assms(1)]
    by (simp add: touch_def)
  then show ?thesis
    using g v s(1) e(1) by (simp add: SubBalance_def acc_SubBalance_def acc_SetBalance_eq touch_def)
qed

lemma SetState_view:
  assumes "ext_ok X" "lwf X l"
  shows "\<exists>l'. SetState X a k w None l = Some l' \<and>
      view X l' = (touch a (view X l))\<lparr>av_state := (av_state (view X l))(a := (av_state (view X l) a)(k := w))\<rparr>"
proof -
  obtain o1 l1 where g: "GetOrCreateAccount X a l = Some (o1, l1)" "found X a l o1 l1"
    by (rule GetOrCreate_found[OF assms])
  note s = found_sel[OF g(2)]
  have b: "bases_of X l1 = bases_of X l" using g(2) by (simp add: found_def)
  obtain r o2 l2 where m: "acc_GetState X k o1 l1 = (r, o2, l2)" by (metis prod_cases3)
  note t = acc_GetState_tx[OF assms(1) s(6) m]
  note e = acc_tx_same[OF assms(1) t(1)]
  have "view X (put_account X a (acc_setState k w o2) (append_change c ch l2))
      = (touch a (view X l))\<lparr>av_state := (av_state (view X l))(a := (av_state (view X l) a)(k := w))\<rparr>" for c ch
    using put_found[OF assms(1) g(2), of "append_change c ch l2"] e b s by (simp add: touch_def)
  then show ?thesis using g(1) m t(2) by (simp add: SetState_def acc_SetState_def acc_setState_def)
qed

lemma SetCode_view:
  assumes "ext_ok X" "lwf X l"
  shows "\<exists>l'. SetCode X a c l = Some l' \<and>
      view X l' = (touch a (view X l))\<lparr>av_code := (av_code (view X l))(a := or_else c (b_code (bases_of X l) a))\<rparr>"
proof -
  obtain o1 l1 where g: "GetOrCreateAccount X a l = Some (o1, l1)" "found X a l o1 l1"
    by (rule GetOrCreate_found[OF assms])
  note s = found_sel[OF g(2)] and q = setter_sel(7,8)[OF assms(1)]
  have b: "bases_of X l1 = bases_of X l" using g(2) by (simp add: found_def)
  obtain r o2 l2 where m: "acc_Code X o1 l1 = (r, o2, l2)" by (metis prod_cases3)
  note t = acc_Code_tx[OF assms(1) s(6) m]
  note e = acc_tx_same[OF assms(1) t(1)]
  have wf: "acc_wf (bases_of X l) (l_changer l2) o2" "sa_Addr o2 = a"
    using e(7,8) b by (simp_all add: holds_def)
  have c: "code_of (bases_of X l) (acc_setCodeAndHash X c o2) = or_else c (b_code (bases_of X l) a)"
    using wf by (cases c) (auto simp: code_of_def acc_setCodeAndHash_def acc_wf_def or_else_def split: option.splits)
  have "view X (put_account X a (acc_setCodeAndHash X c o2) (append_change d ch l2))
      = (touch a (view X l))\<lparr>av_code := (av_code (view X l))(a := or_else c (b_code (bases_of X l) a))\<rparr>" for d ch
    using put_found[OF assms(1) g(2), of "append_change d ch l2"] e b s q c by (simp add: touch_def)
  then show ?thesis
    using g(1) m by (simp add: SetCode_def acc_SetCodeAndHash_def acc_setCodeAndHash_def Let_def)
qed

lemma Suiside_view:
  assumes X: "ext_ok X" "lwf X l" "av_exists (view X l) a"
  shows "\<exists>l'. Suiside X a l = Some (True, l') \<and> view X l' = (touch a (view X l))\<lparr>
     av_suicided := (av_suicided (view X l))(a := True), av_balance := (av_balance (view X l))(a := 0)\<rparr>"
proof -
  obtain r acs ac where r:
    "GetAccount X a l = Some (r, l\<lparr>l_accountCache := ac, l_accounts := acs\<rparr>)"
    "same_cache X (l_accountCache l) ac" "gget acs (X_addrString X a) = r"
    "lwf X (l\<lparr>l_accountCache := ac, l_accounts := acs\<rparr>)"
    "view X (l\<lparr>l_accountCache := ac, l_accounts := acs\<rparr>) = view X l"
    "r = None \<longleftrightarrow> \<not> av_exists (view X l) a"
    by (rule GetAccount_spec[OF assms(1,2), of a])
  let ?l = "l\<lparr>l_accountCache := ac, l_accounts := acs\<rparr>"
  from r(6) assms(3) obtain o1 where o1: "r = Some o1" by auto
  have "touch a (view X l) = view X l" using X(3) by (simp add: touch_def fun_upd_same)
  then have f: "found X a l o1 ?l"
    using lwf_acc[OF r(4) _ X(1), of a o1] r(3,4,5) o1 same_cache_base[OF r(2)]
    by (simp add: found_def holds_def)
  note s = found_sel[OF f]
  have "view X (put_account X a (acc_setBalance X 0 (o1\<lparr>sa_suicided := True\<rparr>))
      (append_change c ch (append_change c' ch' ?l))) = (touch a (view X l))\<lparr>
     av_suicided := (av_suicided (view X l))(a := True), av_balance := (av_balance (view X l))(a := 0)\<rparr>" for c ch c' ch'
    using put_found[OF X(1) f, of "append_change c ch (append_change c' ch' ?l)"] s setter_sel[OF X(1)]
    by (simp add: touch_def)
  then show ?thesis
    using r(1) o1 by (simp add: Suiside_def acc_SetSuicided_def acc_SetBalance_eq)
qed

theorem run_op_refines:
  assumes "ext_ok X" "lwf X l" "op_guard X op l"
  shows "\<exists>l'. run_op X op l = Some l' \<and> view X l' = aspec (bases_of X l) (l_logs l) op (view X l)"
proof (cases op)
  case (OpAddAddress a)
  obtain b al where s: "al_AddAddress (X_access X) a (l_accessList l) = (b, al)" by fastforce
  show ?thesis using access_okD(3)[OF ext_okD(5)[OF assms(1)] s]
    by (simp add: OpAddAddress AddAddressToAccessList_def s view_rest_update view_rest Let_def)
next
  case (OpAddSlot a t)
  obtain b c al where s: "al_AddSlot (X_access X) a t (l_accessList l) = ((b, c), al)" by (metis prod.collapse)
  show ?thesis using access_okD(4)[OF ext_okD(5)[OF assms(1)] s]
    by (simp add: OpAddSlot AddSlotToAccessList_def s view_rest_update view_rest Let_def)
next
  case (OpAddPreimage h p)
  then show ?thesis
    by (cases "gget (l_preimages l) h") (simp_all add: AddPreimage_def Let_def append_change_def view_rest_update view_rest update_conv')
next
  case (OpAddLog e)
  with assms(3) obtain h where "el_thash (l_logs l) = Some h" by auto
  then show ?thesis by (simp add: OpAddLog AddLog_def Let_def view_rest_update view_rest append_change_def)
next
  case (OpSuiside a)
  then show ?thesis using Suiside_view[OF assms(1,2), of a] assms(3) by auto
next
  case (OpGetCodeHash a)
  then show ?thesis using Empty_view(4)[OF assms(1,2), of a] by auto
next
  case (OpGetCommittedState a k)
  then show ?thesis using GetCodeSize_view(2)[OF assms(1,2), of a k] by auto
qed (use assms(3) GetBalance_view[OF assms(1,2)] GetState_view[OF assms(1,2)] GetCode_view[OF assms(1,2)]
      Empty_view(1-3)[OF assms(1,2)] GetCodeSize_view(1)[OF assms(1,2)] SetBalance_view[OF assms(1,2)]
      SubBalance_view[OF assms(1,2)] SetState_view[OF assms(1,2)] SetCode_view[OF assms(1,2)] in
    \<open>fastforce simp: AddRefund_def SubRefund_def view_rest_update view_rest Let_def append_change_def\<close>)+

end
