(* ===== verification/Ledger_Journal.thy ===== *)
theory Ledger_Journal
  imports Ledger_View
begin

text \<open>
  Blocks. Flushing the dirty accounts writes a journal of the values they had before; committing
  writes the new values; rolling back applies the journal. The lemmas say that the journal holds,
  for every key the commit writes, the value the store had, so that a rollback undoes a commit,
  and that the journals that are kept form a window of heights.
\<close>

lemma in_range: "runtime_ok E \<Longrightarrow> (k, v) \<in> set (go_range (rt_order E i) m) \<longleftrightarrow> gget m k = Some v"
  using set_go_range[OF runtime_ok_order[of E i], of m] by simp

section \<open>The journal of one account\<close>

definition orig_val :: "simpleAccount \<Rightarrow> string \<Rightarrow> slice" where
  "orig_val o1 k = (case gget (sa_originState o1) k of Some v \<Rightarrow> v | None \<Rightarrow> None)"

lemma orig_val_update [simp]:
  "orig_val (o1\<lparr>sa_originCode := c\<rparr>) = orig_val o1" "orig_val (o1\<lparr>sa_dirtyStateHash := h\<rparr>) = orig_val o1"
  by (simp_all add: orig_val_def fun_eq_iff)

lemma stateJournal_fold:
  fixes o1 kvs m0 ks0 m
  assumes "fold (stateJournal_one o1) kvs (m0, ks0) = (m, ks)"
  shows "gget m k = (if \<exists>v. (k, v) \<in> set kvs \<and> \<not> bytes_Equal (orig_val o1 k) v
    then Some (orig_val o1 k) else gget m0 k)"
  using assms
proof (induction kvs arbitrary: m0 ks0)
  case Nil
  then show ?case by simp
next
  case (Cons kv kvs)
  obtain k' v' where kv: "kv = (k', v')" by fastforce
  have s: "stateJournal_one o1 (k', v') (m0, ks0) =
      (if \<not> bytes_Equal (orig_val o1 k') v' then (gset k' (orig_val o1 k') m0, ks0 @ [k']) else (m0, ks0))"
    by (simp add: stateJournal_one_def orig_val_def)
  show ?case
  proof (cases "bytes_Equal (orig_val o1 k') v'")
    case True
    then show ?thesis using Cons.IH[of m0 ks0] Cons.prems by (auto simp: kv s)
  next
    case False
    then show ?thesis using Cons.IH[of "gset k' (orig_val o1 k') m0" "ks0 @ [k']"] Cons.prems by (auto simp: kv s)
  qed
qed

lemma stateJournal_spec:
  assumes "runtime_ok E" "getStateJournalAndComputeHash X E o1 = (m, o2)"
  shows "gget m k = (case gget (sa_dirtyState o1) k of
      Some v \<Rightarrow> if \<not> bytes_Equal (orig_val o1 k) v then Some (orig_val o1 k) else None | None \<Rightarrow> None)"
    "\<exists>h. o2 = o1\<lparr>sa_dirtyStateHash := Some h\<rparr>"
proof -
  obtain m' ks where f: "fold (stateJournal_one o1) (go_range (rt_order E 24) (sa_dirtyState o1)) ([], []) = (m', ks)"
    by fastforce
  from assms(2) f show "\<exists>h. o2 = o1\<lparr>sa_dirtyStateHash := Some h\<rparr>"
    by (auto simp: getStateJournalAndComputeHash_def Let_def)
  have "m = m'" using assms(2) f by (simp add: getStateJournalAndComputeHash_def Let_def)
  moreover note stateJournal_fold[OF f, of k]
  ultimately show "gget m k = (case gget (sa_dirtyState o1) k of
      Some v \<Rightarrow> if \<not> bytes_Equal (orig_val o1 k) v then Some (orig_val o1 k) else None | None \<Rightarrow> None)"
    using set_go_range[OF runtime_ok_order[OF assms(1)], of 24 "sa_dirtyState o1"]
    by (auto split: option.splits)
qed

text \<open>
  What the round trip needs of an account: it is well-formed over the store (not over a cache that
  runs ahead of it), and the previous value of every dirty key was read.
\<close>

definition db_bases where
  "db_bases X ldb = base_of X (NewAccountCache X) ldb"

definition tracked :: "simpleAccount \<Rightarrow> bool" where
  "tracked o1 \<longleftrightarrow> (\<forall>k. gget (sa_dirtyState o1) k \<noteq> None \<longrightarrow> gget (sa_originState o1) k \<noteq> None)"

definition ascii_keys :: "simpleAccount \<Rightarrow> bool" where
  "ascii_keys o1 \<longleftrightarrow> (\<forall>k \<in> set (keys (sa_dirtyState o1)). \<forall>c \<in> set k. (of_char c :: nat) < 128)"

definition db_wf where
  "db_wf X ldb \<longleftrightarrow>
     (\<forall>a d. db_Get (X_db X) ldb (account_key X a) = Some d \<longrightarrow> (\<exists>ia. X_marshal X ia = Some d)) \<and>
     (\<forall>a. (case b_inner (db_bases X ldb) a of None \<Rightarrow> True | Some ia \<Rightarrow> content (ia_CodeHash ia) = [])
        \<longrightarrow> b_code (db_bases X ldb) a = None)"

lemma db_bases_sel:
  assumes "ext_ok X"
  shows "b_inner (db_bases X ldb) a = (case db_Get (X_db X) ldb (account_key X a) of
      None \<Rightarrow> None | Some d \<Rightarrow> X_unmarshal X d)"
    "b_code (db_bases X ldb) a = db_Get (X_db X) ldb (code_key X a)"
    "b_state (db_bases X ldb) a k = db_Get (X_db X) ldb (composeStateKey a k)"
proof -
  have "peek (X_accounts X) (lru_New (X_accounts X)) s = None" "peek (X_states X) (lru_New (X_states X)) s = None"
    "peek (X_bytes X) (lru_New (X_bytes X)) s = None" for s
    using ext_okD(2-4)[OF assms] by (simp_all add: lru_ok_def)
  then show "b_inner (db_bases X ldb) a = (case db_Get (X_db X) ldb (account_key X a) of
      None \<Rightarrow> None | Some d \<Rightarrow> X_unmarshal X d)"
    "b_code (db_bases X ldb) a = db_Get (X_db X) ldb (code_key X a)"
    "b_state (db_bases X ldb) a k = db_Get (X_db X) ldb (composeStateKey a k)"
    by (simp_all add: db_bases_def base_of_def NewAccountCache_def cached_inner_def cached_code_def cached_state_def)
qed

lemma db_inner_None:
  assumes "ext_ok X" "db_wf X ldb"
  shows "b_inner (db_bases X ldb) a = None \<longleftrightarrow> db_Get (X_db X) ldb (account_key X a) = None"
proof (cases "db_Get (X_db X) ldb (account_key X a)")
  case None
  then show ?thesis by (simp add: db_bases_sel[OF assms(1)])
next
  case (Some d)
  then obtain ia where "X_marshal X ia = Some d" using assms(2) unfolding db_wf_def by blast
  then have "X_unmarshal X d = Some ia" using ext_okD(9)[OF assms(1)] unfolding codec_ok_def
    by (metis option.inject)
  with Some show ?thesis by (simp add: db_bases_sel[OF assms(1)])
qed

lemma db_inner_Some:
  assumes "ext_ok X" "db_wf X ldb" "b_inner (db_bases X ldb) a = Some ia" "X_marshal X ia = Some d"
  shows "db_Get (X_db X) ldb (account_key X a) = Some d"
proof -
  from assms(3) obtain d' where d: "db_Get (X_db X) ldb (account_key X a) = Some d'" "X_unmarshal X d' = Some ia"
    by (auto simp: db_bases_sel[OF assms(1)] split: option.splits)
  then obtain ia' where m: "X_marshal X ia' = Some d'" using assms(2) unfolding db_wf_def by blast
  then have "X_unmarshal X d' = Some ia'" using ext_okD(9)[OF assms(1)] unfolding codec_ok_def
    by (metis option.inject)
  then show ?thesis using d m assms(4) by simp
qed

text \<open>The journal entry of an account, spelled out.\<close>

lemma getJournal_spec:
  assumes "ext_ok X" "runtime_ok E" "db_wf X ldb" "acc_wf (db_bases X ldb) c o1"
    "getJournalIfModified X E ldb o1 = (j, o2)"
  obtains h m where
    "o2 = o1\<lparr>sa_originCode := b_code (db_bases X ldb) (sa_Addr o1), sa_dirtyStateHash := Some h\<rparr>"
    "\<And>k. gget m k = (case gget (sa_dirtyState o1) k of
      Some v \<Rightarrow> if \<not> bytes_Equal (orig_val o1 k) v then Some (orig_val o1 k) else None | None \<Rightarrow> None)"
    "j = (let ac = X_changed X (sa_originAccount o1) (sa_dirtyAccount o1);
              cc = (\<not> bytes_Equal (b_code (db_bases X ldb) (sa_Addr o1)) (sa_dirtyCode o1))
          in if ac \<or> cc \<or> m \<noteq> []
             then Some \<lparr>je_Address = sa_Addr o1, je_PrevAccount = (if ac then sa_originAccount o1 else None),
               je_AccountChanged = ac, je_PrevStates = m,
               je_PrevCode = (if cc then b_code (db_bases X ldb) (sa_Addr o1) else None), je_CodeChanged = cc\<rparr>
             else None)"
proof -
  let ?B = "db_bases X ldb" and ?a = "sa_Addr o1"
  have wf: "sa_originAccount o1 = b_inner ?B ?a" "sa_originCode o1 \<in> {None, b_code ?B ?a}"
    using assms(4) by (auto simp: acc_wf_def)
  let ?o = "if sa_originCode o1 = None \<and>
      \<not> (case sa_originAccount o1 of None \<Rightarrow> True | Some a \<Rightarrow> ia_CodeHash a = None)
    then o1\<lparr>sa_originCode := db_Get (X_db X) ldb (code_key X ?a)\<rparr> else o1"
  have nocode: "b_code ?B ?a = None"
    if "case sa_originAccount o1 of None \<Rightarrow> True | Some a \<Rightarrow> ia_CodeHash a = None"
  proof -
    have "case b_inner ?B ?a of None \<Rightarrow> True | Some ia \<Rightarrow> content (ia_CodeHash ia) = []"
      using that unfolding wf(1) by (auto split: option.splits)
    then show ?thesis using assms(3) unfolding db_wf_def by blast
  qed
  have o: "?o = o1\<lparr>sa_originCode := b_code ?B ?a\<rparr>"
  proof (cases "sa_originCode o1 = None")
    case True
    then show ?thesis using nocode db_bases_sel(2)[OF assms(1), of ldb ?a]
      by (cases "case sa_originAccount o1 of None \<Rightarrow> True | Some a \<Rightarrow> ia_CodeHash a = None")
        (simp_all del: db_bases_sel)
  next
    case False
    then show ?thesis using wf(2) by auto
  qed
  obtain m o3 where s: "getStateJournalAndComputeHash X E ?o = (m, o3)" by fastforce
  note sp = stateJournal_spec[OF assms(2) s[unfolded o]]
  from sp(2) obtain h where h: "o3 = o1\<lparr>sa_originCode := b_code ?B ?a, sa_dirtyStateHash := Some h\<rparr>" by auto
  show thesis
  proof (rule that[of h m])
    show "o2 = o1\<lparr>sa_originCode := b_code ?B ?a, sa_dirtyStateHash := Some h\<rparr>"
      using assms(5) s h unfolding getJournalIfModified_def Let_def o by simp
    show "gget m k = (case gget (sa_dirtyState o1) k of
      Some v \<Rightarrow> if \<not> bytes_Equal (orig_val o1 k) v then Some (orig_val o1 k) else None | None \<Rightarrow> None)" for k
      using sp(1)[of k] unfolding orig_val_update by simp
    show "j = (let ac = X_changed X (sa_originAccount o1) (sa_dirtyAccount o1);
              cc = (\<not> bytes_Equal (b_code ?B ?a) (sa_dirtyCode o1))
          in if ac \<or> cc \<or> m \<noteq> []
             then Some \<lparr>je_Address = ?a, je_PrevAccount = (if ac then sa_originAccount o1 else None),
               je_AccountChanged = ac, je_PrevStates = m,
               je_PrevCode = (if cc then b_code ?B ?a else None), je_CodeChanged = cc\<rparr>
             else None)"
      using assms(5) s h unfolding getJournalIfModified_def Let_def o by auto
  qed
qed

text \<open>The batches of a journal entry and of the commit of an account, as lists of writes.\<close>

definition state_op :: "address \<Rightarrow> string \<times> slice \<Rightarrow> batch_op" where
  "state_op a = (\<lambda>(key, val). case val of
     Some v \<Rightarrow> Put (composeStateKey a key) v | None \<Rightarrow> Delete (composeStateKey a key))"

lemma state_op_sel [simp]: "op_key (state_op a (k, v)) = composeStateKey a k" "op_value (state_op a (k, v)) = v"
  by (simp_all add: state_op_def split: option.split)

definition undo_ops where
  "undo_ops X E a ac prev m cc prevCode =
     (if ac then [case prev of Some d \<Rightarrow> Put (account_key X a) d | None \<Rightarrow> Delete (account_key X a)] else []) @
     map (state_op a) (go_range (rt_order E 25) m) @
     (if cc then [case prevCode of Some c \<Rightarrow> Put (code_key X a) c | None \<Rightarrow> Delete (code_key X a)] else [])"

lemma revertJournal_ops:
  assumes "\<And>ia. je_PrevAccount j = Some ia \<Longrightarrow> \<exists>d. X_marshal X ia = Some d"
  shows "revertJournal X E j bs = Some (bs @ undo_ops X E (je_Address j) (je_AccountChanged j)
    (case je_PrevAccount j of None \<Rightarrow> None | Some ia \<Rightarrow> X_marshal X ia) (je_PrevStates j)
    (je_CodeChanged j) (je_PrevCode j))"
proof (cases "je_PrevAccount j")
  case None
  then show ?thesis by (simp add: revertJournal_def undo_ops_def state_op_def Let_def split: option.split)
next
  case (Some ia)
  with assms obtain d where "X_marshal X ia = Some d" by blast
  with Some show ?thesis by (simp add: revertJournal_def undo_ops_def state_op_def Let_def split: option.split)
qed

lemma marshal_total: "ext_ok X \<Longrightarrow> \<exists>d. X_marshal X ia = Some d \<and> X_unmarshal X d = Some ia"
  using ext_okD(9)[of X] by (simp add: codec_ok_def)

lemma tracked_orig:
  assumes "acc_wf B c o1" "tracked o1" "gget (sa_dirtyState o1) k \<noteq> None"
  shows "orig_val o1 k = b_state B (sa_Addr o1) k"
  using assms by (auto simp: tracked_def acc_wf_def orig_val_def)

text \<open>
  For an account that is journaled: the entry undoes, on every key the commit of the account
  writes, to the value of the store.
\<close>

definition undoes where
  "undoes X ldb a B R \<longleftrightarrow> op_key ` set B \<subseteq> op_key ` set R \<and>
     (\<forall>b \<in> set R. op_value b = db_Get (X_db X) ldb (op_key b)) \<and>
     (\<forall>b \<in> set R. op_key b \<in> {account_key X a, code_key X a} \<union> range (composeStateKey a))"

lemma undo_ops_values:
  assumes "ext_ok X" "runtime_ok E" "db_wf X ldb" "acc_wf (db_bases X ldb) c o1" "tracked o1"
    and m: "\<And>k. gget m k = (case gget (sa_dirtyState o1) k of
      Some v \<Rightarrow> if \<not> bytes_Equal (orig_val o1 k) v then Some (orig_val o1 k) else None | None \<Rightarrow> None)"
    and b: "b \<in> set (undo_ops X E (sa_Addr o1) ac
      (case sa_originAccount o1 of None \<Rightarrow> None | Some ia \<Rightarrow> X_marshal X ia) m cc (b_code (db_bases X ldb) (sa_Addr o1)))"
  shows "op_value b = db_Get (X_db X) ldb (op_key b)"
    "op_key b \<in> {account_key X (sa_Addr o1), code_key X (sa_Addr o1)} \<union> range (composeStateKey (sa_Addr o1))"
proof -
  let ?B = "db_bases X ldb" and ?a = "sa_Addr o1"
  have oa: "sa_originAccount o1 = b_inner ?B ?a" using assms(4) by (simp add: acc_wf_def)
  consider (acc) "b = (case (case sa_originAccount o1 of None \<Rightarrow> None | Some ia \<Rightarrow> X_marshal X ia) of
        Some d \<Rightarrow> Put (account_key X ?a) d | None \<Rightarrow> Delete (account_key X ?a))"
    | (code) "b = (case b_code ?B ?a of Some c \<Rightarrow> Put (code_key X ?a) c | None \<Rightarrow> Delete (code_key X ?a))"
    | (st) k v where "gget m k = Some v" "b = state_op ?a (k, v)"
    using b by (auto simp: undo_ops_def in_range[OF assms(2)] split: if_splits)
  then have "op_value b = db_Get (X_db X) ldb (op_key b) \<and>
    op_key b \<in> {account_key X ?a, code_key X ?a} \<union> range (composeStateKey ?a)"
  proof cases
    case acc
    show ?thesis
    proof (cases "b_inner ?B ?a")
      case None
      moreover from None have "db_Get (X_db X) ldb (account_key X ?a) = None"
        unfolding db_inner_None[OF assms(1,3)] .
      ultimately show ?thesis using acc oa by simp
    next
      case (Some ia)
      obtain d where d: "X_marshal X ia = Some d" using marshal_total[OF assms(1)] by blast
      then show ?thesis using acc oa Some db_inner_Some[OF assms(1,3) Some d] by simp
    qed
  next
    case code
    then show ?thesis using db_bases_sel(2)[OF assms(1), of ldb ?a] by (simp split: option.splits)
  next
    case st
    then have d: "gget (sa_dirtyState o1) k \<noteq> None" and v: "v = orig_val o1 k"
      using m[of k] by (auto split: option.splits if_splits)
    have "v = db_Get (X_db X) ldb (composeStateKey ?a k)"
      using tracked_orig[OF assms(4,5) d] v db_bases_sel(3)[OF assms(1)] by simp
    then show ?thesis using st(2) by auto
  qed
  then show "op_value b = db_Get (X_db X) ldb (op_key b)"
    "op_key b \<in> {account_key X ?a, code_key X ?a} \<union> range (composeStateKey ?a)" by simp_all
qed

lemma commit_code_ops:
  assumes "ext_ok X" "db_wf X ldb" "acc_wf (db_bases X ldb) c o1"
    "o2 = o1\<lparr>sa_originCode := b_code (db_bases X ldb) (sa_Addr o1), sa_dirtyStateHash := h\<rparr>"
  obtains b where "commit_code X o2 = Some b"
    "op_key ` set b \<subseteq> (if \<not> bytes_Equal (b_code (db_bases X ldb) (sa_Addr o1)) (sa_dirtyCode o1)
       then {code_key X (sa_Addr o1)} else {})"
proof -
  let ?B = "db_bases X ldb" and ?a = "sa_Addr o1"
  have "b_code ?B ?a = None" if "sa_originAccount o1 = None"
  proof -
    have "b_inner ?B ?a = None" using assms(3) that by (simp add: acc_wf_def)
    then show ?thesis using assms(2) unfolding db_wf_def by (metis option.simps(4))
  qed
  then have "\<exists>b. commit_code X o2 = Some b \<and> op_key ` set b \<subseteq>
      (if \<not> bytes_Equal (b_code ?B ?a) (sa_dirtyCode o1) then {code_key X ?a} else {})"
    unfolding assms(4)
    by (cases "sa_dirtyCode o1"; cases "sa_dirtyAccount o1"; cases "sa_originAccount o1")
      (auto simp: commit_code_def)
  then show thesis using that by blast
qed

lemma commit_account_ops:
  assumes "ext_ok X" "runtime_ok E" "db_wf X ldb" "acc_wf (db_bases X ldb) c o1"
    "o2 = o1\<lparr>sa_originCode := b_code (db_bases X ldb) (sa_Addr o1), sa_dirtyStateHash := h\<rparr>"
    and m: "\<And>k. gget m k = (case gget (sa_dirtyState o1) k of
      Some v \<Rightarrow> if \<not> bytes_Equal (orig_val o1 k) v then Some (orig_val o1 k) else None | None \<Rightarrow> None)"
  obtains B where "commit_account X E ldb o2 = Some B"
    "op_key ` set B \<subseteq> op_key ` set (undo_ops X E (sa_Addr o1)
       (X_changed X (sa_originAccount o1) (sa_dirtyAccount o1)) p m
       (\<not> bytes_Equal (b_code (db_bases X ldb) (sa_Addr o1)) (sa_dirtyCode o1)) q)"
proof -
  let ?a = "sa_Addr o1" and ?ac = "X_changed X (sa_originAccount o1) (sa_dirtyAccount o1)"
  let ?cc = "\<not> bytes_Equal (b_code (db_bases X ldb) (sa_Addr o1)) (sa_dirtyCode o1)"
  let ?R = "undo_ops X E ?a ?ac p m ?cc q"
  obtain b1 where b1: "(if ?ac then do { d \<leftarrow> sa_dirtyAccount o1; data \<leftarrow> X_marshal X d;
        Some [Put (account_key X ?a) data] } else Some []) = Some b1"
    "op_key ` set b1 \<subseteq> (if ?ac then {account_key X ?a} else {})"
  proof (cases ?ac)
    case False
    then show thesis using that[of "[]"] by simp
  next
    case True
    then obtain d where d: "sa_dirtyAccount o1 = Some d"
      using ext_okD(8)[OF assms(1)] by (cases "sa_dirtyAccount o1") (auto simp: changed_ok_def)
    obtain data where "X_marshal X d = Some data" using marshal_total[OF assms(1)] by blast
    then show thesis using that[of "[Put (account_key X ?a) data]"] True d by simp
  qed
  obtain b2 where b2: "commit_code X o2 = Some b2" "op_key ` set b2 \<subseteq> (if ?cc then {code_key X ?a} else {})"
    by (rule commit_code_ops[OF assms(1,3,4,5)])
  let ?b3 = "concat (map (commit_state_one o2) (go_range (rt_order E 27) (sa_dirtyState o1)))"
  have "commit_account X E ldb o2 = Some (b1 @ b2 @ ?b3)"
    using b1(1) b2(1) assms(5)
    by (cases ?ac) (auto simp: commit_account_def acc_Suicided_def bind_eq_Some_conv)
  moreover have "op_key ` set b1 \<subseteq> op_key ` set ?R" "op_key ` set b2 \<subseteq> op_key ` set ?R"
    using b1(2) b2(2) by (auto simp: undo_ops_def split: if_splits option.splits)
  moreover have "op_key ` set ?b3 \<subseteq> op_key ` set ?R"
  proof
    fix x assume "x \<in> op_key ` set ?b3"
    then obtain k v b where kv: "(k, v) \<in> set (go_range (rt_order E 27) (sa_dirtyState o1))"
      "b \<in> set (commit_state_one o2 (k, v))" "x = op_key b" by auto
    have d: "gget (sa_dirtyState o1) k = Some v"
      using kv(1) by (rule in_range[OF assms(2), THEN iffD1])
    have x: "x = composeStateKey ?a k" "\<not> bytes_Equal (orig_val o1 k) v"
      using kv(2,3) assms(5) by (auto simp: commit_state_one_def orig_val_def Let_def split: if_splits option.splits)
    have "gget m k = Some (orig_val o1 k)" using m[of k] d x(2) by simp
    then have "(k, orig_val o1 k) \<in> set (go_range (rt_order E 25) m)"
      by (simp add: in_range[OF assms(2)])
    then have "state_op ?a (k, orig_val o1 k) \<in> set ?R" by (auto simp: undo_ops_def)
    then have "op_key (state_op ?a (k, orig_val o1 k)) \<in> op_key ` set ?R" by (rule imageI)
    then show "x \<in> op_key ` set ?R" unfolding x by simp
  qed
  ultimately show thesis by (intro that[of "b1 @ b2 @ ?b3"]) (simp_all add: image_Un)
qed

text \<open>Everything about one account that flush, commit and rollback need.\<close>

definition entry_ops where
  "entry_ops X E j = undo_ops X E (je_Address j) (je_AccountChanged j)
     (case je_PrevAccount j of None \<Rightarrow> None | Some ia \<Rightarrow> X_marshal X ia) (je_PrevStates j)
     (je_CodeChanged j) (je_PrevCode j)"

lemma account_journal:
  assumes "ext_ok X" "runtime_ok E" "db_wf X ldb" "acc_wf (db_bases X ldb) c o1" "tracked o1"
    "getJournalIfModified X E ldb o1 = (Some j, o2)"
  obtains B where "commit_account X E ldb o2 = Some B" "undoes X ldb (sa_Addr o1) B (entry_ops X E j)"
    "getDirtyData X o2 \<noteq> None"
    "ascii_keys o1 \<longrightarrow> (\<forall>k \<in> set (keys (je_PrevStates j)). \<forall>ch \<in> set k. (of_char ch :: nat) < 128)"
proof -
  let ?B = "db_bases X ldb" and ?a = "sa_Addr o1"
  let ?ac = "X_changed X (sa_originAccount o1) (sa_dirtyAccount o1)"
  let ?cc = "\<not> bytes_Equal (b_code ?B ?a) (sa_dirtyCode o1)"
  obtain h m where o2: "o2 = o1\<lparr>sa_originCode := b_code ?B ?a, sa_dirtyStateHash := Some h\<rparr>"
    and m: "\<And>k. gget m k = (case gget (sa_dirtyState o1) k of
      Some v \<Rightarrow> if \<not> bytes_Equal (orig_val o1 k) v then Some (orig_val o1 k) else None | None \<Rightarrow> None)"
    and j: "Some j = (let ac = ?ac; cc = ?cc in if ac \<or> cc \<or> m \<noteq> []
             then Some \<lparr>je_Address = ?a, je_PrevAccount = (if ac then sa_originAccount o1 else None),
               je_AccountChanged = ac, je_PrevStates = m,
               je_PrevCode = (if cc then b_code ?B ?a else None), je_CodeChanged = cc\<rparr>
             else None)"
    by (rule getJournal_spec[OF assms(1-4,6)]) (rule that)
  from j have jf: "je_Address j = ?a" "je_AccountChanged j = ?ac" "je_PrevStates j = m" "je_CodeChanged j = ?cc"
    "?ac \<Longrightarrow> je_PrevAccount j = sa_originAccount o1" "?cc \<Longrightarrow> je_PrevCode j = b_code ?B ?a"
    by (auto simp: Let_def split: if_splits)
  let ?R = "undo_ops X E ?a ?ac (case sa_originAccount o1 of None \<Rightarrow> None | Some ia \<Rightarrow> X_marshal X ia) m ?cc (b_code ?B ?a)"
  have R: "entry_ops X E j = ?R"
    using jf by (cases ?ac; cases ?cc) (simp_all add: entry_ops_def undo_ops_def)
  obtain B where B: "commit_account X E ldb o2 = Some B" "op_key ` set B \<subseteq> op_key ` set ?R"
    by (rule commit_account_ops[OF assms(1-4) o2 m])
  have "undoes X ldb ?a B (entry_ops X E j)"
    unfolding R undoes_def using B(2) undo_ops_values[OF assms(1-5) m] by blast
  moreover have "getDirtyData X o2 \<noteq> None"
  proof (cases "sa_dirtyAccount o1")
    case (Some d)
    obtain data where "X_marshal X d = Some data" using marshal_total[OF assms(1)] by blast
    with Some show ?thesis by (simp add: getDirtyData_def o2)
  qed (simp add: getDirtyData_def o2)
  moreover have "(of_char ch :: nat) < 128" if "ascii_keys o1" "k \<in> set (keys (je_PrevStates j))" "ch \<in> set k" for k ch
  proof -
    have "gget (sa_dirtyState o1) k \<noteq> None"
      using that(2) m[of k] unfolding jf(3) gget_dom by (auto split: option.splits)
    then have "k \<in> set (keys (sa_dirtyState o1))" unfolding gget_dom by auto
    then show ?thesis using that(1,3) unfolding ascii_keys_def by blast
  qed
  ultimately show thesis using B(1) by (intro that[of B]) auto
qed

section \<open>The journal of a block\<close>

definition flushed where
  "flushed X E ldb xs f \<longleftrightarrow>
     (\<forall>addr o2. gget (fl_dirtyAccounts f) addr = Some o2 \<longrightarrow>
        (\<exists>o1 j. (addr, o1) \<in> set xs \<and> getJournalIfModified X E ldb o1 = (Some j, o2) \<and> j \<in> set (fl_journals f))) \<and>
     (\<forall>j \<in> set (fl_journals f). \<exists>addr o1 o2. (addr, o1) \<in> set xs \<and> getJournalIfModified X E ldb o1 = (Some j, o2))"

lemma flush_loop:
  assumes "\<And>addr o1 j o2. (addr, o1) \<in> set xs \<Longrightarrow> getJournalIfModified X E ldb o1 = (Some j, o2) \<Longrightarrow>
      getDirtyData X o2 \<noteq> None"
  shows "\<exists>f. ofold (flush_one X E ldb) xs
      \<lparr>fl_journals = [], fl_sortedAddr = [], fl_accountData = [], fl_dirtyAccounts = []\<rparr> = Some f \<and>
    flushed X E ldb xs f"
proof (rule ofold_invariant)
  show "flushed X E ldb [] \<lparr>fl_journals = [], fl_sortedAddr = [], fl_accountData = [], fl_dirtyAccounts = []\<rparr>"
    by (simp add: flushed_def)
next
  fix "done" x and t :: flush_acc
  assume t: "flushed X E ldb done t" and x: "x \<in> set xs"
  obtain addr o1 where x': "x = (addr, o1)" by fastforce
  obtain j o2 where g: "getJournalIfModified X E ldb o1 = (j, o2)" by fastforce
  show "\<exists>t'. flush_one X E ldb x t = Some t' \<and> flushed X E ldb (done @ [x]) t'"
  proof (cases j)
    case None
    then have "flush_one X E ldb x t = Some t" using g by (simp add: flush_one_def x')
    moreover have "flushed X E ldb (done @ [x]) t" using t unfolding flushed_def by fastforce
    ultimately show ?thesis by blast
  next
    case (Some e)
    with g have g': "getJournalIfModified X E ldb o1 = (Some e, o2)" by simp
    obtain d where d: "getDirtyData X o2 = Some d" using assms[OF _ g', of addr] x x' by auto
    let ?f = "t\<lparr>fl_journals := fl_journals t @ [e], fl_sortedAddr := fl_sortedAddr t @ [addr],
      fl_accountData := gset addr d (fl_accountData t), fl_dirtyAccounts := gset addr o2 (fl_dirtyAccounts t)\<rparr>"
    have "flush_one X E ldb x t = Some ?f" using g' d by (simp add: flush_one_def x')
    moreover have "flushed X E ldb (done @ [x]) ?f"
      unfolding flushed_def
    proof (intro conjI allI ballI impI)
      fix a' o' assume "gget (fl_dirtyAccounts ?f) a' = Some o'"
      then consider "a' = addr" "o' = o2" | "gget (fl_dirtyAccounts t) a' = Some o'"
        by (cases "a' = addr") simp_all
      then show "\<exists>o1 j. (a', o1) \<in> set (done @ [x]) \<and> getJournalIfModified X E ldb o1 = (Some j, o') \<and>
          j \<in> set (fl_journals ?f)"
      proof cases
        case 1
        then show ?thesis using g' x' by auto
      next
        case 2
        then obtain o3 j3 where "(a', o3) \<in> set done" "getJournalIfModified X E ldb o3 = (Some j3, o')"
          "j3 \<in> set (fl_journals t)" using t unfolding flushed_def by blast
        then show ?thesis by auto
      qed
    next
      fix k assume "k \<in> set (fl_journals ?f)"
      then consider "k = e" | "k \<in> set (fl_journals t)" by auto
      then show "\<exists>addr o1 o2. (addr, o1) \<in> set (done @ [x]) \<and> getJournalIfModified X E ldb o1 = (Some k, o2)"
      proof cases
        case 1
        then show ?thesis using g' x' by auto
      next
        case 2
        then obtain a3 o3 o4 where "(a3, o3) \<in> set done" "getJournalIfModified X E ldb o3 = (Some k, o4)"
          using t unfolding flushed_def by blast
        then show ?thesis by auto
      qed
    qed
    ultimately show ?thesis by blast
  qed
qed

lemma ofold_batches:
  assumes "\<And>x. x \<in> set xs \<Longrightarrow> \<exists>B. g x = Some B"
  shows "\<exists>b. ofold (\<lambda>x b. do {b' \<leftarrow> g x; Some (b @ b')}) xs b0 = Some b \<and>
    set b = set b0 \<union> (\<Union>x \<in> set xs. set (the (g x)))"
  using assms
proof (induction xs arbitrary: b0)
  case (Cons x xs)
  obtain B where B: "g x = Some B" using Cons.prems[of x] by auto
  from Cons.IH[of "b0 @ B"] Cons.prems obtain b where
    "ofold (\<lambda>x b. do {b' \<leftarrow> g x; Some (b @ b')}) xs (b0 @ B) = Some b"
    "set b = set (b0 @ B) \<union> (\<Union>x \<in> set xs. set (the (g x)))" by auto
  with B show ?case by auto
qed simp

lemma ofold_revert:
  assumes "ext_ok X"
  shows "ofold (revertJournal X E) js b0 = Some (b0 @ concat (map (entry_ops X E) js))"
proof (induction js arbitrary: b0)
  case (Cons j js)
  have "revertJournal X E j b0 = Some (b0 @ entry_ops X E j)"
    unfolding entry_ops_def by (rule revertJournal_ops) (use marshal_total[OF assms] in blast)
  then show ?case using Cons.IH by simp
qed simp

text \<open>
  A batch of writes followed by one that gives every key the first one wrote its old value, up to
  writes under the journal prefix.
\<close>

definition is_journal :: "string \<Rightarrow> bool" where
  "is_journal k \<longleftrightarrow> take 8 k = journalKey"

lemma is_journal_key [simp]: "is_journal (compositeKey journalKey v)" "is_journal (journal_key h)"
  by (simp_all add: is_journal_def compositeKey_def journal_key_def journalKey_def)

lemma not_journal_key [simp]: "\<not> is_journal (account_key X a)" "\<not> is_journal (code_key X a)"
  by (simp_all add: is_journal_def compositeKey_def account_key_def code_key_def journalKey_def
      accountKey_def codeKey_def)

lemma batch_undone:
  assumes "\<And>b. b \<in> set bs \<Longrightarrow> \<not> is_journal (op_key b) \<Longrightarrow> op_key b \<in> op_key ` set rs"
    and "\<And>r. r \<in> set rs \<Longrightarrow> \<not> is_journal (op_key r) \<Longrightarrow> op_value r = m (op_key r)"
    and "\<not> is_journal k"
  shows "apply_batch rs (apply_batch bs m) k = m k"
proof (cases "k \<in> op_key ` set rs")
  case True
  then show ?thesis using assms(2,3) by (intro apply_batch_same) auto
next
  case False
  then have "k \<notin> op_key ` set bs" using assms(1,3) by auto
  with False show ?thesis by (simp add: apply_batch_other)
qed

section \<open>Flushing a block\<close>

text \<open>
  The state in which a block is flushed: the store is canonical, and every account is well-formed
  over the store, tracks what it changes, and has state keys and an address that do not collide
  with the journal.
\<close>

definition journalable where
  "journalable X l \<longleftrightarrow> db_wf X (l_ldb l) \<and>
     (\<forall>s o1. gget (l_accounts l) s = Some o1 \<longrightarrow>
        acc_wf (db_bases X (l_ldb l)) (sa_changer o1) o1 \<and> tracked o1 \<and> ascii_keys o1 \<and>
        8 \<le> length (addr_Bytes (sa_Addr o1)) \<and> \<not> is_journal (addr_Bytes (sa_Addr o1)))"

definition journaled where
  "journaled X E ldb accs js \<longleftrightarrow>
     (\<forall>s o2. gget accs s = Some o2 \<longrightarrow>
        (\<exists>B. commit_account X E ldb o2 = Some B \<and>
           op_key ` set B \<subseteq> op_key ` set (concat (map (entry_ops X E) js)))) \<and>
     (\<forall>r \<in> set (concat (map (entry_ops X E) js)).
        op_value r = db_Get (X_db X) ldb (op_key r) \<and> \<not> is_journal (op_key r))"

lemma not_journal_state: "8 \<le> length (addr_Bytes a) \<Longrightarrow> \<not> is_journal (addr_Bytes a) \<Longrightarrow> \<not> is_journal (composeStateKey a k)"
  by (simp add: is_journal_def composeStateKey_def)

lemma FlushDirtyData_spec:
  assumes X: "ext_ok X" and E: "runtime_ok E" and l: "journalable X l"
  obtains accs root js l1 where "FlushDirtyData X E l = Some ((accs, root), l1)"
    "gget (l_blockJournals l1) (X_hashString X root) = Some \<lparr>bj_Journals = js, bj_ChangedHash = root\<rparr>"
    "ascii_journal \<lparr>bj_Journals = js, bj_ChangedHash = root\<rparr>" "journaled X E (l_ldb l) accs js"
    "l_accounts l1 = []" "l_prevJnlHash l1 = root" "l_ldb l1 = l_ldb l"
    "l_minJnlHeight l1 = l_minJnlHeight l" "l_maxJnlHeight l1 = l_maxJnlHeight l"
proof -
  let ?ldb = "l_ldb l"
  let ?xs = "go_range (rt_order E 26) (l_accounts l)"
  have acc: "db_wf X ?ldb" and ok: "\<And>addr o1. (addr, o1) \<in> set ?xs \<Longrightarrow>
      acc_wf (db_bases X ?ldb) (sa_changer o1) o1 \<and> tracked o1 \<and> ascii_keys o1 \<and>
      8 \<le> length (addr_Bytes (sa_Addr o1)) \<and> \<not> is_journal (addr_Bytes (sa_Addr o1))"
    using l unfolding journalable_def in_range[OF E] by blast+
  have aj: "\<exists>B. commit_account X E ?ldb o2 = Some B \<and> undoes X ?ldb (sa_Addr o1) B (entry_ops X E j) \<and>
      getDirtyData X o2 \<noteq> None \<and> (\<forall>k \<in> set (keys (je_PrevStates j)). \<forall>ch \<in> set k. (of_char ch :: nat) < 128)"
    if xs: "(addr, o1) \<in> set ?xs" and gj: "getJournalIfModified X E ?ldb o1 = (Some j, o2)" for addr o1 j o2
  proof -
    from ok[OF xs] have o: "acc_wf (db_bases X ?ldb) (sa_changer o1) o1" "tracked o1" "ascii_keys o1" by auto
    obtain B where "commit_account X E ?ldb o2 = Some B" "undoes X ?ldb (sa_Addr o1) B (entry_ops X E j)"
      "getDirtyData X o2 \<noteq> None"
      "ascii_keys o1 \<longrightarrow> (\<forall>k \<in> set (keys (je_PrevStates j)). \<forall>ch \<in> set k. (of_char ch :: nat) < 128)"
      by (rule account_journal[OF X E acc o(1,2) gj])
    then show ?thesis using o(3) by simp
  qed
  then obtain f where f: "ofold (flush_one X E ?ldb) ?xs
      \<lparr>fl_journals = [], fl_sortedAddr = [], fl_accountData = [], fl_dirtyAccounts = []\<rparr> = Some f"
    "flushed X E ?ldb ?xs f"
    using flush_loop[of ?xs X E ?ldb] by blast
  have "journaled X E ?ldb (fl_dirtyAccounts f) (fl_journals f)"
    unfolding journaled_def
  proof (intro conjI allI impI ballI)
    fix s o2 assume "gget (fl_dirtyAccounts f) s = Some o2"
    then obtain o1 j where j: "(s, o1) \<in> set ?xs" "getJournalIfModified X E ?ldb o1 = (Some j, o2)" "j \<in> set (fl_journals f)"
      using f(2) unfolding flushed_def by blast
    from aj[OF j(1,2)] obtain B where "commit_account X E ?ldb o2 = Some B"
      "op_key ` set B \<subseteq> op_key ` set (entry_ops X E j)" unfolding undoes_def by blast
    moreover have "op_key ` set (entry_ops X E j) \<subseteq> op_key ` set (concat (map (entry_ops X E) (fl_journals f)))"
      using j(3) by auto
    ultimately show "\<exists>B. commit_account X E ?ldb o2 = Some B \<and>
        op_key ` set B \<subseteq> op_key ` set (concat (map (entry_ops X E) (fl_journals f)))" by blast
  next
    fix r assume "r \<in> set (concat (map (entry_ops X E) (fl_journals f)))"
    then obtain j where j: "j \<in> set (fl_journals f)" "r \<in> set (entry_ops X E j)" by auto
    then obtain s o1 o2 where o: "(s, o1) \<in> set ?xs" "getJournalIfModified X E ?ldb o1 = (Some j, o2)"
      using f(2) unfolding flushed_def by blast
    from aj[OF o] j(2) have "op_value r = db_Get (X_db X) ?ldb (op_key r)"
      "op_key r \<in> {account_key X (sa_Addr o1), code_key X (sa_Addr o1)} \<union> range (composeStateKey (sa_Addr o1))"
      unfolding undoes_def by blast+
    then show "op_value r = db_Get (X_db X) ?ldb (op_key r)" "\<not> is_journal (op_key r)"
      using ok[OF o(1)] not_journal_state by auto
  qed
  moreover have "\<forall>j \<in> set (fl_journals f). \<forall>k \<in> set (keys (je_PrevStates j)). \<forall>ch \<in> set k. (of_char ch :: nat) < 128"
  proof
    fix j assume "j \<in> set (fl_journals f)"
    then obtain s o1 o2 where "(s, o1) \<in> set ?xs" "getJournalIfModified X E ?ldb o1 = (Some j, o2)"
      using f(2) unfolding flushed_def by blast
    from aj[OF this] show "\<forall>k \<in> set (keys (je_PrevStates j)). \<forall>ch \<in> set k. (of_char ch :: nat) < 128" by blast
  qed
  moreover define root where "root = X_newHash X (Some (X_sha256 X
    (concat (map (gget0 [] (fl_accountData f)) (sort (fl_sortedAddr f))) @ l_prevJnlHash l)))"
  moreover define l1 where "l1 = l\<lparr>l_blockJournals := gset (X_hashString X root)
      \<lparr>bj_Journals = fl_journals f, bj_ChangedHash = root\<rparr> (l_blockJournals l), l_prevJnlHash := root,
    l_events := [], l_accounts := [],
    l_accountCache := ac_add X E (fl_dirtyAccounts f) (l_accountCache l)\<rparr>"
  moreover have "FlushDirtyData X E l = Some ((fl_dirtyAccounts f, root), l1)"
    using f(1) by (simp add: FlushDirtyData_def Let_def Clear_def root_def l1_def)
  ultimately show thesis
    by (intro that[of "fl_dirtyAccounts f" root l1 "fl_journals f"]) (simp_all add: ascii_journal_def del: set_map)
qed

section \<open>Committing a block\<close>

text \<open>
  The journal between blocks: the heights that are kept form a window of at most eleven, each has
  a record that decodes, the store knows the window, and the hash of the last journal is the
  one of its record.
\<close>

abbreviation "minKey \<equiv> compositeKey journalKey minHeightStr"
abbreviation "maxKey \<equiv> compositeKey journalKey maxHeightStr"

definition has_journal where
  "has_journal X ldb h \<longleftrightarrow> (\<exists>j. getBlockJournal X h ldb = Some (Some j))"

definition jnl_wf where
  "jnl_wf X l \<longleftrightarrow>
     l_minJnlHeight l \<le> l_maxJnlHeight l \<and> (l_minJnlHeight l = 0 \<longleftrightarrow> l_maxJnlHeight l = 0) \<and>
     unat (l_maxJnlHeight l) \<le> unat (l_minJnlHeight l) + 10 \<and>
     (\<forall>h. h \<noteq> 0 \<and> l_minJnlHeight l \<le> h \<and> h \<le> l_maxJnlHeight l \<longrightarrow> has_journal X (l_ldb l) h) \<and>
     (l_maxJnlHeight l \<noteq> 0 \<longrightarrow>
        db_Get (X_db X) (l_ldb l) minKey = Some (marshalHeight (l_minJnlHeight l)) \<and>
        db_Get (X_db X) (l_ldb l) maxKey = Some (marshalHeight (l_maxJnlHeight l)) \<and>
        (\<exists>j. getBlockJournal X (l_maxJnlHeight l) (l_ldb l) = Some (Some j) \<and> l_prevJnlHash l = bj_ChangedHash j)) \<and>
     (l_maxJnlHeight l = 0 \<longrightarrow> l_prevJnlHash l = X_zeroHash X)"

lemma journal_key_eq [simp]: "journal_key h = journal_key i \<longleftrightarrow> h = i"
  by (simp add: journal_key_def compositeKey_def)

lemma digit_first: "fmt_d h = c # cs \<Longrightarrow> is_digit c"
  using dec_digits[of c "unat h"] by (simp add: fmt_d_def)

lemma journal_key_neq [simp]:
  "journal_key h \<noteq> minKey" "journal_key h \<noteq> maxKey" "minKey \<noteq> journal_key h" "maxKey \<noteq> journal_key h"
  "minKey \<noteq> maxKey" "maxKey \<noteq> minKey"
  using digit_first[of h "CHR ''m''"] not_sym
  by (auto simp: journal_key_def compositeKey_def minHeightStr_def maxHeightStr_def is_digit_def dest: sym)

lemma commit_batch:
  assumes "runtime_ok E" "journaled X E ldb accs js"
  obtains b where
    "ofold (\<lambda>(_, account) b. do {b' \<leftarrow> commit_account X E ldb account; Some (b @ b')})
       (go_range (rt_order E 28) accs) [] = Some b"
    "\<And>x. x \<in> set b \<Longrightarrow> op_key x \<in> op_key ` set (concat (map (entry_ops X E) js)) \<and> \<not> is_journal (op_key x)"
proof -
  let ?g = "\<lambda>x. commit_account X E ldb (snd x)"
  have B: "\<exists>B. ?g x = Some B \<and> op_key ` set B \<subseteq> op_key ` set (concat (map (entry_ops X E) js))"
    if "x \<in> set (go_range (rt_order E 28) accs)" for x
    using that assms(2) in_range[OF assms(1), of "fst x" "snd x" 28 accs] unfolding journaled_def by auto
  then obtain b where b: "ofold (\<lambda>x b. do {b' \<leftarrow> ?g x; Some (b @ b')}) (go_range (rt_order E 28) accs) [] = Some b"
    "set b = (\<Union>x \<in> set (go_range (rt_order E 28) accs). set (the (?g x)))"
    using ofold_batches[of "go_range (rt_order E 28) accs" ?g "[]"] by fastforce
  show thesis
  proof (rule that[of b])
    show "ofold (\<lambda>(_, account) b. do {b' \<leftarrow> commit_account X E ldb account; Some (b @ b')})
       (go_range (rt_order E 28) accs) [] = Some b" using b(1) by (simp add: split_def)
    fix x assume "x \<in> set b"
    then obtain y where y: "y \<in> set (go_range (rt_order E 28) accs)" "x \<in> set (the (?g y))" using b(2) by blast
    with B[OF y(1)] have k: "op_key x \<in> op_key ` set (concat (map (entry_ops X E) js))" by auto
    moreover from k assms(2) have "\<not> is_journal (op_key x)" unfolding journaled_def by auto
    ultimately show "op_key x \<in> op_key ` set (concat (map (entry_ops X E) js)) \<and> \<not> is_journal (op_key x)" ..
  qed
qed

text \<open>The lower end of the window after committing height \<^term>\<open>h\<close>.\<close>

definition new_min :: "u64 \<Rightarrow> u64 \<Rightarrow> u64" where
  "new_min h mn = (let mn = (if mn = 0 then h else mn) in if h > 10 \<and> h - 10 > mn then h - 10 else mn)"

lemma apply_batch_deletes:
  "apply_batch (map (\<lambda>i. Delete (f i)) is) m k = (if k \<in> f ` set is then None else m k)"
  by (induction "is" arbitrary: m) auto

lemma Commit_spec:
  assumes X: "ext_ok X" and E: "runtime_ok E" and js: "journaled X E (l_ldb l) accs js"
    and bj: "gget (l_blockJournals l) (X_hashString X root) = Some bjn" and h0: "h \<noteq> 0"
  obtains b data l2 where "Commit X E h accs root l = Some (None, l2)"
    "\<And>x. x \<in> set b \<Longrightarrow> op_key x \<in> op_key ` set (concat (map (entry_ops X E) js)) \<and> \<not> is_journal (op_key x)"
    "\<And>k. \<not> is_journal k \<Longrightarrow> db_Get (X_db X) (l_ldb l2) k = apply_batch b (db_Get (X_db X) (l_ldb l)) k"
    "db_Get (X_db X) (l_ldb l2) (journal_key h) = Some data" "X_json X bjn = Some data"
    "\<And>i. i \<noteq> h \<Longrightarrow> new_min h (l_minJnlHeight l) \<le> i \<Longrightarrow>
       db_Get (X_db X) (l_ldb l2) (journal_key i) = db_Get (X_db X) (l_ldb l) (journal_key i)"
    "db_Get (X_db X) (l_ldb l2) maxKey = Some (marshalHeight h)"
    "db_Get (X_db X) (l_ldb l2) minKey = (if new_min h (l_minJnlHeight l) = l_minJnlHeight l
       then db_Get (X_db X) (l_ldb l) minKey else Some (marshalHeight (new_min h (l_minJnlHeight l))))"
    "l_minJnlHeight l2 = new_min h (l_minJnlHeight l)" "l_maxJnlHeight l2 = h"
    "l_prevJnlHash l2 = l_prevJnlHash l" "l_accounts l2 = l_accounts l"
proof -
  obtain b where b: "ofold (\<lambda>(_, account) b. do {b' \<leftarrow> commit_account X E (l_ldb l) account; Some (b @ b')})
       (go_range (rt_order E 28) accs) [] = Some b"
    "\<And>x. x \<in> set b \<Longrightarrow> op_key x \<in> op_key ` set (concat (map (entry_ops X E) js)) \<and> \<not> is_journal (op_key x)"
    by (rule commit_batch[OF E js]) (rule that)
  obtain data where data: "X_json X bjn = Some data"
    using ext_okD(10)[OF X] unfolding json_ok_def by blast
  have st: "storage_ok (X_db X)" by (rule ext_okD(1)[OF X])
  let ?mn = "l_minJnlHeight l" and ?db = "db_Get (X_db X) (l_ldb l)"
  define mn1 where "mn1 = (if ?mn = 0 then h else ?mn)"
  let ?p1 = "if ?mn = 0 then [Put minKey (marshalHeight h)] else []"
  define prune where "prune \<longleftrightarrow> h > 10 \<and> h - 10 > mn1"
  let ?p2 = "map (\<lambda>i. Delete (journal_key (of_nat i))) [unat mn1 ..< unat (h - 10)] @
      [Put minKey (marshalHeight (h - 10))]"
  let ?jb = "b @ [Put (journal_key h) data, Put maxKey (marshalHeight h)]"
  define ldb where "ldb = (if prune then db_Commit (X_db X) ?p2 (db_Commit (X_db X) (?jb @ ?p1) (l_ldb l))
      else db_Commit (X_db X) (?jb @ ?p1) (l_ldb l))"
  let ?l2 = "l\<lparr>l_minJnlHeight := new_min h ?mn, l_ldb := ldb, l_maxJnlHeight := h, l_blockJournals := []\<rparr>"
  have le: "\<not> h < h - 10 \<and> h - 10 \<le> h \<and> h - 10 \<noteq> h" if "h > 10"
    using that by (auto simp: word_le_nat_alt word_less_nat_alt unat_sub_if_size)
  have commit: "Commit X E h accs root l = Some (None, ?l2)"
  proof (cases "?mn = 0")
    case True
    then have "\<not> prune" using le by (auto simp: prune_def mn1_def)
    then show ?thesis using b(1) bj data True le
      by (cases "h > 10")
        (simp_all add: Commit_def Let_def removeJournalsBeforeBlock_def ldb_def new_min_def prune_def mn1_def)
  next
    case False
    have nm: "new_min h ?mn = (if h > 10 \<and> h - 10 > ?mn then h - 10 else ?mn)"
      using False by (simp add: new_min_def Let_def)
    show ?thesis
    proof (cases "h > 10")
      case True
      show ?thesis
      proof (cases "h - 10 > ?mn")
        case t: True
        with True False le[OF True] b(1) bj data show ?thesis
          by (simp add: Commit_def Let_def removeJournalsBeforeBlock_def ldb_def nm prune_def mn1_def)
      next
        case f: False
        with True False le[OF True] b(1) bj data show ?thesis
          by (simp add: Commit_def Let_def removeJournalsBeforeBlock_def ldb_def nm prune_def mn1_def)
      qed
    next
      case f: False
      with False b(1) bj data show ?thesis
        by (simp add: Commit_def Let_def removeJournalsBeforeBlock_def ldb_def nm prune_def mn1_def)
    qed
  qed
  have bk: "apply_batch b m k = m k" if "is_journal k" for m k
    using b(2) that by (intro apply_batch_other) auto
  have pr: "of_nat i < h - 10" if "i < unat (h - 10)" for i
    using that unat_u64_less[of "h - 10"] by (simp add: word_less_nat_alt unat_of_nat_u64)
  have get: "db_Get (X_db X) ldb = (let m = (apply_batch b ?db)(journal_key h := Some data, maxKey := Some (marshalHeight h));
      m = (if ?mn = 0 then m(minKey := Some (marshalHeight h)) else m)
    in if prune then (\<lambda>k. if k \<in> (\<lambda>i. journal_key (of_nat i)) ` {unat mn1 ..< unat (h - 10)} then None else m k)
         (minKey := Some (marshalHeight (h - 10))) else m)"
    by (cases prune) (simp_all add: ldb_def storage_commit[OF st] Let_def apply_batch_deletes fun_eq_iff)
  show thesis
  proof (rule that[of ?l2 b data])
    show "Commit X E h accs root l = Some (None, ?l2)" by (rule commit)
    show "op_key x \<in> op_key ` set (concat (map (entry_ops X E) js)) \<and> \<not> is_journal (op_key x)"
      if "x \<in> set b" for x using that by (rule b(2))
  next
    fix k assume "\<not> is_journal k"
    then have "k \<noteq> journal_key i" "k \<noteq> minKey" "k \<noteq> maxKey" for i using is_journal_key by metis+
    then show "db_Get (X_db X) (l_ldb ?l2) k = apply_batch b ?db k" by (auto simp: get Let_def)
  next
    show "db_Get (X_db X) (l_ldb ?l2) (journal_key h) = Some data"
      using le pr by (auto simp: get Let_def prune_def)
  next
    fix i assume i: "i \<noteq> h" "new_min h ?mn \<le> i"
    have "journal_key i \<notin> (\<lambda>i. journal_key (of_nat i)) ` {unat mn1 ..< unat (h - 10)}" if p: prune
    proof
      assume "journal_key i \<in> (\<lambda>i. journal_key (of_nat i)) ` {unat mn1 ..< unat (h - 10)}"
      then obtain j where j: "j < unat (h - 10)" "journal_key i = journal_key (of_nat j)" by auto
      then show False using pr[OF j(1)] i(2) p by (auto simp: new_min_def Let_def prune_def mn1_def)
    qed
    then show "db_Get (X_db X) (l_ldb ?l2) (journal_key i) = ?db (journal_key i)"
      using i(1) by (auto simp: get Let_def bk)
  next
    show "db_Get (X_db X) (l_ldb ?l2) maxKey = Some (marshalHeight h)" by (auto simp: get Let_def)
    show "db_Get (X_db X) (l_ldb ?l2) minKey = (if new_min h ?mn = ?mn
       then ?db minKey else Some (marshalHeight (new_min h ?mn)))"
      using h0 by (auto simp: get Let_def new_min_def bk prune_def mn1_def)
  qed (use data in simp_all)
qed

lemma unat_plus_one: "x + 1 \<noteq> 0 \<Longrightarrow> unat (x + 1) = Suc (unat x)" for x :: u64
  using unat_u64_less[of x] by (cases "Suc (unat x) = 2 ^ 64") (auto simp: word_unat_eq_iff unat_word_ariths)

lemma new_min_facts:
  assumes "h \<noteq> 0" "mn \<le> h"
  shows "new_min h mn \<noteq> 0" "new_min h mn \<le> h" "mn \<le> new_min h mn" "unat h \<le> unat (new_min h mn) + 10"
    "mn \<noteq> 0 \<Longrightarrow> mn < h \<Longrightarrow> new_min h mn < h"
proof -
  have "h - 10 \<le> h \<and> h - 10 \<noteq> 0 \<and> unat h = unat (h - 10) + 10 \<and> h - 10 < h" if "h > 10"
    using that by (auto simp: word_le_nat_alt word_less_nat_alt unat_sub_if_size)
  moreover have "unat h \<le> 10" if "\<not> h > 10" using that by (simp add: word_less_nat_alt)
  ultimately show "new_min h mn \<noteq> 0" "new_min h mn \<le> h" "mn \<le> new_min h mn" "unat h \<le> unat (new_min h mn) + 10"
    "mn \<noteq> 0 \<Longrightarrow> mn < h \<Longrightarrow> new_min h mn < h"
    using assms
    by (auto simp: new_min_def Let_def word_le_nat_alt word_less_nat_alt split: if_splits)
      (cases "10 < unat h"; simp)
qed

definition commits where
  "commits X E h l l2 \<longleftrightarrow> (\<exists>accs root l1 r. FlushDirtyData X E l = Some ((accs, root), l1) \<and>
     Commit X E h accs root l1 = Some (r, l2))"

text \<open>What flushing and committing the next block leaves in the store.\<close>

lemma block_committed:
  assumes X: "ext_ok X" and E: "runtime_ok E" and l: "journalable X l" "jnl_wf X l"
    and h: "h = l_maxJnlHeight l + 1" "h \<noteq> 0"
  obtains accs root l1 l2 js bs where "FlushDirtyData X E l = Some ((accs, root), l1)"
    "Commit X E h accs root l1 = Some (None, l2)" "jnl_wf X l2" "l_maxJnlHeight l2 = h"
    "l_minJnlHeight l2 = new_min h (l_minJnlHeight l)"
    "getBlockJournal X h (l_ldb l2) = Some (Some \<lparr>bj_Journals = js, bj_ChangedHash = root\<rparr>)"
    "\<And>k. \<not> is_journal k \<Longrightarrow> db_Get (X_db X) (l_ldb l2) k = apply_batch bs (db_Get (X_db X) (l_ldb l)) k"
    "\<And>i. i \<noteq> h \<Longrightarrow> new_min h (l_minJnlHeight l) \<le> i \<Longrightarrow>
       db_Get (X_db X) (l_ldb l2) (journal_key i) = db_Get (X_db X) (l_ldb l) (journal_key i)"
    "\<And>b. b \<in> set bs \<Longrightarrow> op_key b \<in> op_key ` set (concat (map (entry_ops X E) js))"
    "\<And>r. r \<in> set (concat (map (entry_ops X E) js)) \<Longrightarrow>
       op_value r = db_Get (X_db X) (l_ldb l) (op_key r) \<and> \<not> is_journal (op_key r)"
proof -
  obtain accs root js l1 where f: "FlushDirtyData X E l = Some ((accs, root), l1)"
    "gget (l_blockJournals l1) (X_hashString X root) = Some \<lparr>bj_Journals = js, bj_ChangedHash = root\<rparr>"
    "ascii_journal \<lparr>bj_Journals = js, bj_ChangedHash = root\<rparr>" "journaled X E (l_ldb l) accs js"
    "l_accounts l1 = []" "l_prevJnlHash l1 = root" "l_ldb l1 = l_ldb l"
    "l_minJnlHeight l1 = l_minJnlHeight l" "l_maxJnlHeight l1 = l_maxJnlHeight l"
    by (rule FlushDirtyData_spec[OF X E l(1)])
  let ?bj = "\<lparr>bj_Journals = js, bj_ChangedHash = root\<rparr>" and ?mn = "new_min h (l_minJnlHeight l)"
  note js = f(4)[folded f(7)]
  obtain b data l2 where c: "Commit X E h accs root l1 = Some (None, l2)"
    "\<And>x. x \<in> set b \<Longrightarrow> op_key x \<in> op_key ` set (concat (map (entry_ops X E) js)) \<and> \<not> is_journal (op_key x)"
    "\<And>k. \<not> is_journal k \<Longrightarrow> db_Get (X_db X) (l_ldb l2) k = apply_batch b (db_Get (X_db X) (l_ldb l)) k"
    "db_Get (X_db X) (l_ldb l2) (journal_key h) = Some data" "X_json X ?bj = Some data"
    "\<And>i. i \<noteq> h \<Longrightarrow> ?mn \<le> i \<Longrightarrow>
       db_Get (X_db X) (l_ldb l2) (journal_key i) = db_Get (X_db X) (l_ldb l) (journal_key i)"
    "db_Get (X_db X) (l_ldb l2) maxKey = Some (marshalHeight h)"
    "db_Get (X_db X) (l_ldb l2) minKey = (if ?mn = l_minJnlHeight l
       then db_Get (X_db X) (l_ldb l) minKey else Some (marshalHeight ?mn))"
    "l_minJnlHeight l2 = ?mn" "l_maxJnlHeight l2 = h" "l_prevJnlHash l2 = root" "l_accounts l2 = []"
    by (rule Commit_spec[OF X E js f(2) h(2), unfolded f(5-8)]) (rule that)
  have "X_unjson X data = Some ?bj"
    using ext_okD(10)[OF X] f(3) c(5) unfolding json_ok_def by (metis option.inject)
  then have g: "getBlockJournal X h (l_ldb l2) = Some (Some ?bj)" using c(4) by (simp add: getBlockJournal_def)
  have mx: "l_minJnlHeight l \<le> l_maxJnlHeight l" "l_minJnlHeight l = 0 \<longleftrightarrow> l_maxJnlHeight l = 0"
    using l(2) by (simp_all add: jnl_wf_def)
  have uh: "unat h = Suc (unat (l_maxJnlHeight l))" using h unat_plus_one by simp
  have pred: "i \<le> l_maxJnlHeight l" if "i \<le> h" "i \<noteq> h" for i
    using uh that by (auto simp: word_le_nat_alt word_unat_eq_iff)
  have hm: "l_minJnlHeight l \<le> h"
    using mx(1) uh by (auto simp: word_le_nat_alt)
  note nm = new_min_facts[OF h(2) hm]
  have "has_journal X (l_ldb l2) i" if i: "?mn \<le> i" "i \<le> h" for i
  proof (cases "i = h")
    case True
    then show ?thesis using g by (auto simp: has_journal_def)
  next
    case False
    from pred[OF i(2) False] i(1) nm(1,3) have "i \<noteq> 0" "l_minJnlHeight l \<le> i" "i \<le> l_maxJnlHeight l"
      by (auto simp: word_le_nat_alt word_unat_eq_iff)
    then have "has_journal X (l_ldb l) i" using l(2) unfolding jnl_wf_def by blast
    then show ?thesis using c(6)[OF False i(1)] by (simp add: has_journal_def getBlockJournal_def)
  qed
  moreover have "db_Get (X_db X) (l_ldb l2) minKey = Some (marshalHeight ?mn)"
    using c(8) l(2) nm(1) mx(2) by (auto simp: jnl_wf_def)
  ultimately have "jnl_wf X l2"
    unfolding jnl_wf_def c(9-11) using nm g c(7) h(2) by auto
  then show thesis
    using f(1) c(1,3,6,9,10) g c(2) js f(7)
    by (intro that[of accs root l1 l2 js b]) (auto simp: journaled_def)
qed

section \<open>Rolling a block back\<close>

lemma entry_ops_order:
  assumes "runtime_ok E" "runtime_ok E'"
  shows "set (entry_ops X E j) = set (entry_ops X E' j)"
  by (simp add: entry_ops_def undo_ops_def set_go_range[OF runtime_ok_order[OF assms(1)]]
      set_go_range[OF runtime_ok_order[OF assms(2)]])

lemma heights_down_one:
  assumes "h \<noteq> 0"
  shows "heights_down h (h - 1) = [h]"
proof -
  have "unat h \<noteq> 0" using assms by (simp add: word_unat_eq_iff)
  then have "Suc (unat (h - 1)) = unat h" using assms
    by (simp add: unat_minus_one)
  then show ?thesis by (simp add: heights_down_def)
qed

lemma block_rolled_back:
  assumes X: "ext_ok X" and E: "runtime_ok E" "runtime_ok E'" and l: "journalable X l" "jnl_wf X l"
    and h: "h = l_maxJnlHeight l + 1" "h \<noteq> 0"
    and c: "FlushDirtyData X E l = Some ((accs, root), l1)" "Commit X E h accs root l1 = Some (r, l2)"
  shows "r = None \<and> jnl_wf X l2 \<and> (\<exists>l3. RollbackState X E' (h - 1) l2 = Some (None, l3) \<and>
    (\<forall>k. \<not> is_journal k \<longrightarrow> db_Get (X_db X) (l_ldb l3) k = db_Get (X_db X) (l_ldb l) k) \<and>
    l_prevJnlHash l3 = l_prevJnlHash l \<and> l_maxJnlHeight l3 = l_maxJnlHeight l \<and> l_accounts l3 = [])"
proof -
  obtain accs' root' l1' l2' js bs where b: "FlushDirtyData X E l = Some ((accs', root'), l1')"
    "Commit X E h accs' root' l1' = Some (None, l2')" "jnl_wf X l2'" "l_maxJnlHeight l2' = h"
    "l_minJnlHeight l2' = new_min h (l_minJnlHeight l)"
    "getBlockJournal X h (l_ldb l2') = Some (Some \<lparr>bj_Journals = js, bj_ChangedHash = root'\<rparr>)"
    "\<And>k. \<not> is_journal k \<Longrightarrow> db_Get (X_db X) (l_ldb l2') k = apply_batch bs (db_Get (X_db X) (l_ldb l)) k"
    "\<And>i. i \<noteq> h \<Longrightarrow> new_min h (l_minJnlHeight l) \<le> i \<Longrightarrow>
       db_Get (X_db X) (l_ldb l2') (journal_key i) = db_Get (X_db X) (l_ldb l) (journal_key i)"
    "\<And>b. b \<in> set bs \<Longrightarrow> op_key b \<in> op_key ` set (concat (map (entry_ops X E) js))"
    "\<And>r. r \<in> set (concat (map (entry_ops X E) js)) \<Longrightarrow>
       op_value r = db_Get (X_db X) (l_ldb l) (op_key r) \<and> \<not> is_journal (op_key r)"
    by (rule block_committed[OF X E(1) l h]) (rule that)
  have eq: "r = None" "l2' = l2" using b(1,2) c by auto
  let ?R = "concat (map (entry_ops X E') js)"
  have R: "set ?R = set (concat (map (entry_ops X E) js))" using entry_ops_order[OF E] by auto
  note bsR = b(9)[folded R] and Rv = b(10)[folded R]
  let ?db = "db_Get (X_db X) (l_ldb l)"
  let ?ops = "?R @ [Delete (journal_key h), Put maxKey (marshalHeight (h - 1))]"
  let ?ldb = "db_Commit (X_db X) ?ops (l_ldb l2)"
  have get: "db_Get (X_db X) ?ldb = apply_batch ?ops (db_Get (X_db X) (l_ldb l2))"
    by (rule storage_commit[OF ext_okD(1)[OF X]])
  have one: "rollback_loop X E' [h] (l_ldb l2) = Some (None, ?ldb)"
    using b(6) ofold_revert[OF X, of E' js "[]"] by (simp add: rollback_one_def eq)
  have db: "db_Get (X_db X) ?ldb k = ?db k" if "\<not> is_journal k" for k
  proof -
    have "k \<noteq> journal_key h" "k \<noteq> maxKey" using that by auto
    then have "db_Get (X_db X) ?ldb k = apply_batch ?R (db_Get (X_db X) (l_ldb l2)) k" by (simp add: get)
    also have "\<dots> = apply_batch ?R (apply_batch bs ?db) k"
    proof (cases "k \<in> op_key ` set ?R")
      case True
      then show ?thesis
        using apply_batch_same[of ?R k "?db k"] Rv by metis
    qed (use b(7)[OF that] eq in \<open>simp add: apply_batch_other\<close>)
    also have "\<dots> = ?db k"
      by (rule batch_undone) (use bsR Rv that in blast)+
    finally show ?thesis .
  qed
  have jn: "db_Get (X_db X) ?ldb (journal_key i) = ?db (journal_key i)" if "i \<noteq> h" "new_min h (l_minJnlHeight l) \<le> i" for i
  proof -
    have "journal_key i \<notin> op_key ` set ?R" using Rv is_journal_key(2) by (metis imageE)
    then show ?thesis using that b(8)[OF that] eq by (simp add: get apply_batch_other)
  qed
  have mx: "h - 1 = l_maxJnlHeight l" "l_minJnlHeight l \<le> l_maxJnlHeight l" "l_minJnlHeight l = 0 \<longleftrightarrow> l_maxJnlHeight l = 0"
    using l(2) h by (simp_all add: jnl_wf_def)
  have uh: "unat h = Suc (unat (l_maxJnlHeight l))" using h unat_plus_one by simp
  then have lt: "\<not> h < h - 1" "h \<noteq> h - 1" "l_minJnlHeight l \<le> h" unfolding mx(1) using mx(2) by (auto simp: word_less_nat_alt word_le_nat_alt)
  note nm = new_min_facts[OF h(2) lt(3)]
  show ?thesis
  proof (cases "h - 1 = 0")
    case True
    then have h1: "h = 1" "l_minJnlHeight l = 0" "l_maxJnlHeight l = 0" using h mx by auto
    have "new_min h 0 = 1" unfolding h1(1) by (simp add: new_min_def)
    then have "RollbackState X E' (h - 1) l2 = Some (None, (Clear l2)\<lparr>l_accountCache := ac_clear X (l_accountCache l2),
        l_ldb := ?ldb, l_prevJnlHash := X_zeroHash X, l_minJnlHeight := 0, l_maxJnlHeight := 0\<rparr>)"
      using one heights_down_one[OF h(2)] b(4,5) eq h1
      by (simp add: RollbackState_def Let_def Clear_def)
    moreover have "l_prevJnlHash l = X_zeroHash X" using l(2) h1(3) by (simp add: jnl_wf_def)
    ultimately show ?thesis using b(3) eq db h1(3) by (simp add: Clear_def)
  next
    case False
    with mx have ne: "l_minJnlHeight l \<noteq> 0" "l_maxJnlHeight l \<noteq> 0" by auto
    have "l_minJnlHeight l < h" using mx(2) uh by (simp add: word_less_nat_alt word_le_nat_alt)
    from nm(5)[OF ne(1) this] uh have le: "new_min h (l_minJnlHeight l) \<le> l_maxJnlHeight l"
      by (simp add: word_less_nat_alt word_le_nat_alt)
    obtain j where j: "getBlockJournal X (l_maxJnlHeight l) (l_ldb l) = Some (Some j)" "l_prevJnlHash l = bj_ChangedHash j"
      using l(2) ne(2) unfolding jnl_wf_def by blast
    have "getBlockJournal X (h - 1) ?ldb = Some (Some j)"
      using j(1) jn[of "h - 1"] lt(2) le mx(1) by (simp add: getBlockJournal_def)
    then have "RollbackState X E' (h - 1) l2 = Some (None, (Clear l2)\<lparr>l_accountCache := ac_clear X (l_accountCache l2),
        l_ldb := ?ldb, l_prevJnlHash := bj_ChangedHash j, l_maxJnlHeight := h - 1\<rparr>)"
      using one heights_down_one[OF h(2)] b(4,5) eq False lt le mx(1)
      by (simp add: RollbackState_def Let_def Clear_def not_less)
    then show ?thesis using b(3) eq db j(2) mx(1) by (simp add: Clear_def)
  qed
qed

end
