(* ===== verification/Chain.thy ===== *)
theory Chain
  imports Ledger
begin

text \<open>
  The chain ledger of \<^verbatim>\<open>src/internal/ledger\<close> (\<^verbatim>\<open>chain_ledger_impl.go\<close>, \<^verbatim>\<open>chain_meta.go\<close>) and the
  ledger that pairs it with the state ledger (\<^verbatim>\<open>ledger.go\<close>). Bodies, transactions, receipts and
  interchain data go to an append-only block file, the indexes to a key-value store.

  The block file, the store, the codecs of the protocol buffers and the signing key are
  parameters, collected in the record \<^verbatim>\<open>cext\<close>; \<^verbatim>\<open>cext_ok\<close> states their contracts.
\<close>

section \<open>Data\<close>

text \<open>
  The protocol buffers, with the fields the ledger reads; \<^verbatim>\<open>bh_rest\<close> and \<^verbatim>\<open>im_rest\<close> are the fields
  it only passes on. \<^verbatim>\<open>bk_Transactions\<close> is nil in a stored body.
\<close>

record 'h blockHeader =
  bh_Number :: u64
  bh_StateRoot :: "hash option"
  bh_rest :: 'h

record ('h, 'tx) block =
  bk_BlockHeader :: "'h blockHeader"
  bk_Transactions :: "'tx list option"
  bk_BlockHash :: hash
  bk_Signature :: slice
  bk_Extra :: slice

record verifiedIndex =
  vi_Index :: u64
  vi_Valid :: bool
  vi_IsBatch :: bool

record 'm interchainMeta =
  im_Counter :: "(string, verifiedIndex list) gomap"
  im_rest :: 'm

record txMeta =
  tm_BlockHeight :: u64
  tm_BlockHash :: string
  tm_Index :: u64

record chainMeta =
  cm_Height :: u64
  cm_BlockHash :: "hash option"
  cm_InterchainTxCount :: u64

section \<open>The libraries of the chain ledger\<close>

text \<open>
  The tables of the block file. \<^verbatim>\<open>bf_Get\<close> and \<^verbatim>\<open>bf_AppendBlock\<close> return \<^term>\<open>None\<close> on an error;
  \<^verbatim>\<open>bf_Blocks\<close> is the number of blocks held. An append must carry that number, block \<^term>\<open>h\<close> is read
  back at height \<^term>\<open>h\<close> (from 1), and a truncation keeps a prefix.
\<close>

datatype bf_table = BodiesTable | TXsTable | ReceiptTable | InterchainTable

record 'b blockfile_ops =
  bf_Get :: "bf_table \<Rightarrow> u64 \<Rightarrow> 'b \<Rightarrow> string option"
  bf_AppendBlock :: "u64 \<Rightarrow> string \<Rightarrow> string \<Rightarrow> string \<Rightarrow> string \<Rightarrow> string \<Rightarrow> 'b \<Rightarrow> 'b option"
  bf_TruncateBlocks :: "u64 \<Rightarrow> 'b \<Rightarrow> 'b option"
  bf_Blocks :: "'b \<Rightarrow> nat"

fun bf_row :: "string \<Rightarrow> string \<Rightarrow> string \<Rightarrow> string \<Rightarrow> bf_table \<Rightarrow> string" where
  "bf_row body receipts txs im BodiesTable = body"
| "bf_row body receipts txs im TXsTable = txs"
| "bf_row body receipts txs im ReceiptTable = receipts"
| "bf_row body receipts txs im InterchainTable = im"

definition blockfile_ok :: "('b, 'z) blockfile_ops_scheme \<Rightarrow> bool" where
  "blockfile_ok B \<longleftrightarrow>
     (\<forall>t x f. bf_Get B t x f = None \<longleftrightarrow> x = 0 \<or> bf_Blocks B f < unat x) \<and>
     (\<forall>n h b r t i f. unat n \<noteq> bf_Blocks B f \<longrightarrow> bf_AppendBlock B n h b r t i f = None) \<and>
     (\<forall>n h b r t i f. unat n = bf_Blocks B f \<longrightarrow>
        (\<exists>f'. bf_AppendBlock B n h b r t i f = Some f' \<and> bf_Blocks B f' = Suc (bf_Blocks B f) \<and>
           (\<forall>tb x. bf_Get B tb x f' =
              (if unat x = Suc (bf_Blocks B f) then Some (bf_row b r t i tb) else bf_Get B tb x f)))) \<and>
     (\<forall>n f. \<exists>f'. bf_TruncateBlocks B n f = Some f' \<and> bf_Blocks B f' = min (unat n) (bf_Blocks B f) \<and>
        (\<forall>tb x. bf_Get B tb x f' = (if unat x \<le> unat n then bf_Get B tb x f else None)))"

record ('d, 'b, 'h, 'tx, 'rc, 'm) cext =
  C_db :: "'d storage_ops"
  C_bf :: "'b blockfile_ops"
  C_hashString :: "hash \<Rightarrow> string"
  C_newHash :: "slice \<Rightarrow> hash"
  C_zeroHash :: hash
  C_txHash :: "'tx \<Rightarrow> hash"
  C_hashOnly :: "hash \<Rightarrow> 'tx"
  C_sign :: "string \<Rightarrow> string option"
  C_marshalBlock :: "('h, 'tx) block \<Rightarrow> string option"
  C_unmarshalBlock :: "string \<Rightarrow> ('h, 'tx) block option"
  C_marshalTxs :: "'tx list \<Rightarrow> string option"
  C_unmarshalTxs :: "string \<Rightarrow> 'tx list option"
  C_marshalReceipts :: "'rc list \<Rightarrow> string option"
  C_unmarshalReceipts :: "string \<Rightarrow> 'rc list option"
  C_marshalInterchain :: "'m interchainMeta \<Rightarrow> string option"
  C_unmarshalInterchain :: "string \<Rightarrow> 'm interchainMeta option"
  C_marshalTxMeta :: "txMeta \<Rightarrow> string option"
  C_unmarshalTxMeta :: "string \<Rightarrow> txMeta option"
  C_marshalChainMeta :: "chainMeta \<Rightarrow> string option"
  C_unmarshalChainMeta :: "string \<Rightarrow> chainMeta option"
  C_jsonHashes :: "hash list \<Rightarrow> string option"
  C_unjsonHashes :: "string \<Rightarrow> hash list option"

definition cext_ok :: "('d, 'b, 'h, 'tx, 'rc, 'm, 'z) cext_scheme \<Rightarrow> bool" where
  "cext_ok C \<longleftrightarrow>
     storage_ok (C_db C) \<and> blockfile_ok (C_bf C) \<and> inj (C_hashString C) \<and>
     (\<forall>d. C_sign C d \<noteq> None) \<and> (\<forall>h. C_txHash C (C_hashOnly C h) = h) \<and>
     codec_ok (C_marshalBlock C) (C_unmarshalBlock C) \<and> codec_ok (C_marshalTxs C) (C_unmarshalTxs C) \<and>
     codec_ok (C_marshalReceipts C) (C_unmarshalReceipts C) \<and>
     codec_ok (C_marshalInterchain C) (C_unmarshalInterchain C) \<and>
     codec_ok (C_marshalTxMeta C) (C_unmarshalTxMeta C) \<and>
     codec_ok (C_marshalChainMeta C) (C_unmarshalChainMeta C) \<and>
     codec_ok (C_jsonHashes C) (C_unjsonHashes C)"

section \<open>Keys\<close>

definition blockHashKey :: string where "blockHashKey = ''block-hash-''"
definition blockHeightKey :: string where "blockHeightKey = ''block-height-''"
definition blockTxSetKey :: string where "blockTxSetKey = ''block-tx-set-''"
definition interchainMetaKey :: string where "interchainMetaKey = ''interchain-meta-''"
definition transactionMetaKey :: string where "transactionMetaKey = ''tx-meta-''"
definition chainMetaKey :: string where "chainMetaKey = ''chain-meta''"

section \<open>Errors and state\<close>

datatype chain_error =
    ErrGet bf_table u64
  | ErrUnmarshal string
  | ErrMarshal string
  | ErrNoTxHashes
  | ErrNotFound
  | ErrWrongHeight
  | ErrEmptyBlock
  | ErrSign
  | ErrTruncate
  | ErrRollbackToHigherNumber
  | ErrIn string chain_error

record ('d, 'b) chainLedger =
  cl_blockchainStore :: 'd
  cl_bf :: 'b
  cl_chainMeta :: chainMeta

text \<open>\<^verbatim>\<open>strconv.Atoi\<close>: an optional sign and digits, within the range of a 64-bit \<^verbatim>\<open>int\<close>.\<close>

definition atoi :: "string \<Rightarrow> int option" where
  "atoi s =
     (let (neg, ds) = (case s of [] \<Rightarrow> (False, [])
                       | c # cs \<Rightarrow> if c = CHR ''-'' then (True, cs)
                                   else if c = CHR ''+'' then (False, cs) else (False, c # cs))
      in if ds = [] then None
         else case undec 0 ds of
                None \<Rightarrow> None
              | Some n \<Rightarrow> (let v = (if neg then - int n else int n)
                           in if - (2 ^ 63) \<le> v \<and> v \<le> max_int64 then Some v else None))"

definition loadChainMeta where
  "loadChainMeta C store =
     (case db_Get (C_db C) store chainMetaKey of
        None \<Rightarrow> Inr \<lparr>cm_Height = 0, cm_BlockHash = Some (C_zeroHash C), cm_InterchainTxCount = 0\<rparr>
      | Some body \<Rightarrow>
          (case C_unmarshalChainMeta C body of
             None \<Rightarrow> Inl (ErrUnmarshal ''chain meta'')
           | Some chain \<Rightarrow> Inr chain))"

definition NewChainLedgerImpl where
  "NewChainLedgerImpl C store bf =
     (case loadChainMeta C store of
        Inl err \<Rightarrow> Inl (ErrIn ''load chain meta'' err)
      | Inr chainMeta \<Rightarrow> Inr \<lparr>cl_blockchainStore = store, cl_bf = bf, cl_chainMeta = chainMeta\<rparr>)"

definition PutBlock :: "u64 \<Rightarrow> ('h, 'tx) block \<Rightarrow> ('d, 'b) chainLedger \<Rightarrow> ('d, 'b) chainLedger" where
  "PutBlock height block l = l"

section \<open>Reading\<close>

definition GetBlock where
  "GetBlock C height fullTx l =
     attempt (or_err (ErrGet BodiesTable height) (bf_Get (C_bf C) BodiesTable height (cl_bf l))) (\<lambda>data.
     attempt (or_err (ErrUnmarshal ''block'') (C_unmarshalBlock C data)) (\<lambda>block.
     attempt (if \<not> fullTx then
            attempt (or_err ErrNoTxHashes
              (db_Get (C_db C) (cl_blockchainStore l) (compositeKey blockTxSetKey (fmt_d height)))) (\<lambda>txHashesData.
            attempt (or_err (ErrUnmarshal ''tx hash data'') (C_unjsonHashes C txHashesData)) (\<lambda>txHashes.
            Ok (map (C_hashOnly C) txHashes)))
          else
            attempt (or_err (ErrGet TXsTable height) (bf_Get (C_bf C) TXsTable height (cl_bf l))) (\<lambda>txsBytes.
            or_err (ErrUnmarshal ''txs bytes'') (C_unmarshalTxs C txsBytes))) (\<lambda>txs.
     Ok (block\<lparr>bk_Transactions := Some txs\<rparr>))))"

text \<open>The stored text of the hash is handed to \<^verbatim>\<open>NewHash\<close> as bytes.\<close>

definition GetBlockHash where
  "GetBlockHash C height l =
     (case db_Get (C_db C) (cl_blockchainStore l) (compositeKey blockHeightKey (fmt_d height)) of
        None \<Rightarrow> C_zeroHash C
      | Some hash \<Rightarrow> C_newHash C (Some hash))"

definition GetBlockSign where
  "GetBlockSign C height l =
     attempt (wrap_err (ErrIn ''get block'') (GetBlock C height False l)) (\<lambda>block. Ok (bk_Signature block))"

definition GetBlockByHash where
  "GetBlockByHash C hash fullTx l =
     attempt (or_err ErrNotFound
       (db_Get (C_db C) (cl_blockchainStore l) (compositeKey blockHashKey (C_hashString C hash)))) (\<lambda>data.
     attempt (or_err ErrWrongHeight (atoi data)) (\<lambda>height.
     GetBlock C (word_of_int height) fullTx l))"

text \<open>An index beyond the stored transactions or receipts panics.\<close>

definition index_or_panic :: "'a list \<Rightarrow> u64 \<Rightarrow> ('e, 'a) result" where
  "index_or_panic xs i = (if unat i < length xs then Ok (xs ! unat i) else None)"

definition cl_GetTransaction where
  "cl_GetTransaction C hash l =
     attempt (or_err ErrNotFound
       (db_Get (C_db C) (cl_blockchainStore l) (compositeKey transactionMetaKey (C_hashString C hash)))) (\<lambda>metaBytes.
     attempt (or_err (ErrUnmarshal ''transaction meta'') (C_unmarshalTxMeta C metaBytes)) (\<lambda>meta.
     attempt (or_err (ErrGet TXsTable (tm_BlockHeight meta))
       (bf_Get (C_bf C) TXsTable (tm_BlockHeight meta) (cl_bf l))) (\<lambda>txsBytes.
     attempt (or_err (ErrUnmarshal ''txs bytes'') (C_unmarshalTxs C txsBytes)) (\<lambda>txs.
     index_or_panic txs (tm_Index meta)))))"

definition GetTransactionCount where
  "GetTransactionCount C height l =
     attempt (or_err ErrNoTxHashes
       (db_Get (C_db C) (cl_blockchainStore l) (compositeKey blockTxSetKey (fmt_d height)))) (\<lambda>txHashesData.
     attempt (or_err (ErrUnmarshal ''tx hash data'') (C_unjsonHashes C txHashesData)) (\<lambda>txHashes.
     Ok (of_nat (length txHashes) :: u64)))"

definition GetTransactionMeta where
  "GetTransactionMeta C hash l =
     attempt (or_err ErrNotFound
       (db_Get (C_db C) (cl_blockchainStore l) (compositeKey transactionMetaKey (C_hashString C hash)))) (\<lambda>data.
     or_err (ErrUnmarshal ''transaction meta'') (C_unmarshalTxMeta C data))"

definition GetReceipt where
  "GetReceipt C hash l =
     attempt (or_err ErrNotFound
       (db_Get (C_db C) (cl_blockchainStore l) (compositeKey transactionMetaKey (C_hashString C hash)))) (\<lambda>metaBytes.
     attempt (or_err (ErrUnmarshal ''transaction meta'') (C_unmarshalTxMeta C metaBytes)) (\<lambda>meta.
     attempt (or_err (ErrGet ReceiptTable (tm_BlockHeight meta))
       (bf_Get (C_bf C) ReceiptTable (tm_BlockHeight meta) (cl_bf l))) (\<lambda>rsBytes.
     attempt (or_err (ErrUnmarshal ''receipt bytes'') (C_unmarshalReceipts C rsBytes)) (\<lambda>rs.
     index_or_panic rs (tm_Index meta)))))"

definition GetChainMeta :: "('d, 'b) chainLedger \<Rightarrow> chainMeta" where
  "GetChainMeta l = cl_chainMeta l"

text \<open>\<^verbatim>\<open>LoadChainMeta\<close> panics on an error.\<close>

definition LoadChainMeta where
  "LoadChainMeta C l = (case loadChainMeta C (cl_blockchainStore l) of Inl err \<Rightarrow> None | Inr meta \<Rightarrow> Some meta)"

definition GetInterchainMeta where
  "GetInterchainMeta C height l =
     attempt (or_err (ErrGet InterchainTable height) (bf_Get (C_bf C) InterchainTable height (cl_bf l))) (\<lambda>data.
     or_err (ErrUnmarshal ''interchain meta'') (C_unmarshalInterchain C data))"

section \<open>Persisting a block\<close>

definition prepareReceipts where
  "prepareReceipts C receipts = or_err (ErrMarshal ''receipts'') (C_marshalReceipts C receipts)"

text \<open>The loop over the transactions stops at the first metadata that cannot be encoded.\<close>

fun txMeta_puts where
  "txMeta_puts C block i [] = Ok []"
| "txMeta_puts C block i (tx # txs) =
     attempt (or_err (ErrMarshal ''tx meta'') (C_marshalTxMeta C
       \<lparr>tm_BlockHeight = bh_Number (bk_BlockHeader block), tm_BlockHash = bk_BlockHash block,
        tm_Index = of_nat i\<rparr>)) (\<lambda>metaBytes.
     attempt (txMeta_puts C block (Suc i) txs) (\<lambda>puts.
     Ok (Put (compositeKey transactionMetaKey (C_hashString C (C_txHash C tx))) metaBytes # puts)))"

text \<open>The operations on a batch return what they add to it; a nil \<^verbatim>\<open>Transactions\<close> panics.\<close>

definition prepareTransactions where
  "prepareTransactions C block =
     (case bk_Transactions block of
        None \<Rightarrow> None
      | Some txs \<Rightarrow>
          attempt (txMeta_puts C block 0 txs) (\<lambda>puts.
          attempt (or_err (ErrMarshal ''transactions'') (C_marshalTxs C txs)) (\<lambda>ts.
          Ok (ts, puts))))"

text \<open>\<^verbatim>\<open>prepareBlock\<close> signs a block without a signature, in place: the signed block is part of the result.\<close>

definition sign_block where
  "sign_block C block =
     (if bk_Signature block = None
      then attempt (or_err ErrSign (C_sign C (bk_BlockHash block))) (\<lambda>signed.
           Ok (block\<lparr>bk_Signature := Some signed\<rparr>))
      else Ok block)"

definition prepareBlock where
  "prepareBlock C block =
     attempt (sign_block C block) (\<lambda>block.
     attempt (or_err (ErrMarshal ''stored block'') (C_marshalBlock C (block\<lparr>bk_Transactions := None\<rparr>))) (\<lambda>bs.
     case bk_Transactions block of
       None \<Rightarrow> None
     | Some txs \<Rightarrow>
         attempt (or_err (ErrMarshal ''tx hash'') (C_jsonHashes C (map (C_txHash C) txs))) (\<lambda>data.
         (let height = bh_Number (bk_BlockHeader block); hash = C_hashString C (bk_BlockHash block)
          in Ok (bs, block,
               [Put (compositeKey blockTxSetKey (fmt_d height)) data,
                Put (compositeKey blockHashKey hash) (fmt_d height),
                Put (compositeKey blockHeightKey (fmt_d height)) hash])))))"

definition persistChainMeta where
  "persistChainMeta C meta =
     attempt (or_err (ErrMarshal ''chain meta'') (C_marshalChainMeta C meta)) (\<lambda>data.
     Ok [Put chainMetaKey data])"

definition UpdateChainMeta :: "chainMeta \<Rightarrow> ('d, 'b) chainLedger \<Rightarrow> ('d, 'b) chainLedger" where
  "UpdateChainMeta meta l =
     l\<lparr>cl_chainMeta := \<lparr>cm_Height = cm_Height meta, cm_BlockHash = cm_BlockHash meta,
         cm_InterchainTxCount = cm_InterchainTxCount meta\<rparr>\<rparr>"

definition getInterchainTxCount :: "'e runtime_scheme \<Rightarrow> 'm interchainMeta \<Rightarrow> u64" where
  "getInterchainTxCount E im =
     fold (\<lambda>(_, v) ret. ret + of_nat (length v)) (go_range (rt_order E 30) (im_Counter im)) 0"

text \<open>
  \<^verbatim>\<open>PersistExecutionResult\<close>: prepare everything, then append to the block file and commit the
  batch; a failing append panics. Both run concurrently and touch different stores.
\<close>

definition PersistExecutionResult where
  "PersistExecutionResult C E block receipts interchainMeta l =
     (case block of
        None \<Rightarrow> Fail ErrEmptyBlock
      | Some block \<Rightarrow>
          attempt (wrap_err (ErrIn ''prepare receipts'') (prepareReceipts C receipts)) (\<lambda>rs.
          attempt (wrap_err (ErrIn ''prepare transactions'') (prepareTransactions C block)) (\<lambda>(ts, batch1).
          attempt (wrap_err (ErrIn ''prepare block'') (prepareBlock C block)) (\<lambda>(b, block, batch2).
          attempt (or_err (ErrMarshal ''interchain meta'') (C_marshalInterchain C interchainMeta)) (\<lambda>im.
          (let txCount = getInterchainTxCount E interchainMeta;
               meta = \<lparr>cm_Height = bh_Number (bk_BlockHeader block), cm_BlockHash = Some (bk_BlockHash block),
                       cm_InterchainTxCount = txCount + cm_InterchainTxCount (cl_chainMeta l)\<rparr>
           in attempt (wrap_err (ErrIn ''persist chain meta'') (persistChainMeta C meta)) (\<lambda>batch3.
              case bf_AppendBlock (C_bf C) (cm_Height (cl_chainMeta l)) (bk_BlockHash block) b rs ts im (cl_bf l) of
                None \<Rightarrow> None
              | Some bf \<Rightarrow>
                  (let l = l\<lparr>cl_bf := bf,
                       cl_blockchainStore := db_Commit (C_db C) (batch1 @ batch2 @ batch3) (cl_blockchainStore l)\<rparr>
                   in Ok (block, UpdateChainMeta meta l)))))))))"

section \<open>Rolling back the chain\<close>

text \<open>
  \<^verbatim>\<open>removeChainDataOnBlock\<close> truncates the block file at once and adds deletions to the batch; the
  result carries the ledger, the deletions and the count of the block.
\<close>

definition removeChainDataOnBlock where
  "removeChainDataOnBlock C E height l =
     attempt (wrap_err (ErrIn ''get block'') (GetBlock C height False l)) (\<lambda>block.
     attempt (wrap_err (ErrIn ''get interchain meta'') (GetInterchainMeta C height l)) (\<lambda>interchainMeta.
     attempt (or_err ErrTruncate (bf_TruncateBlocks (C_bf C) (height - 1) (cl_bf l))) (\<lambda>bf.
     case bk_Transactions block of
       None \<Rightarrow> None
     | Some txs \<Rightarrow>
         Ok (l\<lparr>cl_bf := bf\<rparr>,
             [Delete (compositeKey blockTxSetKey (fmt_d height)),
              Delete (compositeKey blockHashKey (C_hashString C (bk_BlockHash block))),
              Delete (compositeKey interchainMetaKey (fmt_d height))] @
             map (\<lambda>tx. Delete (compositeKey transactionMetaKey (C_hashString C (C_txHash C tx)))) txs,
             getInterchainTxCount E interchainMeta))))"

text \<open>The loop over the heights; on an error the truncations of the earlier rounds remain.\<close>

fun remove_blocks where
  "remove_blocks C E [] l batch txCount = Some (None, l, batch, txCount)"
| "remove_blocks C E (i # is) l batch txCount =
     (case removeChainDataOnBlock C E i l of
        None \<Rightarrow> None
      | Some (Inl err) \<Rightarrow> Some (Some (ErrIn ''remove chain data'' err), l, batch, txCount)
      | Some (Inr (l, dels, n)) \<Rightarrow> remove_blocks C E is l (batch @ dels) (txCount - n))"

definition rollback_meta where
  "rollback_meta C height txCount l =
     (if height = 0 then Ok (\<lparr>cm_Height = 0, cm_BlockHash = None, cm_InterchainTxCount = 0\<rparr>, [Delete chainMetaKey])
      else
        attempt (wrap_err (ErrIn ''get block'') (GetBlock C height False l)) (\<lambda>block.
        (let meta = \<lparr>cm_Height = bh_Number (bk_BlockHeader block), cm_BlockHash = Some (bk_BlockHash block),
                     cm_InterchainTxCount = txCount\<rparr>
         in attempt (wrap_err (ErrIn ''persist chain meta'') (persistChainMeta C meta)) (\<lambda>puts. Ok (meta, puts)))))"

definition RollbackBlockChain where
  "RollbackBlockChain C E height l =
     (let meta = GetChainMeta l
      in if cm_Height meta < height then Some (Some ErrRollbackToHigherNumber, l)
         else if cm_Height meta = height then Some (None, l)
         else
           (case remove_blocks C E (heights_down (cm_Height meta) height) l [] (cm_InterchainTxCount meta) of
              None \<Rightarrow> None
            | Some (Some err, l, _, _) \<Rightarrow> Some (Some err, l)
            | Some (None, l, batch, txCount) \<Rightarrow>
                (case rollback_meta C height txCount l of
                   None \<Rightarrow> None
                 | Some (Inl err) \<Rightarrow> Some (Some err, l)
                 | Some (Inr (meta, puts)) \<Rightarrow>
                     Some (None, UpdateChainMeta meta
                       (l\<lparr>cl_blockchainStore := db_Commit (C_db C) (batch @ puts) (cl_blockchainStore l)\<rparr>)))))"

section \<open>The ledger\<close>

record ('d, 'a, 's, 'i, 'l, 'e, 'b) ledger_pair =
  ChainLedger :: "('e, 'b) chainLedger"
  StateLedger :: "('d, 'a, 's, 'i, 'l) ledger"

record ('h, 'tx, 'rc, 'm) blockData =
  bd_Block :: "('h, 'tx) block"
  bd_Receipts :: "'rc list"
  bd_Accounts :: "(string, simpleAccount) gomap"
  bd_InterchainMeta :: "'m interchainMeta"
  bd_TxHashList :: "hash list"

text \<open>
  The two halves are persisted by concurrent goroutines that share no state; an error of either is
  a panic. A nil state root panics.
\<close>

definition PersistBlockData where
  "PersistBlockData X C E data l = do {
     stateRoot \<leftarrow> bh_StateRoot (bk_BlockHeader (bd_Block data));
     (err, sl) \<leftarrow> Commit X E (bh_Number (bk_BlockHeader (bd_Block data))) (bd_Accounts data) stateRoot (StateLedger l);
     if err \<noteq> None then None else do {
     r \<leftarrow> PersistExecutionResult C E (Some (bd_Block data)) (bd_Receipts data) (bd_InterchainMeta data) (ChainLedger l);
     case r of
       Inl err \<Rightarrow> None
     | Inr (block, cl) \<Rightarrow> Some (data\<lparr>bd_Block := block\<rparr>, \<lparr>ChainLedger = cl, StateLedger = sl\<rparr>)}}"

datatype Ledger_error =
    RollbackStateFailed u64 ledger_error
  | RollbackBlockFailed u64 chain_error
  | InitChainFailed chain_error
  | InitStateFailed ledger_error
  | RollbackLedgerFailed u64 Ledger_error

definition Rollback where
  "Rollback X C E height l = do {
     (err, sl) \<leftarrow> RollbackState X E height (StateLedger l);
     let l = l\<lparr>StateLedger := sl\<rparr>;
     case err of
       Some e \<Rightarrow> Some (Some (RollbackStateFailed height e), l)
     | None \<Rightarrow> do {
         (err, cl) \<leftarrow> RollbackBlockChain C E height (ChainLedger l);
         let l = l\<lparr>ChainLedger := cl\<rparr>;
         case err of
           Some e \<Rightarrow> Some (Some (RollbackBlockFailed height e), l)
         | None \<Rightarrow> Some (None, l)}}"

text \<open>
  \<^verbatim>\<open>New\<close> for the simple state ledger: open both halves and roll them back to the height of the chain
  metadata. The variant on an Ethereum state database is third-party code.
\<close>

definition Ledger_New where
  "Ledger_New X C E blockchainStore ldb bf cache =
     (case NewChainLedgerImpl C blockchainStore bf of
        Inl err \<Rightarrow> Fail (InitChainFailed err)
      | Inr chainLedger \<Rightarrow>
          (let meta = GetChainMeta chainLedger
           in do {
             s \<leftarrow> NewSimpleLedger X ldb cache;
             case s of
               Inl err \<Rightarrow> Fail (InitStateFailed err)
             | Inr stateLedger \<Rightarrow> do {
                 (err, l) \<leftarrow> Rollback X C E (cm_Height meta) \<lparr>ChainLedger = chainLedger, StateLedger = stateLedger\<rparr>;
                 case err of
                   Some e \<Rightarrow> Fail (RollbackLedgerFailed (cm_Height meta) e)
                 | None \<Rightarrow> Ok l}}))"

end
