(* ===== verification/Chain_Refine.thy ===== *)
theory Chain_Refine
  imports Chain
begin

text \<open>
  The chain ledger refines a list of blocks: persisting appends an entry, rolling back takes a
  prefix, the queries read the entry, and reopening the store gives the same list.
\<close>

section \<open>The contracts, one by one\<close>

lemma cext_okD:
  assumes "cext_ok C"
  shows "storage_ok (C_db C)" "blockfile_ok (C_bf C)" "inj (C_hashString C)" "C_sign C d \<noteq> None"
    "C_txHash C (C_hashOnly C h) = h" "codec_ok (C_marshalBlock C) (C_unmarshalBlock C)"
    "codec_ok (C_marshalTxs C) (C_unmarshalTxs C)" "codec_ok (C_marshalReceipts C) (C_unmarshalReceipts C)"
    "codec_ok (C_marshalInterchain C) (C_unmarshalInterchain C)"
    "codec_ok (C_marshalTxMeta C) (C_unmarshalTxMeta C)"
    "codec_ok (C_marshalChainMeta C) (C_unmarshalChainMeta C)"
    "codec_ok (C_jsonHashes C) (C_unjsonHashes C)"
  using assms by (simp_all add: cext_ok_def)

lemma codec_the:
  assumes "codec_ok enc unc"
  shows "or_err e (enc x) = Ok (the (enc x))" "unc (the (enc x)) = Some x"
proof -
  from assms obtain d where "enc x = Some d" "unc d = Some x" unfolding codec_ok_def by blast
  then show "or_err e (enc x) = Ok (the (enc x))" "unc (the (enc x)) = Some x" by simp_all
qed

lemma cext_enc:
  assumes "cext_ok C"
  shows "or_err e (C_marshalBlock C b) = Ok (the (C_marshalBlock C b))"
    "or_err e (C_marshalTxs C ts) = Ok (the (C_marshalTxs C ts))"
    "or_err e (C_marshalReceipts C rs) = Ok (the (C_marshalReceipts C rs))"
    "or_err e (C_marshalInterchain C im) = Ok (the (C_marshalInterchain C im))"
    "or_err e (C_marshalTxMeta C tm) = Ok (the (C_marshalTxMeta C tm))"
    "or_err e (C_marshalChainMeta C cm) = Ok (the (C_marshalChainMeta C cm))"
    "or_err e (C_jsonHashes C hs) = Ok (the (C_jsonHashes C hs))"
  using cext_okD(6-12)[OF assms] by (simp_all only: codec_the)

lemma cext_dec:
  assumes "cext_ok C"
  shows "C_unmarshalBlock C (the (C_marshalBlock C b)) = Some b"
    "C_unmarshalTxs C (the (C_marshalTxs C ts)) = Some ts"
    "C_unmarshalReceipts C (the (C_marshalReceipts C rs)) = Some rs"
    "C_unmarshalInterchain C (the (C_marshalInterchain C im)) = Some im"
    "C_unmarshalTxMeta C (the (C_marshalTxMeta C tm)) = Some tm"
    "C_unmarshalChainMeta C (the (C_marshalChainMeta C cm)) = Some cm"
    "C_unjsonHashes C (the (C_jsonHashes C hs)) = Some hs"
  using cext_okD(6-12)[OF assms] by (simp_all only: codec_the)

lemma hashString_eq [simp]: "cext_ok C \<Longrightarrow> C_hashString C a = C_hashString C b \<longleftrightarrow> a = b"
  by (simp add: cext_ok_def inj_eq)

lemma bf_append:
  assumes "blockfile_ok B" "unat n = bf_Blocks B f"
  obtains f' where "bf_AppendBlock B n h b r t i f = Some f'" "bf_Blocks B f' = Suc (bf_Blocks B f)"
    "\<And>tb x. bf_Get B tb x f' =
       (if unat x = Suc (bf_Blocks B f) then Some (bf_row b r t i tb) else bf_Get B tb x f)"
proof -
  have "\<exists>f'. bf_AppendBlock B n h b r t i f = Some f' \<and> bf_Blocks B f' = Suc (bf_Blocks B f) \<and>
      (\<forall>tb x. bf_Get B tb x f' =
         (if unat x = Suc (bf_Blocks B f) then Some (bf_row b r t i tb) else bf_Get B tb x f))"
    using assms unfolding blockfile_ok_def by blast
  then show ?thesis using that by blast
qed

lemma bf_truncate:
  assumes "blockfile_ok B"
  obtains f' where "bf_TruncateBlocks B n f = Some f'" "bf_Blocks B f' = min (unat n) (bf_Blocks B f)"
    "\<And>tb x. bf_Get B tb x f' = (if unat x \<le> unat n then bf_Get B tb x f else None)"
proof -
  have "\<exists>f'. bf_TruncateBlocks B n f = Some f' \<and> bf_Blocks B f' = min (unat n) (bf_Blocks B f) \<and>
      (\<forall>tb x. bf_Get B tb x f' = (if unat x \<le> unat n then bf_Get B tb x f else None))"
    using assms unfolding blockfile_ok_def by blast
  then show ?thesis using that by blast
qed

lemma bf_get_None: "blockfile_ok B \<Longrightarrow> bf_Get B t x f = None \<longleftrightarrow> x = 0 \<or> bf_Blocks B f < unat x"
  by (simp add: blockfile_ok_def)

lemma bf_append_out_of_order:
  "blockfile_ok B \<Longrightarrow> unat n \<noteq> bf_Blocks B f \<Longrightarrow> bf_AppendBlock B n h b r t i f = None"
  by (simp add: blockfile_ok_def)

lemmas chain_key_defs = compositeKey_def blockHashKey_def blockHeightKey_def blockTxSetKey_def
  interchainMetaKey_def transactionMetaKey_def chainMetaKey_def

section \<open>Counting\<close>

definition im_size :: "'m interchainMeta \<Rightarrow> u64" where
  "im_size im = (\<Sum>k \<leftarrow> keys (im_Counter im). of_nat (length (the (gget (im_Counter im) k))))"

lemma fold_count: "fold (\<lambda>(_, v) ret. ret + of_nat (length v)) xs (c :: u64) = c + (\<Sum>(k, v) \<leftarrow> xs. of_nat (length v))"
  by (induction xs arbitrary: c) (auto simp: add.assoc)

lemma go_range_map:
  assumes "order_ok ord"
  shows "go_range ord m = map (\<lambda>k. (k, the (gget m k))) (ord (keys m))"
proof -
  have "List.map_filter (\<lambda>k. map_option (Pair k) (gget m k)) ks = map (\<lambda>k. (k, the (gget m k))) ks"
    if "set ks \<subseteq> set (keys m)" for ks
    using that
  proof (induction ks)
    case (Cons k ks)
    then obtain v where "gget m k = Some v" using gget_dom[of k m] by auto
    with Cons show ?case by simp
  qed simp
  with order_ok_set[OF assms, of "keys m"] show ?thesis unfolding go_range_def by simp
qed

lemma getInterchainTxCount_size:
  assumes "runtime_ok E"
  shows "getInterchainTxCount E im = im_size im"
proof -
  have o: "order_ok (rt_order E 30)" using assms by simp
  have "mset (rt_order E 30 (keys (im_Counter im))) = mset (keys (im_Counter im))"
    using o by (simp add: order_ok_def)
  then have "(\<Sum>k \<leftarrow> rt_order E 30 (keys (im_Counter im)). of_nat (length (the (gget (im_Counter im) k)))) = im_size im"
    unfolding im_size_def sum_mset_sum_list[symmetric] mset_map by simp
  then show ?thesis
    unfolding getInterchainTxCount_def fold_count go_range_map[OF o] by (simp add: comp_def)
qed

section \<open>The chain as a list\<close>

type_synonym ('h, 'tx, 'rc, 'm) entry = "('h, 'tx) block \<times> 'rc list \<times> 'm interchainMeta"

definition e_block :: "('h, 'tx, 'rc, 'm) entry \<Rightarrow> ('h, 'tx) block" where "e_block e = fst e"
definition e_receipts :: "('h, 'tx, 'rc, 'm) entry \<Rightarrow> 'rc list" where "e_receipts e = fst (snd e)"
definition e_im :: "('h, 'tx, 'rc, 'm) entry \<Rightarrow> 'm interchainMeta" where "e_im e = snd (snd e)"
definition e_txs :: "('h, 'tx, 'rc, 'm) entry \<Rightarrow> 'tx list" where
  "e_txs e = the (bk_Transactions (e_block e))"
definition e_hash :: "('h, 'tx, 'rc, 'm) entry \<Rightarrow> hash" where "e_hash e = bk_BlockHash (e_block e)"
definition e_height :: "('h, 'tx, 'rc, 'm) entry \<Rightarrow> u64" where
  "e_height e = bh_Number (bk_BlockHeader (e_block e))"

lemma e_simps [simp]:
  "e_block (b, r, i) = b" "e_receipts (b, r, i) = r" "e_im (b, r, i) = i"
  "e_txs (b, r, i) = the (bk_Transactions b)" "e_hash (b, r, i) = bk_BlockHash b"
  "e_height (b, r, i) = bh_Number (bk_BlockHeader b)"
  by (simp_all add: e_block_def e_receipts_def e_im_def e_txs_def e_hash_def e_height_def)

definition tx_meta :: "('h, 'tx, 'rc, 'm) entry \<Rightarrow> nat \<Rightarrow> txMeta" where
  "tx_meta e i = \<lparr>tm_BlockHeight = e_height e, tm_BlockHash = e_hash e, tm_Index = of_nat i\<rparr>"

definition tx_key where
  "tx_key C tx = compositeKey transactionMetaKey (C_hashString C (C_txHash C tx))"

definition tx_puts where
  "tx_puts C e = map (\<lambda>(i, tx). Put (tx_key C tx) (the (C_marshalTxMeta C (tx_meta e i))))
     (enumerate 0 (e_txs e))"

definition entry_puts where
  "entry_puts C e = tx_puts C e @
     [Put (compositeKey blockTxSetKey (fmt_d (e_height e))) (the (C_jsonHashes C (map (C_txHash C) (e_txs e)))),
      Put (compositeKey blockHashKey (C_hashString C (e_hash e))) (fmt_d (e_height e)),
      Put (compositeKey blockHeightKey (fmt_d (e_height e))) (C_hashString C (e_hash e))]"

definition entry_row where
  "entry_row C e = bf_row (the (C_marshalBlock C ((e_block e)\<lparr>bk_Transactions := None\<rparr>)))
     (the (C_marshalReceipts C (e_receipts e))) (the (C_marshalTxs C (e_txs e)))
     (the (C_marshalInterchain C (e_im e)))"

definition tx_total :: "('h, 'tx, 'rc, 'm) entry list \<Rightarrow> u64" where
  "tx_total es = (\<Sum>e \<leftarrow> es. im_size (e_im e))"

definition chain_meta :: "('h, 'tx, 'rc, 'm) entry list \<Rightarrow> chainMeta" where
  "chain_meta es = \<lparr>cm_Height = e_height (last es), cm_BlockHash = Some (e_hash (last es)),
     cm_InterchainTxCount = tx_total es\<rparr>"

definition meta_puts where
  "meta_puts C es = (if es = [] then [] else [Put chainMetaKey (the (C_marshalChainMeta C (chain_meta es)))])"

definition chain_ok where
  "chain_ok C es \<longleftrightarrow> length es < 2 ^ 64 \<and>
     (\<forall>i < length es. e_height (es ! i) = of_nat (Suc i) \<and> bk_Transactions (e_block (es ! i)) \<noteq> None) \<and>
     distinct (map e_hash es) \<and> distinct (map (C_txHash C) (concat (map e_txs es)))"

text \<open>
  A rollback leaves the hash texts of the removed heights in the store; they are not part of the
  representation.
\<close>

definition stale :: "nat \<Rightarrow> string \<Rightarrow> bool" where
  "stale n k \<longleftrightarrow> (\<exists>h :: u64. k = compositeKey blockHeightKey (fmt_d h) \<and> n < unat h)"

definition store_rep where
  "store_rep C store es \<longleftrightarrow> (\<forall>k. \<not> stale (length es) k \<longrightarrow>
     db_Get (C_db C) store k =
       apply_batch (concat (map (entry_puts C) es) @ meta_puts C es) (\<lambda>_. None) k)"

definition bf_rep where
  "bf_rep C bf es \<longleftrightarrow> bf_Blocks (C_bf C) bf = length es \<and>
     (\<forall>i < length es. \<forall>t. bf_Get (C_bf C) t (of_nat (Suc i)) bf = Some (entry_row C (es ! i) t))"

definition meta_rep :: "chainMeta \<Rightarrow> ('h, 'tx, 'rc, 'm) entry list \<Rightarrow> bool" where
  "meta_rep m es \<longleftrightarrow> (if es = [] then cm_Height m = 0 \<and> cm_InterchainTxCount m = 0 else m = chain_meta es)"

definition chain_rep where
  "chain_rep C l es \<longleftrightarrow> chain_ok C es \<and> store_rep C (cl_blockchainStore l) es \<and>
     bf_rep C (cl_bf l) es \<and> meta_rep (cl_chainMeta l) es"

section \<open>Persisting\<close>

lemma txMeta_puts_eq:
  assumes "cext_ok C" "bk_BlockHash b = e_hash e" "bh_Number (bk_BlockHeader b) = e_height e"
  shows "txMeta_puts C b n txs =
    Ok (map (\<lambda>(i, tx). Put (tx_key C tx) (the (C_marshalTxMeta C (tx_meta e i)))) (enumerate n txs))"
  using assms(2,3)
  by (induction txs arbitrary: n) (simp_all add: cext_enc[OF assms(1)] tx_key_def tx_meta_def)

definition signed_block where
  "signed_block C b = (if bk_Signature b = None then b\<lparr>bk_Signature := Some (the (C_sign C (bk_BlockHash b)))\<rparr> else b)"

lemma signed_block_simps [simp]:
  "bk_BlockHeader (signed_block C b) = bk_BlockHeader b" "bk_Transactions (signed_block C b) = bk_Transactions b"
  "bk_BlockHash (signed_block C b) = bk_BlockHash b" "bk_Extra (signed_block C b) = bk_Extra b"
  by (simp_all add: signed_block_def)

lemma sign_block_eq: "cext_ok C \<Longrightarrow> sign_block C b = Ok (signed_block C b)"
  using cext_okD(4)[of C "bk_BlockHash b"] by (auto simp: sign_block_def signed_block_def)

lemma prepareBlock_eq:
  assumes "cext_ok C" "bk_Transactions b = Some txs" "e = (signed_block C b, rs, im)"
  shows "prepareTransactions C b = Ok (the (C_marshalTxs C (e_txs e)), tx_puts C e)"
    "prepareBlock C b = Ok (the (C_marshalBlock C ((e_block e)\<lparr>bk_Transactions := None\<rparr>)), e_block e,
       [Put (compositeKey blockTxSetKey (fmt_d (e_height e))) (the (C_jsonHashes C (map (C_txHash C) (e_txs e)))),
        Put (compositeKey blockHashKey (C_hashString C (e_hash e))) (fmt_d (e_height e)),
        Put (compositeKey blockHeightKey (fmt_d (e_height e))) (C_hashString C (e_hash e))])"
    "prepareReceipts C rs = Ok (the (C_marshalReceipts C (e_receipts e)))"
    "or_err (ErrMarshal s) (C_marshalInterchain C im) = Ok (the (C_marshalInterchain C (e_im e)))"
proof -
  have "txMeta_puts C b 0 txs = Ok (tx_puts C e)"
    using txMeta_puts_eq[OF assms(1), of b e 0 txs] assms(2,3) by (simp add: tx_puts_def)
  then show "prepareTransactions C b = Ok (the (C_marshalTxs C (e_txs e)), tx_puts C e)"
    using assms(2,3) by (simp add: prepareTransactions_def cext_enc[OF assms(1)])
qed (use assms in \<open>simp_all add: prepareBlock_def prepareReceipts_def sign_block_eq cext_enc Let_def\<close>)

text \<open>A block that extends the chain: the next number, and hashes not seen before.\<close>

definition extends where
  "extends C es b \<longleftrightarrow> Suc (length es) < 2 ^ 64 \<and> bh_Number (bk_BlockHeader b) = of_nat (Suc (length es)) \<and>
     bk_BlockHash b \<notin> e_hash ` set es \<and>
     (\<exists>txs. bk_Transactions b = Some txs \<and> distinct (map (C_txHash C) txs) \<and>
        C_txHash C ` set txs \<inter> C_txHash C ` set (concat (map e_txs es)) = {})"

lemma chain_ok_extend:
  assumes "chain_ok C es" "extends C es b"
  shows "chain_ok C (es @ [(signed_block C b, rs, im)])"
proof -
  from assms(2) obtain txs where "bk_Transactions b = Some txs" "distinct (map (C_txHash C) txs)"
    "C_txHash C ` set (concat (map e_txs es)) \<inter> C_txHash C ` set txs = {}"
    unfolding extends_def by blast
  with assms(1) have "distinct (map (C_txHash C) (concat (map e_txs (es @ [(signed_block C b, rs, im)]))))"
    by (simp add: chain_ok_def)
  moreover have "distinct (map e_hash (es @ [(signed_block C b, rs, im)]))"
    using assms by (simp add: chain_ok_def extends_def)
  ultimately show ?thesis
    using assms unfolding chain_ok_def[of C "es @ _"]
    by (auto simp: chain_ok_def extends_def nth_append less_Suc_eq simp del: map_append concat_append)
qed

lemma meta_rep_height:
  assumes "chain_ok C es" "meta_rep m es"
  shows "unat (cm_Height m) = length es" "cm_InterchainTxCount m = tx_total es"
proof -
  show "unat (cm_Height m) = length es"
  proof (cases "es = []")
    case False
    then obtain n where "length es = Suc n" by (cases es) auto
    with False have "e_height (last es) = of_nat (length es)"
      using assms(1) by (simp add: chain_ok_def last_conv_nth)
    with False assms show ?thesis by (simp add: meta_rep_def chain_meta_def chain_ok_def unat_of_nat_u64)
  qed (use assms in \<open>simp add: meta_rep_def\<close>)
  show "cm_InterchainTxCount m = tx_total es"
    using assms(2) by (auto simp: meta_rep_def chain_meta_def tx_total_def split: if_splits)
qed

lemma persist_eq:
  fixes rs im
  assumes "cext_ok C" "runtime_ok E" "chain_rep C l es" "extends C es b"
  defines "e \<equiv> (signed_block C b, rs, im)"
  obtains bf where "bf_rep C bf (es @ [e])"
    "PersistExecutionResult C E (Some b) rs im l = Ok (signed_block C b,
       \<lparr>cl_blockchainStore = db_Commit (C_db C) (entry_puts C e @ meta_puts C (es @ [e])) (cl_blockchainStore l),
        cl_bf = bf, cl_chainMeta = chain_meta (es @ [e])\<rparr>)"
proof -
  from assms have ok: "chain_ok C es" and br: "bf_rep C (cl_bf l) es" and mr: "meta_rep (cl_chainMeta l) es"
    by (simp_all add: chain_rep_def)
  from assms(4) obtain txs where txs: "bk_Transactions b = Some txs" by (auto simp: extends_def)
  note prep = prepareBlock_eq[OF assms(1) txs, of e rs im, OF e_def[THEN meta_eq_to_obj_eq]]
  note h = meta_rep_height[OF ok mr]
  have n: "unat (cm_Height (cl_chainMeta l)) = bf_Blocks (C_bf C) (cl_bf l)"
    using h br by (simp add: bf_rep_def)
  obtain bf where bf: "bf_AppendBlock (C_bf C) (cm_Height (cl_chainMeta l)) (bk_BlockHash b)
      (the (C_marshalBlock C ((e_block e)\<lparr>bk_Transactions := None\<rparr>)))
      (the (C_marshalReceipts C (e_receipts e))) (the (C_marshalTxs C (e_txs e)))
      (the (C_marshalInterchain C (e_im e))) (cl_bf l) = Some bf"
    "bf_Blocks (C_bf C) bf = Suc (bf_Blocks (C_bf C) (cl_bf l))"
    "\<And>t x. bf_Get (C_bf C) t x bf = (if unat x = Suc (bf_Blocks (C_bf C) (cl_bf l))
       then Some (bf_row (the (C_marshalBlock C ((e_block e)\<lparr>bk_Transactions := None\<rparr>)))
          (the (C_marshalReceipts C (e_receipts e))) (the (C_marshalTxs C (e_txs e)))
          (the (C_marshalInterchain C (e_im e))) t) else bf_Get (C_bf C) t x (cl_bf l))"
    by (rule bf_append[OF cext_okD(2)[OF assms(1)] n]) (rule that)
  have small: "Suc (length es) < 2 ^ 64" using assms(4) by (simp add: extends_def)
  have "bf_rep C bf (es @ [e])"
    unfolding bf_rep_def
  proof (intro conjI allI impI)
    show "bf_Blocks (C_bf C) bf = length (es @ [e])" using bf(2) br by (simp add: bf_rep_def)
    fix i t assume i: "i < length (es @ [e])"
    then have u: "unat (of_nat (Suc i) :: u64) = Suc i" using small by (intro unat_of_nat_u64) simp
    show "bf_Get (C_bf C) t (of_nat (Suc i)) bf = Some (entry_row C ((es @ [e]) ! i) t)"
      using br i unfolding bf(3) u by (auto simp: bf_rep_def nth_append entry_row_def)
  qed
  moreover have "chain_meta (es @ [e]) = \<lparr>cm_Height = bh_Number (bk_BlockHeader b), cm_BlockHash = Some (bk_BlockHash b),
      cm_InterchainTxCount = getInterchainTxCount E im + cm_InterchainTxCount (cl_chainMeta l)\<rparr>"
    by (simp add: chain_meta_def h(2) tx_total_def getInterchainTxCount_size[OF assms(2)] e_def add.commute)
  moreover have "persistChainMeta C (chain_meta (es @ [e])) = Ok (meta_puts C (es @ [e]))"
    by (simp add: persistChainMeta_def meta_puts_def cext_enc[OF assms(1)])
  ultimately show ?thesis
    by (intro that[of bf])
       (simp_all add: PersistExecutionResult_def prep bf(1)[unfolded e_def, simplified] UpdateChainMeta_def chain_meta_def entry_puts_def
         e_def Let_def)
qed

lemma stale_cases: "stale n k \<Longrightarrow> stale (Suc n) k \<or> k = compositeKey blockHeightKey (fmt_d (of_nat (Suc n)))"
  unfolding stale_def
proof (elim exE conjE)
  fix h :: u64 assume h: "k = compositeKey blockHeightKey (fmt_d h)" "n < unat h"
  have "h = of_nat (unat h)" by simp
  with h show "(\<exists>h. k = compositeKey blockHeightKey (fmt_d h) \<and> Suc n < unat h) \<or>
      k = compositeKey blockHeightKey (fmt_d (of_nat (Suc n)))"
    by (cases "unat h = Suc n") (metis, metis Suc_lessI)
qed

lemma apply_batch_start:
  assumes "\<And>k. k \<notin> op_key ` set bs \<Longrightarrow> P k \<Longrightarrow> m k = m' k" "P k"
  shows "apply_batch bs m k = apply_batch bs m' k"
proof (cases "k \<in> op_key ` set bs")
  case True
  then show ?thesis
  proof (induction bs rule: rev_induct)
    case (snoc b bs)
    then show ?case by (cases "op_key b = k") (auto simp: apply_op_eq)
  qed simp
next
  case False
  with assms show ?thesis by (simp add: apply_batch_other)
qed

lemma key_of_entry [simp]: "chainMetaKey \<notin> op_key ` set (entry_puts C e)"
  by (auto simp: entry_puts_def tx_puts_def tx_key_def chain_key_defs)

lemma apply_batch_skip:
  assumes "k \<notin> op_key ` set ms"
  shows "apply_batch (xs @ ms @ ys) m k = apply_batch (xs @ ys) m k"
proof -
  have "apply_batch ys (apply_batch ms (apply_batch xs m)) k = apply_batch ys (apply_batch xs m) k"
    using assms by (intro apply_batch_start[where P = "\<lambda>x. x = k"]) (auto simp: apply_batch_other)
  then show ?thesis by simp
qed

lemma meta_put_last:
  assumes "fs \<noteq> []"
  shows "apply_batch (xs @ meta_puts C es @ ys @ meta_puts C fs) m k = apply_batch (xs @ ys @ meta_puts C fs) m k"
proof (cases "k = chainMetaKey")
  case False
  then have "k \<notin> op_key ` set (meta_puts C es)" by (simp add: meta_puts_def)
  then show ?thesis by (rule apply_batch_skip)
qed (use assms in \<open>simp add: meta_puts_def\<close>)

lemma store_extend:
  assumes "cext_ok C" "store_rep C store es" "chain_ok C (es @ [e])"
  shows "store_rep C (db_Commit (C_db C) (entry_puts C e @ meta_puts C (es @ [e])) store) (es @ [e])"
  unfolding store_rep_def
proof (intro allI impI)
  fix k assume k: "\<not> stale (length (es @ [e])) k"
  have eh: "e_height e = of_nat (Suc (length es))" using assms(3) by (auto simp: chain_ok_def nth_append)
  have "db_Get (C_db C) store k = apply_batch (concat (map (entry_puts C) es) @ meta_puts C es) (\<lambda>_. None) k"
    if "k \<notin> op_key ` set (entry_puts C e @ meta_puts C (es @ [e]))" "\<not> stale (length (es @ [e])) k" for k
  proof -
    have "k \<noteq> compositeKey blockHeightKey (fmt_d (of_nat (Suc (length es))))"
      using that(1) eh by (auto simp: entry_puts_def)
    with stale_cases[of "length es" k] that(2) have "\<not> stale (length es) k" by auto
    with assms(2) show ?thesis by (simp add: store_rep_def)
  qed
  then have "apply_batch (entry_puts C e @ meta_puts C (es @ [e])) (db_Get (C_db C) store) k =
     apply_batch (entry_puts C e @ meta_puts C (es @ [e]))
       (apply_batch (concat (map (entry_puts C) es) @ meta_puts C es) (\<lambda>_. None)) k"
    using k by (intro apply_batch_start[where P = "\<lambda>k. \<not> stale (length (es @ [e])) k"]) auto
  also have "\<dots> = apply_batch (concat (map (entry_puts C) es) @ meta_puts C es @ entry_puts C e @ meta_puts C (es @ [e]))
      (\<lambda>_. None) k"
    by (simp only: fold_append comp_def)
  also have "\<dots> = apply_batch (concat (map (entry_puts C) es) @ entry_puts C e @ meta_puts C (es @ [e])) (\<lambda>_. None) k"
    by (rule meta_put_last) simp
  finally show "db_Get (C_db C) (db_Commit (C_db C) (entry_puts C e @ meta_puts C (es @ [e])) store) k =
      apply_batch (concat (map (entry_puts C) (es @ [e])) @ meta_puts C (es @ [e])) (\<lambda>_. None) k"
    using storage_commit[OF cext_okD(1)[OF assms(1)]] by simp
qed

lemma persist_refines:
  assumes "cext_ok C" "runtime_ok E" "chain_rep C l es" "extends C es b"
  obtains l' where "PersistExecutionResult C E (Some b) rs im l = Ok (signed_block C b, l')"
    "chain_rep C l' (es @ [(signed_block C b, rs, im)])"
proof -
  let ?e = "(signed_block C b, rs, im)"
  have ok: "chain_ok C (es @ [?e])" using assms by (intro chain_ok_extend) (simp_all add: chain_rep_def)
  obtain bf where bf: "bf_rep C bf (es @ [?e])" "PersistExecutionResult C E (Some b) rs im l = Ok (signed_block C b,
      \<lparr>cl_blockchainStore = db_Commit (C_db C) (entry_puts C ?e @ meta_puts C (es @ [?e])) (cl_blockchainStore l),
       cl_bf = bf, cl_chainMeta = chain_meta (es @ [?e])\<rparr>)"
    by (rule persist_eq[OF assms])
  show ?thesis
    by (rule that[OF bf(2)])
       (use bf(1) ok store_extend[OF assms(1) _ ok] assms(3) in \<open>simp add: chain_rep_def meta_rep_def\<close>)
qed

section \<open>What the store holds\<close>

definition puts where
  "puts C es = concat (map (entry_puts C) es) @ meta_puts C es"

lemma distinct_concat_nth:
  assumes "distinct (map f (concat xss))" "i < length xss" "j < length xss" "a < length (xss ! i)"
    "b < length (xss ! j)" "f (xss ! i ! a) = f (xss ! j ! b)"
  shows "i = j \<and> a = b"
  using assms
proof (induction xss arbitrary: i j)
  case (Cons xs xss)
  have d: "distinct (map f xs)" "distinct (map f (concat xss))" "f ` set xs \<inter> f ` set (concat xss) = {}"
    using Cons.prems(1) by (simp_all add: image_Un)
  have c: "f (xss ! n ! m) \<in> f ` set (concat xss)" if "n < length xss" "m < length (xss ! n)" for n m
    using that by (auto intro!: imageI bexI[of _ "xss ! n"])
  show ?case
  proof (cases i; cases j)
    assume "i = 0" "j = 0"
    then show ?thesis using Cons.prems d(1) by (simp add: distinct_conv_nth) (metis nth_map)
  next
    fix n assume "i = 0" "j = Suc n"
    then have "f (xs ! a) \<in> f ` set (concat xss)" "a < length xs"
      using Cons.prems c[of n b] by (simp_all del: set_concat)
    then show ?thesis using d(3) nth_mem[of a xs] by blast
  next
    fix n assume "i = Suc n" "j = 0"
    then have "f (xs ! b) \<in> f ` set (concat xss)" "b < length xs"
      using Cons.prems c[of n a] by (simp_all del: set_concat)
    then show ?thesis using d(3) nth_mem[of b xs] by blast
  next
    fix n m assume "i = Suc n" "j = Suc m"
    then show ?thesis using Cons.prems Cons.IH[OF d(2), of n m] by simp
  qed
qed simp

lemma set_tx_puts:
  "set (tx_puts C e) = {Put (tx_key C (e_txs e ! n)) (the (C_marshalTxMeta C (tx_meta e n))) | n. n < length (e_txs e)}"
  by (auto simp: tx_puts_def in_set_enumerate_eq image_iff)

datatype chain_key = KTx nat nat | KTxSet nat | KHash nat | KHeight nat | KMeta

fun ck_valid :: "('h, 'tx, 'rc, 'm) entry list \<Rightarrow> chain_key \<Rightarrow> bool" where
  "ck_valid es (KTx i n) \<longleftrightarrow> i < length es \<and> n < length (e_txs (es ! i))"
| "ck_valid es (KTxSet i) \<longleftrightarrow> i < length es"
| "ck_valid es (KHash i) \<longleftrightarrow> i < length es"
| "ck_valid es (KHeight i) \<longleftrightarrow> i < length es"
| "ck_valid es KMeta \<longleftrightarrow> es \<noteq> []"

fun ck_key where
  "ck_key C es (KTx i n) = tx_key C (e_txs (es ! i) ! n)"
| "ck_key C es (KTxSet i) = compositeKey blockTxSetKey (fmt_d (of_nat (Suc i)))"
| "ck_key C es (KHash i) = compositeKey blockHashKey (C_hashString C (e_hash (es ! i)))"
| "ck_key C es (KHeight i) = compositeKey blockHeightKey (fmt_d (of_nat (Suc i)))"
| "ck_key C es KMeta = chainMetaKey"

fun ck_value where
  "ck_value C es (KTx i n) = the (C_marshalTxMeta C (tx_meta (es ! i) n))"
| "ck_value C es (KTxSet i) = the (C_jsonHashes C (map (C_txHash C) (e_txs (es ! i))))"
| "ck_value C es (KHash i) = fmt_d (of_nat (Suc i))"
| "ck_value C es (KHeight i) = C_hashString C (e_hash (es ! i))"
| "ck_value C es KMeta = the (C_marshalChainMeta C (chain_meta es))"

lemma UN_nth: "(\<Union>x \<in> set xs. F x) = (\<Union>i < length xs. F (xs ! i))"
  unfolding set_conv_nth by auto

lemma puts_ck:
  assumes "chain_ok C es"
  shows "set (puts C es) = (\<lambda>ck. Put (ck_key C es ck) (ck_value C es ck)) ` {ck. ck_valid es ck}" (is "_ = ?R")
proof -
  have h: "e_height (es ! i) = of_nat (Suc i)" if "i < length es" for i
    using assms that by (simp add: chain_ok_def)
  have e: "set (entry_puts C (es ! i)) = (\<lambda>ck. Put (ck_key C es ck) (ck_value C es ck)) `
      ({KTx i n | n. n < length (e_txs (es ! i))} \<union> {KTxSet i, KHash i, KHeight i})" if "i < length es" for i
  proof -
    have "f ` {KTx i n | n. P n} = {f (KTx i n) | n. P n}" for f :: "chain_key \<Rightarrow> batch_op" and P by blast
    then show ?thesis
      unfolding entry_puts_def set_append set_tx_puts image_Un using h[OF that] by (simp del: of_nat_Suc)
  qed
  have "{ck. ck_valid es ck} = (\<Union>i < length es. {KTx i n | n. n < length (e_txs (es ! i))} \<union> {KTxSet i, KHash i, KHeight i})
      \<union> (if es = [] then {} else {KMeta})"
  proof (rule set_eqI)
    fix ck show "ck \<in> {ck. ck_valid es ck} \<longleftrightarrow> ck \<in> (\<Union>i < length es. {KTx i n | n. n < length (e_txs (es ! i))} \<union>
        {KTxSet i, KHash i, KHeight i}) \<union> (if es = [] then {} else {KMeta})"
      by (cases ck) auto
  qed
  moreover have "set (concat (map (entry_puts C) es)) = (\<Union>i < length es. set (entry_puts C (es ! i)))"
    by (simp add: UN_nth)
  ultimately show ?thesis
    unfolding puts_def set_append by (simp add: e image_Un image_UN meta_puts_def)
qed

lemma ck_inj:
  assumes "cext_ok C" "chain_ok C es" "ck_valid es a" "ck_valid es b" "ck_key C es a = ck_key C es b"
  shows "a = b"
proof -
  have w: "of_nat (Suc i) = (of_nat (Suc j) :: u64) \<longleftrightarrow> i = j" if "i < length es" "j < length es" for i j
  proof -
    have "Suc i < 2 ^ 64" "Suc j < 2 ^ 64" using that assms(2) by (simp_all add: chain_ok_def)
    then show ?thesis by (metis unat_of_nat_u64 nat.inject)
  qed
  have hh: "e_hash (es ! i) = e_hash (es ! j) \<longleftrightarrow> i = j" if "i < length es" "j < length es" for i j
    using assms(2) that by (auto simp: chain_ok_def distinct_conv_nth)
  have t: "i = j \<and> n = m" if "i < length es \<and> n < length (e_txs (es ! i))" "j < length es \<and> m < length (e_txs (es ! j))"
    "C_txHash C (e_txs (es ! i) ! n) = C_txHash C (e_txs (es ! j) ! m)" for i j n m
    using distinct_concat_nth[of "C_txHash C" "map e_txs es" i j n m] assms(2) that by (simp add: chain_ok_def)
  show ?thesis
    using assms(3-5)
    by (cases a; cases b)
       (simp_all add: tx_key_def chain_key_defs hashString_eq[OF assms(1)] w hh del: of_nat_Suc, rule t)
qed

lemma store_get:
  assumes "cext_ok C" "chain_ok C es" "store_rep C store es" "ck_valid es ck"
  shows "db_Get (C_db C) store (ck_key C es ck) = Some (ck_value C es ck)"
proof -
  have "\<not> stale (length es) (ck_key C es ck)"
  proof
    assume "stale (length es) (ck_key C es ck)"
    then obtain h :: u64 where h: "ck_key C es ck = compositeKey blockHeightKey (fmt_d h)" "length es < unat h"
      by (auto simp: stale_def)
    then obtain i where "ck = KHeight i" by (cases ck) (auto simp: tx_key_def chain_key_defs)
    with h assms(4) have "h = of_nat (Suc i)" "i < length es" by (simp_all add: chain_key_defs del: of_nat_Suc)
    moreover from this have "unat h = Suc i" using assms(2) by (simp only: chain_ok_def) (intro unat_of_nat_u64, simp)
    ultimately show False using h(2) by simp
  qed
  then have "db_Get (C_db C) store (ck_key C es ck) = apply_batch (puts C es) (\<lambda>_. None) (ck_key C es ck)"
    using assms(3) by (simp add: store_rep_def puts_def)
  also have "\<dots> = Some (ck_value C es ck)"
  proof (rule apply_batch_same)
    fix b assume "b \<in> set (puts C es)" "op_key b = ck_key C es ck"
    then obtain ck' where "ck_valid es ck'" "b = Put (ck_key C es ck') (ck_value C es ck')" "ck_key C es ck' = ck_key C es ck"
      unfolding puts_ck[OF assms(2)] by auto
    with ck_inj[OF assms(1,2) _ assms(4)] show "op_value b = Some (ck_value C es ck)" by auto
  qed (use assms(4) in \<open>force simp: puts_ck[OF assms(2)]\<close>)
  finally show ?thesis .
qed

lemma store_get_none:
  assumes "chain_ok C es" "store_rep C store es" "\<not> stale (length es) k"
    "\<And>ck. ck_valid es ck \<Longrightarrow> ck_key C es ck \<noteq> k"
  shows "db_Get (C_db C) store k = None"
proof -
  have "k \<notin> op_key ` set (puts C es)" unfolding puts_ck[OF assms(1)] using assms(4) by fastforce
  from apply_batch_other[OF this, of "\<lambda>_. None"] show ?thesis
    using assms(2,3) by (simp add: store_rep_def puts_def)
qed

section \<open>Reading\<close>

lemma block_of_entry:
  assumes "chain_ok C es" "i < length es"
  shows "(e_block (es ! i))\<lparr>bk_Transactions := Some (e_txs (es ! i))\<rparr> = e_block (es ! i)"
    "bk_Transactions (e_block (es ! i)) = Some (e_txs (es ! i))"
  using assms by (auto simp: chain_ok_def e_txs_def)

lemma bf_rep_get:
  assumes "bf_rep C bf es" "i < length es"
  shows "bf_Get (C_bf C) t (of_nat (Suc i)) bf = Some (entry_row C (es ! i) t)"
  using assms by (simp add: bf_rep_def)

lemma store_txset:
  assumes "cext_ok C" "chain_ok C es" "store_rep C store es" "i < length es"
  shows "db_Get (C_db C) store (compositeKey blockTxSetKey (fmt_d (of_nat (Suc i)))) =
    Some (the (C_jsonHashes C (map (C_txHash C) (e_txs (es ! i)))))"
  using store_get[OF assms(1-3), of "KTxSet i"] assms(4) by simp

text \<open>
  The reads need the part of the representation up to the height they read: \<^term>\<open>bf\<close> may hold fewer
  blocks than the store knows, as in the middle of a rollback.
\<close>

lemma GetBlock_prefix:
  assumes "cext_ok C" "chain_ok C es" "store_rep C (cl_blockchainStore l) es" "bf_rep C (cl_bf l) (take n es)"
    "i < n" "i < length es"
  shows "GetBlock C (of_nat (Suc i)) full l = Ok ((e_block (es ! i))\<lparr>bk_Transactions :=
    Some (if full then e_txs (es ! i) else map (\<lambda>tx. C_hashOnly C (C_txHash C tx)) (e_txs (es ! i)))\<rparr>)"
    "GetInterchainMeta C (of_nat (Suc i)) l = Ok (e_im (es ! i))"
proof -
  have g: "bf_Get (C_bf C) t (of_nat (Suc i)) (cl_bf l) = Some (entry_row C (es ! i) t)" for t
    using bf_rep_get[OF assms(4), of i t] assms(5,6) by simp
  show "GetBlock C (of_nat (Suc i)) full l = Ok ((e_block (es ! i))\<lparr>bk_Transactions :=
    Some (if full then e_txs (es ! i) else map (\<lambda>tx. C_hashOnly C (C_txHash C tx)) (e_txs (es ! i)))\<rparr>)"
    using store_txset[OF assms(1-3,6)] g
    by (simp add: GetBlock_def entry_row_def cext_dec[OF assms(1)] comp_def del: of_nat_Suc)
  show "GetInterchainMeta C (of_nat (Suc i)) l = Ok (e_im (es ! i))"
    using g by (simp add: GetInterchainMeta_def entry_row_def cext_dec[OF assms(1)] del: of_nat_Suc)
qed

lemma GetBlock_spec:
  assumes "cext_ok C" "chain_rep C l es" "i < length es"
  shows "GetBlock C (of_nat (Suc i)) True l = Ok (e_block (es ! i))"
    "GetInterchainMeta C (of_nat (Suc i)) l = Ok (e_im (es ! i))"
proof -
  from assms(2) have ok: "chain_ok C es" "store_rep C (cl_blockchainStore l) es" "bf_rep C (cl_bf l) (take (length es) es)"
    by (simp_all add: chain_rep_def)
  show "GetBlock C (of_nat (Suc i)) True l = Ok (e_block (es ! i))"
    using GetBlock_prefix(1)[OF assms(1) ok assms(3,3)] block_of_entry[OF ok(1) assms(3)] by (simp del: of_nat_Suc)
  show "GetInterchainMeta C (of_nat (Suc i)) l = Ok (e_im (es ! i))"
    by (rule GetBlock_prefix(2)[OF assms(1) ok assms(3,3)])
qed

lemma GetBlock_missing:
  assumes "cext_ok C" "chain_rep C l es" "h = 0 \<or> length es < unat h"
  shows "GetBlock C h full l = Fail (ErrGet BodiesTable h)"
  using assms bf_get_None[OF cext_okD(2)[OF assms(1)], of BodiesTable h "cl_bf l"]
  by (simp add: GetBlock_def chain_rep_def bf_rep_def)

lemma tx_index:
  assumes "chain_ok C es" "i < length es" "n < length (e_txs (es ! i))" "length (e_txs (es ! i)) < 2 ^ 64"
  shows "unat (tm_Index (tx_meta (es ! i) n)) = n" "tm_BlockHeight (tx_meta (es ! i) n) = of_nat (Suc i)"
  using assms unat_of_nat_u64[of n] by (simp_all add: tx_meta_def chain_ok_def del: of_nat_Suc)

lemma GetTransaction_spec:
  assumes "cext_ok C" "chain_rep C l es" "i < length es" "n < length (e_txs (es ! i))"
    "length (e_txs (es ! i)) < 2 ^ 64"
  shows "cl_GetTransaction C (C_txHash C (e_txs (es ! i) ! n)) l = Ok (e_txs (es ! i) ! n)"
    "GetTransactionMeta C (C_txHash C (e_txs (es ! i) ! n)) l = Ok (tx_meta (es ! i) n)"
    "n < length (e_receipts (es ! i)) \<Longrightarrow>
     GetReceipt C (C_txHash C (e_txs (es ! i) ! n)) l = Ok (e_receipts (es ! i) ! n)"
proof -
  from assms(2) have ok: "chain_ok C es" "store_rep C (cl_blockchainStore l) es" "bf_rep C (cl_bf l) es"
    by (simp_all add: chain_rep_def)
  note s = store_get[OF assms(1) ok(1,2), of "KTx i n", simplified, OF conjI[OF assms(3,4)]]
  note idx = tx_index[OF ok(1) assms(3-5)]
  have g: "bf_Get (C_bf C) t (of_nat (Suc i)) (cl_bf l) = Some (entry_row C (es ! i) t)" for t
    by (rule bf_rep_get[OF ok(3) assms(3)])
  show "cl_GetTransaction C (C_txHash C (e_txs (es ! i) ! n)) l = Ok (e_txs (es ! i) ! n)"
    using s g assms(4) idx
    by (simp add: cl_GetTransaction_def tx_key_def cext_dec[OF assms(1)] entry_row_def index_or_panic_def del: of_nat_Suc)
  show "GetTransactionMeta C (C_txHash C (e_txs (es ! i) ! n)) l = Ok (tx_meta (es ! i) n)"
    using s by (simp add: GetTransactionMeta_def tx_key_def cext_dec[OF assms(1)])
  show "GetReceipt C (C_txHash C (e_txs (es ! i) ! n)) l = Ok (e_receipts (es ! i) ! n)"
    if "n < length (e_receipts (es ! i))"
    using s g that idx
    by (simp add: GetReceipt_def tx_key_def cext_dec[OF assms(1)] entry_row_def index_or_panic_def del: of_nat_Suc)
qed

lemma GetTransaction_missing:
  assumes "cext_ok C" "chain_rep C l es" "h \<notin> C_txHash C ` set (concat (map e_txs es))"
  shows "cl_GetTransaction C h l = Fail ErrNotFound" "GetTransactionMeta C h l = Fail ErrNotFound"
    "GetReceipt C h l = Fail ErrNotFound"
proof -
  let ?k = "compositeKey transactionMetaKey (C_hashString C h)"
  from assms(2) have ok: "chain_ok C es" "store_rep C (cl_blockchainStore l) es" by (simp_all add: chain_rep_def)
  have "db_Get (C_db C) (cl_blockchainStore l) ?k = None"
  proof (rule store_get_none[OF ok])
    show "\<not> stale (length es) ?k" by (simp add: stale_def chain_key_defs)
    fix ck assume v: "ck_valid es ck"
    show "ck_key C es ck \<noteq> ?k"
    proof
      assume k: "ck_key C es ck = ?k"
      then obtain i n where "ck = KTx i n" by (cases ck) (auto simp: chain_key_defs)
      with v k have "i < length es" "n < length (e_txs (es ! i))" "C_txHash C (e_txs (es ! i) ! n) = h"
        by (simp_all add: tx_key_def chain_key_defs hashString_eq[OF assms(1)])
      then have "h \<in> C_txHash C ` set (concat (map e_txs es))" by (force intro: bexI[of _ "es ! i"])
      with assms(3) show False ..
    qed
  qed
  then show "cl_GetTransaction C h l = Fail ErrNotFound" "GetTransactionMeta C h l = Fail ErrNotFound"
    "GetReceipt C h l = Fail ErrNotFound"
    by (simp_all add: cl_GetTransaction_def GetTransactionMeta_def GetReceipt_def)
qed

lemma atoi_fmt_d:
  assumes "unat n < 2 ^ 63"
  shows "atoi (fmt_d n) = Some (int (unat n))"
proof -
  obtain c cs where c: "fmt_d n = c # cs" using dec_nonempty[of "unat n"] by (cases "dec (unat n)") (auto simp: fmt_d_def)
  then have "is_digit c" using dec_digits[of c "unat n"] by (simp add: fmt_d_def)
  then have "c \<noteq> CHR ''-''" "c \<noteq> CHR ''+''" by (auto simp: is_digit_def)
  moreover have "undec 0 (c # cs) = Some (unat n)" using undec_dec[of "unat n"] c by (simp only: fmt_d_def)
  moreover have "- (2 ^ 63) \<le> int (unat n)" by (rule order_trans[of _ 0]) simp_all
  moreover have "int (unat n) < int (2 ^ 63)" using assms by (simp only: of_nat_less_iff)
  then have "int (unat n) \<le> max_int64" by (simp add: max_int64_def)
  ultimately show ?thesis unfolding c atoi_def by (simp del: undec.simps)
qed

lemma GetBlockByHash_spec:
  assumes "cext_ok C" "chain_rep C l es" "i < length es" "length es < 2 ^ 63"
  shows "GetBlockByHash C (e_hash (es ! i)) True l = Ok (e_block (es ! i))"
proof -
  from assms(2) have ok: "chain_ok C es" "store_rep C (cl_blockchainStore l) es" by (simp_all add: chain_rep_def)
  note s = store_get[OF assms(1) ok, of "KHash i", unfolded ck_valid.simps ck_key.simps ck_value.simps, OF assms(3)]
  have u: "unat (of_nat (Suc i) :: u64) = Suc i" using assms(3,4) by (intro unat_of_nat_u64) simp
  then have "atoi (fmt_d (of_nat (Suc i))) = Some (int (Suc i))"
    using assms(3,4) atoi_fmt_d[of "of_nat (Suc i)"] by (simp del: of_nat_Suc)
  moreover have "word_of_int (int (Suc i)) = (of_nat (Suc i) :: u64)" by simp
  ultimately show ?thesis
    using s GetBlock_spec(1)[OF assms(1-3)] by (simp add: GetBlockByHash_def del: of_nat_Suc)
qed

section \<open>Rolling back\<close>

lemma chain_ok_take: "chain_ok C es \<Longrightarrow> chain_ok C (take n es)"
proof -
  assume ok: "chain_ok C es"
  have "map (C_txHash C) (concat (map e_txs es)) =
      map (C_txHash C) (concat (map e_txs (take n es))) @ map (C_txHash C) (concat (map e_txs (drop n es)))"
    by (metis append_take_drop_id concat_append map_append)
  moreover have "distinct (map (C_txHash C) (concat (map e_txs es)))" using ok by (simp add: chain_ok_def)
  ultimately have "distinct (map (C_txHash C) (concat (map e_txs (take n es))))" by (simp only: distinct_append)
  moreover have "distinct (map e_hash (take n es))" using ok by (simp add: chain_ok_def take_map[symmetric])
  ultimately show ?thesis using ok by (simp add: chain_ok_def min_less_iff_disj)
qed

lemma drop_nth: "drop h xs = map (\<lambda>i. xs ! i) [h ..< length xs]"
  by (rule nth_equalityI) simp_all

definition spec_store where
  "spec_store C es k = apply_batch (puts C es) (\<lambda>_. None) k"

lemma spec_store_ck:
  assumes "cext_ok C" "chain_ok C es" "ck_valid es ck"
  shows "spec_store C es (ck_key C es ck) = Some (ck_value C es ck)"
  unfolding spec_store_def
proof (rule apply_batch_same)
  fix b assume "b \<in> set (puts C es)" "op_key b = ck_key C es ck"
  then obtain ck' where "ck_valid es ck'" "b = Put (ck_key C es ck') (ck_value C es ck')" "ck_key C es ck' = ck_key C es ck"
    unfolding puts_ck[OF assms(2)] by auto
  with ck_inj[OF assms(1,2) _ assms(3)] show "op_value b = Some (ck_value C es ck)" by auto
qed (use assms(3) in \<open>force simp: puts_ck[OF assms(2)]\<close>)

lemma spec_store_none:
  assumes "chain_ok C es" "\<And>ck. ck_valid es ck \<Longrightarrow> ck_key C es ck \<noteq> k"
  shows "spec_store C es k = None"
proof -
  have "k \<notin> op_key ` set (puts C es)" unfolding puts_ck[OF assms(1)] using assms(2) by fastforce
  then show ?thesis by (simp add: spec_store_def apply_batch_other)
qed

fun ck_block :: "chain_key \<Rightarrow> nat" where
  "ck_block (KTx i n) = i"
| "ck_block (KTxSet i) = i"
| "ck_block (KHash i) = i"
| "ck_block (KHeight i) = i"
| "ck_block KMeta = 0"

lemma ck_take:
  assumes "ck_block ck < h" "h \<le> length es"
  shows "ck_valid (take h es) ck \<longleftrightarrow> ck_valid es ck" "ck_key C (take h es) ck = ck_key C es ck"
    "ck \<noteq> KMeta \<Longrightarrow> ck_value C (take h es) ck = ck_value C es ck"
  using assms by (cases ck; auto)+

lemma ck_valid_take: "ck_valid (take h es) ck \<Longrightarrow> h \<le> length es \<Longrightarrow> ck_block ck < h"
  by (cases ck) auto

definition block_dels where
  "block_dels C e =
     [Delete (compositeKey blockTxSetKey (fmt_d (e_height e))),
      Delete (compositeKey blockHashKey (C_hashString C (e_hash e))),
      Delete (compositeKey interchainMetaKey (fmt_d (e_height e)))] @
     map (\<lambda>tx. Delete (tx_key C tx)) (e_txs e)"

lemma block_dels_value: "b \<in> set (concat (map (block_dels C) xs)) \<Longrightarrow> op_value b = None"
  by (auto simp: block_dels_def)

lemma block_dels_key:
  assumes "chain_ok C es" "ck_valid es ck" "ck_block ck = i" "ck \<noteq> KMeta" "ck \<noteq> KHeight i"
  shows "ck_key C es ck \<in> op_key ` set (block_dels C (es ! i))"
proof -
  have "e_height (es ! i) = of_nat (Suc i)" using assms by (cases ck) (auto simp: chain_ok_def)
  with assms show ?thesis by (cases ck) (auto simp: block_dels_def image_iff simp del: of_nat_Suc)
qed

lemma block_dels_ck:
  assumes "chain_ok C es" "i < length es" "k \<in> op_key ` set (block_dels C (es ! i))"
  shows "(\<exists>ck. ck_valid es ck \<and> ck_block ck = i \<and> ck \<noteq> KMeta \<and> ck \<noteq> KHeight i \<and> k = ck_key C es ck) \<or>
    (\<exists>s. k = compositeKey interchainMetaKey s)"
proof -
  have h: "e_height (es ! i) = of_nat (Suc i)" using assms by (simp add: chain_ok_def)
  from assms(3) consider "k = compositeKey blockTxSetKey (fmt_d (e_height (es ! i)))"
    | "k = compositeKey blockHashKey (C_hashString C (e_hash (es ! i)))"
    | "k = compositeKey interchainMetaKey (fmt_d (e_height (es ! i)))"
    | n where "n < length (e_txs (es ! i))" "k = tx_key C (e_txs (es ! i) ! n)"
    by (auto simp: block_dels_def in_set_conv_nth)
  then show ?thesis
  proof cases
    case 1
    with h assms(2) show ?thesis by (intro disjI1 exI[of _ "KTxSet i"]) (simp del: of_nat_Suc)
  next
    case 2
    with assms(2) show ?thesis by (intro disjI1 exI[of _ "KHash i"]) simp
  next
    case 4
    with assms(2) show ?thesis by (intro disjI1 exI[of _ "KTx i n"]) simp
  qed blast
qed

lemma interchain_key_free: "ck_key C es ck \<noteq> compositeKey interchainMetaKey s"
  by (cases ck) (auto simp: tx_key_def chain_key_defs)

text \<open>Deleting what the removed blocks wrote leaves what the remaining blocks wrote.\<close>

lemma store_shrink:
  assumes "cext_ok C" "chain_ok C es" "h \<le> length es" "\<not> stale h k" "k \<noteq> chainMetaKey"
    and D: "set D = set (concat (map (block_dels C) (drop h es)))"
  shows "apply_batch D (spec_store C es) k = spec_store C (take h es) k"
proof -
  have ok: "chain_ok C (take h es)" by (rule chain_ok_take[OF assms(2)])
  have D': "op_key ` set D = (\<Union>i \<in> {h ..< length es}. op_key ` set (block_dels C (es ! i)))"
  proof -
    have "set (drop h es) = (\<lambda>i. es ! i) ` {h ..< length es}" by (simp add: drop_nth)
    then show ?thesis unfolding D by auto
  qed
  show ?thesis
  proof (cases "k \<in> op_key ` set D")
    case True
    have "apply_batch D (spec_store C es) k = None"
      by (rule apply_batch_same) (use True D block_dels_value in blast)+
    moreover have "spec_store C (take h es) k = None"
    proof (rule spec_store_none[OF ok])
      fix ck assume v: "ck_valid (take h es) ck"
      show "ck_key C (take h es) ck \<noteq> k"
      proof
        assume k: "ck_key C (take h es) ck = k"
        have b: "ck_block ck < h" using ck_valid_take[OF v assms(3)] .
        with k v have k': "ck_key C es ck = k" "ck_valid es ck" by (simp_all add: ck_take[OF b assms(3)])
        from True obtain i where i: "h \<le> i" "i < length es" "k \<in> op_key ` set (block_dels C (es ! i))"
          unfolding D' by auto
        from block_dels_ck[OF assms(2) i(2,3)] k' interchain_key_free obtain ck'
          where "ck_valid es ck'" "ck_block ck' = i" "k = ck_key C es ck'" by metis
        with ck_inj[OF assms(1,2) k'(2), of ck'] k'(1) b i(1) show False by auto
      qed
    qed
    ultimately show ?thesis by simp
  next
    case False
    then have "apply_batch D (spec_store C es) k = spec_store C es k" by (rule apply_batch_other)
    also have "\<dots> = spec_store C (take h es) k"
    proof (cases "\<exists>ck. ck_valid es ck \<and> ck_key C es ck = k")
      case True
      then obtain ck where ck: "ck_valid es ck" "ck_key C es ck = k" by blast
      have n: "ck \<noteq> KMeta" using ck(2) assms(5) by auto
      have lt: "ck_block ck < length es" using ck(1) n by (cases ck) auto
      have b: "ck_block ck < h"
      proof (rule ccontr)
        assume c: "\<not> ck_block ck < h"
        show False
        proof (cases "ck = KHeight (ck_block ck)")
          case True
          then have "k = compositeKey blockHeightKey (fmt_d (of_nat (Suc (ck_block ck))))" using ck(2) by (metis ck_key.simps(4))
          moreover have "unat (of_nat (Suc (ck_block ck)) :: u64) = Suc (ck_block ck)"
            using lt assms(2) by (intro unat_of_nat_u64) (simp add: chain_ok_def)
          ultimately show False using assms(4) c by (auto simp: stale_def simp del: of_nat_Suc)
        next
          case h: False
          from block_dels_key[OF assms(2) ck(1) refl n h] False ck(2) c lt show False unfolding D' by auto
        qed
      qed
      show ?thesis
        using spec_store_ck[OF assms(1,2) ck(1)] spec_store_ck[OF assms(1) ok, of ck] ck n
        by (simp add: ck_take[OF b assms(3)])
    next
      case False
      then have "spec_store C es k = None" by (intro spec_store_none[OF assms(2)]) blast
      moreover have "spec_store C (take h es) k = None"
      proof (rule spec_store_none[OF ok])
        fix ck assume v: "ck_valid (take h es) ck"
        with False ck_take[OF ck_valid_take[OF v assms(3)] assms(3)] show "ck_key C (take h es) ck \<noteq> k" by metis
      qed
      ultimately show ?thesis by simp
    qed
    finally show ?thesis .
  qed
qed

lemma removeChainDataOnBlock_spec:
  assumes "cext_ok C" "runtime_ok E" "chain_ok C es" "store_rep C (cl_blockchainStore l) es"
    "bf_rep C (cl_bf l) (take (Suc n) es)" "n < length es"
  obtains bf where "bf_rep C bf (take n es)"
    "removeChainDataOnBlock C E (of_nat (Suc n)) l = Ok (l\<lparr>cl_bf := bf\<rparr>, block_dels C (es ! n), im_size (e_im (es ! n)))"
proof -
  note g = GetBlock_prefix(1)[OF assms(1,3,4,5) lessI assms(6), of False]
    GetBlock_prefix(2)[OF assms(1,3,4,5) lessI assms(6)]
  have un: "unat (of_nat (Suc n) - 1 :: u64) = n" "of_nat (Suc n) - 1 = (of_nat n :: u64)"
    using assms(3,6) unat_of_nat_u64[of n] by (simp_all add: chain_ok_def)
  obtain bf where bf: "bf_TruncateBlocks (C_bf C) (of_nat (Suc n) - 1) (cl_bf l) = Some bf"
    "bf_Blocks (C_bf C) bf = min (unat (of_nat (Suc n) - 1 :: u64)) (bf_Blocks (C_bf C) (cl_bf l))"
    "\<And>t x. bf_Get (C_bf C) t x bf = (if unat x \<le> unat (of_nat (Suc n) - 1 :: u64) then bf_Get (C_bf C) t x (cl_bf l) else None)"
    by (rule bf_truncate[OF cext_okD(2)[OF assms(1)]]) (rule that)
  have "bf_rep C bf (take n es)"
    unfolding bf_rep_def
  proof (intro conjI allI impI)
    show "bf_Blocks (C_bf C) bf = length (take n es)" using bf(2) assms(5,6) unfolding un(1) by (simp add: bf_rep_def)
    fix i t assume i: "i < length (take n es)"
    then have "unat (of_nat (Suc i) :: u64) = Suc i"
      using assms(3) by (intro unat_of_nat_u64) (simp add: chain_ok_def)
    with i show "bf_Get (C_bf C) t (of_nat (Suc i)) bf = Some (entry_row C (take n es ! i) t)"
      using bf_rep_get[OF assms(5), of i t] assms(6) unfolding bf(3) un(1) by (simp del: of_nat_Suc)
  qed
  moreover have "e_height (es ! n) = of_nat (Suc n)" using assms(3,6) by (simp add: chain_ok_def)
  ultimately show ?thesis
    using g bf(1)
    by (intro that[of bf])
       (simp_all add: removeChainDataOnBlock_def block_dels_def tx_key_def e_hash_def comp_def
         cext_okD(5)[OF assms(1)] getInterchainTxCount_size[OF assms(2)] del: of_nat_Suc)
qed

lemma tx_total_simps [simp]: "tx_total [] = 0" "tx_total (xs @ ys) = tx_total xs + tx_total ys" "tx_total [e] = im_size (e_im e)"
  by (simp_all add: tx_total_def)

lemma remove_blocks_spec:
  assumes "cext_ok C" "runtime_ok E" "chain_ok C es" "store_rep C (cl_blockchainStore l) es" "h \<le> n" "n \<le> length es"
    "bf_rep C (cl_bf l) (take n es)" "cnt = tx_total (take n es)"
  shows "\<exists>bf. bf_rep C bf (take h es) \<and>
    remove_blocks C E (rev (map of_nat [Suc h ..< Suc n])) l batch cnt =
      Some (None, l\<lparr>cl_bf := bf\<rparr>, batch @ concat (map (block_dels C) (rev (drop h (take n es)))), tx_total (take h es))"
  using assms(4-)
proof (induction n arbitrary: l batch cnt)
  case 0
  then show ?case by (intro exI[of _ "cl_bf l"]) (simp add: take_Cons')
next
  case (Suc n)
  show ?case
  proof (cases "h = Suc n")
    case True
    then show ?thesis using Suc.prems by (intro exI[of _ "cl_bf l"]) simp
  next
    case False
    with Suc.prems have n: "h \<le> n" "n < length es" "n \<le> length es" by simp_all
    obtain bf where bf: "bf_rep C bf (take n es)"
      "removeChainDataOnBlock C E (of_nat (Suc n)) l = Ok (l\<lparr>cl_bf := bf\<rparr>, block_dels C (es ! n), im_size (e_im (es ! n)))"
      by (rule removeChainDataOnBlock_spec[OF assms(1-3) Suc.prems(1) Suc.prems(4) n(2)])
    have t: "take (Suc n) es = take n es @ [es ! n]" using n(2) by (simp add: take_Suc_conv_app_nth)
    have d: "drop h (take (Suc n) es) = drop h (take n es) @ [es ! n]" using n by (simp add: t)
    have "rev (map of_nat [Suc h ..< Suc (Suc n)]) = (of_nat (Suc n) :: u64) # rev (map of_nat [Suc h ..< Suc n])"
      using n(1) by simp
    moreover have "cnt - im_size (e_im (es ! n)) = tx_total (take n es)" using Suc.prems(5) by (simp add: t)
    ultimately show ?thesis
      using Suc.IH[of "l\<lparr>cl_bf := bf\<rparr>" "tx_total (take n es)" "batch @ block_dels C (es ! n)"] Suc.prems(1) n bf
      by (simp add: d del: of_nat_Suc upt_Suc)
  qed
qed

lemma meta_rep_take:
  assumes "chain_ok C es" "h \<le> length es" "h \<noteq> 0"
  shows "chain_meta (take h es) =
    \<lparr>cm_Height = of_nat h, cm_BlockHash = Some (e_hash (es ! (h - 1))), cm_InterchainTxCount = tx_total (take h es)\<rparr>"
proof -
  have "last (take h es) = es ! (h - 1)" using assms by (subst last_conv_nth) auto
  moreover have "e_height (es ! (h - 1)) = of_nat (Suc (h - 1))" using assms unfolding chain_ok_def by (metis Suc_pred' le_eq_less_or_eq less_imp_diff_less not_gr_zero diff_less zero_less_one less_le_trans)
  ultimately show ?thesis using assms(3) by (simp add: chain_meta_def del: of_nat_Suc)
qed

lemma rollback_meta_spec:
  assumes "cext_ok C" "chain_ok C es" "store_rep C (cl_blockchainStore l) es" "bf_rep C (cl_bf l) (take h es)" "h \<le> length es"
  shows "rollback_meta C (of_nat h) (tx_total (take h es)) l =
    (if h = 0 then Ok (\<lparr>cm_Height = 0, cm_BlockHash = None, cm_InterchainTxCount = 0\<rparr>, [Delete chainMetaKey])
     else Ok (chain_meta (take h es), meta_puts C (take h es)))"
proof (cases h)
  case (Suc n)
  then have n: "n < h" "n < length es" using assms(5) by simp_all
  have "of_nat h \<noteq> (0 :: u64)"
  proof
    assume "of_nat h = (0 :: u64)"
    then have "h = 0" using unat_of_nat_u64[of h] assms(2,5) by (simp add: chain_ok_def)
    with Suc show False by simp
  qed
  moreover have "e_height (es ! n) = of_nat (Suc n)" using assms(2) n by (simp add: chain_ok_def)
  moreover note GetBlock_prefix(1)[OF assms(1-4) n, of False] meta_rep_take[OF assms(2,5)]
  ultimately show ?thesis
    using Suc n by (auto simp: rollback_meta_def persistChainMeta_def cext_enc[OF assms(1)] meta_puts_def
      e_height_def e_hash_def Let_def simp del: of_nat_Suc)
qed (use assms in \<open>simp add: rollback_meta_def\<close>)

lemma stale_mono: "stale n k \<Longrightarrow> m \<le> n \<Longrightarrow> stale m k"
  by (auto simp: stale_def)

lemma not_stale_meta: "\<not> stale n chainMetaKey"
  by (simp add: stale_def chain_key_defs)

lemma store_rollback:
  assumes "cext_ok C" "chain_ok C es" "store_rep C store es" "h \<le> length es"
    "set D = set (concat (map (block_dels C) (drop h es)))"
    "P = (if h = 0 then [Delete chainMetaKey] else meta_puts C (take h es))" "es \<noteq> []"
  shows "store_rep C (db_Commit (C_db C) (D @ P) store) (take h es)"
  unfolding store_rep_def puts_def[symmetric]
proof (intro allI impI)
  fix k assume "\<not> stale (length (take h es)) k"
  then have k: "\<not> stale h k" "\<not> stale (length es) k" using assms(4) stale_mono by (auto simp: min_absorb2)
  have P: "set (map op_key P) = {chainMetaKey}" using assms(4,6,7) by (auto simp: meta_puts_def)
  have "apply_batch (D @ P) (db_Get (C_db C) store) k = spec_store C (take h es) k"
  proof (cases "k = chainMetaKey")
    case True
    show ?thesis
    proof (cases "h = 0")
      case True
      then show ?thesis using \<open>k = chainMetaKey\<close> by (simp add: assms(6) spec_store_def puts_def meta_puts_def)
    next
      case False
      then have "ck_valid (take h es) KMeta" using assms(7) by simp
      from spec_store_ck[OF assms(1) chain_ok_take[OF assms(2)] this] False \<open>k = chainMetaKey\<close> assms(7)
      show ?thesis by (simp add: assms(6) meta_puts_def)
    qed
  next
    case False
    then have "k \<notin> op_key ` set P" using P by auto
    then have "apply_batch (D @ P) (db_Get (C_db C) store) k = apply_batch D (db_Get (C_db C) store) k"
      by (simp add: apply_batch_other)
    also have "\<dots> = apply_batch D (spec_store C es) k"
      using k(2) assms(3)
      by (intro apply_batch_start[where P = "\<lambda>k. \<not> stale (length es) k"]) (auto simp: store_rep_def spec_store_def puts_def)
    also have "\<dots> = spec_store C (take h es) k" by (rule store_shrink[OF assms(1,2,4) k(1) False assms(5)])
    finally show ?thesis .
  qed
  then show "db_Get (C_db C) (db_Commit (C_db C) (D @ P) store) k = apply_batch (puts C (take h es)) (\<lambda>_. None) k"
    using storage_commit[OF cext_okD(1)[OF assms(1)]] by (simp add: spec_store_def)
qed

lemma rollback_refines:
  assumes "cext_ok C" "runtime_ok E" "chain_rep C l es" "h \<le> length es"
  obtains l' where "RollbackBlockChain C E (of_nat h) l = Some (None, l')" "chain_rep C l' (take h es)"
proof -
  from assms(3) have ok: "chain_ok C es" "store_rep C (cl_blockchainStore l) es" "bf_rep C (cl_bf l) es"
    "meta_rep (cl_chainMeta l) es" by (simp_all add: chain_rep_def)
  note m = meta_rep_height[OF ok(1,4)]
  have uh: "unat (of_nat h :: u64) = h" using ok(1) assms(4) by (intro unat_of_nat_u64) (simp add: chain_ok_def)
  show ?thesis
  proof (cases "h = length es")
    case True
    then have "cm_Height (cl_chainMeta l) = of_nat h" using m(1) uh by (metis word_unat_eq_iff)
    then show ?thesis using assms(3) True by (intro that[of l]) (simp_all add: RollbackBlockChain_def GetChainMeta_def)
  next
    case False
    then have lt: "h < length es" using assms(4) by simp
    have c: "\<not> cm_Height (cl_chainMeta l) < of_nat h" "cm_Height (cl_chainMeta l) \<noteq> of_nat h"
      using m(1) uh lt by (simp_all add: word_less_nat_alt) (metis False)
    have hd: "heights_down (cm_Height (cl_chainMeta l)) (of_nat h) = rev (map of_nat [Suc h ..< Suc (length es)])"
      by (simp only: heights_down_def uh m(1))
    obtain bf where bf: "bf_rep C bf (take h es)"
      "remove_blocks C E (rev (map of_nat [Suc h ..< Suc (length es)])) l [] (tx_total es) =
         Some (None, l\<lparr>cl_bf := bf\<rparr>, concat (map (block_dels C) (rev (drop h es))), tx_total (take h es))"
      using remove_blocks_spec[OF assms(1,2) ok(1,2) assms(4) le_refl, of "tx_total es" "[]"] ok(3) by auto
    define P where "P = (if h = 0 then [Delete chainMetaKey] else meta_puts C (take h es))"
    define meta where "meta = (if h = 0 then \<lparr>cm_Height = 0, cm_BlockHash = None, cm_InterchainTxCount = 0\<rparr>
      else chain_meta (take h es))"
    have rm: "rollback_meta C (of_nat h) (tx_total (take h es)) (l\<lparr>cl_bf := bf\<rparr>) = Ok (meta, P)"
      using rollback_meta_spec[OF assms(1) ok(1), of "l\<lparr>cl_bf := bf\<rparr>" h] ok(2) bf(1) assms(4) by (simp add: P_def meta_def)
    define D where "D = concat (map (block_dels C) (rev (drop h es)))"
    define l' where "l' = UpdateChainMeta meta
      (l\<lparr>cl_bf := bf, cl_blockchainStore := db_Commit (C_db C) (D @ P) (cl_blockchainStore l)\<rparr>)"
    have "store_rep C (db_Commit (C_db C) (D @ P) (cl_blockchainStore l)) (take h es)"
      by (rule store_rollback[OF assms(1) ok(1,2) assms(4) _ P_def]) (use lt in \<open>auto simp: D_def\<close>)
    moreover have "cl_blockchainStore l' = db_Commit (C_db C) (D @ P) (cl_blockchainStore l)" "cl_bf l' = bf"
      "cl_chainMeta l' = meta" by (simp_all add: l'_def UpdateChainMeta_def)
    moreover have "meta_rep meta (take h es)" using lt by (auto simp: meta_rep_def meta_def)
    ultimately have "chain_rep C l' (take h es)" using bf(1) chain_ok_take[OF ok(1)] by (simp add: chain_rep_def)
    moreover have "RollbackBlockChain C E (of_nat h) l = Some (None, l')"
      using c hd bf(2) rm m(2) by (simp add: RollbackBlockChain_def GetChainMeta_def D_def[symmetric] l'_def Let_def)
    ultimately show ?thesis by (rule that[rotated])
  qed
qed

text \<open>Reopening the stores gives a ledger that represents the same chain.\<close>

lemma reopen_refines:
  assumes "cext_ok C" "chain_ok C es" "store_rep C store es" "bf_rep C bf es"
  obtains m where "NewChainLedgerImpl C store bf = Inr \<lparr>cl_blockchainStore = store, cl_bf = bf, cl_chainMeta = m\<rparr>"
    "meta_rep m es" "chain_rep C \<lparr>cl_blockchainStore = store, cl_bf = bf, cl_chainMeta = m\<rparr> es"
proof (cases "es = []")
  case True
  then have "db_Get (C_db C) store chainMetaKey = None"
    using assms(3) not_stale_meta by (simp add: store_rep_def meta_puts_def)
  with True assms show ?thesis
    by (intro that[of "\<lparr>cm_Height = 0, cm_BlockHash = Some (C_zeroHash C), cm_InterchainTxCount = 0\<rparr>"])
       (simp_all add: NewChainLedgerImpl_def loadChainMeta_def chain_rep_def meta_rep_def)
next
  case False
  with store_get[OF assms(1-3), of KMeta] assms show ?thesis
    by (intro that[of "chain_meta es"])
       (simp_all add: NewChainLedgerImpl_def loadChainMeta_def chain_rep_def meta_rep_def cext_dec)
qed

end
