(* ===== verification/Ledger_Recovery.thy ===== *)
theory Ledger_Recovery
  imports Ledger_Journal Chain_Refine
begin

text \<open>
  The two halves of the ledger together (\<^verbatim>\<open>ledger.go\<close>): a persisted block advances both, a rollback
  takes both back, and reopening the stores recovers a ledger when the process stopped between
  the commits of the two halves. A block file that is ahead of the store is not recovered.
\<close>

section \<open>Reopening the state ledger\<close>

definition core where
  "core l = (l_ldb l, l_minJnlHeight l, l_maxJnlHeight l, l_prevJnlHash l)"

lemma core_eq:
  "core l = core l' \<longleftrightarrow> l_ldb l = l_ldb l' \<and> l_minJnlHeight l = l_minJnlHeight l' \<and>
     l_maxJnlHeight l = l_maxJnlHeight l' \<and> l_prevJnlHash l = l_prevJnlHash l'"
  by (simp add: core_def)

lemma jnl_wf_core: "core l = core l' \<Longrightarrow> jnl_wf X l = jnl_wf X l'"
  by (simp add: jnl_wf_def core_eq)

lemma RollbackState_core:
  assumes "core l = core l'" "RollbackState X E h l = Some (e, m)"
  obtains m' where "RollbackState X E h l' = Some (e, m')" "core m = core m'"
proof -
  have "map_option (map_prod id core) (RollbackState X E h l) = map_option (map_prod id core) (RollbackState X E h l')"
    using assms(1)
    by (auto simp: RollbackState_def core_eq Clear_def Let_def core_def
        split: Option.bind_splits option.splits prod.splits)
  with assms(2) show ?thesis using that by (cases "RollbackState X E h l'") auto
qed

lemma NewSimpleLedger_core:
  assumes "jnl_wf X l" "l_maxJnlHeight l \<noteq> 0"
  obtains l' where "NewSimpleLedger X (l_ldb l) cache = Some (Inr l')" "core l' = core l" "l_accounts l' = []"
proof -
  from assms obtain j where j: "db_Get (X_db X) (l_ldb l) minKey = Some (marshalHeight (l_minJnlHeight l))"
    "db_Get (X_db X) (l_ldb l) maxKey = Some (marshalHeight (l_maxJnlHeight l))"
    "getBlockJournal X (l_maxJnlHeight l) (l_ldb l) = Some (Some j)" "l_prevJnlHash l = bj_ChangedHash j"
    unfolding jnl_wf_def by blast
  then have "getJournalRange X (l_ldb l) = Some (l_minJnlHeight l, l_maxJnlHeight l)"
    by (simp add: getJournalRange_def marshalHeight_def unmarshalHeight_def)
  with j assms(2) show ?thesis
    by (intro that[of "\<lparr>l_ldb = l_ldb l, l_minJnlHeight = l_minJnlHeight l, l_maxJnlHeight = l_maxJnlHeight l,
        l_events = [], l_accounts = [],
        l_accountCache = (case cache of None \<Rightarrow> NewAccountCache X | Some ac \<Rightarrow> ac),
        l_blockJournals = [], l_prevJnlHash = l_prevJnlHash l, l_blockHeight = 0,
        l_pool = [], l_validRevisions = [], l_nextRevisionId = 0,
        l_changer = 0, l_changers = (\<lambda>_. newChanger), l_nextChanger = 1,
        l_accessList = al_New (X_access X), l_preimages = [], l_refund = 0,
        l_logs = NewEvmLogs\<rparr>"])
       (simp_all add: NewSimpleLedger_def core_def)
qed

section \<open>Persisting, rolling back and recovering a block\<close>

text \<open>A state ledger and a chain ledger at the same height.\<close>

definition at_height where
  "at_height X C sl cl es \<longleftrightarrow> journalable X sl \<and> jnl_wf X sl \<and> chain_rep C cl es \<and>
     l_maxJnlHeight sl = of_nat (length es) \<and> Suc (length es) < 2 ^ 64"

lemma at_height_next:
  assumes "at_height X C sl cl es" "h = of_nat (Suc (length es))"
  shows "h = l_maxJnlHeight sl + 1" "h \<noteq> 0" "h - 1 = of_nat (length es)" "unat h = Suc (length es)"
proof -
  have "unat (of_nat (Suc (length es)) :: u64) = Suc (length es)"
    using assms(1) by (intro unat_of_nat_u64) (simp add: at_height_def)
  then show "unat h = Suc (length es)" using assms(2) by simp
  then show "h \<noteq> 0" by auto
  show "h = l_maxJnlHeight sl + 1" "h - 1 = of_nat (length es)" using assms by (simp_all add: at_height_def)
qed

lemma commit_exists:
  assumes "ext_ok X" "runtime_ok E" "at_height X C sl cl es" "h = of_nat (Suc (length es))"
  obtains accs root sl1 sl2 where "FlushDirtyData X E sl = Some ((accs, root), sl1)"
    "Commit X E h accs root sl1 = Some (None, sl2)" "jnl_wf X sl2" "l_maxJnlHeight sl2 = h"
proof -
  have j: "journalable X sl" "jnl_wf X sl" using assms(3) by (simp_all add: at_height_def)
  show ?thesis by (rule block_committed[OF assms(1,2) j at_height_next(1,2)[OF assms(3,4)]]) (rule that)
qed

text \<open>The state a committed block leaves, and the height a rollback of it comes back to.\<close>

lemma commit_then_rollback:
  assumes "ext_ok X" "runtime_ok E" "runtime_ok E'" "at_height X C sl cl es" "h = of_nat (Suc (length es))"
    "FlushDirtyData X E sl = Some ((accs, root), sl1)" "Commit X E h accs root sl1 = Some (r, sl2)"
    "core sl2 = core sl2'"
  obtains sl3 where "RollbackState X E' (of_nat (length es)) sl2' = Some (None, sl3)"
    "\<And>k. \<not> is_journal k \<Longrightarrow> db_Get (X_db X) (l_ldb sl3) k = db_Get (X_db X) (l_ldb sl) k"
    "l_prevJnlHash sl3 = l_prevJnlHash sl" "l_maxJnlHeight sl3 = l_maxJnlHeight sl"
proof -
  have j: "journalable X sl" "jnl_wf X sl" using assms(4) by (simp_all add: at_height_def)
  obtain s where s: "RollbackState X E' (of_nat (length es)) sl2 = Some (None, s)"
    "\<forall>k. \<not> is_journal k \<longrightarrow> db_Get (X_db X) (l_ldb s) k = db_Get (X_db X) (l_ldb sl) k"
    "l_prevJnlHash s = l_prevJnlHash sl" "l_maxJnlHeight s = l_maxJnlHeight sl"
    using block_rolled_back[OF assms(1-3) j at_height_next(1,2)[OF assms(4,5)] assms(6,7)]
    unfolding at_height_next(3)[OF assms(4,5)] by blast
  obtain sl3 where "RollbackState X E' (of_nat (length es)) sl2' = Some (None, sl3)" "core s = core sl3"
    by (rule RollbackState_core[OF assms(8) s(1)])
  then show ?thesis using s(2-4) by (intro that[of sl3]) (auto simp: core_eq)
qed

text \<open>Opening the stores of a ledger whose state half is one block ahead, with any block file.\<close>

lemma Ledger_New_bf:
  assumes "ext_ok X" "cext_ok C" "runtime_ok E" "runtime_ok E'" "at_height X C sl cl es" "h = of_nat (Suc (length es))"
    "FlushDirtyData X E sl = Some ((accs, root), sl1)" "Commit X E h accs root sl1 = Some (r, sl2)"
  obtains L where "Ledger_New X C E' (cl_blockchainStore cl) (l_ldb sl2) bf cache = Ok L"
    "cl_bf (ChainLedger L) = bf" "cm_Height (cl_chainMeta (ChainLedger L)) = of_nat (length es)"
    "cl_blockchainStore (ChainLedger L) = cl_blockchainStore cl" "meta_rep (cl_chainMeta (ChainLedger L)) es"
    "\<And>k. \<not> is_journal k \<Longrightarrow> db_Get (X_db X) (l_ldb (StateLedger L)) k = db_Get (X_db X) (l_ldb sl) k"
    "l_prevJnlHash (StateLedger L) = l_prevJnlHash sl" "l_maxJnlHeight (StateLedger L) = l_maxJnlHeight sl"
proof -
  from assms(5) have ok: "chain_ok C es" "store_rep C (cl_blockchainStore cl) es" "bf_rep C (cl_bf cl) es"
    by (simp_all add: at_height_def chain_rep_def)
  obtain m where m: "NewChainLedgerImpl C (cl_blockchainStore cl) (cl_bf cl) =
      Inr \<lparr>cl_blockchainStore = cl_blockchainStore cl, cl_bf = cl_bf cl, cl_chainMeta = m\<rparr>" "meta_rep m es"
    by (rule reopen_refines[OF assms(2) ok])
  then have m': "NewChainLedgerImpl C (cl_blockchainStore cl) bf =
      Inr \<lparr>cl_blockchainStore = cl_blockchainStore cl, cl_bf = bf, cl_chainMeta = m\<rparr>"
    by (simp add: NewChainLedgerImpl_def split: sum.splits)
  have hm: "cm_Height m = of_nat (length es)"
    using meta_rep_height(1)[OF ok(1) m(2)] ok(1) by (simp add: chain_ok_def word_unat_eq_iff unat_of_nat_u64)
  obtain accs' root' sl1' sl2'' where c: "FlushDirtyData X E sl = Some ((accs', root'), sl1')"
    "Commit X E h accs' root' sl1' = Some (None, sl2'')" "jnl_wf X sl2''" "l_maxJnlHeight sl2'' = h"
    by (rule commit_exists[OF assms(1,3,5,6)])
  with assms(7,8) have wf: "jnl_wf X sl2" "l_maxJnlHeight sl2 \<noteq> 0" using at_height_next(2)[OF assms(5,6)] by auto
  obtain s where s: "NewSimpleLedger X (l_ldb sl2) cache = Some (Inr s)" "core s = core sl2" "l_accounts s = []"
    by (rule NewSimpleLedger_core[OF wf])
  obtain sl3 where sl3: "RollbackState X E' (of_nat (length es)) s = Some (None, sl3)"
    "\<And>k. \<not> is_journal k \<Longrightarrow> db_Get (X_db X) (l_ldb sl3) k = db_Get (X_db X) (l_ldb sl) k"
    "l_prevJnlHash sl3 = l_prevJnlHash sl" "l_maxJnlHeight sl3 = l_maxJnlHeight sl"
    by (rule commit_then_rollback[OF assms(1,3,4,5,6,7,8) s(2)[symmetric]]) (rule that)
  show ?thesis
    by (rule that[of "\<lparr>ChainLedger = \<lparr>cl_blockchainStore = cl_blockchainStore cl, cl_bf = bf, cl_chainMeta = m\<rparr>,
          StateLedger = sl3\<rparr>"])
       (use m' m(2) s(1) sl3 hm in \<open>simp_all add: Ledger_New_def GetChainMeta_def Rollback_def RollbackBlockChain_def\<close>)
qed

lemma Ledger_New_ahead:
  assumes "ext_ok X" "cext_ok C" "runtime_ok E" "runtime_ok E'" "at_height X C sl cl es" "h = of_nat (Suc (length es))"
    "FlushDirtyData X E sl = Some ((accs, root), sl1)" "Commit X E h accs root sl1 = Some (r, sl2)"
  obtains L where "Ledger_New X C E' (cl_blockchainStore cl) (l_ldb sl2) (cl_bf cl) cache = Ok L"
    "chain_rep C (ChainLedger L) es"
    "\<And>k. \<not> is_journal k \<Longrightarrow> db_Get (X_db X) (l_ldb (StateLedger L)) k = db_Get (X_db X) (l_ldb sl) k"
    "l_prevJnlHash (StateLedger L) = l_prevJnlHash sl" "l_maxJnlHeight (StateLedger L) = l_maxJnlHeight sl"
proof -
  from assms(5) have ok: "chain_ok C es" "store_rep C (cl_blockchainStore cl) es" "bf_rep C (cl_bf cl) es"
    by (simp_all add: at_height_def chain_rep_def)
  show ?thesis
    by (rule Ledger_New_bf[OF assms, of "cl_bf cl" cache], rule that) (use ok in \<open>simp_all add: chain_rep_def\<close>)
qed

end
