(* ===== verification/Ledger_EVM.thy ===== *)
theory Ledger_EVM
  imports Ledger
begin

text \<open>
  The interface of the ledger to the EVM (\<^verbatim>\<open>evmstate_accessor.go\<close>): each method converts the
  address or hash of the EVM library and calls the operation of the ledger. The addresses and
  hashes of that library are their bytes.
\<close>

section \<open>Accounts\<close>

definition CreateEVMAccount where
  "CreateEVMAccount X addr l = map_option snd (GetOrCreateAccount X (X_newAddress X addr) l)"

definition SubEVMBalance where
  "SubEVMBalance X addr amount l = SubBalance X (X_newAddress X addr) amount l"

definition AddEVMBalance where
  "AddEVMBalance X addr amount l = AddBalance X (X_newAddress X addr) amount l"

definition GetEVMBalance where
  "GetEVMBalance X addr l = GetBalance X (X_newAddress X addr) l"

definition GetEVMNonce where
  "GetEVMNonce X addr l = GetNonce X (X_newAddress X addr) l"

definition SetEVMNonce where
  "SetEVMNonce X addr nonce l = SetNonce X (X_newAddress X addr) nonce l"

definition GetEVMCodeHash where
  "GetEVMCodeHash X addr l = do {
     (h, l) \<leftarrow> GetCodeHash X (X_newAddress X addr) l;
     Some (X_bytesToHash X (Some h), l)}"

definition GetEVMCode where
  "GetEVMCode X addr l = GetCode X (X_newAddress X addr) l"

definition SetEVMCode where
  "SetEVMCode X addr code l = SetCode X (X_newAddress X addr) code l"

definition GetEVMCodeSize where
  "GetEVMCodeSize X addr l = GetCodeSize X (X_newAddress X addr) l"

definition AddEVMRefund :: "u64 \<Rightarrow> ('d, 'a, 's, 'i, 'l) ledger \<Rightarrow> ('d, 'a, 's, 'i, 'l) ledger" where
  "AddEVMRefund gas l = AddRefund gas l"

definition SubEVMRefund :: "u64 \<Rightarrow> ('d, 'a, 's, 'i, 'l) ledger \<Rightarrow> ('d, 'a, 's, 'i, 'l) ledger option" where
  "SubEVMRefund gas l = SubRefund gas l"

definition GetEVMRefund :: "('d, 'a, 's, 'i, 'l) ledger \<Rightarrow> u64" where
  "GetEVMRefund l = GetRefund l"

section \<open>Storage\<close>

definition GetEVMCommittedState where
  "GetEVMCommittedState X addr hash l = do {
     (ret, l) \<leftarrow> GetCommittedState X (X_newAddress X addr) hash l;
     Some (X_bytesToHash X ret, l)}"

text \<open>The zero value of a hash is what \<^verbatim>\<open>BytesToHash\<close> gives on nil.\<close>

definition GetEVMState where
  "GetEVMState X addr hash l = do {
     ((ok, ret), l) \<leftarrow> GetState X (X_newAddress X addr) hash l;
     Some (if \<not> ok then X_bytesToHash X None else X_bytesToHash X ret, l)}"

definition SetEVMState where
  "SetEVMState X addr key value l = SetState X (X_newAddress X addr) key (Some value) None l"

definition SuisideEVM where
  "SuisideEVM X addr l = Suiside X (X_newAddress X addr) l"

definition HasSuisideEVM where
  "HasSuisideEVM X addr l = HasSuiside X (X_newAddress X addr) l"

definition ExistEVM where
  "ExistEVM X addr l = Exist X (X_newAddress X addr) l"

definition EmptyEVM where
  "EmptyEVM X addr l = Empty X (X_newAddress X addr) l"

section \<open>Access list, preimages and logs\<close>

text \<open>The destination is a pointer that \<^verbatim>\<open>dest.Bytes()\<close> dereferences: nil panics.\<close>

definition PrepareEVMAccessList where
  "PrepareEVMAccessList X sender dest preEVMcompiles txEVMAccesses l = do {
     let precompiles = map (X_newAddress X) preEVMcompiles;
     let txAccesses = map (\<lambda>(addr, storageKeys).
           (X_newAddress X addr, map (\<lambda>key. X_newHash X (Some key)) storageKeys)) txEVMAccesses;
     d \<leftarrow> dest;
     Some (PrepareAccessList X (X_newAddress X sender) (Some (X_newAddress X d)) precompiles txAccesses l)}"

definition AddressInEVMAccessList where
  "AddressInEVMAccessList X addr l = AddressInAccessList X (X_newAddress X addr) l"

definition SlotInEVMAceessList where
  "SlotInEVMAceessList X addr slot l = SlotInAccessList X (X_newAddress X addr) (X_newHash X (Some slot)) l"

definition AddAddressToEVMAccessList where
  "AddAddressToEVMAccessList X addr l = AddAddressToAccessList X (X_newAddress X addr) l"

definition AddSlotToEVMAccessList where
  "AddSlotToEVMAccessList X addr slot l =
     AddSlotToAccessList X (X_newAddress X addr) (X_newHash X (Some slot)) l"

definition AddEVMPreimage where
  "AddEVMPreimage X hash data l = AddPreimage (X_newHash X (Some hash)) data l"

record ethLog =
  eth_Address :: string
  eth_Topics :: "string list"
  eth_Data :: string
  eth_BlockNumber :: u64
  eth_TxHash :: string
  eth_TxIndex :: u64
  eth_BlockHash :: string
  eth_Index :: u64
  eth_Removed :: bool

definition AddEVMLog where
  "AddEVMLog X log l =
     (let logs = \<lparr>lg_Address = X_newAddress X (eth_Address log),
            lg_Topics = map (\<lambda>t. X_newHash X (Some t)) (eth_Topics log), lg_Data = eth_Data log,
            lg_BlockNumber = eth_BlockNumber log,
            lg_TransactionHash = Some (X_newHash X (Some (eth_TxHash log))),
            lg_TransactionIndex = eth_TxIndex log,
            lg_BlockHash = Some (X_newHash X (Some (eth_BlockHash log))),
            lg_LogIndex = eth_Index log, lg_Removed = eth_Removed log\<rparr>
      in AddLog logs l)"

definition SetBHash :: "hash option \<Rightarrow> evmLogs \<Rightarrow> evmLogs" where
  "SetBHash hash s = s\<lparr>el_bhash := hash\<rparr>"

definition SetTHash :: "hash option \<Rightarrow> evmLogs \<Rightarrow> evmLogs" where
  "SetTHash hash s = s\<lparr>el_thash := hash\<rparr>"

definition SetIndex :: "int \<Rightarrow> evmLogs \<Rightarrow> evmLogs" where
  "SetIndex i s = s\<lparr>el_txIndex := i\<rparr>"

section \<open>Blooms\<close>

text \<open>
  \<^verbatim>\<open>CreateBloom\<close> folds a bloom filter over the logs of receipts; the filter is a parameter
  (\<^term>\<open>add\<close> and \<^term>\<open>or_bloom\<close> are \<^verbatim>\<open>Add\<close> and \<^verbatim>\<open>OrBloom\<close>).
\<close>

record 'b evm_receipt =
  rc_EvmLogs :: "evmLog list"
  rc_Bloom :: "'b option"

definition CreateBloom ::
  "'b \<Rightarrow> (string \<Rightarrow> 'b \<Rightarrow> 'b) \<Rightarrow> ('b \<Rightarrow> 'b \<Rightarrow> 'b) \<Rightarrow> 'b evm_receipt list \<Rightarrow> 'b" where
  "CreateBloom bloom0 add or_bloom receipts =
     fold (\<lambda>receipt bin.
       let bin = fold (\<lambda>log bin. fold add (lg_Topics log) (add (addr_Bytes (lg_Address log)) bin))
                      (rc_EvmLogs receipt) bin
       in case rc_Bloom receipt of None \<Rightarrow> bin | Some b \<Rightarrow> or_bloom b bin) receipts bloom0"

end
