(* ===== verification/Ledger_Properties.thy ===== *)
theory Ledger_Properties
  imports Ledger_Spec Ledger_Recovery Ledger_EVM
begin

text \<open>
  The properties of the state ledger and of the chain ledger: the operations of a transaction
  refine the view, a snapshot restores it, committing and rolling back a block are inverse, a
  persisted block can be read back, and the stores are recovered when they are reopened.
\<close>

section \<open>Transactions\<close>



text \<open>
  C12. The reads of a well-formed ledger return what the view says, and change the view at most by
  creating the account: balance, nonce, storage, code, code size, emptiness and existence.
\<close>

theorem reads_agree:
  assumes "ext_ok X" "lwf X l"
  shows "(\<exists>l'. GetBalance X a l = Some (av_balance (view X l) a, l') \<and> view X l' = touch a (view X l)) \<and>
    (\<exists>l'. GetNonce X a l = Some (av_nonce (view X l) a, l') \<and> view X l' = touch a (view X l)) \<and>
    (\<exists>l'. GetState X a k l = Some ((av_state (view X l) a k \<noteq> None, av_state (view X l) a k), l') \<and>
       view X l' = touch a (view X l)) \<and>
    (\<exists>l'. GetCode X a l = Some (av_code (view X l) a, l') \<and> view X l' = touch a (view X l)) \<and>
    (\<exists>l'. GetCodeSize X a l = Some (case av_code (view X l) a of Some c \<Rightarrow> length c | None \<Rightarrow> 0, l') \<and>
       view X l' = touch a (view X l)) \<and>
    (\<exists>l'. Empty X a l = Some (aempty (view X l) a, l') \<and> view X l' = touch a (view X l)) \<and>
    (\<exists>l'. Exist X a l = Some (\<not> aempty (view X l) a, l') \<and> view X l' = touch a (view X l))"
  by (intro conjI GetBalance_view[OF assms] GetState_view[OF assms] GetCode_view[OF assms]
      GetCodeSize_view(1)[OF assms] Empty_view(1,2)[OF assms])

section \<open>Blocks of the state ledger\<close>


text \<open>
  C14. Committing keeps the window of journals: at most eleven heights are kept, each with a
  journal that can be read, and a ledger opened on the committed store has the same range of
  heights and the same previous journal hash.
\<close>

theorem journal_window:
  assumes "ext_ok X" "runtime_ok E" "journalable X l" "jnl_wf X l" "l_maxJnlHeight l + 1 \<noteq> 0"
  shows "\<exists>accs root l1 l2 l3. FlushDirtyData X E l = Some ((accs, root), l1) \<and>
    Commit X E (l_maxJnlHeight l + 1) accs root l1 = Some (None, l2) \<and>
    unat (l_maxJnlHeight l2) \<le> unat (l_minJnlHeight l2) + 10 \<and>
    (\<forall>h. l_minJnlHeight l2 \<le> h \<and> h \<le> l_maxJnlHeight l2 \<longrightarrow>
       (\<exists>j. getBlockJournal X h (l_ldb l2) = Some (Some j))) \<and>
    NewSimpleLedger X (l_ldb l2) None = Some (Inr l3) \<and> l_minJnlHeight l3 = l_minJnlHeight l2 \<and>
    l_maxJnlHeight l3 = l_maxJnlHeight l2 \<and> l_prevJnlHash l3 = l_prevJnlHash l2"
proof -
  obtain accs root l1 l2 where c: "FlushDirtyData X E l = Some ((accs, root), l1)"
    "Commit X E (l_maxJnlHeight l + 1) accs root l1 = Some (None, l2)"
    "jnl_wf X l2" "l_maxJnlHeight l2 = l_maxJnlHeight l + 1"
    by (rule block_committed[OF assms(1-4) refl assms(5)])
  have ne: "l_maxJnlHeight l2 \<noteq> 0" using c(4) assms(5) by simp
  obtain l3 where "NewSimpleLedger X (l_ldb l2) None = Some (Inr l3)" "core l3 = core l2"
    by (rule NewSimpleLedger_core[OF c(3) ne])
  moreover have "l_minJnlHeight l2 \<noteq> 0" using c(3) ne by (simp add: jnl_wf_def)
  then have "h \<noteq> 0" if "l_minJnlHeight l2 \<le> h" for h using that by auto
  ultimately show ?thesis using c by (auto simp: core_eq jnl_wf_def has_journal_def)
qed

section \<open>Both halves\<close>

text \<open>
  C15. Persisting the next block returns: the state ledger advances to its height, the chain ledger
  is extended by the signed block with its receipts and interchain metadata, and the block, each of
  its transactions and its receipts can be read back by number and by hash.
\<close>

theorem persist_block:
  assumes "ext_ok X" "cext_ok C" "runtime_ok E" "at_height X C sl cl es"
    "FlushDirtyData X E sl = Some ((accs, root), sl1)"
    "bh_StateRoot (bk_BlockHeader b) = Some root" "extends C es b" "bk_Transactions b = Some txs"
    "length txs < 2 ^ 64" "length rs = length txs" "h = bh_Number (bk_BlockHeader b)"
  shows "\<exists>data' cl' sl'. PersistBlockData X C E \<lparr>bd_Block = b, bd_Receipts = rs, bd_Accounts = accs,
       bd_InterchainMeta = im, bd_TxHashList = map (C_txHash C) txs\<rparr> \<lparr>ChainLedger = cl, StateLedger = sl1\<rparr> =
         Some (data', \<lparr>ChainLedger = cl', StateLedger = sl'\<rparr>) \<and>
    jnl_wf X sl' \<and> Version sl' = h \<and> cm_Height (GetChainMeta cl') = h \<and>
    chain_rep C cl' (es @ [(signed_block C b, rs, im)]) \<and>
    GetBlock C h True cl' = Ok (signed_block C b) \<and> GetInterchainMeta C h cl' = Ok im \<and>
    (\<forall>n < length txs. cl_GetTransaction C (C_txHash C (txs ! n)) cl' = Ok (txs ! n) \<and>
       GetReceipt C (C_txHash C (txs ! n)) cl' = Ok (rs ! n))"
proof -
  from assms(7) have h: "h = of_nat (Suc (length es))" unfolding assms(11) by (simp add: extends_def)
  obtain accs' root' sl1' sl' where c: "FlushDirtyData X E sl = Some ((accs', root'), sl1')"
    "Commit X E h accs' root' sl1' = Some (None, sl')" "jnl_wf X sl'" "l_maxJnlHeight sl' = h"
    by (rule commit_exists[OF assms(1,3,4) h])
  have rep: "chain_rep C cl es" using assms(4) by (simp add: at_height_def)
  let ?e = "(signed_block C b, rs, im)"
  obtain cl' where p: "PersistExecutionResult C E (Some b) rs im cl = Ok (signed_block C b, cl')" "chain_rep C cl' (es @ [?e])"
    by (rule persist_refines[OF assms(2,3) rep assms(7)])
  have i: "length es < length (es @ [?e])" by simp
  note tx = GetTransaction_spec(1,3)[OF assms(2) p(2) i] and blk = GetBlock_spec[OF assms(2) p(2) i]
  have "cm_Height (GetChainMeta cl') = h"
    using p(2) assms(11) by (simp add: chain_rep_def meta_rep_def chain_meta_def GetChainMeta_def)
  moreover have "PersistBlockData X C E \<lparr>bd_Block = b, bd_Receipts = rs, bd_Accounts = accs,
       bd_InterchainMeta = im, bd_TxHashList = map (C_txHash C) txs\<rparr> \<lparr>ChainLedger = cl, StateLedger = sl1\<rparr> =
       Some (\<lparr>bd_Block = signed_block C b, bd_Receipts = rs, bd_Accounts = accs,
         bd_InterchainMeta = im, bd_TxHashList = map (C_txHash C) txs\<rparr>, \<lparr>ChainLedger = cl', StateLedger = sl'\<rparr>)"
    using c(1,2) p(1) assms(5,6,11) by (simp add: PersistBlockData_def)
  ultimately show ?thesis
    using c(3,4) p(2) blk[folded h] tx assms(8-10) by (simp add: Version_def)
qed


text \<open>
  C17. Rolling the chain back to a height it has reached returns, and leaves exactly the blocks up
  to that height: they are still found, and the transactions of the removed blocks are not.
\<close>

theorem chain_rollback:
  assumes "cext_ok C" "runtime_ok E" "chain_rep C l es" "h \<le> length es"
  shows "\<exists>l'. RollbackBlockChain C E (of_nat h) l = Some (None, l') \<and> chain_rep C l' (take h es) \<and>
    (\<forall>i < h. GetBlock C (of_nat (Suc i)) True l' = Ok (e_block (es ! i))) \<and>
    (\<forall>x. unat x > h \<longrightarrow> GetBlock C x True l' = Fail (ErrGet BodiesTable x)) \<and>
    (\<forall>tx \<in> set (concat (map e_txs (drop h es))). cl_GetTransaction C (C_txHash C tx) l' = Fail ErrNotFound)"
proof -
  obtain l' where l': "RollbackBlockChain C E (of_nat h) l = Some (None, l')" "chain_rep C l' (take h es)"
    by (rule rollback_refines[OF assms])
  have "GetBlock C (of_nat (Suc i)) True l' = Ok (e_block (es ! i))" if "i < h" for i
    using GetBlock_spec(1)[OF assms(1) l'(2), of i] that assms(4) by (simp del: of_nat_Suc)
  moreover have "GetBlock C x True l' = Fail (ErrGet BodiesTable x)" if "h < unat x" for x
    using GetBlock_missing[OF assms(1) l'(2), of x] that assms(4) by (simp add: min_absorb2)
  moreover have "cl_GetTransaction C (C_txHash C tx) l' = Fail ErrNotFound"
    if "tx \<in> set (concat (map e_txs (drop h es)))" for tx
  proof (rule GetTransaction_missing(1)[OF assms(1) l'(2)])
    have "map (C_txHash C) (concat (map e_txs es)) =
        map (C_txHash C) (concat (map e_txs (take h es))) @ map (C_txHash C) (concat (map e_txs (drop h es)))"
      by (metis append_take_drop_id concat_append map_append)
    moreover have "distinct (map (C_txHash C) (concat (map e_txs es)))"
      using assms(3) by (simp add: chain_rep_def chain_ok_def)
    ultimately have "set (map (C_txHash C) (concat (map e_txs (take h es)))) \<inter>
        set (map (C_txHash C) (concat (map e_txs (drop h es)))) = {}" by (simp only: distinct_append)
    moreover have "C_txHash C tx \<in> set (map (C_txHash C) (concat (map e_txs (drop h es))))"
      using that unfolding set_map by (rule imageI)
    ultimately show "C_txHash C tx \<notin> C_txHash C ` set (concat (map e_txs (take h es)))"
      unfolding set_map by blast
  qed
  ultimately show ?thesis using l' by blast
qed

text \<open>
  C18. If the process stops after a block was appended to the block file and before the batch of
  the store was committed, the ledger opens without an error, but no block that extends the chain
  can be persisted any more: the append is out of order, which is a panic.
\<close>

theorem block_file_ahead:
  assumes "ext_ok X" "cext_ok C" "runtime_ok E" "runtime_ok E'" "at_height X C sl cl es"
    "FlushDirtyData X E sl = Some ((accs, root), sl1)"
    "Commit X E (of_nat (Suc (length es))) accs root sl1 = Some (r, sl2)"
    "bf_AppendBlock (C_bf C) (of_nat (length es)) x body receipts txs meta (cl_bf cl) = Some bf"
  shows "\<exists>L. Ledger_New X C E' (cl_blockchainStore cl) (l_ldb sl2) bf None = Ok L \<and>
    (\<forall>b rs im. extends C es b \<longrightarrow> PersistExecutionResult C E' (Some b) rs im (ChainLedger L) = None)"
proof -
  obtain L where L: "Ledger_New X C E' (cl_blockchainStore cl) (l_ldb sl2) bf None = Ok L"
    "cl_bf (ChainLedger L) = bf" "cm_Height (cl_chainMeta (ChainLedger L)) = of_nat (length es)"
    by (rule Ledger_New_bf[OF assms(1-5) refl assms(6,7)])
  have n: "unat (of_nat (length es) :: u64) = length es" "bf_Blocks (C_bf C) (cl_bf cl) = length es"
    using assms(5) unat_of_nat_u64[of "length es"] by (simp_all add: at_height_def chain_rep_def bf_rep_def)
  then obtain f where "bf_AppendBlock (C_bf C) (of_nat (length es)) x body receipts txs meta (cl_bf cl) = Some f"
    "bf_Blocks (C_bf C) f = Suc (length es)"
    using bf_append[OF cext_okD(2)[OF assms(2)], of "of_nat (length es)" "cl_bf cl" x body receipts txs meta] by metis
  then have "bf_Blocks (C_bf C) bf = Suc (length es)" using assms(8) by simp
  then have a: "bf_AppendBlock (C_bf C) (of_nat (length es)) h b rs ts im bf = None" for h b rs ts im
    using bf_append_out_of_order[OF cext_okD(2)[OF assms(2)]] n(1) by simp
  have "PersistExecutionResult C E' (Some b) rs im (ChainLedger L) = None" if b: "extends C es b" for b rs im
  proof -
    from b obtain ts where ts: "bk_Transactions b = Some ts" by (auto simp: extends_def)
    note prep = prepareBlock_eq[OF assms(2) ts refl, where rs = rs and im = im]
    show ?thesis
      by (simp add: PersistExecutionResult_def prep persistChainMeta_def cext_enc[OF assms(2)] L(2,3) a Let_def)
  qed
  with L(1) show ?thesis by blast
qed

section \<open>Prefix queries\<close>

fun prefix_limit :: "string \<Rightarrow> slice" where
  "prefix_limit [] = None"
| "prefix_limit (c # cs) =
     (case prefix_limit cs of
        Some l \<Rightarrow> Some (c # l)
      | None \<Rightarrow> if (of_char c :: nat) < 255 then Some [char_of (of_char c + 1 :: nat)] else None)"

lemma bytesPrefix_limit_Cons:
  "i \<le> length cs \<Longrightarrow> bytesPrefix_limit (c # cs) (Suc i) =
     (case bytesPrefix_limit cs i of
        Some l \<Rightarrow> Some (c # l)
      | None \<Rightarrow> if (of_char c :: nat) < 255 then Some [char_of (of_char c + 1 :: nat)] else None)"
  by (induction i) (auto simp: Let_def)

lemma bytesPrefix_limit_eq: "bytesPrefix_limit pre (length pre) = prefix_limit pre"
  by (induction pre) (simp_all add: bytesPrefix_limit_Cons del: bytesPrefix_limit.simps(2))

lemma char_succ:
  assumes "(of_char c :: nat) < 255"
  shows "d < char_of (of_char c + 1 :: nat) \<longleftrightarrow> d \<le> c"
  using assms by (simp add: less_char_def less_eq_char_def less_Suc_eq_le)

lemma char_top: "\<not> (of_char c :: nat) < 255 \<Longrightarrow> \<not> c < d"
proof
  assume "\<not> (of_char c :: nat) < 255" "c < d"
  then have "(of_char d :: nat) \<ge> 256" by (simp add: less_char_def)
  moreover have "(of_char d :: nat) < 256" by simp
  ultimately show False by simp
qed

lemma prefix_limit_range:
  "(pre \<le> k \<and> (case prefix_limit pre of None \<Rightarrow> True | Some l \<Rightarrow> k < l)) = prefix pre k"
proof (induction pre arbitrary: k)
  case Nil
  then show ?case by simp
next
  case (Cons c cs)
  show ?case
  proof (cases k)
    case Nil
    then show ?thesis by simp
  next
    case (Cons d ds)
    note IH = Cons.IH[of ds]
    show ?thesis
      using IH char_succ[of c d] char_top[of c d]
      by (auto simp: Cons split: option.splits if_splits)
  qed
qed

text \<open>
  C19. The range \<^verbatim>\<open>bytesPrefix\<close> computes holds exactly the keys with the prefix: on any store, the
  iteration over it yields precisely the entries whose key starts with the prefix.
\<close>

theorem prefix_query:
  assumes "storage_ok D" "bytesPrefix pre = (low, high)"
  shows "(k, v) \<in> set (db_Iterator D d low high) \<longleftrightarrow> prefix pre k \<and> db_Get D d k = Some v"
proof -
  have "(pre \<le> k \<and> (\<forall>l. prefix_limit pre = Some l \<longrightarrow> k < l)) = prefix pre k"
    using prefix_limit_range[of pre k] by (auto split: option.splits)
  then show ?thesis
    using assms by (auto simp: storage_ok_def bytesPrefix_def bytesPrefix_limit_eq)
qed

end
