(* ===== verification/Encodings.thy ===== *)
theory Encodings
  imports Ledger_Base
begin

text \<open>
  Length-prefixed encodings that can be decoded again: the instances that the theorems are applied
  to use them for the codecs of the source.
\<close>

section \<open>Encodings\<close>

text \<open>An encoding that can be read off the front of a text.\<close>

type_synonym 'a codec = "('a \<Rightarrow> string) \<times> (string \<Rightarrow> ('a \<times> string) option)"

definition coder :: "('a \<Rightarrow> string) \<Rightarrow> (string \<Rightarrow> ('a \<times> string) option) \<Rightarrow> bool" where
  "coder enc unc \<longleftrightarrow> (\<forall>x r. unc (enc x @ r) = Some (x, r))"

lemma coderD: "coder enc unc \<Longrightarrow> unc (enc x @ r) = Some (x, r)"
  by (simp add: coder_def)

definition enc_nat :: "nat \<Rightarrow> string" where
  "enc_nat n = dec n @ '':''"

definition unc_nat :: "string \<Rightarrow> (nat \<times> string) option" where
  "unc_nat s = (case undec 0 (takeWhile is_digit s) of
     None \<Rightarrow> None | Some n \<Rightarrow> Some (n, tl (dropWhile is_digit s)))"

lemma coder_nat: "coder enc_nat unc_nat"
proof -
  have "takeWhile is_digit (dec n @ CHR '':'' # r) = dec n" "dropWhile is_digit (dec n @ CHR '':'' # r) = CHR '':'' # r" for n r
    using dec_digits by (auto simp: takeWhile_append2 dropWhile_append2 is_digit_def)
  then show ?thesis by (simp add: coder_def enc_nat_def unc_nat_def undec_dec)
qed

definition enc_str :: "string \<Rightarrow> string" where
  "enc_str s = enc_nat (length s) @ s"

definition unc_str :: "string \<Rightarrow> (string \<times> string) option" where
  "unc_str s = map_option (\<lambda>(n, r). (take n r, drop n r)) (unc_nat s)"

lemma coder_str: "coder enc_str unc_str"
  by (simp add: coder_def enc_str_def unc_str_def coderD[OF coder_nat])

definition enc_opt :: "('a \<Rightarrow> string) \<Rightarrow> 'a option \<Rightarrow> string" where
  "enc_opt f x = (case x of None \<Rightarrow> ''N'' | Some a \<Rightarrow> ''S'' @ f a)"

definition unc_opt :: "(string \<Rightarrow> ('a \<times> string) option) \<Rightarrow> string \<Rightarrow> ('a option \<times> string) option" where
  "unc_opt f s = (case s of [] \<Rightarrow> None
     | c # r \<Rightarrow> if c = CHR ''N'' then Some (None, r) else map_option (\<lambda>(a, t). (Some a, t)) (f r))"

lemma coder_opt: "coder f g \<Longrightarrow> coder (enc_opt f) (unc_opt g)"
  by (auto simp: coder_def enc_opt_def unc_opt_def split: option.split)

definition enc_pair :: "('a \<Rightarrow> string) \<Rightarrow> ('b \<Rightarrow> string) \<Rightarrow> 'a \<times> 'b \<Rightarrow> string" where
  "enc_pair f g p = f (fst p) @ g (snd p)"

definition unc_pair ::
  "(string \<Rightarrow> ('a \<times> string) option) \<Rightarrow> (string \<Rightarrow> ('b \<times> string) option) \<Rightarrow> string \<Rightarrow> (('a \<times> 'b) \<times> string) option" where
  "unc_pair f g s = do {(a, r) \<leftarrow> f s; (b, t) \<leftarrow> g r; Some ((a, b), t)}"

lemma coder_pair: "coder f f' \<Longrightarrow> coder g g' \<Longrightarrow> coder (enc_pair f g) (unc_pair f' g')"
  by (simp add: coder_def enc_pair_def unc_pair_def)

fun unc_many :: "(string \<Rightarrow> ('a \<times> string) option) \<Rightarrow> nat \<Rightarrow> string \<Rightarrow> ('a list \<times> string) option" where
  "unc_many f 0 s = Some ([], s)"
| "unc_many f (Suc n) s = do {(a, r) \<leftarrow> f s; (as, t) \<leftarrow> unc_many f n r; Some (a # as, t)}"

definition enc_list :: "('a \<Rightarrow> string) \<Rightarrow> 'a list \<Rightarrow> string" where
  "enc_list f xs = enc_nat (length xs) @ concat (map f xs)"

definition unc_list :: "(string \<Rightarrow> ('a \<times> string) option) \<Rightarrow> string \<Rightarrow> ('a list \<times> string) option" where
  "unc_list f s = do {(n, r) \<leftarrow> unc_nat s; unc_many f n r}"

lemma coder_list: "coder f g \<Longrightarrow> coder (enc_list f) (unc_list g)"
proof -
  assume c: "coder f g"
  have "unc_many g (length xs) (concat (map f xs) @ r) = Some (xs, r)" for xs r
    by (induction xs) (simp_all add: coderD[OF c])
  then show ?thesis by (simp add: coder_def enc_list_def unc_list_def coderD[OF coder_nat])
qed

text \<open>Encodings of other types go through one of these by an injection with an inverse.\<close>

definition unc_map :: "('a \<Rightarrow> 'b) \<Rightarrow> (string \<Rightarrow> ('a \<times> string) option) \<Rightarrow> string \<Rightarrow> ('b \<times> string) option" where
  "unc_map h f s = map_option (\<lambda>(a, r). (h a, r)) (f s)"

lemma coder_map: "coder f g \<Longrightarrow> (\<And>x. h (k x) = x) \<Longrightarrow> coder (f \<circ> k) (unc_map h g)"
  by (simp add: coder_def unc_map_def)

definition whole :: "(string \<Rightarrow> ('a \<times> string) option) \<Rightarrow> string \<Rightarrow> 'a option" where
  "whole f s = (case f s of Some (a, []) \<Rightarrow> Some a | _ \<Rightarrow> None)"

lemma codec_of_coder: "coder f g \<Longrightarrow> codec_ok (\<lambda>x. Some (f x)) (whole g)"
proof -
  assume "coder f g"
  from coderD[OF this, where r = "[]"] show ?thesis by (simp add: codec_ok_def whole_def)
qed

definition c_bool :: "bool codec" where
  "c_bool = (enc_nat \<circ> (\<lambda>b. if b then 1 else 0), unc_map (\<lambda>n. n = (1 :: nat)) unc_nat)"
definition c_u64 :: "u64 codec" where
  "c_u64 = (enc_nat \<circ> unat, unc_map of_nat unc_nat :: string \<Rightarrow> (u64 \<times> string) option)"
definition c_int :: "int codec" where
  "c_int = (enc_pair enc_nat enc_nat \<circ> (\<lambda>i. (nat i, nat (- i))),
  unc_map (\<lambda>(a, b). int a - int b) (unc_pair unc_nat unc_nat))"
definition c_slice :: "slice codec" where
  "c_slice = (enc_opt enc_str, unc_opt unc_str)"
definition c_addr :: "address codec" where
  "c_addr = (enc_str \<circ> addr_Bytes, unc_map Address unc_str)"

lemma coder_basic:
  "coder (fst c_bool) (snd c_bool)" "coder (fst c_u64) (snd c_u64)" "coder (fst c_int) (snd c_int)"
  "coder (fst c_slice) (snd c_slice)" "coder (fst c_addr) (snd c_addr)"
  unfolding c_bool_def c_u64_def c_int_def c_slice_def c_addr_def fst_conv snd_conv
  by (auto intro!: coder_map coder_pair coder_opt coder_nat coder_str split: if_splits)

end
