(* ===== verification/Ledger_Instance.thy ===== *)
theory Ledger_Instance
  imports Chain Encodings
begin

text \<open>
  Concrete libraries that meet the contracts of the ledger: a store and caches kept as association
  lists, an access list of two lists, a block file that is a list of rows, and the encodings of
  \<^verbatim>\<open>Encodings\<close>. The theorems about the ledger are applied to them.
\<close>

section \<open>Libraries of the state ledger\<close>

definition list_db :: "(string, string) gomap storage_ops" where
  "list_db = \<lparr>db_Get = gget,
     db_Commit = fold (\<lambda>b m. case b of Put k v \<Rightarrow> gset k v m | Delete k \<Rightarrow> gdel k m),
     db_Iterator = (\<lambda>d a b. List.map_filter (\<lambda>k. map_option (Pair k) (gget d k))
       (filter (\<lambda>k. a \<le> k \<and> (case b of None \<Rightarrow> True | Some l \<Rightarrow> k < l)) (sort (remdups (keys d)))))\<rparr>"

lemma list_db_ok: "storage_ok list_db"
proof -
  have "gget (fold (\<lambda>b m. case b of Put k v \<Rightarrow> gset k v m | Delete k \<Rightarrow> gdel k m) bs d) = apply_batch bs (gget d)"
    for bs and d :: "(string, string) gomap"
  proof (induction bs arbitrary: d)
    case (Cons b bs)
    have "gget (gset k v d) = (gget d)(k \<mapsto> v)" "gget (gdel k d) = (gget d)(k := None)" for k v by (simp_all add: fun_eq_iff)
    with Cons show ?case by (cases b) (simp_all add: fun_upd_def)
  qed simp
  moreover have "(k, v) \<in> set (List.map_filter (\<lambda>k. map_option (Pair k) (gget d k)) (filter P (sort (remdups (keys d))))) \<longleftrightarrow>
      P k \<and> gget d k = Some v" for d :: "(string, string) gomap" and P k v
    using gget_Some_key[of d k v] by (auto simp: set_map_filter)
  ultimately show ?thesis by (auto simp: storage_ok_def list_db_def split: option.splits)
qed

definition list_lru :: "('v, (string, 'v) gomap) lru_ops" where
  "list_lru = \<lparr>lru_New = [], lru_Get = (\<lambda>k c. (gget c k, c)), lru_Add = gset, lru_Remove = gdel,
     lru_Purge = (\<lambda>_. []), lru_Len = length\<rparr>"

lemma list_lru_ok: "lru_ok (list_lru :: ('v, (string, 'v) gomap) lru_ops)"
proof -
  have "(\<forall>k. gget c k = None) \<longleftrightarrow> c = []" for c :: "(string, 'v) gomap"
    by (metis map_of_eq_empty_iff)
  then show ?thesis by (auto simp: lru_ok_def list_lru_def peek_def fun_eq_iff)
qed

definition list_access :: "(address list \<times> (address \<times> hash) list) access_ops" where
  "list_access = \<lparr>al_New = ([], []),
     al_AddAddress = (\<lambda>a (as, ss). (a \<notin> set as \<and> a \<notin> fst ` set ss, (List.insert a as, ss))),
     al_AddSlot = (\<lambda>a s (as, ss). ((a \<notin> set as \<and> a \<notin> fst ` set ss, (a, s) \<notin> set ss),
        (List.insert a as, List.insert (a, s) ss))),
     al_DeleteAddress = (\<lambda>a (as, ss). (removeAll a as, ss)),
     al_DeleteSlot = (\<lambda>a s (as, ss). (List.insert a as, removeAll (a, s) ss)),
     al_ContainsAddress = (\<lambda>(as, ss) a. a \<in> set as \<or> a \<in> fst ` set ss),
     al_Contains = (\<lambda>(as, ss) a s. (a \<in> set as \<or> a \<in> fst ` set ss, (a, s) \<in> set ss))\<rparr>"

lemma list_access_ok: "access_ok list_access"
  unfolding access_ok_def list_access_def has_slot_def
  by (auto simp: fun_eq_iff image_iff split: prod.splits) (metis fst_conv)+

definition c_inner :: "innerAccount codec" where
  "c_inner = (enc_pair (fst c_u64) (enc_pair (fst c_int) (fst c_slice)) \<circ>
    (\<lambda>a. (ia_Nonce a, ia_Balance a, ia_CodeHash a)),
  unc_map (\<lambda>(n, b, c). \<lparr>ia_Nonce = n, ia_Balance = b, ia_CodeHash = c\<rparr>)
    (unc_pair (snd c_u64) (unc_pair (snd c_int) (snd c_slice))))"

definition c_entry :: "blockJournalEntry codec" where
  "c_entry = (enc_pair (fst c_addr) (enc_pair (enc_opt (fst c_inner)) (enc_pair (fst c_bool)
    (enc_pair (enc_list (enc_pair enc_str (fst c_slice))) (enc_pair (fst c_slice) (fst c_bool))))) \<circ>
    (\<lambda>e. (je_Address e, je_PrevAccount e, je_AccountChanged e, je_PrevStates e, je_PrevCode e, je_CodeChanged e)),
  unc_map (\<lambda>(a, p, c, s, d, e). \<lparr>je_Address = a, je_PrevAccount = p, je_AccountChanged = c, je_PrevStates = s,
      je_PrevCode = d, je_CodeChanged = e\<rparr>)
    (unc_pair (snd c_addr) (unc_pair (unc_opt (snd c_inner)) (unc_pair (snd c_bool)
      (unc_pair (unc_list (unc_pair unc_str (snd c_slice))) (unc_pair (snd c_slice) (snd c_bool)))))))"

definition c_journal :: "blockJournal codec" where
  "c_journal = (enc_pair (enc_list (fst c_entry)) enc_str \<circ> (\<lambda>j. (bj_Journals j, bj_ChangedHash j)),
  unc_map (\<lambda>(a, b). \<lparr>bj_Journals = a, bj_ChangedHash = b\<rparr>) (unc_pair (unc_list (snd c_entry)) unc_str))"

lemmas coder_intros = coder_map coder_pair coder_opt coder_list coder_nat coder_str coder_basic

lemma coder_inner: "coder (fst c_inner) (snd c_inner)"
  unfolding c_inner_def fst_conv snd_conv by (intro coder_intros) simp

lemma coder_entry: "coder (fst c_entry) (snd c_entry)"
  unfolding c_entry_def fst_conv snd_conv by (intro coder_intros coder_inner) simp

lemma coder_journal: "coder (fst c_journal) (snd c_journal)"
  unfolding c_journal_def fst_conv snd_conv by (intro coder_intros coder_entry) simp

type_synonym w_ledger =
  "((string, string) gomap, (string, innerAccount) gomap, (string, nat) gomap, (string, slice) gomap,
    address list \<times> (address \<times> hash) list) ledger"

definition checksum :: "string \<Rightarrow> string" where
  "checksum s = dec (\<Sum>c \<leftarrow> s. of_char c)"

definition wX :: "((string, string) gomap, (string, innerAccount) gomap, (string, nat) gomap, (string, slice) gomap,
    address list \<times> (address \<times> hash) list) ext" where
  "wX = \<lparr>X_db = list_db, X_accounts = list_lru, X_states = list_lru, X_bytes = list_lru, X_access = list_access,
     X_addrString = (\<lambda>a. ''0x'' @ addr_Bytes a), X_hashString = (\<lambda>h. ''0x'' @ h), X_newAddress = Address,
     X_newHash = content, X_bytesToHash = content, X_zeroHash = [],
     X_keccak = (\<lambda>c. ''k'' @ content c), X_sha256 = checksum,
     X_copy = (\<lambda>a. case a of None \<Rightarrow> new_inner | Some a \<Rightarrow> a),
     X_changed = (\<lambda>a b. case b of None \<Rightarrow> False | Some b \<Rightarrow> (case a of None \<Rightarrow> True
       | Some a \<Rightarrow> ia_Nonce a \<noteq> ia_Nonce b \<or> ia_Balance a \<noteq> ia_Balance b \<or>
           \<not> bytes_Equal (ia_CodeHash a) (ia_CodeHash b))),
     X_marshal = (\<lambda>a. Some (fst c_inner a)), X_unmarshal = whole (snd c_inner),
     X_json = (\<lambda>j. Some (fst c_journal j)), X_unjson = whole (snd c_journal)\<rparr>"

lemma wX_ok: "ext_ok wX"
proof -
  have "codec_ok (\<lambda>j. Some (fst c_journal j)) (whole (snd c_journal))" by (rule codec_of_coder[OF coder_journal])
  then have "json_ok (\<lambda>j. Some (fst c_journal j)) (whole (snd c_journal))" by (auto simp: codec_ok_def json_ok_def)
  moreover have "codec_ok (\<lambda>j. Some (fst c_inner j)) (whole (snd c_inner))" by (rule codec_of_coder[OF coder_inner])
  moreover have "inj (\<lambda>a. ''0x'' @ addr_Bytes a)" by (rule injI) (simp add: address.expand)
  ultimately show ?thesis
    unfolding ext_ok_def wX_def
    by (simp add: list_db_ok list_lru_ok list_access_ok copy_ok_def changed_ok_def)
qed

section \<open>Libraries of the chain ledger\<close>

definition list_bf :: "(string \<times> string \<times> string \<times> string) list blockfile_ops" where
  "list_bf = \<lparr>
     bf_Get = (\<lambda>t x f. if x = 0 \<or> length f < unat x then None
       else Some (case f ! (unat x - 1) of (b, r, ts, i) \<Rightarrow> bf_row b r ts i t)),
     bf_AppendBlock = (\<lambda>n h b r ts i f. if unat n = length f then Some (f @ [(b, r, ts, i)]) else None),
     bf_TruncateBlocks = (\<lambda>n f. Some (take (unat n) f)),
     bf_Blocks = length\<rparr>"

lemma list_bf_ok: "blockfile_ok list_bf"
proof -
  have z: "unat x = Suc n \<Longrightarrow> x \<noteq> 0" for x :: u64 and n by auto
  have p: "x \<noteq> 0 \<Longrightarrow> 0 < unat x" for x :: u64 by (simp add: word_unat_eq_iff)
  show ?thesis
    unfolding blockfile_ok_def list_bf_def
    by (auto simp: nth_append min_def dest: z dest!: p)
qed

definition c_hashes :: "string list codec" where
  "c_hashes = (enc_list enc_str, unc_list unc_str)"

definition c_block :: "(unit, string) block codec" where
  "c_block = (enc_pair (fst c_u64) (enc_pair (fst c_slice) (enc_pair (enc_opt (fst c_hashes)) (enc_pair enc_str
      (enc_pair (fst c_slice) (fst c_slice))))) \<circ>
    (\<lambda>b. (bh_Number (bk_BlockHeader b), bh_StateRoot (bk_BlockHeader b), bk_Transactions b, bk_BlockHash b,
      bk_Signature b, bk_Extra b)),
   unc_map (\<lambda>(n, r, t, h, s, e). \<lparr>bk_BlockHeader = \<lparr>bh_Number = n, bh_StateRoot = r, bh_rest = ()\<rparr>,
      bk_Transactions = t, bk_BlockHash = h, bk_Signature = s, bk_Extra = e\<rparr>)
    (unc_pair (snd c_u64) (unc_pair (snd c_slice) (unc_pair (unc_opt (snd c_hashes)) (unc_pair unc_str
      (unc_pair (snd c_slice) (snd c_slice)))))))"

definition c_im :: "unit interchainMeta codec" where
  "c_im = (enc_list (enc_pair enc_str (enc_list (enc_pair (fst c_u64) (enc_pair (fst c_bool) (fst c_bool))
       \<circ> (\<lambda>v. (vi_Index v, vi_Valid v, vi_IsBatch v))))) \<circ> im_Counter,
   unc_map (\<lambda>c. \<lparr>im_Counter = c, im_rest = ()\<rparr>) (unc_list (unc_pair unc_str (unc_list
     (unc_map (\<lambda>(i, v, b). \<lparr>vi_Index = i, vi_Valid = v, vi_IsBatch = b\<rparr>)
       (unc_pair (snd c_u64) (unc_pair (snd c_bool) (snd c_bool))))))))"

definition c_txMeta :: "txMeta codec" where
  "c_txMeta = (enc_pair (fst c_u64) (enc_pair enc_str (fst c_u64)) \<circ> (\<lambda>m. (tm_BlockHeight m, tm_BlockHash m, tm_Index m)),
   unc_map (\<lambda>(h, b, i). \<lparr>tm_BlockHeight = h, tm_BlockHash = b, tm_Index = i\<rparr>)
     (unc_pair (snd c_u64) (unc_pair unc_str (snd c_u64))))"

definition c_chainMeta :: "chainMeta codec" where
  "c_chainMeta = (enc_pair (fst c_u64) (enc_pair (fst c_slice) (fst c_u64)) \<circ>
      (\<lambda>m. (cm_Height m, cm_BlockHash m, cm_InterchainTxCount m)),
   unc_map (\<lambda>(h, b, i). \<lparr>cm_Height = h, cm_BlockHash = b, cm_InterchainTxCount = i\<rparr>)
     (unc_pair (snd c_u64) (unc_pair (snd c_slice) (snd c_u64))))"

lemma coder_chain:
  "coder (fst c_hashes) (snd c_hashes)" "coder (fst c_block) (snd c_block)" "coder (fst c_im) (snd c_im)"
  "coder (fst c_txMeta) (snd c_txMeta)" "coder (fst c_chainMeta) (snd c_chainMeta)"
proof -
  show h: "coder (fst c_hashes) (snd c_hashes)"
    unfolding c_hashes_def fst_conv snd_conv by (intro coder_intros)
  show "coder (fst c_block) (snd c_block)"
    unfolding c_block_def fst_conv snd_conv by (intro coder_intros h) simp
  show "coder (fst c_im) (snd c_im)"
    unfolding c_im_def fst_conv snd_conv by (intro coder_intros) simp_all
  show "coder (fst c_txMeta) (snd c_txMeta)"
    unfolding c_txMeta_def fst_conv snd_conv by (intro coder_intros) simp
  show "coder (fst c_chainMeta) (snd c_chainMeta)"
    unfolding c_chainMeta_def fst_conv snd_conv by (intro coder_intros) simp
qed

definition wC :: "((string, string) gomap, (string \<times> string \<times> string \<times> string) list, unit, string, string, unit) cext" where
  "wC = \<lparr>C_db = list_db, C_bf = list_bf, C_hashString = (\<lambda>h. ''0x'' @ h), C_newHash = content, C_zeroHash = [],
     C_txHash = (\<lambda>tx. tx), C_hashOnly = (\<lambda>h. h), C_sign = (\<lambda>d. Some (''s'' @ d)),
     C_marshalBlock = (\<lambda>b. Some (fst c_block b)), C_unmarshalBlock = whole (snd c_block),
     C_marshalTxs = (\<lambda>b. Some (fst c_hashes b)), C_unmarshalTxs = whole (snd c_hashes),
     C_marshalReceipts = (\<lambda>b. Some (fst c_hashes b)), C_unmarshalReceipts = whole (snd c_hashes),
     C_marshalInterchain = (\<lambda>b. Some (fst c_im b)), C_unmarshalInterchain = whole (snd c_im),
     C_marshalTxMeta = (\<lambda>b. Some (fst c_txMeta b)), C_unmarshalTxMeta = whole (snd c_txMeta),
     C_marshalChainMeta = (\<lambda>b. Some (fst c_chainMeta b)), C_unmarshalChainMeta = whole (snd c_chainMeta),
     C_jsonHashes = (\<lambda>b. Some (fst c_hashes b)), C_unjsonHashes = whole (snd c_hashes)\<rparr>"

lemma wC_ok: "cext_ok wC"
  unfolding cext_ok_def wC_def
  by (simp add: list_db_ok list_bf_ok coder_chain[THEN codec_of_coder] inj_def)

end
