(* ===== verification/Ledger_Runs.thy ===== *)
theory Ledger_Runs
  imports Ledger_Properties Ledger_Instance
begin

text \<open>
  Runs of the ledger on the concrete libraries: the properties applied to a ledger opened on empty
  stores, and runs that show behaviour the code does not intend.
\<close>

section \<open>A ledger on empty stores\<close>

definition wa :: address where
  "wa = Address ''account1''"

definition w_new :: w_ledger where
  "w_new = (case NewSimpleLedger wX [] None of Some (Inr l) \<Rightarrow> l)"

definition w_snap :: w_ledger where
  "w_snap = snd (Snapshot w_new)"

definition w_set :: w_ledger where
  "w_set = the (SetBalance wX wa 5 w_snap)"

lemma w_new_fields:
  "l_ldb w_new = []" "l_accounts w_new = []" "l_validRevisions w_new = []" "l_accountCache w_new = NewAccountCache wX"
  by (simp_all add: w_new_def NewSimpleLedger_def getJournalRange_def wX_def list_db_def)

lemma wX_empty [simp]: "db_Get (X_db wX) [] k = None"
  by (simp add: wX_def list_db_def)

lemma w_base_wf: "base_wf wX (NewAccountCache wX) []"
proof -
  have "cached_inner wX (NewAccountCache wX) s = None" "cached_code wX (NewAccountCache wX) s = None" for s
    by (simp_all add: cached_inner_def cached_code_def NewAccountCache_def wX_def list_lru_def peek_def)
  then show ?thesis by (simp add: base_wf_def base_of_def)
qed

lemma w_new_lwf: "lwf wX w_new"
  by (simp add: lwf_def w_new_fields w_base_wf)

lemma w_snap_fields: "l_ldb w_snap = []" "l_accounts w_snap = []" "l_accountCache w_snap = NewAccountCache wX"
  by (simp_all add: w_snap_def Snapshot_def Let_def w_new_fields)

lemma w_snap_lwf: "lwf wX w_snap"
  by (simp add: lwf_def w_snap_fields w_base_wf)

lemma w_set_run: "run_op wX (OpSetBalance wa 5) w_snap = Some w_set"
  using SetBalance_view(1)[OF wX_ok w_snap_lwf, of wa 5] by (auto simp: w_set_def)

lemma w_set_accounts:
  "l_accounts w_set = [(''0xaccount1'', \<lparr>sa_Addr = wa, sa_originAccount = None,
     sa_dirtyAccount = Some \<lparr>ia_Nonce = 0, ia_Balance = 5, ia_CodeHash = None\<rparr>,
     sa_originState = [], sa_dirtyState = [], sa_originCode = None, sa_dirtyCode = None,
     sa_dirtyStateHash = None, sa_changer = 0, sa_suicided = False\<rparr>)]"
  by code_simp

lemma w_set_fields:
  "l_ldb w_set = []" "l_minJnlHeight w_set = 0" "l_maxJnlHeight w_set = 0" "l_prevJnlHash w_set = []"
  "l_validRevisions w_set = [\<lparr>rv_id = 0, rv_changerIndex = 0\<rparr>]"
  by code_simp+

section \<open>The properties of the state ledger\<close>


lemma w_reach: "reachable (tx_initial wX) (tx_step wX) (w_set, [view wX w_new])"
proof -
  have "reachable (tx_initial wX) (tx_step wX) (w_new, [])"
    by (rule reach_init) (simp add: tx_initial_def wX_ok w_new_lwf w_new_fields)
  moreover have "tx_step wX (w_new, []) (w_snap, [view wX w_new])"
    using tx_step.step_snapshot[of w_new "fst (Snapshot w_new)" w_snap wX "[]"] by (simp add: w_snap_def)
  moreover have "tx_step wX (w_snap, [view wX w_new]) (w_set, [view wX w_new])"
    by (rule tx_step.step_op[OF _ w_set_run]) simp
  ultimately show ?thesis by (meson reach_step)
qed


theorem reads_agree_witness:
  "ext_ok wX \<and> lwf wX w_new \<and>
   (\<exists>l'. GetBalance wX wa w_new = Some (av_balance (view wX w_new) wa, l') \<and> view wX l' = touch wa (view wX w_new))"
  using reads_agree[OF wX_ok w_new_lwf, of wa "[]"] wX_ok w_new_lwf by blast

lemma w_db_inner: "b_inner (db_bases wX []) a = None" "b_code (db_bases wX []) a = None"
  by (simp_all add: db_bases_sel[OF wX_ok])

lemma w_journalable: "journalable wX w_set"
  by (auto simp: journalable_def w_set_fields w_set_accounts db_wf_def acc_wf_def w_db_inner tracked_def
      ascii_keys_def acc_CodeHash_def wa_def is_journal_def journalKey_def split: if_splits)

lemma w_jnl_wf: "jnl_wf wX w_set"
  by (auto simp: jnl_wf_def w_set_fields) (simp add: wX_def)


theorem journal_window_witness:
  "\<exists>accs root l1 l2 l3. FlushDirtyData wX rt0 w_set = Some ((accs, root), l1) \<and>
    Commit wX rt0 1 accs root l1 = Some (None, l2) \<and> unat (l_maxJnlHeight l2) \<le> unat (l_minJnlHeight l2) + 10 \<and>
    (\<forall>h. l_minJnlHeight l2 \<le> h \<and> h \<le> l_maxJnlHeight l2 \<longrightarrow>
       (\<exists>j. getBlockJournal wX h (l_ldb l2) = Some (Some j))) \<and>
    NewSimpleLedger wX (l_ldb l2) None = Some (Inr l3) \<and> l_minJnlHeight l3 = l_minJnlHeight l2 \<and>
    l_maxJnlHeight l3 = l_maxJnlHeight l2 \<and> l_prevJnlHash l3 = l_prevJnlHash l2"
  using journal_window[OF wX_ok runtime_ok_rt0 w_journalable w_jnl_wf] unfolding w_set_fields by simp

theorem prefix_query_witness:
  "storage_ok list_db \<and> bytesPrefix ''ab'' = (''ab'', Some ''ac'') \<and>
   ((''abc'', ''1'') \<in> set (db_Iterator list_db [(''abc'', ''1''), (''b'', ''2'')] ''ab'' (Some ''ac'')) \<longleftrightarrow>
      prefix ''ab'' ''abc'' \<and> db_Get list_db [(''abc'', ''1''), (''b'', ''2'')] ''abc'' = Some ''1'')"
proof -
  have "bytesPrefix ''ab'' = (''ab'', Some ''ac'')" by code_simp
  with prefix_query[OF list_db_ok this] list_db_ok show ?thesis by simp
qed

section \<open>The properties of both halves\<close>

definition w_chain :: "((string, string) gomap, (string \<times> string \<times> string \<times> string) list) chainLedger" where
  "w_chain = (case NewChainLedgerImpl wC [] [] of Inr l \<Rightarrow> l)"

definition w_im :: "unit interchainMeta" where
  "w_im = \<lparr>im_Counter = [(''chain'', [\<lparr>vi_Index = 1, vi_Valid = True, vi_IsBatch = False\<rparr>])], im_rest = ()\<rparr>"

definition w_flush where
  "w_flush = the (FlushDirtyData wX rt0 w_set)"

definition w_block :: "(unit, string) block" where
  "w_block = \<lparr>bk_BlockHeader = \<lparr>bh_Number = 1, bh_StateRoot = Some (snd (fst w_flush)), bh_rest = ()\<rparr>,
     bk_Transactions = Some [''tx''], bk_BlockHash = ''b1'', bk_Signature = None, bk_Extra = None\<rparr>"

definition w_chain1 where
  "w_chain1 = (case PersistExecutionResult wC rt0 (Some w_block) [''r''] w_im w_chain of Some (Inr (b, l)) \<Rightarrow> l)"

lemma w_chain_fields:
  "cl_blockchainStore w_chain = []" "cl_bf w_chain = []" "cm_Height (cl_chainMeta w_chain) = 0"
  "cm_InterchainTxCount (cl_chainMeta w_chain) = 0"
  by (simp_all add: w_chain_def NewChainLedgerImpl_def loadChainMeta_def wC_def list_db_def)

lemma w_chain_rep: "chain_rep wC w_chain []"
  by (simp add: chain_rep_def chain_ok_def store_rep_def bf_rep_def meta_rep_def meta_puts_def w_chain_fields)
     (simp add: wC_def list_db_def list_bf_def)

lemma w_at_height: "at_height wX wC w_set w_chain []"
  by (simp add: at_height_def w_journalable w_jnl_wf w_chain_rep w_set_fields)

lemma w_flush_eq: "FlushDirtyData wX rt0 w_set = Some ((fst (fst w_flush), snd (fst w_flush)), snd w_flush)"
proof -
  have "FlushDirtyData wX rt0 w_set \<noteq> None"
    by (rule commit_exists[OF wX_ok runtime_ok_rt0 w_at_height refl]) simp
  then show ?thesis by (auto simp: w_flush_def)
qed

lemma w_extends: "extends wC [] w_block"
  by (simp add: extends_def w_block_def)

definition w_commit where
  "w_commit = the (Commit wX rt0 1 (fst (fst w_flush)) (snd (fst w_flush)) (snd w_flush))"

lemma w_commit_eq:
  "Commit wX rt0 (of_nat (Suc (length ([] :: (unit, string, string, unit) entry list)))) (fst (fst w_flush))
     (snd (fst w_flush)) (snd w_flush) = Some (fst w_commit, snd w_commit)"
proof -
  have "Commit wX rt0 1 (fst (fst w_flush)) (snd (fst w_flush)) (snd w_flush) \<noteq> None"
    by (rule commit_exists[OF wX_ok runtime_ok_rt0 w_at_height refl]) (simp add: w_flush_def)
  then show ?thesis by (auto simp: w_commit_def)
qed

theorem persist_block_witness:
  "\<exists>data' cl' sl'. PersistBlockData wX wC rt0 \<lparr>bd_Block = w_block, bd_Receipts = [''r''],
       bd_Accounts = fst (fst w_flush), bd_InterchainMeta = w_im, bd_TxHashList = map (C_txHash wC) [''tx'']\<rparr>
       \<lparr>ChainLedger = w_chain, StateLedger = snd w_flush\<rparr> = Some (data', \<lparr>ChainLedger = cl', StateLedger = sl'\<rparr>) \<and>
     jnl_wf wX sl' \<and> Version sl' = 1 \<and> cm_Height (GetChainMeta cl') = 1 \<and>
     chain_rep wC cl' [(signed_block wC w_block, [''r''], w_im)] \<and>
     GetBlock wC 1 True cl' = Ok (signed_block wC w_block) \<and> GetInterchainMeta wC 1 cl' = Ok w_im \<and>
     (\<forall>n < length [''tx'']. cl_GetTransaction wC (C_txHash wC ([''tx''] ! n)) cl' = Ok ([''tx''] ! n) \<and>
        GetReceipt wC (C_txHash wC ([''tx''] ! n)) cl' = Ok ([''r''] ! n))"
  using persist_block[OF wX_ok wC_ok runtime_ok_rt0 w_at_height w_flush_eq _ w_extends, of "[''tx'']" "[''r'']" 1 w_im]
  by (simp add: w_block_def)


lemma w_chain1_rep: "chain_rep wC w_chain1 [(signed_block wC w_block, [''r''], w_im)]"
  by (rule persist_refines[OF wC_ok runtime_ok_rt0 w_chain_rep w_extends, of "[''r'']" w_im]) (simp add: w_chain1_def)

theorem chain_rollback_witness:
  "\<exists>l'. RollbackBlockChain wC rt0 0 w_chain1 = Some (None, l') \<and> chain_rep wC l' [] \<and>
    (\<forall>x. unat x > 0 \<longrightarrow> GetBlock wC x True l' = Fail (ErrGet BodiesTable x)) \<and>
    cl_GetTransaction wC (C_txHash wC ''tx'') l' = Fail ErrNotFound"
  using chain_rollback[OF wC_ok runtime_ok_rt0 w_chain1_rep, of 0] by (simp add: w_block_def)

theorem block_file_ahead_witness:
  "\<exists>L. Ledger_New wX wC rt0 (cl_blockchainStore w_chain) (l_ldb (snd w_commit)) [(''b'', ''r'', ''t'', ''i'')] None = Ok L \<and>
    (\<forall>b rs im. extends wC ([] :: (unit, string, string, unit) entry list) b \<longrightarrow>
       PersistExecutionResult wC rt0 (Some b) rs im (ChainLedger L) = None)"
proof -
  have "bf_AppendBlock (C_bf wC) (of_nat (length ([] :: (unit, string, string, unit) entry list)))
      ''h'' ''b'' ''r'' ''t'' ''i'' (cl_bf w_chain) = Some [(''b'', ''r'', ''t'', ''i'')]"
    by (simp add: w_chain_fields) (simp add: wC_def list_bf_def)
  from block_file_ahead[OF wX_ok wC_ok runtime_ok_rt0 runtime_ok_rt0 w_at_height w_flush_eq w_commit_eq this]
  show ?thesis by simp
qed

section \<open>Runs that show unintended behaviour\<close>



text \<open>
  Reverting the first code of an account that existed before restores the empty code but not
  the empty code hash: the hash becomes the hash of the empty code.
\<close>

theorem code_revert_leaves_hash:
  "do {
     l \<leftarrow> SetBalance wX wa 5 w_new;
     (before, l) \<leftarrow> GetCodeHash wX wa l;
     let (revid, l) = Snapshot l;
     l \<leftarrow> SetCode wX wa (Some ''code'') l;
     l \<leftarrow> RevertToSnapshot wX revid l;
     (code, l) \<leftarrow> GetCode wX wa l;
     (after, l) \<leftarrow> GetCodeHash wX wa l;
     Some (code, before, after)} = Some (None, [], X_keccak wX None)"
  by code_simp

text \<open>
  Rolling the chain back leaves the hash of a removed block in the store: \<^verbatim>\<open>GetBlockHash\<close> still
  answers for a height above the head, while \<^verbatim>\<open>GetBlock\<close> fails.
\<close>

theorem rollback_keeps_block_hash:
  "do {
     (err, l) \<leftarrow> RollbackBlockChain wC rt0 0 w_chain1;
     Some (err, cm_Height (GetChainMeta l), GetBlockHash wC 1 l = GetBlockHash wC 1 w_chain1, GetBlockHash wC 1 l,
       GetBlock wC 1 False l)} =
   Some (None, 0, True, ''0xb1'', Fail (ErrGet BodiesTable 1))"
  by code_simp

end
