(* ===== verification/Txmgr.thy ===== *)
theory Txmgr
  imports Ledger_Base
begin

text \<open>
  The transaction manager (\<^verbatim>\<open>internal/executor/contracts/transaction_manager.go\<close>): the built-in contract
  that keeps the status of every cross-chain transaction, single or one of the children of a global
  transaction, and the lists of transactions that time out at a height.

  The state of the contract is what its account stores under each key (\<^verbatim>\<open>cstore\<close>); the theory
  \<^verbatim>\<open>Contract_Stub\<close> shows that the calls of the stub on the state ledger act on it in this way. A
  method returns its response and the new state, or \<^term>\<open>None\<close> when it panics.
\<close>

section \<open>Data\<close>

type_synonym cstore = "string \<Rightarrow> slice"

text \<open>\<^verbatim>\<open>pb.TransactionStatus\<close> is an integer type: the named values, and any other integer.\<close>

datatype TransactionStatus =
  BEGIN | BEGIN_FAILURE | BEGIN_ROLLBACK | SUCCESS | FAILURE | ROLLBACK | Status int

text \<open>\<^verbatim>\<open>strconv.Itoa\<close>, and the name of a status as \<^verbatim>\<open>String\<close> gives it.\<close>

definition itoa :: "int \<Rightarrow> string" where
  "itoa i = (if i < 0 then ''-'' @ dec (nat (- i)) else dec (nat i))"

fun status_String :: "TransactionStatus \<Rightarrow> string" where
  "status_String BEGIN = ''BEGIN''"
| "status_String BEGIN_FAILURE = ''BEGIN_FAILURE''"
| "status_String BEGIN_ROLLBACK = ''BEGIN_ROLLBACK''"
| "status_String SUCCESS = ''SUCCESS''"
| "status_String FAILURE = ''FAILURE''"
| "status_String ROLLBACK = ''ROLLBACK''"
| "status_String (Status i) = itoa i"

text \<open>\<^verbatim>\<open>pb.TransactionStatus_value\<close>, the map from names.\<close>

definition status_value :: "(string, TransactionStatus) gomap" where
  "status_value = map (\<lambda>st. (status_String st, st))
     [BEGIN, BEGIN_FAILURE, BEGIN_ROLLBACK, SUCCESS, FAILURE, ROLLBACK]"

text \<open>The statuses the code stores: the named ones and \<^verbatim>\<open>-1\<close>, which is no named status.\<close>

definition status_wf :: "TransactionStatus \<Rightarrow> bool" where
  "status_wf st \<longleftrightarrow> (case st of Status i \<Rightarrow> i = - 1 | _ \<Rightarrow> True)"

text \<open>The types of an interchain packet, \<^verbatim>\<open>pb.IBTP_Type\<close>.\<close>

datatype IBTP_Type =
  INTERCHAIN | RECEIPT_SUCCESS | RECEIPT_FAILURE | RECEIPT_ROLLBACK | IBTP_type int

record transactionRecord =
  tr_Height :: u64
  tr_Status :: TransactionStatus

record transactionInfo =
  ti_GlobalState :: TransactionStatus
  ti_Height :: u64
  ti_ChildTxInfo :: "(string, TransactionStatus) gomap"
  ti_ChildTxCount :: u64

record statusChange =
  ch_PrevStatus :: TransactionStatus
  ch_CurStatus :: TransactionStatus
  ch_NotifySrcIBTPIDs :: "string list"
  ch_NotifyDstIBTPIDs :: "string list"
  ch_ChildIBTPIDs :: "string list"
  ch_IsFailChildIBTP :: bool

text \<open>The error responses, with what their messages show.\<close>

datatype tm_error =
  TransactionNoPermission string
| TransactionExistentChildTx string string
| TransactionStateErr string TransactionStatus
| TransactionProofErr string
| TransactionInternalErr
| TransactionNotInGlobal string string
| TransactionNonexistentTx string
| TransactionNonexistentGlobalTx string string
| TransactionNonexistentGlobalId string

type_synonym tm_response = "tm_error + string"

section \<open>The code the contract calls\<close>

text \<open>
  The encodings of the stored objects, of the response and of a proof; of \<^verbatim>\<open>pb\<close> the zero value of a
  status, the number of a status and which statuses are final; the state machine library; and the
  address of the interchain contract. An entry of the machine is an event with its sources and its
  destination; \<^verbatim>\<open>T_fsm cur entries event\<close> is the state after a transition, \<^term>\<open>None\<close> when the library
  returns an error.
\<close>

type_synonym fsm_entry = "string \<times> string list \<times> string"

record tmext =
  T_record_Marshal :: "transactionRecord \<Rightarrow> string option"
  T_record_Unmarshal :: "string \<Rightarrow> transactionRecord option"
  T_info_Marshal :: "transactionInfo \<Rightarrow> string option"
  T_info_Unmarshal :: "string \<Rightarrow> transactionInfo option"
  T_change_Marshal :: "statusChange \<Rightarrow> string option"
  T_change_Unmarshal :: "string \<Rightarrow> statusChange option"
  T_proof_Unmarshal :: "string \<Rightarrow> TransactionStatus option"
  T_status0 :: TransactionStatus
  T_statusNumber :: "TransactionStatus \<Rightarrow> int"
  T_IsFinalStatus :: "TransactionStatus \<Rightarrow> bool"
  T_fsm :: "string \<Rightarrow> fsm_entry list \<Rightarrow> string \<Rightarrow> string option"
  T_interchainAddr :: string

text \<open>The zero value of a \<^verbatim>\<open>pb.StatusChange\<close>.\<close>

definition zero_change :: "'z tmext_scheme \<Rightarrow> statusChange" where
  "zero_change T = \<lparr>ch_PrevStatus = T_status0 T, ch_CurStatus = T_status0 T, ch_NotifySrcIBTPIDs = [],
     ch_NotifyDstIBTPIDs = [], ch_ChildIBTPIDs = [], ch_IsFailChildIBTP = False\<rparr>"

text \<open>
  The documented behaviour of the library: it looks the event and the current state up, a later
  entry for the same pair overriding an earlier one, and refuses an event that has no entry.
\<close>

definition fsm_lookup :: "fsm_entry list \<Rightarrow> string \<Rightarrow> string \<Rightarrow> string option" where
  "fsm_lookup es ev cur = fold (\<lambda>(name, srcs, dst) r. if name = ev \<and> cur \<in> set srcs then Some dst else r) es None"

definition fsm_ok :: "(string \<Rightarrow> fsm_entry list \<Rightarrow> string \<Rightarrow> string option) \<Rightarrow> bool" where
  "fsm_ok f \<longleftrightarrow> (\<forall>cur es ev.
     (fsm_lookup es ev cur = None \<longrightarrow> f cur es ev = None) \<and>
     (\<forall>dst. fsm_lookup es ev cur = Some dst \<and> dst \<noteq> cur \<longrightarrow> f cur es ev = Some dst))"

text \<open>
  JSON keeps a map as a map: decoding gives back the fields and the entries, in whatever order; it
  is asked only of objects whose strings are ASCII.
\<close>

definition same_info :: "transactionInfo \<Rightarrow> transactionInfo \<Rightarrow> bool" where
  "same_info a b \<longleftrightarrow> ti_GlobalState a = ti_GlobalState b \<and> ti_Height a = ti_Height b \<and>
     ti_ChildTxCount a = ti_ChildTxCount b \<and> distinct (keys (ti_ChildTxInfo b)) \<and>
     gget (ti_ChildTxInfo a) = gget (ti_ChildTxInfo b)"

definition ascii :: "string \<Rightarrow> bool" where
  "ascii s \<longleftrightarrow> (\<forall>c \<in> set s. of_char c < (128 :: nat))"

definition info_wf :: "transactionInfo \<Rightarrow> bool" where
  "info_wf x \<longleftrightarrow> status_wf (ti_GlobalState x) \<and>
     (\<forall>(k, st) \<in> set (ti_ChildTxInfo x). ascii k \<and> status_wf st)"

definition record_codec_ok ::
  "(transactionRecord \<Rightarrow> string option) \<Rightarrow> (string \<Rightarrow> transactionRecord option) \<Rightarrow> bool" where
  "record_codec_ok e d \<longleftrightarrow> (\<forall>x. status_wf (tr_Status x) \<longrightarrow> (\<exists>s. e x = Some s \<and> d s = Some x))"

definition info_codec_ok ::
  "(transactionInfo \<Rightarrow> string option) \<Rightarrow> (string \<Rightarrow> transactionInfo option) \<Rightarrow> bool" where
  "info_codec_ok e d \<longleftrightarrow> (\<forall>x. info_wf x \<longrightarrow> (\<exists>s y. e x = Some s \<and> d s = Some y \<and> same_info x y))"

definition change_codec_ok ::
  "(statusChange \<Rightarrow> string option) \<Rightarrow> (string \<Rightarrow> statusChange option) \<Rightarrow> bool" where
  "change_codec_ok e d \<longleftrightarrow> (\<forall>x. status_wf (ch_PrevStatus x) \<and> status_wf (ch_CurStatus x) \<longrightarrow>
     (\<exists>s. e x = Some s \<and> d s = Some x))"

definition tmext_ok :: "'z tmext_scheme \<Rightarrow> bool" where
  "tmext_ok T \<longleftrightarrow> record_codec_ok (T_record_Marshal T) (T_record_Unmarshal T) \<and>
     info_codec_ok (T_info_Marshal T) (T_info_Unmarshal T) \<and>
     change_codec_ok (T_change_Marshal T) (T_change_Unmarshal T) \<and> fsm_ok (T_fsm T)"

section \<open>Keys\<close>

definition TxInfoKey :: "string \<Rightarrow> string" where
  "TxInfoKey txid = ''tx-'' @ txid"

definition GlobalTxInfoKey :: "string \<Rightarrow> string" where
  "GlobalTxInfoKey txid = ''global-tx-'' @ txid"

definition TimeoutKey :: "u64 \<Rightarrow> string" where
  "TimeoutKey height = ''timeout-'' @ fmt_d height"

section \<open>The state machine\<close>

definition tm_transitions :: "fsm_entry list" where
  "tm_transitions =
    [(''begin'', [''init''], status_String BEGIN),
     (''begin_failure'', [''init'', status_String BEGIN], status_String BEGIN_FAILURE),
     (''timeout'', [status_String BEGIN], status_String BEGIN_ROLLBACK),
     (''success'', [status_String BEGIN], status_String SUCCESS),
     (''failure'', [status_String BEGIN, status_String BEGIN_FAILURE], status_String FAILURE),
     (''rollback'', [status_String BEGIN_ROLLBACK], status_String ROLLBACK),
     (''failure'', [status_String BEGIN_ROLLBACK], status_String ROLLBACK),
     (''dst_failure'', [status_String BEGIN], status_String FAILURE),
     (''dst_rollback'', [status_String BEGIN], status_String ROLLBACK)]"

text \<open>The events with a callback, which copies the state of the machine into the status.\<close>

definition tm_callbacks :: "string list" where
  "tm_callbacks = [''begin'', ''begin_failure'', ''timeout'', ''success'', ''failure'', ''rollback'',
     ''dst_failure'', ''dst_rollback'']"

definition setFSM :: "'z tmext_scheme \<Rightarrow> TransactionStatus \<Rightarrow> string \<Rightarrow> TransactionStatus option" where
  "setFSM T state event =
     (case T_fsm T (status_String state) tm_transitions event of
        None \<Rightarrow> None
      | Some cur \<Rightarrow> Some (if event \<in> set tm_callbacks then gget0 (T_status0 T) status_value cur else state))"

text \<open>The event of a receipt and of a status in a proof; the zero value of a string otherwise.\<close>

fun receipt2EventM :: "IBTP_Type \<Rightarrow> string" where
  "receipt2EventM RECEIPT_FAILURE = ''failure''"
| "receipt2EventM RECEIPT_SUCCESS = ''success''"
| "receipt2EventM RECEIPT_ROLLBACK = ''rollback''"
| "receipt2EventM _ = ''''"

fun txStatus2EventM :: "TransactionStatus \<Rightarrow> string" where
  "txStatus2EventM BEGIN_FAILURE = ''dst_failure''"
| "txStatus2EventM BEGIN_ROLLBACK = ''dst_rollback''"
| "txStatus2EventM _ = ''''"

section \<open>Lists of transactions that time out\<close>

text \<open>
  \<^verbatim>\<open>for index, value := range list { if value == x { list = append(list[:index], list[index+1:]...) } }\<close>
  runs over the array \<^term>\<open>a\<close> that \<^verbatim>\<open>list\<close> shares; \<^term>\<open>m\<close> is the length of \<^verbatim>\<open>list\<close>. Slicing from beyond
  the length panics.
\<close>

fun drop_range :: "string \<Rightarrow> nat list \<Rightarrow> string list \<Rightarrow> nat \<Rightarrow> string list option" where
  "drop_range x [] a m = Some (take m a)"
| "drop_range x (i # is) a m =
     (if a ! i = x then
        (if i + 1 \<le> m
         then drop_range x is (take i a @ take (m - (i + 1)) (drop (i + 1) a) @ drop (m - 1) a) (m - 1)
         else None)
      else drop_range x is a m)"

definition drop_value :: "string \<Rightarrow> string list \<Rightarrow> string list option" where
  "drop_value x list = drop_range x [0..<length list] list (length list)"

definition addToTimeoutList :: "u64 \<Rightarrow> string \<Rightarrow> cstore \<Rightarrow> cstore" where
  "addToTimeoutList height txId s =
     s(TimeoutKey height \<mapsto> (case s (TimeoutKey height) of
         None \<Rightarrow> txId
       | Some val \<Rightarrow> val @ '','' @ txId))"

definition removeFromTimeoutList :: "u64 \<Rightarrow> string \<Rightarrow> cstore \<Rightarrow> cstore option" where
  "removeFromTimeoutList height txId s =
     (case s (TimeoutKey height) of
        None \<Rightarrow> Some s
      | Some timeoutList \<Rightarrow>
          (case drop_value txId (split_on (CHR '','') timeoutList) of
             None \<Rightarrow> None
           | Some list \<Rightarrow> Some (s(TimeoutKey height \<mapsto> join_with (CHR '','') list))))"


section \<open>Methods\<close>

text \<open>What a method reads from its stub: the contract that called it and the height of the block.\<close>

record tmctx =
  tc_CurrentCaller :: string
  tc_CurrentHeight :: u64

definition checkCurrentCaller :: "'z tmext_scheme \<Rightarrow> tmctx \<Rightarrow> tm_error option" where
  "checkCurrentCaller T cx =
     (if tc_CurrentCaller cx \<noteq> T_interchainAddr T then Some (TransactionNoPermission (tc_CurrentCaller cx))
      else None)"

definition getInfo :: "'z tmext_scheme \<Rightarrow> string \<Rightarrow> cstore \<Rightarrow> transactionInfo option" where
  "getInfo T globalID s =
     (case s (GlobalTxInfoKey globalID) of None \<Rightarrow> None | Some data \<Rightarrow> T_info_Unmarshal T data)"

definition setInfo :: "'z tmext_scheme \<Rightarrow> string \<Rightarrow> transactionInfo \<Rightarrow> cstore \<Rightarrow> cstore option" where
  "setInfo T globalID info s =
     (case T_info_Marshal T info of None \<Rightarrow> None | Some data \<Rightarrow> Some (s(GlobalTxInfoKey globalID \<mapsto> data)))"

definition max_u64 :: u64 where
  "max_u64 = - 1"

text \<open>The response of a method that ends by marshalling the change.\<close>

definition respond :: "'z tmext_scheme \<Rightarrow> statusChange \<Rightarrow> tm_response" where
  "respond T change =
     (case T_change_Marshal T change of None \<Rightarrow> Inl TransactionInternalErr | Some data \<Rightarrow> Inr data)"

text \<open>\<^verbatim>\<open>BeginMultiTXs\<close> for the first child of a global transaction.\<close>

definition beginFirst ::
  "'z tmext_scheme \<Rightarrow> tmctx \<Rightarrow> string \<Rightarrow> string \<Rightarrow> u64 \<Rightarrow> bool \<Rightarrow> u64 \<Rightarrow> cstore \<Rightarrow>
     (transactionInfo \<times> cstore) option" where
  "beginFirst T cx globalID ibtpID timeoutHeight isFailed count0 s =
     (let height = (if timeoutHeight = 0 \<or> timeoutHeight \<ge> max_u64 - tc_CurrentHeight cx then max_u64
                    else tc_CurrentHeight cx + timeoutHeight);
          status = (if isFailed then BEGIN_FAILURE else BEGIN);
          txInfo = \<lparr>ti_GlobalState = status, ti_Height = height, ti_ChildTxInfo = [(ibtpID, status)],
                    ti_ChildTxCount = count0\<rparr>;
          s' = (if isFailed then s else addToTimeoutList height globalID s)
      in map_option (Pair txInfo) (setInfo T globalID txInfo s'))"

text \<open>\<^verbatim>\<open>BeginMultiTXs\<close> for a further child; the lists are the ids to notify at the source and the destination.\<close>

definition failChild ::
  "string \<times> TransactionStatus \<Rightarrow> (string, TransactionStatus) gomap \<times> string list \<times> string list \<Rightarrow>
     (string, TransactionStatus) gomap \<times> string list \<times> string list" where
  "failChild = (\<lambda>(key, childStatus) (children, src, dst).
     (gset key BEGIN_FAILURE children, src @ [key], if childStatus = SUCCESS then dst @ [key] else dst))"

definition beginNext ::
  "'z tmext_scheme \<Rightarrow> 'e runtime_scheme \<Rightarrow> string \<Rightarrow> string \<Rightarrow> bool \<Rightarrow> transactionInfo \<Rightarrow> cstore \<Rightarrow>
     (transactionInfo \<times> string list \<times> string list \<times> cstore) option" where
  "beginNext T E globalID ibtpID isFailed txInfo s =
     (if ti_GlobalState txInfo \<noteq> BEGIN then
        let txInfo' = txInfo\<lparr>ti_ChildTxInfo := gset ibtpID (ti_GlobalState txInfo) (ti_ChildTxInfo txInfo)\<rparr>
        in map_option (\<lambda>s'. (txInfo', [], [], s')) (setInfo T globalID txInfo' s)
      else if isFailed then
        let (children, src, dst) = fold failChild (go_range (rt_order E 40) (ti_ChildTxInfo txInfo))
               (ti_ChildTxInfo txInfo, [], []);
            txInfo' = txInfo\<lparr>ti_ChildTxInfo := gset ibtpID BEGIN_FAILURE children, ti_GlobalState := BEGIN_FAILURE\<rparr>
        in (case removeFromTimeoutList (ti_Height txInfo) globalID s of
              None \<Rightarrow> None
            | Some s1 \<Rightarrow> map_option (\<lambda>s'. (txInfo', src, dst, s')) (setInfo T globalID txInfo' s1))
      else
        let txInfo' = txInfo\<lparr>ti_ChildTxInfo := gset ibtpID BEGIN (ti_ChildTxInfo txInfo)\<rparr>
        in map_option (\<lambda>s'. (txInfo', [], [], s')) (setInfo T globalID txInfo' s))"

definition BeginMultiTXs ::
  "'z tmext_scheme \<Rightarrow> 'e runtime_scheme \<Rightarrow> tmctx \<Rightarrow> string \<Rightarrow> string \<Rightarrow> u64 \<Rightarrow> bool \<Rightarrow> u64 \<Rightarrow> cstore \<Rightarrow>
     (tm_response \<times> cstore) option" where
  "BeginMultiTXs T E cx globalID ibtpID timeoutHeight isFailed count0 s =
     (case checkCurrentCaller T cx of
        Some err \<Rightarrow> Some (Inl err, s)
      | None \<Rightarrow>
          let finish = (\<lambda>txInfo src dst s'.
                (respond T ((zero_change T)\<lparr>ch_PrevStatus := Status (- 1),
                     ch_CurStatus := gget0 (T_status0 T) (ti_ChildTxInfo txInfo) ibtpID,
                     ch_NotifySrcIBTPIDs := src, ch_NotifyDstIBTPIDs := dst,
                     ch_ChildIBTPIDs := map fst (go_range (rt_order E 41) (ti_ChildTxInfo txInfo))\<rparr>),
                 s'(ibtpID \<mapsto> globalID)))
          in (case getInfo T globalID s of
                None \<Rightarrow>
                  map_option (\<lambda>(txInfo, s'). finish txInfo [] [] s')
                    (beginFirst T cx globalID ibtpID timeoutHeight isFailed count0 s)
              | Some txInfo \<Rightarrow>
                  if gget (ti_ChildTxInfo txInfo) ibtpID \<noteq> None
                  then Some (Inl (TransactionExistentChildTx ibtpID globalID), s)
                  else map_option (\<lambda>(txInfo', src, dst, s'). finish txInfo' src dst s')
                         (beginNext T E globalID ibtpID isFailed txInfo s)))"

text \<open>The record of a new single transaction.\<close>

definition newRecord :: "tmctx \<Rightarrow> u64 \<Rightarrow> bool \<Rightarrow> transactionRecord" where
  "newRecord cx timeoutHeight isFailed =
     \<lparr>tr_Height = (if timeoutHeight = 0 \<or> timeoutHeight \<ge> max_u64 - tc_CurrentHeight cx then max_u64
                   else tc_CurrentHeight cx + timeoutHeight),
      tr_Status = (if isFailed then BEGIN_FAILURE else BEGIN)\<rparr>"

definition Begin ::
  "'z tmext_scheme \<Rightarrow> tmctx \<Rightarrow> string \<Rightarrow> u64 \<Rightarrow> bool \<Rightarrow> cstore \<Rightarrow> tm_response \<times> cstore" where
  "Begin T cx txId timeoutHeight isFailed s =
     (case checkCurrentCaller T cx of
        Some err \<Rightarrow> (Inl err, s)
      | None \<Rightarrow>
          let record0 = newRecord cx timeoutHeight isFailed in
          (case T_record_Marshal T record0 of
             None \<Rightarrow> (Inl TransactionInternalErr, s)
           | Some recordData \<Rightarrow>
               (respond T ((zero_change T)\<lparr>ch_PrevStatus := Status (- 1), ch_CurStatus := tr_Status record0\<rparr>),
                s(TxInfoKey txId \<mapsto> recordData))))"

text \<open>The record that is moved when one is stored is the zero value: the stored one is not read.\<close>

definition BeginInterBitXHub ::
  "'z tmext_scheme \<Rightarrow> tmctx \<Rightarrow> string \<Rightarrow> u64 \<Rightarrow> string \<Rightarrow> bool \<Rightarrow> cstore \<Rightarrow> tm_response \<times> cstore" where
  "BeginInterBitXHub T cx txId timeoutHeight proof0 isFailed s =
     (case checkCurrentCaller T cx of
        Some err \<Rightarrow> (Inl err, s)
      | None \<Rightarrow>
          if s (TxInfoKey txId) \<noteq> None then
            (case T_proof_Unmarshal T proof0 of
               None \<Rightarrow> (Inl (TransactionProofErr txId), s)
             | Some txStatus \<Rightarrow>
                 (case setFSM T (T_status0 T) (txStatus2EventM txStatus) of
                    None \<Rightarrow> (Inl (TransactionStateErr txId (T_status0 T)), s)
                  | Some status \<Rightarrow>
                      (case T_record_Marshal T \<lparr>tr_Height = 0, tr_Status = status\<rparr> of
                         None \<Rightarrow> (Inl TransactionInternalErr, s)
                       | Some recordData \<Rightarrow>
                           (respond T ((zero_change T)\<lparr>ch_PrevStatus := T_status0 T, ch_CurStatus := status\<rparr>),
                            s(TxInfoKey txId \<mapsto> recordData)))))
          else
            let record0 = newRecord cx timeoutHeight isFailed in
            (case T_record_Marshal T record0 of
               None \<Rightarrow> (Inl TransactionInternalErr, s)
             | Some recordData \<Rightarrow>
                 (respond T ((zero_change T)\<lparr>ch_PrevStatus := Status (- 1), ch_CurStatus := tr_Status record0\<rparr>),
                  s(TxInfoKey txId \<mapsto> recordData))))"


fun countChildren :: "TransactionStatus \<Rightarrow> (string \<times> TransactionStatus) list \<Rightarrow> u64 \<Rightarrow> u64 option" where
  "countChildren childStatus [] n = Some n"
| "countChildren childStatus ((k, res) # rest) n =
     (if res \<noteq> childStatus then None else countChildren childStatus rest (n + 1))"

definition isMultiTxFinished :: "'e runtime_scheme \<Rightarrow> TransactionStatus \<Rightarrow> transactionInfo \<Rightarrow> bool" where
  "isMultiTxFinished E childStatus txInfo =
     (case countChildren childStatus (go_range (rt_order E 42) (ti_ChildTxInfo txInfo)) 0 of
        None \<Rightarrow> False
      | Some n \<Rightarrow> n = ti_ChildTxCount txInfo)"

definition changeMultiTxStatus ::
  "'z tmext_scheme \<Rightarrow> 'e runtime_scheme \<Rightarrow> string \<Rightarrow> transactionInfo \<Rightarrow> string \<Rightarrow> IBTP_Type \<Rightarrow> cstore \<Rightarrow>
     (tm_error, transactionInfo \<times> cstore) result" where
  "changeMultiTxStatus T E globalID txInfo txId res s =
     (if ti_GlobalState txInfo = BEGIN \<and> res = RECEIPT_FAILURE then
        let children = fold (\<lambda>(childTx, _). gset childTx BEGIN_FAILURE)
              (go_range (rt_order E 43) (ti_ChildTxInfo txInfo)) (ti_ChildTxInfo txInfo);
            txInfo' = txInfo\<lparr>ti_ChildTxInfo := gset txId FAILURE children, ti_GlobalState := BEGIN_FAILURE\<rparr>
        in (case removeFromTimeoutList (ti_Height txInfo) globalID s of
              None \<Rightarrow> None
            | Some s' \<Rightarrow> Ok (txInfo', s'))
      else
        (case setFSM T (gget0 (T_status0 T) (ti_ChildTxInfo txInfo) txId) (receipt2EventM res) of
           None \<Rightarrow> Fail (TransactionStateErr txId (gget0 (T_status0 T) (ti_ChildTxInfo txInfo) txId))
         | Some status \<Rightarrow>
             let txInfo' = txInfo\<lparr>ti_ChildTxInfo := gset txId status (ti_ChildTxInfo txInfo)\<rparr> in
             if isMultiTxFinished E status txInfo' then
               (case setFSM T (ti_GlobalState txInfo') (receipt2EventM res) of
                  None \<Rightarrow> Fail (TransactionStateErr globalID status)
                | Some global \<Rightarrow>
                    (case removeFromTimeoutList (ti_Height txInfo) globalID s of
                       None \<Rightarrow> None
                     | Some s' \<Rightarrow> Ok (txInfo'\<lparr>ti_GlobalState := global\<rparr>, s')))
             else Ok (txInfo', s)))"

text \<open>\<^verbatim>\<open>Report\<close> on a single transaction, and on a child: the loop that collects the ids to notify.\<close>

definition reportSingle ::
  "'z tmext_scheme \<Rightarrow> string \<Rightarrow> IBTP_Type \<Rightarrow> string \<Rightarrow> cstore \<Rightarrow> tm_response \<times> cstore" where
  "reportSingle T txId res recordData s =
     (case T_record_Unmarshal T recordData of
        None \<Rightarrow> (Inl TransactionInternalErr, s)
      | Some record0 \<Rightarrow>
          (case setFSM T (tr_Status record0) (receipt2EventM res) of
             None \<Rightarrow> (Inl (TransactionStateErr txId (tr_Status record0)), s)
           | Some status \<Rightarrow>
               (case T_record_Marshal T (record0\<lparr>tr_Status := status\<rparr>) of
                  None \<Rightarrow> (Inl TransactionInternalErr, s)
                | Some data \<Rightarrow>
                    (respond T ((zero_change T)\<lparr>ch_PrevStatus := tr_Status record0, ch_CurStatus := status\<rparr>),
                     s(TxInfoKey txId \<mapsto> data)))))"

definition notifyChild :: "string \<Rightarrow> string \<times> TransactionStatus \<Rightarrow> statusChange \<Rightarrow> statusChange" where
  "notifyChild txId = (\<lambda>(key, childStatus) change.
     if key = txId then change
     else
       let change' = (if ch_PrevStatus change = BEGIN \<and> ch_CurStatus change = BEGIN_FAILURE then
              change\<lparr>ch_IsFailChildIBTP := True,
                ch_NotifyDstIBTPIDs := (if childStatus = SUCCESS then ch_NotifyDstIBTPIDs change @ [key]
                                        else ch_NotifyDstIBTPIDs change)\<rparr>
              else change)
       in change'\<lparr>ch_NotifySrcIBTPIDs := ch_NotifySrcIBTPIDs change' @ [key]\<rparr>)"

definition reportChild ::
  "'z tmext_scheme \<Rightarrow> 'e runtime_scheme \<Rightarrow> string \<Rightarrow> IBTP_Type \<Rightarrow> string \<Rightarrow> cstore \<Rightarrow>
     (tm_response \<times> cstore) option" where
  "reportChild T E txId res globalId s =
     (case getInfo T globalId s of
        None \<Rightarrow> Some (Inl (TransactionNonexistentGlobalTx globalId txId), s)
      | Some txInfo \<Rightarrow>
          if gget (ti_ChildTxInfo txInfo) txId = None then Some (Inl (TransactionNotInGlobal txId globalId), s)
          else
            (case changeMultiTxStatus T E globalId txInfo txId res s of
               None \<Rightarrow> None
             | Fail err \<Rightarrow> Some (Inl err, s)
             | Ok (txInfo', s') \<Rightarrow>
                 let change = fold (notifyChild txId) (go_range (rt_order E 44) (ti_ChildTxInfo txInfo'))
                       ((zero_change T)\<lparr>ch_PrevStatus := ti_GlobalState txInfo, ch_CurStatus := ti_GlobalState txInfo'\<rparr>);
                     change' = change\<lparr>ch_ChildIBTPIDs :=
                       sort (map fst (go_range (rt_order E 45) (ti_ChildTxInfo txInfo')))\<rparr>
                 in map_option (Pair (respond T change')) (setInfo T globalId txInfo' s')))"

definition Report ::
  "'z tmext_scheme \<Rightarrow> 'e runtime_scheme \<Rightarrow> tmctx \<Rightarrow> string \<Rightarrow> IBTP_Type \<Rightarrow> cstore \<Rightarrow>
     (tm_response \<times> cstore) option" where
  "Report T E cx txId res s =
     (case checkCurrentCaller T cx of
        Some err \<Rightarrow> Some (Inl err, s)
      | None \<Rightarrow>
          (case s (TxInfoKey txId) of
             Some recordData \<Rightarrow> Some (reportSingle T txId res recordData s)
           | None \<Rightarrow>
               (case s txId of
                  None \<Rightarrow> Some (Inl (TransactionNonexistentTx txId), s)
                | Some globalId \<Rightarrow> reportChild T E txId res globalId s)))"

definition GetStatus :: "'z tmext_scheme \<Rightarrow> string \<Rightarrow> cstore \<Rightarrow> tm_response" where
  "GetStatus T txId s =
     (case s (TxInfoKey txId) of
        Some recordData \<Rightarrow>
          (case T_record_Unmarshal T recordData of
             None \<Rightarrow> Inl TransactionInternalErr
           | Some record0 \<Rightarrow> Inr (itoa (T_statusNumber T (tr_Status record0))))
      | None \<Rightarrow>
          (case getInfo T txId s of
             Some txInfo \<Rightarrow> Inr (itoa (T_statusNumber T (ti_GlobalState txInfo)))
           | None \<Rightarrow>
               (case s txId of
                  None \<Rightarrow> Inl (TransactionNonexistentGlobalId txId)
                | Some globalId \<Rightarrow>
                    (case getInfo T globalId s of
                       None \<Rightarrow> Inl (TransactionNonexistentGlobalTx globalId txId)
                     | Some txInfo \<Rightarrow> Inr (itoa (T_statusNumber T (ti_GlobalState txInfo)))))))"

end
