(* ===== verification/Exec_Timeout.thy ===== *)
theory Exec_Timeout
  imports Txmgr
begin

text \<open>
  What the block executor does for cross-chain transactions that time out
  (\<^verbatim>\<open>internal/executor/handle.go\<close>): after the transactions of a block it enters the new requests into the
  list of the height at which they expire and takes the answered ones out of theirs
  (\<^verbatim>\<open>setTimeoutList\<close>), collects the transactions that expire with the block per chain
  (\<^verbatim>\<open>getTimeoutIBTPsMap\<close>), and moves them to the rollback status (\<^verbatim>\<open>setTimeoutRollback\<close>). All of it is kept
  in the account of the transaction manager.
\<close>

section \<open>Data\<close>

datatype IBTP_Category = REQUEST | RESPONSE | Category int

record stringUint64Map =
  sm_Keys :: "string list"
  sm_Vals :: "u64 list"

record ibtp =
  ib_From :: string
  ib_To :: string
  ib_Index :: u64
  ib_Type :: IBTP_Type
  ib_TimeoutHeight :: int
  ib_Group :: "stringUint64Map option"
  ib_Extra :: string

text \<open>A transaction of a block, as far as the functions look: its hash, and the packet it carries.\<close>

datatype exec_tx = EthTransaction string | BxhTransaction string "ibtp option"

fun tx_hash :: "exec_tx \<Rightarrow> string" where
  "tx_hash (EthTransaction h) = h"
| "tx_hash (BxhTransaction h _) = h"

text \<open>The outcome of a transaction: its hash, whether it succeeded, the value returned and the status.\<close>

record exec_receipt =
  rc_TxHash :: string
  rc_IsSuccess :: bool
  rc_Ret :: string
  rc_TxStatus :: TransactionStatus

text \<open>
  The functions of \<^verbatim>\<open>pb\<close> on packets: the category of a type, and the parts of the id of a service and of
  a packet.
\<close>

record ibext = tmext +
  P_Category :: "IBTP_Type \<Rightarrow> IBTP_Category"
  P_ParseFullServiceID :: "string \<Rightarrow> (string \<times> string \<times> string) option"
  P_ParseIBTPID :: "string \<Rightarrow> (string \<times> string \<times> u64) option"

datatype timeout_error =
  Err_cannot_read_record
| Err_unmarshal
| Err_no_tx_info string
| Err_marshal string
| Err_service_id string

definition getIBTPID :: "string \<Rightarrow> string \<Rightarrow> u64 \<Rightarrow> string" where
  "getIBTPID from to index = from @ ''-'' @ to @ ''-'' @ fmt_d index"

definition DEFAULT_UNION_PIER_ID :: string where
  "DEFAULT_UNION_PIER_ID = ''default_union_pier_id''"

section \<open>Lists in strings\<close>

definition writeToStr :: "string \<Rightarrow> string \<Rightarrow> string" where
  "writeToStr str txId = (if str = '''' then txId else str @ '','' @ txId)"

definition removeFromStr :: "string \<Rightarrow> string \<Rightarrow> string option" where
  "removeFromStr str txId =
     (case drop_value txId (split_on (CHR '','') str) of
        None \<Rightarrow> None
      | Some list \<Rightarrow> Some (join_with (CHR '','') list))"

definition addTimeoutList :: "u64 \<Rightarrow> string \<Rightarrow> cstore \<Rightarrow> string" where
  "addTimeoutList timeoutHeight txIdList s =
     (case s (TimeoutKey timeoutHeight) of
        None \<Rightarrow> writeToStr '''' txIdList
      | Some val \<Rightarrow> writeToStr val txIdList)"

definition removeTimeoutList :: "u64 \<Rightarrow> string \<Rightarrow> cstore \<Rightarrow> string option" where
  "removeTimeoutList recordHeight txidList s =
     ofold (\<lambda>txId currentStr. removeFromStr currentStr txId) (split_on (CHR '','') txidList)
       (content (s (TimeoutKey recordHeight)))"

definition getTimeoutList :: "u64 \<Rightarrow> cstore \<Rightarrow> string list" where
  "getTimeoutList height s =
     (case s (TimeoutKey height) of
        None \<Rightarrow> []
      | Some val \<Rightarrow>
          let list = split_on (CHR '','') val in
          if list ! 0 = '''' then [] else list)"

section \<open>Entering and removing the transactions of a block\<close>

definition filterValidTx :: "exec_receipt list \<Rightarrow> (string, bool) gomap \<times> (string, bool) gomap" where
  "filterValidTx receipts =
     fold (\<lambda>receipt (invalidTxHashMap, recordFailTxHashMap).
         (if \<not> rc_IsSuccess receipt \<or> rc_Ret receipt = ''batch_ibtp''
          then gset (rc_TxHash receipt) True invalidTxHashMap else invalidTxHashMap,
          if rc_TxStatus receipt = BEGIN_FAILURE
          then gset (rc_TxHash receipt) True recordFailTxHashMap else recordFailTxHashMap))
       receipts ([], [])"

definition isDstChainFromBxh :: "'z ibext_scheme \<Rightarrow> string \<Rightarrow> string \<Rightarrow> bool" where
  "isDstChainFromBxh P to bxhId =
     (case P_ParseFullServiceID P to of
        None \<Rightarrow> False
      | Some (_, chainId, _) \<Rightarrow> chainId = bxhId)"

text \<open>The two maps of \<^verbatim>\<open>setTimeoutList\<close>, from a height to the ids to add there and to remove there.\<close>

type_synonym timeout_maps = "(u64, string) gomap \<times> (u64, string) gomap"

definition appendId :: "u64 \<Rightarrow> string \<Rightarrow> (u64, string) gomap \<Rightarrow> (u64, string) gomap" where
  "appendId height txId m =
     (case gget m height of None \<Rightarrow> gset height txId m | Some str \<Rightarrow> gset height (writeToStr str txId) m)"

definition timeoutRequest :: "u64 \<Rightarrow> ibtp \<Rightarrow> string \<Rightarrow> timeout_maps \<Rightarrow> timeout_maps" where
  "timeoutRequest height ib txId = (\<lambda>(add0, remove0).
     if ib_TimeoutHeight ib \<le> 0 \<or> of_int (ib_TimeoutHeight ib) \<ge> max_u64 - height then (add0, remove0)
     else (appendId (height + of_int (ib_TimeoutHeight ib)) txId add0, remove0))"

definition timeoutResponse ::
  "'z ibext_scheme \<Rightarrow> cstore \<Rightarrow> ibtp \<Rightarrow> string \<Rightarrow> timeout_maps \<Rightarrow> timeout_error + timeout_maps" where
  "timeoutResponse P s ib txId = (\<lambda>(add0, remove0).
     case s (TxInfoKey txId) of
       None \<Rightarrow> if s txId = None then Inl Err_cannot_read_record else Inr (add0, remove0)
     | Some val \<Rightarrow>
         (case T_record_Unmarshal P val of
            None \<Rightarrow> Inl Err_unmarshal
          | Some record0 \<Rightarrow>
              if ib_Type ib = RECEIPT_FAILURE \<and> tr_Status record0 = FAILURE then Inr (add0, remove0)
              else Inr (add0, appendId (tr_Height record0) txId remove0)))"

definition timeoutTx ::
  "'z ibext_scheme \<Rightarrow> cstore \<Rightarrow> u64 \<Rightarrow> (string, bool) gomap \<Rightarrow> (string, bool) gomap \<Rightarrow> string \<Rightarrow> exec_tx \<Rightarrow>
     timeout_maps \<Rightarrow> timeout_error + timeout_maps" where
  "timeoutTx P s height invalidMap failMap bxhId tx maps =
     (case tx of
        EthTransaction _ \<Rightarrow> Inr maps
      | BxhTransaction _ None \<Rightarrow> Inr maps
      | BxhTransaction h (Some ib) \<Rightarrow>
          if isDstChainFromBxh P (ib_To ib) bxhId \<or> ib_Group ib \<noteq> None \<or>
             gget0 False invalidMap h \<or> gget0 False failMap h then Inr maps
          else
            let txId = ib_From ib @ ''-'' @ ib_To ib @ ''-'' @ fmt_d (ib_Index ib);
                maps' = (if P_Category P (ib_Type ib) = REQUEST then timeoutRequest height ib txId maps else maps)
            in if P_Category P (ib_Type ib) = RESPONSE then timeoutResponse P s ib txId maps' else Inr maps')"

fun timeoutTxs ::
  "'z ibext_scheme \<Rightarrow> cstore \<Rightarrow> u64 \<Rightarrow> (string, bool) gomap \<Rightarrow> (string, bool) gomap \<Rightarrow> string \<Rightarrow> exec_tx list \<Rightarrow>
     timeout_maps \<Rightarrow> timeout_error + timeout_maps" where
  "timeoutTxs P s height invalidMap failMap bxhId [] maps = Inr maps"
| "timeoutTxs P s height invalidMap failMap bxhId (tx # txs) maps =
     (case timeoutTx P s height invalidMap failMap bxhId tx maps of
        Inl err \<Rightarrow> Inl err
      | Inr maps' \<Rightarrow> timeoutTxs P s height invalidMap failMap bxhId txs maps')"

text \<open>The runtime also orders the loops over the two maps, whose keys are heights.\<close>

record xruntime = runtime +
  rt_heights :: "nat \<Rightarrow> u64 list \<Rightarrow> u64 list"

definition xruntime_ok :: "'a xruntime_scheme \<Rightarrow> bool" where
  "xruntime_ok E \<longleftrightarrow> runtime_ok E \<and> (\<forall>i. order_ok (rt_heights E i))"

definition setTimeoutList ::
  "'z ibext_scheme \<Rightarrow> 'e xruntime_scheme \<Rightarrow> u64 \<Rightarrow> exec_tx list \<Rightarrow> (string, bool) gomap \<Rightarrow>
     (string, bool) gomap \<Rightarrow> string \<Rightarrow> cstore \<Rightarrow> (timeout_error option \<times> cstore) option" where
  "setTimeoutList P E height txList invalidMap failMap bxhId s =
     (case timeoutTxs P s height invalidMap failMap bxhId txList ([], []) of
        Inl err \<Rightarrow> Some (Some err, s)
      | Inr (addMap, removeMap) \<Rightarrow>
          let s1 = fold (\<lambda>(timeoutHeight, txidList) s.
                     s(TimeoutKey timeoutHeight \<mapsto> addTimeoutList timeoutHeight txidList s))
                   (go_range (rt_heights E 0) addMap) s
          in map_option (Pair None)
               (ofold (\<lambda>(recordHeight, txidList) s.
                  (case removeTimeoutList recordHeight txidList s of
                     None \<Rightarrow> None
                   | Some newStr \<Rightarrow> Some (s(TimeoutKey recordHeight \<mapsto> newStr))))
                (go_range (rt_heights E 1) removeMap) s1))"

section \<open>The transactions that expire\<close>

definition isGlobalID :: "string \<Rightarrow> bool" where
  "isGlobalID txid \<longleftrightarrow> CHR ''-'' \<notin> set txid"

definition getTxInfoByGlobalID ::
  "'z tmext_scheme \<Rightarrow> string \<Rightarrow> cstore \<Rightarrow> timeout_error + transactionInfo" where
  "getTxInfoByGlobalID T txid s =
     (case s (GlobalTxInfoKey txid) of
        None \<Rightarrow> Inl (Err_no_tx_info txid)
      | Some val \<Rightarrow> (case T_info_Unmarshal T val of None \<Rightarrow> Inl Err_unmarshal | Some txInfo \<Rightarrow> Inr txInfo))"

definition setTxRecord ::
  "'z tmext_scheme \<Rightarrow> string \<Rightarrow> transactionRecord \<Rightarrow> cstore \<Rightarrow> timeout_error option \<times> cstore" where
  "setTxRecord T txid record0 s =
     (case T_record_Marshal T record0 of
        None \<Rightarrow> (Some (Err_marshal txid), s)
      | Some val \<Rightarrow> (None, s(TxInfoKey txid \<mapsto> val)))"

definition setGlobalTxStatus ::
  "'z tmext_scheme \<Rightarrow> 'e runtime_scheme \<Rightarrow> string \<Rightarrow> TransactionStatus \<Rightarrow> cstore \<Rightarrow>
     timeout_error option \<times> cstore" where
  "setGlobalTxStatus T E globalID status s =
     (case getTxInfoByGlobalID T globalID s of
        Inl err \<Rightarrow> (Some err, s)
      | Inr txInfo \<Rightarrow>
          let children = fold (\<lambda>(txid, _). gset txid status)
                (go_range (rt_order E 46) (ti_ChildTxInfo txInfo)) (ti_ChildTxInfo txInfo)
          in (case T_info_Marshal T (txInfo\<lparr>ti_GlobalState := status, ti_ChildTxInfo := children\<rparr>) of
                None \<Rightarrow> (Some (Err_marshal globalID), s)
              | Some data \<Rightarrow> (None, s(GlobalTxInfoKey globalID \<mapsto> data))))"

fun rollbackIds ::
  "'z tmext_scheme \<Rightarrow> 'e runtime_scheme \<Rightarrow> u64 \<Rightarrow> string list \<Rightarrow> cstore \<Rightarrow> timeout_error option \<times> cstore" where
  "rollbackIds T E height [] s = (None, s)"
| "rollbackIds T E height (txid # ids) s =
     (case (if isGlobalID txid then setGlobalTxStatus T E txid BEGIN_ROLLBACK s
            else setTxRecord T txid \<lparr>tr_Height = height, tr_Status = BEGIN_ROLLBACK\<rparr> s) of
        (Some err, s') \<Rightarrow> (Some err, s')
      | (None, s') \<Rightarrow> rollbackIds T E height ids s')"

definition setTimeoutRollback ::
  "'z tmext_scheme \<Rightarrow> 'e runtime_scheme \<Rightarrow> u64 \<Rightarrow> cstore \<Rightarrow> timeout_error option \<times> cstore" where
  "setTimeoutRollback T E height s = rollbackIds T E height (getTimeoutList height s) s"

text \<open>The side of a packet that is notified, an index into the parts of its id.\<close>

datatype NotifyChain = NOTIFY_SRC | NOTIFY_DEST

fun notify_index :: "NotifyChain \<Rightarrow> nat" where
  "notify_index NOTIFY_SRC = 0"
| "notify_index NOTIFY_DEST = 1"

definition addTxIdToSrcTimeoutIBTPsMap ::
  "'z ibext_scheme \<Rightarrow> string \<Rightarrow> string \<Rightarrow> NotifyChain \<Rightarrow> (string, string list) gomap \<Rightarrow>
     (timeout_error, (string, string list) gomap) result" where
  "addTxIdToSrcTimeoutIBTPsMap P txId bitXHubID notifyFlag m =
     (let listArray = split_on (CHR ''-'') txId in
      if length listArray \<le> notify_index notifyFlag then None
      else
        (case P_ParseFullServiceID P (listArray ! notify_index notifyFlag) of
           None \<Rightarrow> Fail (Err_service_id (listArray ! notify_index notifyFlag))
         | Some (bxhID, chainID, _) \<Rightarrow>
             let notifyChain = (if bxhID \<noteq> bitXHubID then DEFAULT_UNION_PIER_ID else chainID)
             in Ok (gset notifyChain (gget0 [] m notifyChain @ [txId]) m)))"

fun timeoutChildren ::
  "'z ibext_scheme \<Rightarrow> string \<Rightarrow> (string \<times> TransactionStatus) list \<Rightarrow> (string, string list) gomap \<Rightarrow>
     (timeout_error, (string, string list) gomap) result" where
  "timeoutChildren P bxhID [] m = Ok m"
| "timeoutChildren P bxhID ((txid, childStatus) # rest) m =
     attempt (addTxIdToSrcTimeoutIBTPsMap P txid bxhID NOTIFY_SRC m) (\<lambda>m1.
       attempt (if T_IsFinalStatus P childStatus then addTxIdToSrcTimeoutIBTPsMap P txid bxhID NOTIFY_DEST m1
                else Ok m1)
         (timeoutChildren P bxhID rest))"

fun timeoutMap ::
  "'z ibext_scheme \<Rightarrow> 'e runtime_scheme \<Rightarrow> cstore \<Rightarrow> string \<Rightarrow> string list \<Rightarrow> (string, string list) gomap \<Rightarrow>
     (timeout_error, (string, string list) gomap) result" where
  "timeoutMap P E s bxhID [] m = Ok m"
| "timeoutMap P E s bxhID (v # vs) m =
     attempt (if isGlobalID v
        then (case getTxInfoByGlobalID P v s of
                Inl err \<Rightarrow> Fail err
              | Inr txInfo \<Rightarrow> timeoutChildren P bxhID (go_range (rt_order E 47) (ti_ChildTxInfo txInfo)) m)
        else addTxIdToSrcTimeoutIBTPsMap P v bxhID NOTIFY_SRC m)
       (timeoutMap P E s bxhID vs)"

definition getTimeoutIBTPsMap ::
  "'z ibext_scheme \<Rightarrow> 'e runtime_scheme \<Rightarrow> u64 \<Rightarrow> u64 \<Rightarrow> cstore \<Rightarrow>
     (timeout_error, (string, string list) gomap) result" where
  "getTimeoutIBTPsMap P E chainID height s = timeoutMap P E s (fmt_d chainID) (getTimeoutList height s) []"

end
