(* ===== verification/Txmgr_Lemmas.thy ===== *)
theory Txmgr_Lemmas
  imports Exec_Timeout
begin

text \<open>
  The facts the properties of the transaction manager rest on: removing an id from a list by the loop
  over the shared array, the transitions of the state machine, the keys of the store, and reading
  back what was stored.
\<close>

section \<open>Removing an id from a list\<close>

lemma drop_range_absent:
  assumes "\<forall>i \<in> set is. a ! i \<noteq> x"
  shows "drop_range x is a m = Some (take m a)"
  using assms by (induction "is") auto

lemma drop_range_skip:
  assumes "\<forall>i \<in> set is. a ! i \<noteq> x"
  shows "drop_range x (is @ js) a m = drop_range x js a m"
  using assms by (induction "is") auto

lemma drop_value_absent: "x \<notin> set list \<Longrightarrow> drop_value x list = Some list"
  unfolding drop_value_def by (subst drop_range_absent) (auto simp: in_set_conv_nth)

lemma drop_value_once:
  assumes "x \<notin> set ys" "x \<notin> set zs"
  shows "drop_value x (ys @ x # zs) = Some (ys @ zs)"
proof -
  let ?l = "ys @ x # zs" and ?n = "length ys"
  let ?a = "ys @ zs @ [last (x # zs)]"
  have split: "[0..<length ?l] = [0..<?n] @ ?n # [Suc ?n..<length ?l]"
    using upt_add_eq_append[of 0 ?n "Suc (length zs)"] by (simp add: upt_conv_Cons del: upt_Suc)
  have last: "drop (length zs) (x # zs) = [last (x # zs)]"
    by (metis append_butlast_last_id diff_Suc_1 drop_eq_Nil2 length_append_singleton length_butlast length_Cons
        append_eq_conv_conj list.distinct(1))
  have "drop_value x ?l = drop_range x (?n # [Suc ?n..<length ?l]) ?l (length ?l)"
    unfolding drop_value_def split
    by (rule drop_range_skip) (use assms in \<open>auto simp: nth_append in_set_conv_nth\<close>)
  also have "\<dots> = drop_range x [Suc ?n..<length ?l] ?a (length ys + length zs)"
    by (simp add: last del: last.simps)
  also have "\<dots> = Some (take (length ys + length zs) ?a)"
  proof (rule drop_range_absent, intro ballI)
    fix i assume i: "i \<in> set [Suc ?n..<length ?l]"
    then have "zs \<noteq> []" by auto
    then have "last (x # zs) \<in> set zs" by simp
    moreover have "?a ! i \<in> set (zs @ [last (x # zs)])"
      using i by (auto simp: nth_append simp del: last.simps)
    ultimately show "?a ! i \<noteq> x" using assms by auto
  qed
  finally show ?thesis by simp
qed

lemma drop_value_remove1:
  assumes "distinct list"
  shows "drop_value x list = Some (remove1 x list)"
proof (cases "x \<in> set list")
  case True
  then obtain ys zs where l: "list = ys @ x # zs" by (meson split_list)
  with assms show ?thesis by (simp add: drop_value_once remove1_append)
qed (simp add: drop_value_absent remove1_idem)

section \<open>The state machine\<close>

text \<open>The status a receipt moves a transaction to, as a table.\<close>

fun receipt_step :: "TransactionStatus \<Rightarrow> IBTP_Type \<Rightarrow> TransactionStatus option" where
  "receipt_step BEGIN RECEIPT_SUCCESS = Some SUCCESS"
| "receipt_step BEGIN RECEIPT_FAILURE = Some FAILURE"
| "receipt_step BEGIN_FAILURE RECEIPT_FAILURE = Some FAILURE"
| "receipt_step BEGIN_ROLLBACK RECEIPT_FAILURE = Some ROLLBACK"
| "receipt_step BEGIN_ROLLBACK RECEIPT_ROLLBACK = Some ROLLBACK"
| "receipt_step _ _ = None"

lemma itoa_chars: "c \<in> set (itoa i) \<Longrightarrow> is_digit c \<or> c = CHR ''-''"
  by (auto simp: itoa_def dec_digits split: if_splits)

lemma itoa_not_name:
  "itoa i \<noteq> ''init''" "itoa i \<noteq> ''BEGIN''" "itoa i \<noteq> ''BEGIN_FAILURE''" "itoa i \<noteq> ''BEGIN_ROLLBACK''"
  "''init'' \<noteq> itoa i" "''BEGIN'' \<noteq> itoa i" "''BEGIN_FAILURE'' \<noteq> itoa i" "''BEGIN_ROLLBACK'' \<noteq> itoa i"
proof -
  have *: "itoa i \<noteq> c # cs" if "\<not> is_digit c" "c \<noteq> CHR ''-''" for c cs
    using itoa_chars[of c i] that by auto
  show "itoa i \<noteq> ''init''" "itoa i \<noteq> ''BEGIN''" "itoa i \<noteq> ''BEGIN_FAILURE''" "itoa i \<noteq> ''BEGIN_ROLLBACK''"
    by (rule *; simp add: is_digit_def)+
  then show "''init'' \<noteq> itoa i" "''BEGIN'' \<noteq> itoa i" "''BEGIN_FAILURE'' \<noteq> itoa i" "''BEGIN_ROLLBACK'' \<noteq> itoa i"
    by metis+
qed

lemma fsm_eval:
  assumes "fsm_ok f"
  shows "fsm_lookup es ev cur = None \<Longrightarrow> f cur es ev = None"
    and "fsm_lookup es ev cur = Some dst \<Longrightarrow> dst \<noteq> cur \<Longrightarrow> f cur es ev = Some dst"
  using assms by (auto simp: fsm_ok_def)

lemma receipt_step_sets:
  assumes "receipt_step st res = Some st'"
  shows "st \<in> {BEGIN, BEGIN_FAILURE, BEGIN_ROLLBACK} \<and> st' \<in> {SUCCESS, FAILURE, ROLLBACK} \<and>
    res \<in> {RECEIPT_SUCCESS, RECEIPT_FAILURE, RECEIPT_ROLLBACK}"
  using assms by (cases "(st, res)" rule: receipt_step.cases) auto

lemma setFSM_receipt:
  assumes "fsm_ok (T_fsm T)"
  shows "setFSM T st (receipt2EventM res) = receipt_step st res"
proof -
  have look: "fsm_lookup tm_transitions (receipt2EventM res) (status_String st) = map_option status_String (receipt_step st res)"
    by (cases st; cases res) (simp_all add: fsm_lookup_def tm_transitions_def itoa_not_name)
  show ?thesis
  proof (cases "receipt_step st res")
    case None
    then show ?thesis using fsm_eval(1)[OF assms] look by (simp add: setFSM_def)
  next
    case (Some st')
    then have ne: "status_String st' \<noteq> status_String st"
      using receipt_step_sets[OF Some] by (elim conjE insertE) simp_all
    have "T_fsm T (status_String st) tm_transitions (receipt2EventM res) = Some (status_String st')"
      by (rule fsm_eval(2)[OF assms _ ne]) (simp add: look Some)
    moreover have "receipt2EventM res \<in> set tm_callbacks \<and> gget0 (T_status0 T) status_value (status_String st') = st'"
      using receipt_step_sets[OF Some]
      by (elim conjE insertE) (simp_all add: tm_callbacks_def status_value_def gget0_def)
    ultimately show ?thesis by (simp add: setFSM_def Some)
  qed
qed


section \<open>Keys\<close>

text \<open>The ids the callers use: they do not look like a key of the contract, and have no comma.\<close>

definition plain :: "string \<Rightarrow> bool" where
  "plain txid \<longleftrightarrow> ascii txid \<and> CHR '','' \<notin> set txid \<and> txid \<noteq> '''' \<and>
     take 3 txid \<noteq> ''tx-'' \<and> take 10 txid \<noteq> ''global-tx-'' \<and> take 8 txid \<noteq> ''timeout-''"

lemma keys_inject [simp]:
  "TxInfoKey a = TxInfoKey b \<longleftrightarrow> a = b" "GlobalTxInfoKey a = GlobalTxInfoKey b \<longleftrightarrow> a = b"
  "TimeoutKey h = TimeoutKey k \<longleftrightarrow> h = k"
  by (simp_all add: TxInfoKey_def GlobalTxInfoKey_def TimeoutKey_def)

lemma keys_differ [simp]:
  "TxInfoKey a \<noteq> GlobalTxInfoKey b" "GlobalTxInfoKey b \<noteq> TxInfoKey a"
  "TxInfoKey a \<noteq> TimeoutKey h" "TimeoutKey h \<noteq> TxInfoKey a"
  "GlobalTxInfoKey a \<noteq> TimeoutKey h" "TimeoutKey h \<noteq> GlobalTxInfoKey a"
  by (simp_all add: TxInfoKey_def GlobalTxInfoKey_def TimeoutKey_def)

lemma plain_not_key [simp]:
  assumes "plain a"
  shows "a \<noteq> TxInfoKey b" "a \<noteq> GlobalTxInfoKey b" "a \<noteq> TimeoutKey h"
    "TxInfoKey b \<noteq> a" "GlobalTxInfoKey b \<noteq> a" "TimeoutKey h \<noteq> a"
  using assms by (auto simp: plain_def TxInfoKey_def GlobalTxInfoKey_def TimeoutKey_def)

section \<open>Reading back what was stored\<close>

lemma tmext_okD:
  assumes "tmext_ok T"
  shows "record_codec_ok (T_record_Marshal T) (T_record_Unmarshal T)"
    "info_codec_ok (T_info_Marshal T) (T_info_Unmarshal T)"
    "change_codec_ok (T_change_Marshal T) (T_change_Unmarshal T)" "fsm_ok (T_fsm T)"
  using assms by (simp_all add: tmext_ok_def)

lemma setFSM_step: "tmext_ok T \<Longrightarrow> setFSM T st (receipt2EventM res) = receipt_step st res"
  by (rule setFSM_receipt) (rule tmext_okD)

lemma record_marshal:
  assumes "tmext_ok T" "status_wf (tr_Status x)"
  obtains d where "T_record_Marshal T x = Some d" "T_record_Unmarshal T d = Some x"
  using tmext_okD(1)[OF assms(1)] assms(2) by (auto simp: record_codec_ok_def)

lemma respond_ok:
  assumes "tmext_ok T" "status_wf (ch_PrevStatus c)" "status_wf (ch_CurStatus c)"
  obtains d where "respond T c = Inr d" "T_change_Unmarshal T d = Some c"
  using tmext_okD(3)[OF assms(1)] assms(2,3) by (auto simp: change_codec_ok_def respond_def)

lemma setInfo_ok:
  assumes "tmext_ok T" "info_wf info"
  obtains s' info' where "setInfo T g info s = Some s'" "getInfo T g s' = Some info'" "same_info info info'"
    "\<forall>k. k \<noteq> GlobalTxInfoKey g \<longrightarrow> s' k = s k"
proof -
  from tmext_okD(2)[OF assms(1)] assms(2) obtain d info' where
    "T_info_Marshal T info = Some d" "T_info_Unmarshal T d = Some info'" "same_info info info'"
    by (auto simp: info_codec_ok_def)
  then show thesis by (intro that[of "s(GlobalTxInfoKey g \<mapsto> d)" info']) (auto simp: setInfo_def getInfo_def)
qed

lemma status_wf_simps [simp]:
  "status_wf BEGIN" "status_wf BEGIN_FAILURE" "status_wf BEGIN_ROLLBACK" "status_wf SUCCESS"
  "status_wf FAILURE" "status_wf ROLLBACK" "status_wf (Status (- 1))"
  by (simp_all add: status_wf_def)

lemma receipt_step_wf: "receipt_step st res = Some st' \<Longrightarrow> status_wf st'"
  by (cases "(st, res)" rule: receipt_step.cases) auto

text \<open>An entry of a map with distinct keys is an entry of its list.\<close>

definition info_entry :: "transactionInfo \<Rightarrow> string \<Rightarrow> TransactionStatus option" where
  "info_entry info = gget (ti_ChildTxInfo info)"

lemma info_wf_entries:
  assumes "distinct (keys (ti_ChildTxInfo x))"
  shows "info_wf x \<longleftrightarrow> status_wf (ti_GlobalState x) \<and> (\<forall>k st. info_entry x k = Some st \<longrightarrow> ascii k \<and> status_wf st)"
proof -
  have "(k, st) \<in> set (ti_ChildTxInfo x) \<longleftrightarrow> gget (ti_ChildTxInfo x) k = Some st" for k st
    using assms by (auto dest: map_of_SomeD)
  then show ?thesis by (simp add: info_wf_def info_entry_def Ball_def split_paired_All)
qed

lemma same_info_entry: "same_info a b \<Longrightarrow> info_entry a = info_entry b"
  by (simp add: same_info_def info_entry_def)

end
