(* ===== verification/Txmgr_Multi.thy ===== *)
theory Txmgr_Multi
  imports Txmgr_Lemmas
begin

text \<open>
  Global transactions: the statuses of the children agree with the status of the whole in every state
  the methods of the contract and the expiry of the executor can reach, and a global transaction
  whose children have all begun ends when their receipts have arrived, in any order.
\<close>

section \<open>The invariant\<close>

text \<open>The statuses the children may have when the global transaction has a given status.\<close>

fun child_ok :: "TransactionStatus \<Rightarrow> TransactionStatus \<Rightarrow> bool" where
  "child_ok BEGIN st = (st = BEGIN \<or> st = SUCCESS)"
| "child_ok BEGIN_FAILURE st = (st = BEGIN_FAILURE \<or> st = FAILURE)"
| "child_ok BEGIN_ROLLBACK st = (st = BEGIN_ROLLBACK \<or> st = ROLLBACK)"
| "child_ok SUCCESS st = (st = SUCCESS)"
| "child_ok FAILURE st = (st = FAILURE)"
| "child_ok ROLLBACK st = (st = ROLLBACK)"
| "child_ok (Status _) st = False"

definition atomic :: "transactionInfo \<Rightarrow> bool" where
  "atomic info \<longleftrightarrow> distinct (keys (ti_ChildTxInfo info)) \<and> (\<forall>i. ti_GlobalState info \<noteq> Status i) \<and>
     (\<forall>k st. info_entry info k = Some st \<longrightarrow> ascii k \<and> child_ok (ti_GlobalState info) st)"

definition store_atomic :: "'z tmext_scheme \<Rightarrow> cstore \<Rightarrow> bool" where
  "store_atomic T s \<longleftrightarrow> (\<forall>g info. getInfo T g s = Some info \<longrightarrow> atomic info)"

lemma child_ok_wf: "child_ok g st \<Longrightarrow> status_wf st"
  by (cases g) auto

lemma named_wf: "(\<forall>i. st \<noteq> Status i) \<Longrightarrow> status_wf st"
  by (cases st) auto

lemma atomic_wf: "atomic info \<Longrightarrow> info_wf info"
  by (subst info_wf_entries) (auto simp: atomic_def intro: named_wf child_ok_wf)

lemma atomic_same: "atomic a \<Longrightarrow> same_info a b \<Longrightarrow> atomic b"
  by (auto simp: atomic_def same_info_def info_entry_def)

lemma fold_gset_const:
  "gget (fold (\<lambda>(k, _). gset k v) xs m) k = (if k \<in> fst ` set xs then Some v else gget m k)"
  "distinct (keys m) \<Longrightarrow> distinct (keys (fold (\<lambda>(k, _). gset k v) xs m))"
  by (induction xs arbitrary: m) auto

lemma keys_go_range: "order_ok ord \<Longrightarrow> fst ` set (go_range ord m) = {k. gget m k \<noteq> None}"
  by (force simp: set_go_range)

lemma gget_overwrite:
  assumes "order_ok ord"
  shows "gget (fold (\<lambda>(k, _). gset k v) (go_range ord m) m) k = (if gget m k = None then None else Some v)"
  by (simp add: fold_gset_const keys_go_range[OF assms])

lemma atomic_put:
  assumes "atomic info" "ascii i" "child_ok (ti_GlobalState info) st"
  shows "atomic (info\<lparr>ti_ChildTxInfo := gset i st (ti_ChildTxInfo info)\<rparr>)"
  using assms by (auto simp: atomic_def info_entry_def)

lemma atomic_overwrite:
  assumes "order_ok ord" "atomic info" "ascii i" "child_ok g v" "child_ok g st"
  shows "atomic (info\<lparr>ti_ChildTxInfo := gset i st (fold (\<lambda>(k, _). gset k v) (go_range ord (ti_ChildTxInfo info)) (ti_ChildTxInfo info)),
     ti_GlobalState := g\<rparr>)"
  using assms by (auto simp: atomic_def info_entry_def gget_overwrite fold_gset_const(2) split: if_splits)

lemma atomic_all:
  assumes "atomic info" "\<And>k st. info_entry info k = Some st \<Longrightarrow> st = g" "g \<in> {SUCCESS, FAILURE, ROLLBACK}"
  shows "atomic (info\<lparr>ti_GlobalState := g\<rparr>)"
proof -
  have "child_ok g g" using assms(3) by auto
  with assms show ?thesis by (auto simp: atomic_def info_entry_def)
qed

lemma fold_failChild:
  "fold failChild xs (m, src, dst) =
     (fold (\<lambda>(k, _). gset k BEGIN_FAILURE) xs m, src @ map fst xs, dst @ map fst (filter (\<lambda>(k, st). st = SUCCESS) xs))"
  by (induction xs arbitrary: m src dst) (auto simp: failChild_def)

section \<open>What the methods write\<close>

lemma addToTimeoutList_frame: "k \<noteq> TimeoutKey h \<Longrightarrow> addToTimeoutList h i s k = s k"
  by (simp add: addToTimeoutList_def)

lemma removeFromTimeoutList_frame:
  "removeFromTimeoutList h i s = Some s' \<Longrightarrow> k \<noteq> TimeoutKey h \<Longrightarrow> s' k = s k"
  by (auto simp: removeFromTimeoutList_def split: option.splits)

lemma setInfo_frame: "setInfo T g info s = Some s' \<Longrightarrow> k \<noteq> GlobalTxInfoKey g \<Longrightarrow> s' k = s k"
  by (auto simp: setInfo_def split: option.splits)

lemma getInfo_cong: "s' (GlobalTxInfoKey g) = s (GlobalTxInfoKey g) \<Longrightarrow> getInfo T g s' = getInfo T g s"
  by (simp add: getInfo_def)

lemma setInfo_get:
  assumes "tmext_ok T" "setInfo T g info s = Some s'" "info_wf info"
  obtains info' where "getInfo T g s' = Some info'" "same_info info info'"
  using setInfo_ok[OF assms(1,3), of g s] assms(2) by (metis option.inject)

text \<open>A method that stores an atomic object and changes no other object keeps every object atomic.\<close>

lemma store_atomic_set:
  assumes "tmext_ok T" "store_atomic T s" "setInfo T g info s1 = Some s2" "atomic info"
    "\<And>g'. s1 (GlobalTxInfoKey g') = s (GlobalTxInfoKey g')"
    "\<And>g'. s' (GlobalTxInfoKey g') = s2 (GlobalTxInfoKey g')"
  shows "store_atomic T s'"
  unfolding store_atomic_def
proof (intro allI impI)
  fix g' info'
  assume g': "getInfo T g' s' = Some info'"
  then have g2: "getInfo T g' s2 = Some info'" using assms(6) getInfo_cong by metis
  show "atomic info'"
  proof (cases "g' = g")
    case True
    obtain i2 where "getInfo T g s2 = Some i2" "same_info info i2"
      by (rule setInfo_get[OF assms(1,3) atomic_wf[OF assms(4)]])
    with g2 True assms(4) show ?thesis by (auto intro: atomic_same)
  next
    case False
    then have "getInfo T g' s2 = getInfo T g' s"
      using setInfo_frame[OF assms(3)] assms(5) by (intro getInfo_cong) simp
    with g2 assms(2) show ?thesis by (auto simp: store_atomic_def)
  qed
qed

lemma store_atomic_frame:
  assumes "store_atomic T s" "\<And>g. s' (GlobalTxInfoKey g) = s (GlobalTxInfoKey g)"
  shows "store_atomic T s'"
  using assms getInfo_cong unfolding store_atomic_def by metis


section \<open>The methods keep the invariant\<close>

lemma beginFirst_atomic:
  assumes "tmext_ok T" "store_atomic T s" "ascii i"
    "beginFirst T cx g i th f c s = Some (info, s')"
  shows "store_atomic T s'" "atomic info"
proof -
  from assms(4) obtain s1 where s1: "setInfo T g info s1 = Some s'" "\<And>g'. s1 (GlobalTxInfoKey g') = s (GlobalTxInfoKey g')"
    "ti_ChildTxInfo info = [(i, ti_GlobalState info)]" "ti_GlobalState info \<in> {BEGIN, BEGIN_FAILURE}"
    by (auto simp: beginFirst_def Let_def addToTimeoutList_frame split: if_splits)
  from s1(3,4) assms(3) show a: "atomic info" by (auto simp: atomic_def info_entry_def)
  show "store_atomic T s'" by (rule store_atomic_set[OF assms(1,2) s1(1) a s1(2)]) simp
qed

lemma beginNext_atomic:
  assumes "tmext_ok T" "runtime_ok E" "store_atomic T s" "ascii i" "atomic info" "info_entry info i = None"
    "beginNext T E g i f info s = Some (info', src, dst, s')"
  shows "store_atomic T s'" "atomic info'"
proof -
  note ord = runtime_ok_order[OF assms(2)]
  have gs: "child_ok (ti_GlobalState info) (ti_GlobalState info)"
    using assms(5) by (cases "ti_GlobalState info") (auto simp: atomic_def)
  from assms(7) obtain s1 where s1: "setInfo T g info' s1 = Some s'"
    "\<And>g'. s1 (GlobalTxInfoKey g') = s (GlobalTxInfoKey g')" "atomic info'"
    using atomic_put[OF assms(5,4) gs] atomic_put[OF assms(5,4), of BEGIN]
      atomic_overwrite[OF ord assms(5,4), of BEGIN_FAILURE BEGIN_FAILURE BEGIN_FAILURE]
    by (auto simp: beginNext_def Let_def removeFromTimeoutList_frame fold_failChild split: if_splits option.splits)
  show "store_atomic T s'" by (rule store_atomic_set[OF assms(1,3) s1(1,3,2)]) simp
  show "atomic info'" by (rule s1(3))
qed

lemma BeginMultiTXs_atomic:
  assumes "tmext_ok T" "runtime_ok E" "store_atomic T s" "plain i"
    "BeginMultiTXs T E cx g i th f c s = Some (r, s')"
  shows "store_atomic T s'"
proof -
  have i: "ascii i" using assms(4) by (simp add: plain_def)
  have fr: "store_atomic T (t(i \<mapsto> g))" if "store_atomic T t" for t
    by (rule store_atomic_frame[OF that]) (simp add: assms(4))
  from assms(5) show ?thesis
  proof (cases "checkCurrentCaller T cx = None")
    case True
    show ?thesis
    proof (cases "getInfo T g s")
      case None
      with True assms(5) fr beginFirst_atomic(1)[OF assms(1,3) i] show ?thesis
        by (auto simp: BeginMultiTXs_def Let_def)
    next
      case (Some info)
      then have "atomic info" using assms(3) by (simp add: store_atomic_def)
      with Some True assms(3,5) fr beginNext_atomic(1)[OF assms(1-3) i] show ?thesis
        by (auto simp: BeginMultiTXs_def Let_def info_entry_def split: if_splits)
    qed
  qed (use assms(3) in \<open>auto simp: BeginMultiTXs_def\<close>)
qed

lemma countChildren_Some:
  "countChildren st xs n = Some m \<Longrightarrow> \<forall>(k, st') \<in> set xs. st' = st"
  "\<forall>(k, st') \<in> set xs. st' = st \<Longrightarrow> countChildren st xs n = Some (n + of_nat (length xs))"
  by (induction xs arbitrary: n) (fastforce split: if_splits)+

lemma finished_all:
  assumes "runtime_ok E" "isMultiTxFinished E st info" "info_entry info k = Some st'"
  shows "st' = st"
  using assms countChildren_Some(1)[of st "go_range (rt_order E 42) (ti_ChildTxInfo info)" 0]
  by (fastforce simp: isMultiTxFinished_def info_entry_def set_go_range split: option.splits)

lemma receipt_step_child:
  assumes "child_ok g st" "receipt_step st res = Some st'" "\<not> (g = BEGIN \<and> res = RECEIPT_FAILURE)"
  shows "child_ok g st'" "receipt_step g res = Some g' \<Longrightarrow> g' = st'" "receipt_step g res \<noteq> None"
  using assms by (cases g; cases res; auto)+

lemma changeMultiTxStatus_atomic:
  assumes "tmext_ok T" "runtime_ok E" "atomic info" "info_entry info i = Some st"
    "changeMultiTxStatus T E g info i res s = Ok (info', s')"
  shows "atomic info'" "\<And>g'. s' (GlobalTxInfoKey g') = s (GlobalTxInfoKey g')"
proof -
  note ord = runtime_ok_order[OF assms(2)]
  let ?i2 = "\<lambda>st'. info\<lparr>ti_ChildTxInfo := gset i st' (ti_ChildTxInfo info)\<rparr>"
  have e: "gget (ti_ChildTxInfo info) i = Some st" using assms(4) by (simp add: info_entry_def)
  have ch: "child_ok (ti_GlobalState info) st" "ascii i" using assms(3,4) by (auto simp: atomic_def)
  show "s' (GlobalTxInfoKey g') = s (GlobalTxInfoKey g')" for g'
    using assms(5) by (auto simp: changeMultiTxStatus_def Let_def removeFromTimeoutList_frame
        split: if_splits option.splits)
  show "atomic info'"
  proof (cases "ti_GlobalState info = BEGIN \<and> res = RECEIPT_FAILURE")
    case True
    with assms(5) atomic_overwrite[OF ord assms(3) ch(2), of BEGIN_FAILURE BEGIN_FAILURE FAILURE] show ?thesis
      by (auto simp: changeMultiTxStatus_def Let_def split: option.splits)
  next
    case False
    with assms(5) obtain st' where st': "receipt_step st res = Some st'"
      by (auto simp: changeMultiTxStatus_def setFSM_step[OF assms(1)] e split: option.splits)
    note st'' = receipt_step_child[OF ch(1) st' False]
    have a: "atomic (?i2 st')" by (rule atomic_put[OF assms(3) ch(2) st''(1)])
    show ?thesis
    proof (cases "isMultiTxFinished E st' (?i2 st')")
      case True
      with assms(5) False obtain g' where g': "receipt_step (ti_GlobalState info) res = Some g'"
        "info' = (?i2 st')\<lparr>ti_GlobalState := g'\<rparr>"
        by (auto simp: changeMultiTxStatus_def setFSM_step[OF assms(1)] e st' Let_def split: option.splits)
      have "st' \<in> {SUCCESS, FAILURE, ROLLBACK}" using receipt_step_sets[OF st'] by blast
      then have "atomic ((?i2 st')\<lparr>ti_GlobalState := st'\<rparr>)"
        using atomic_all[OF a finished_all[OF assms(2) True]] by simp
      with g' st''(2) show ?thesis by simp
    next
      case F: False
      with assms(5) False a show ?thesis
        by (auto simp: changeMultiTxStatus_def setFSM_step[OF assms(1)] e st' Let_def)
    qed
  qed
qed


lemma Report_atomic:
  assumes "tmext_ok T" "runtime_ok E" "store_atomic T s" "Report T E cx i res s = Some (r, s')"
  shows "store_atomic T s'"
proof (cases "checkCurrentCaller T cx = None \<and> s (TxInfoKey i) = None")
  case True
  then consider "s' = s" | g info st where "getInfo T g s = Some info" "info_entry info i = Some st" "reportChild T E i res g s = Some (r, s')"
    using assms(4) by (auto simp: Report_def info_entry_def reportChild_def split: option.splits if_splits)
  then show ?thesis
  proof cases
    case (2 g info st)
    have a: "atomic info" using 2(1) assms(3) by (simp add: store_atomic_def)
    from 2 show ?thesis
    proof (cases "changeMultiTxStatus T E g info i res s")
      case (Some x)
      show ?thesis
      proof (cases x)
        case (Inl e)
        with 2 Some assms(3) show ?thesis by (simp add: reportChild_def info_entry_def)
      next
        case (Inr y)
        obtain info1 s1 where y: "y = (info1, s1)" by (cases y)
        note c = changeMultiTxStatus_atomic[OF assms(1,2) a 2(2) Some[unfolded Inr y]]
        from 2 Some Inr y have "setInfo T g info1 s1 = Some s'"
          by (auto simp: reportChild_def info_entry_def Let_def)
        then show ?thesis by (rule store_atomic_set[OF assms(1,3) _ c]) simp
      qed
    qed (simp add: reportChild_def info_entry_def)
  qed (use assms(3) in simp)
next
  case False
  with assms(4) have "s' = s \<or> (\<exists>d. s' = s(TxInfoKey i \<mapsto> d))"
    by (auto simp: Report_def reportSingle_def split: option.splits)
  then show ?thesis by (auto intro: store_atomic_frame[OF assms(3)])
qed

lemma Begin_frame: "k \<noteq> TxInfoKey i \<Longrightarrow> snd (Begin T cx i th f s) k = s k"
  by (auto simp: Begin_def Let_def split: option.splits)

lemma BeginInterBitXHub_frame: "k \<noteq> TxInfoKey i \<Longrightarrow> snd (BeginInterBitXHub T cx i th p f s) k = s k"
  by (auto simp: BeginInterBitXHub_def Let_def split: option.splits)

lemma getTxInfo_getInfo: "getTxInfoByGlobalID T g s = Inr info \<longleftrightarrow> getInfo T g s = Some info"
  by (auto simp: getTxInfoByGlobalID_def getInfo_def split: option.splits)

lemma setGlobalTxStatus_atomic:
  assumes "tmext_ok T" "runtime_ok E" "store_atomic T s"
  shows "store_atomic T (snd (setGlobalTxStatus T E g BEGIN_ROLLBACK s))"
proof (cases "getTxInfoByGlobalID T g s")
  case (Inr info)
  let ?i = "info\<lparr>ti_GlobalState := BEGIN_ROLLBACK, ti_ChildTxInfo := fold (\<lambda>(txid, _). gset txid BEGIN_ROLLBACK)
      (go_range (rt_order E 46) (ti_ChildTxInfo info)) (ti_ChildTxInfo info)\<rparr>"
  have "atomic info" using Inr assms(3) by (simp add: getTxInfo_getInfo store_atomic_def)
  then have a: "atomic ?i"
    by (auto simp: atomic_def info_entry_def gget_overwrite[OF runtime_ok_order[OF assms(2)]] fold_gset_const(2)
        split: if_splits)
  show ?thesis
  proof (cases "T_info_Marshal T ?i")
    case None
    with Inr assms(3) show ?thesis by (simp add: setGlobalTxStatus_def Let_def)
  next
    case (Some d)
    then have "setInfo T g ?i s = Some (s(GlobalTxInfoKey g \<mapsto> d))" by (simp add: setInfo_def)
    from store_atomic_set[OF assms(1,3) this a] Some Inr show ?thesis
      by (simp add: setGlobalTxStatus_def Let_def)
  qed
qed (simp add: setGlobalTxStatus_def assms(3))

lemma setTimeoutRollback_atomic:
  assumes "tmext_ok T" "runtime_ok E" "store_atomic T s"
  shows "store_atomic T (snd (setTimeoutRollback T E h s))"
proof -
  have rec: "store_atomic T (snd (setTxRecord T i r s))" if "store_atomic T s" for i r s
    by (rule store_atomic_frame[OF that]) (simp add: setTxRecord_def split: option.split)
  have "store_atomic T (snd (rollbackIds T E h ids s))" for ids
    using assms(3)
  proof (induction ids arbitrary: s)
    case (Cons i ids)
    let ?r = "if isGlobalID i then setGlobalTxStatus T E i BEGIN_ROLLBACK s
       else setTxRecord T i \<lparr>tr_Height = h, tr_Status = BEGIN_ROLLBACK\<rparr> s"
    have "store_atomic T (snd ?r)"
      using rec[OF Cons.prems] setGlobalTxStatus_atomic[OF assms(1,2) Cons.prems] by simp
    with Cons.IH show ?case by (cases ?r) (auto split: option.split simp del: if_split_asm)
  qed simp
  then show ?thesis by (simp add: setTimeoutRollback_def)
qed


lemma setTimeoutList_frame:
  assumes "setTimeoutList P E h txs im fm b s = Some (e, s')" "\<And>h. k \<noteq> TimeoutKey h"
  shows "s' k = s k"
proof (cases "timeoutTxs P s h im fm b txs ([], [])")
  case (Inr maps)
  obtain am rm where m: "maps = (am, rm)" by (cases maps)
  have add: "fold (\<lambda>(h, l) s. s(TimeoutKey h \<mapsto> addTimeoutList h l s)) xs t k = t k" for xs t
    using assms(2) by (induction xs arbitrary: t) auto
  have rem: "t' k = t k" if "ofold (\<lambda>(h, l) s. case removeTimeoutList h l s of None \<Rightarrow> None
      | Some n \<Rightarrow> Some (s(TimeoutKey h \<mapsto> n))) xs t = Some t'" for xs t t'
    using that assms(2) by (induction xs arbitrary: t) (auto split: option.splits prod.splits)
  from assms(1) Inr m show ?thesis
    by (auto simp: setTimeoutList_def Let_def add dest!: rem)
qed (use assms(1) in \<open>simp add: setTimeoutList_def\<close>)

section \<open>Runs\<close>

text \<open>
  The steps of the account of the transaction manager: its methods, called by anyone with any
  arguments whose ids are plain, and what the executor does with it at the end of a block.
\<close>

inductive tm_step :: "'z ibext_scheme \<Rightarrow> cstore \<Rightarrow> cstore \<Rightarrow> bool" for P where
  step_begin_multi: "runtime_ok (E :: runtime) \<Longrightarrow> plain i \<Longrightarrow> BeginMultiTXs P E cx g i th f c s = Some (r, s') \<Longrightarrow> tm_step P s s'"
| step_begin: "Begin P cx i th f s = (r, s') \<Longrightarrow> tm_step P s s'"
| step_begin_inter: "BeginInterBitXHub P cx i th p f s = (r, s') \<Longrightarrow> tm_step P s s'"
| step_report: "runtime_ok (E :: runtime) \<Longrightarrow> Report P E cx i res s = Some (r, s') \<Longrightarrow> tm_step P s s'"
| step_list: "xruntime_ok (E' :: xruntime) \<Longrightarrow> setTimeoutList P E' h txs im fm b s = Some (e, s') \<Longrightarrow> tm_step P s s'"
| step_expire: "runtime_ok (E :: runtime) \<Longrightarrow> setTimeoutRollback P E h s = (e, s') \<Longrightarrow> tm_step P s s'"

definition tm_initial :: "'z ibext_scheme \<Rightarrow> cstore \<Rightarrow> bool" where
  "tm_initial P s \<longleftrightarrow> tmext_ok P \<and> (\<forall>k. s k = None)"

lemma tm_step_atomic:
  assumes "tmext_ok P" "store_atomic P s" "tm_step P s s'"
  shows "store_atomic P s'"
  using assms(3)
proof cases
  case (step_begin_multi E i cx g th f c r)
  then show ?thesis by (intro BeginMultiTXs_atomic[OF assms(1) _ assms(2)])
next
  case (step_begin cx i th f r)
  then have "s' k = s k" if "k \<noteq> TxInfoKey i" for k using Begin_frame[OF that, of P cx th f s] by simp
  then show ?thesis by (intro store_atomic_frame[OF assms(2)]) simp
next
  case (step_begin_inter cx i th p f r)
  then have "s' k = s k" if "k \<noteq> TxInfoKey i" for k using BeginInterBitXHub_frame[OF that, of P cx th p f s] by simp
  then show ?thesis by (intro store_atomic_frame[OF assms(2)]) simp
next
  case (step_report E cx i res r)
  then show ?thesis by (intro Report_atomic[OF assms(1) _ assms(2)])
next
  case (step_list E' h txs im fm b e)
  from setTimeoutList_frame[OF step_list(2)] show ?thesis by (intro store_atomic_frame[OF assms(2)]) simp
next
  case (step_expire E h e)
  then show ?thesis using setTimeoutRollback_atomic[OF assms(1) _ assms(2), of E h] by simp
qed

interpretation tmrun: invariant_system "tm_initial P" "tm_step P" "\<lambda>s. tmext_ok P \<and> store_atomic P s" for P
proof unfold_locales
  show "tmext_ok P \<and> store_atomic P s" if "tm_initial P s" for s
    using that by (auto simp: tm_initial_def store_atomic_def getInfo_def)
qed (auto intro: tm_step_atomic)

section \<open>All receipts arrive\<close>

lemma finished_iff:
  assumes "runtime_ok E" "distinct (keys (ti_ChildTxInfo info))"
  shows "isMultiTxFinished E st info \<longleftrightarrow>
    (\<forall>k st'. info_entry info k = Some st' \<longrightarrow> st' = st) \<and> of_nat (card (dom (info_entry info))) = ti_ChildTxCount info"
proof -
  let ?r = "go_range (rt_order E 42) (ti_ChildTxInfo info)"
  note ord = runtime_ok_order[OF assms(1)]
  have r: "set ?r = {(k, v). info_entry info k = Some v}" by (simp add: set_go_range[OF ord] info_entry_def)
  have "distinct (map fst ?r)" by (rule distinct_go_range[OF ord assms(2)])
  then have "length ?r = card (fst ` set ?r)" using distinct_card[of "map fst ?r"] by simp
  moreover have "fst ` set ?r = dom (info_entry info)" unfolding r by force
  ultimately have len: "length ?r = card (dom (info_entry info))" by simp
  have all: "(\<forall>(k, st') \<in> set ?r. st' = st) \<longleftrightarrow> (\<forall>k st'. info_entry info k = Some st' \<longrightarrow> st' = st)" unfolding r by auto
  show ?thesis
  proof (cases "\<forall>(k, st') \<in> set ?r. st' = st")
    case True
    then show ?thesis using countChildren_Some(2)[OF True, of 0] all len by (simp add: isMultiTxFinished_def)
  next
    case False
    then have "countChildren st ?r 0 = None" using countChildren_Some(1) by (metis option.exhaust)
    with False all show ?thesis by (simp add: isMultiTxFinished_def)
  qed
qed

text \<open>The list of a height holds an id at most once.\<close>

definition listed_once :: "u64 \<Rightarrow> string \<Rightarrow> cstore \<Rightarrow> bool" where
  "listed_once h g s \<longleftrightarrow> (\<forall>val. s (TimeoutKey h) = Some val \<longrightarrow> length (filter ((=) g) (split_on (CHR '','') val)) \<le> 1)"

definition listed :: "u64 \<Rightarrow> string \<Rightarrow> cstore \<Rightarrow> bool" where
  "listed h g s \<longleftrightarrow> (\<exists>val. s (TimeoutKey h) = Some val \<and> g \<in> set (split_on (CHR '','') val))"

lemma drop_value_count:
  assumes "length (filter ((=) x) list) \<le> 1"
  obtains ys where "drop_value x list = Some ys" "x \<notin> set ys" "\<And>y. y \<noteq> x \<Longrightarrow> filter ((=) y) ys = filter ((=) y) list"
    "set ys \<subseteq> set list"
proof (cases "x \<in> set list")
  case True
  then obtain as bs where l: "list = as @ x # bs" by (meson split_list)
  with assms have "filter ((=) x) as = []" "filter ((=) x) bs = []" by auto
  then have "x \<notin> set as" "x \<notin> set bs" by (auto simp: filter_empty_conv)
  then show thesis using l by (intro that[of "as @ bs"]) (auto simp: drop_value_once)
next
  case False
  then show thesis by (intro that[of list]) (auto simp: drop_value_absent)
qed


lemma removeFromTimeoutList_ok:
  assumes "listed_once h g s" "g \<noteq> ''''"
  obtains s' where "removeFromTimeoutList h g s = Some s'" "\<not> listed h g s'"
proof (cases "s (TimeoutKey h)")
  case None
  then show thesis by (intro that[of s]) (auto simp: removeFromTimeoutList_def listed_def)
next
  case (Some val)
  let ?l = "split_on (CHR '','') val"
  from assms(1) Some have "length (filter ((=) g) ?l) \<le> 1" by (simp add: listed_once_def)
  then obtain ys where ys: "drop_value g ?l = Some ys" "g \<notin> set ys" "set ys \<subseteq> set ?l"
    by (rule drop_value_count)
  have "g \<notin> set (split_on (CHR '','') (join_with (CHR '','') ys))"
  proof (cases "ys = []")
    case False
    moreover have "\<forall>w \<in> set ys. CHR '','' \<notin> set w" using ys(3) split_on_no_sep_parts by blast
    ultimately show ?thesis using ys(2) by (simp add: split_join)
  qed (simp add: assms(2))
  then show thesis using Some ys(1)
    by (intro that[of "s(TimeoutKey h \<mapsto> join_with (CHR '','') ys)"]) (auto simp: removeFromTimeoutList_def listed_def)
qed

text \<open>One receipt of success on a child that has begun.\<close>

lemma Report_success_step:
  assumes "tmext_ok T" "runtime_ok E" "checkCurrentCaller T cx = None"
    "s (TxInfoKey i) = None" "s i = Some g" "getInfo T g s = Some info" "atomic info"
    "ti_GlobalState info = BEGIN" "info_entry info i = Some BEGIN" "listed_once (ti_Height info) g s" "g \<noteq> ''''"
  obtains d s' info' where "Report T E cx i RECEIPT_SUCCESS s = Some (Inr d, s')" "getInfo T g s' = Some info'"
    "atomic info'" "info_entry info' = (info_entry info)(i \<mapsto> SUCCESS)" "ti_Height info' = ti_Height info"
    "ti_ChildTxCount info' = ti_ChildTxCount info"
    "ti_GlobalState info' = (if (\<forall>k st. ((info_entry info)(i \<mapsto> SUCCESS)) k = Some st \<longrightarrow> st = SUCCESS) \<and>
        of_nat (card (dom (info_entry info))) = ti_ChildTxCount info then SUCCESS else BEGIN)"
    "\<And>k. k \<noteq> GlobalTxInfoKey g \<Longrightarrow> k \<noteq> TimeoutKey (ti_Height info) \<Longrightarrow> s' k = s k"
    "ti_GlobalState info' = BEGIN \<Longrightarrow> s' (TimeoutKey (ti_Height info)) = s (TimeoutKey (ti_Height info))"
    "ti_GlobalState info' = SUCCESS \<Longrightarrow> \<not> listed (ti_Height info) g s'"
proof -
  let ?i2 = "info\<lparr>ti_ChildTxInfo := gset i SUCCESS (ti_ChildTxInfo info)\<rparr>"
  let ?fin = "isMultiTxFinished E SUCCESS ?i2"
  have e: "gget (ti_ChildTxInfo info) i = Some BEGIN" using assms(9) by (simp add: info_entry_def)
  have ent: "info_entry ?i2 = (info_entry info)(i \<mapsto> SUCCESS)" by (auto simp: info_entry_def)
  have "dom (info_entry ?i2) = dom (info_entry info)" using assms(9) unfolding ent by auto
  then have fin: "?fin \<longleftrightarrow> (\<forall>k st. ((info_entry info)(i \<mapsto> SUCCESS)) k = Some st \<longrightarrow> st = SUCCESS) \<and>
      of_nat (card (dom (info_entry info))) = ti_ChildTxCount info"
    using assms(7) by (subst finished_iff[OF assms(2)]) (simp_all add: atomic_def ent)
  obtain sr where sr: "removeFromTimeoutList (ti_Height info) g s = Some sr" "\<not> listed (ti_Height info) g sr"
    by (rule removeFromTimeoutList_ok[OF assms(10,11)])
  define i3 where "i3 = (if ?fin then ?i2\<lparr>ti_GlobalState := SUCCESS\<rparr> else ?i2)"
  define s1 where "s1 = (if ?fin then sr else s)"
  have ch: "changeMultiTxStatus T E g info i RECEIPT_SUCCESS s = Ok (i3, s1)"
    using setFSM_step[OF assms(1), of BEGIN RECEIPT_SUCCESS]
    by (simp add: changeMultiTxStatus_def e assms(8) Let_def sr(1) i3_def s1_def)
  have a: "atomic i3" by (rule changeMultiTxStatus_atomic(1)[OF assms(1,2,7,9) ch])
  obtain s' info' where s': "setInfo T g i3 s1 = Some s'" "getInfo T g s' = Some info'" "same_info i3 info'"
    "\<forall>k. k \<noteq> GlobalTxInfoKey g \<longrightarrow> s' k = s1 k"
    by (rule setInfo_ok[OF assms(1) atomic_wf[OF a]])
  have keep: "ch_PrevStatus (fold (notifyChild i) xs c) = ch_PrevStatus c \<and> ch_CurStatus (fold (notifyChild i) xs c) = ch_CurStatus c" for xs c
    by (induction xs arbitrary: c) (auto simp: notifyChild_def Let_def)
  have gs: "ti_GlobalState i3 = (if ?fin then SUCCESS else BEGIN)" by (simp add: i3_def assms(8))
  let ?c = "(fold (notifyChild i) (go_range (rt_order E 44) (ti_ChildTxInfo i3))
       ((zero_change T)\<lparr>ch_PrevStatus := ti_GlobalState info, ch_CurStatus := ti_GlobalState i3\<rparr>))
       \<lparr>ch_ChildIBTPIDs := sort (map fst (go_range (rt_order E 45) (ti_ChildTxInfo i3)))\<rparr>"
  obtain d where d: "respond T ?c = Inr d"
    by (rule respond_ok[OF assms(1), of ?c]) (simp_all add: keep gs assms(8))
  have rep: "Report T E cx i RECEIPT_SUCCESS s = Some (Inr d, s')"
    by (simp add: Report_def assms(3-6) reportChild_def e ch Let_def s'(1) d)
  have same: "ti_GlobalState info' = ti_GlobalState i3" "ti_Height info' = ti_Height info"
    "ti_ChildTxCount info' = ti_ChildTxCount info" "info_entry info' = (info_entry info)(i \<mapsto> SUCCESS)"
    using s'(3) ent by (auto simp: same_info_def i3_def info_entry_def split: if_splits)
  show thesis
  proof (rule that[OF rep s'(2) atomic_same[OF a s'(3)] same(4,2,3)])
    show "ti_GlobalState info' = (if (\<forall>k st. ((info_entry info)(i \<mapsto> SUCCESS)) k = Some st \<longrightarrow> st = SUCCESS) \<and>
        of_nat (card (dom (info_entry info))) = ti_ChildTxCount info then SUCCESS else BEGIN)"
      unfolding same(1) gs fin ..
    show "s' k = s k" if "k \<noteq> GlobalTxInfoKey g" "k \<noteq> TimeoutKey (ti_Height info)" for k
      using s'(4) that removeFromTimeoutList_frame[OF sr(1)] by (simp add: s1_def)
    show "s' (TimeoutKey (ti_Height info)) = s (TimeoutKey (ti_Height info))" if "ti_GlobalState info' = BEGIN"
      using s'(4) that by (simp add: same(1) gs s1_def split: if_splits)
    show "\<not> listed (ti_Height info) g s'" if "ti_GlobalState info' = SUCCESS"
      using s'(4) that sr(2) by (simp add: same(1) gs s1_def listed_def split: if_splits)
  qed
qed

text \<open>The receipts of a list of children, one after the other; each of them has to be accepted.\<close>

fun reports :: "'z tmext_scheme \<Rightarrow> 'e runtime_scheme \<Rightarrow> tmctx \<Rightarrow> IBTP_Type \<Rightarrow> string list \<Rightarrow> cstore \<Rightarrow> cstore option" where
  "reports T E cx res [] s = Some s"
| "reports T E cx res (i # is) s =
     (case Report T E cx i res s of Some (Inr d, s') \<Rightarrow> reports T E cx res is s' | _ \<Rightarrow> None)"


lemma reports_success:
  assumes "tmext_ok T" "runtime_ok E" "checkCurrentCaller T cx = None"
    "getInfo T g s = Some info" "atomic info" "ti_GlobalState info = BEGIN"
    "\<forall>i. info_entry info i = (if i \<in> set is then Some BEGIN else if i \<in> D then Some SUCCESS else None)"
    "ti_ChildTxCount info = of_nat (length is + card D)" "finite D" "set is \<inter> D = {}" "length is + card D < 2 ^ 64"
    "distinct is" "is \<noteq> []" "\<forall>i \<in> set is. plain i \<and> s i = Some g \<and> s (TxInfoKey i) = None"
    "listed_once (ti_Height info) g s" "g \<noteq> ''''"
  shows "\<exists>s' info'. reports T E cx RECEIPT_SUCCESS is s = Some s' \<and> getInfo T g s' = Some info' \<and>
    ti_GlobalState info' = SUCCESS \<and> (\<forall>i. info_entry info' i = (if i \<in> set is \<union> D then Some SUCCESS else None)) \<and>
    \<not> listed (ti_Height info) g s'"
  using assms(4-15)
proof (induction "is" arbitrary: s info D)
  case (Cons i rest)
  have i: "plain i" "s i = Some g" "s (TxInfoKey i) = None" "i \<notin> set rest" "i \<notin> D" "info_entry info i = Some BEGIN"
    using Cons.prems(4,7,9,11) by auto
  have dom: "dom (info_entry info) = insert i (set rest) \<union> D" using Cons.prems(4) by (auto split: if_splits)
  have "card (dom (info_entry info)) = length (i # rest) + card D"
    unfolding dom using Cons.prems(6,7,9) by (subst card_Un_disjoint) (auto simp: distinct_card)
  then have cnt: "of_nat (card (dom (info_entry info))) = ti_ChildTxCount info" by (simp only: Cons.prems(5))
  have all: "(\<forall>k st. ((info_entry info)(i \<mapsto> SUCCESS)) k = Some st \<longrightarrow> st = SUCCESS) \<longleftrightarrow> rest = []"
    using Cons.prems(4) i(4) by (cases rest) auto
  obtain d s' info' where R: "Report T E cx i RECEIPT_SUCCESS s = Some (Inr d, s')" "getInfo T g s' = Some info'"
    "atomic info'" "info_entry info' = (info_entry info)(i \<mapsto> SUCCESS)" "ti_Height info' = ti_Height info"
    "ti_ChildTxCount info' = ti_ChildTxCount info" "ti_GlobalState info' = (if rest = [] then SUCCESS else BEGIN)"
    "\<And>k. k \<noteq> GlobalTxInfoKey g \<Longrightarrow> k \<noteq> TimeoutKey (ti_Height info) \<Longrightarrow> s' k = s k"
    "ti_GlobalState info' = BEGIN \<Longrightarrow> s' (TimeoutKey (ti_Height info)) = s (TimeoutKey (ti_Height info))"
    "ti_GlobalState info' = SUCCESS \<Longrightarrow> \<not> listed (ti_Height info) g s'"
    using Report_success_step[OF assms(1-3) i(3,2) Cons.prems(1-3) i(6) Cons.prems(12) assms(16), unfolded all cnt]
    by (metis (no_types, lifting))
  show ?case
  proof (cases "rest = []")
    case True
    with R Cons.prems(4) i(5) show ?thesis by (intro exI[of _ s'] exI[of _ info']) auto
  next
    case False
    let ?D = "insert i D"
    have k: "\<forall>j \<in> set rest. plain j \<and> s' j = Some g \<and> s' (TxInfoKey j) = None"
      using Cons.prems(11) R(8) by simp
    have once: "listed_once (ti_Height info') g s'"
      using Cons.prems(12) R(5,7,9) False by (simp add: listed_once_def)
    have "\<exists>s2 info2. reports T E cx RECEIPT_SUCCESS rest s' = Some s2 \<and> getInfo T g s2 = Some info2 \<and>
      ti_GlobalState info2 = SUCCESS \<and> (\<forall>j. info_entry info2 j = (if j \<in> set rest \<union> ?D then Some SUCCESS else None)) \<and>
      \<not> listed (ti_Height info') g s2"
      by (rule Cons.IH[OF R(2,3), of ?D])
        (use R(4,6,7) False Cons.prems i k once in \<open>auto simp: card_insert_if\<close>)
    then show ?thesis using R(1,5) by auto
  qed
qed simp

end
