(* ===== verification/Txmgr_Instance.thy ===== *)
theory Txmgr_Instance
  imports Txmgr_Lemmas Encodings
begin

text \<open>
  A concrete instance of the code the transaction manager and the executor call: a state machine
  that looks its table up, length-prefixed encodings, and ids of services and packets that are taken
  apart at their separators.
\<close>

fun status_code :: "TransactionStatus \<Rightarrow> nat \<times> int" where
  "status_code BEGIN = (0, 0)"
| "status_code BEGIN_FAILURE = (1, 0)"
| "status_code BEGIN_ROLLBACK = (2, 0)"
| "status_code SUCCESS = (3, 0)"
| "status_code FAILURE = (4, 0)"
| "status_code ROLLBACK = (5, 0)"
| "status_code (Status i) = (6, i)"

definition code_status :: "nat \<times> int \<Rightarrow> TransactionStatus" where
  "code_status = (\<lambda>(n, i). if n = 0 then BEGIN else if n = 1 then BEGIN_FAILURE else if n = 2 then BEGIN_ROLLBACK
     else if n = 3 then SUCCESS else if n = 4 then FAILURE else if n = 5 then ROLLBACK else Status i)"

lemma code_status_code [simp]: "code_status (status_code st) = st"
  by (cases st) (simp_all add: code_status_def)

definition c_status :: "TransactionStatus codec" where
  "c_status = (enc_pair enc_nat (fst c_int) \<circ> status_code, unc_map code_status (unc_pair unc_nat (snd c_int)))"

definition c_record :: "transactionRecord codec" where
  "c_record = (enc_pair (fst c_u64) (fst c_status) \<circ> (\<lambda>r. (tr_Height r, tr_Status r)),
     unc_map (\<lambda>(h, st). \<lparr>tr_Height = h, tr_Status = st\<rparr>) (unc_pair (snd c_u64) (snd c_status)))"

definition c_children :: "(string, TransactionStatus) gomap codec" where
  "c_children = (enc_list (enc_pair enc_str (fst c_status)), unc_list (unc_pair unc_str (snd c_status)))"

definition c_info :: "transactionInfo codec" where
  "c_info = (enc_pair (enc_pair (fst c_status) (fst c_u64)) (enc_pair (fst c_children) (fst c_u64)) \<circ>
       (\<lambda>x. ((ti_GlobalState x, ti_Height x), (ti_ChildTxInfo x, ti_ChildTxCount x))),
     unc_map (\<lambda>((g, h), (c, n)). \<lparr>ti_GlobalState = g, ti_Height = h, ti_ChildTxInfo = c, ti_ChildTxCount = n\<rparr>)
       (unc_pair (unc_pair (snd c_status) (snd c_u64)) (unc_pair (snd c_children) (snd c_u64))))"

definition c_strs :: "string list codec" where
  "c_strs = (enc_list enc_str, unc_list unc_str)"

definition c_change :: "statusChange codec" where
  "c_change = (enc_pair (enc_pair (fst c_status) (fst c_status)) (enc_pair (enc_pair (fst c_strs) (fst c_strs)) (enc_pair (fst c_strs) (fst c_bool))) \<circ>
       (\<lambda>c. ((ch_PrevStatus c, ch_CurStatus c), ((ch_NotifySrcIBTPIDs c, ch_NotifyDstIBTPIDs c), (ch_ChildIBTPIDs c, ch_IsFailChildIBTP c)))),
     unc_map (\<lambda>((p, c), ((s, d), (ch, f))). \<lparr>ch_PrevStatus = p, ch_CurStatus = c, ch_NotifySrcIBTPIDs = s,
         ch_NotifyDstIBTPIDs = d, ch_ChildIBTPIDs = ch, ch_IsFailChildIBTP = f\<rparr>)
       (unc_pair (unc_pair (snd c_status) (snd c_status)) (unc_pair (unc_pair (snd c_strs) (snd c_strs)) (unc_pair (snd c_strs) (snd c_bool)))))"

lemma coder_status: "coder (fst c_status) (snd c_status)"
  unfolding c_status_def fst_conv snd_conv by (intro coder_map coder_pair coder_nat coder_basic) simp

lemma coder_tm:
  "coder (fst c_record) (snd c_record)" "coder (fst c_info) (snd c_info)" "coder (fst c_change) (snd c_change)"
  unfolding c_record_def c_info_def c_change_def c_children_def c_strs_def fst_conv snd_conv
  by (intro coder_map coder_pair coder_list coder_nat coder_str coder_status coder_basic; simp)+

definition wT :: ibext where
  "wT = \<lparr>T_record_Marshal = (\<lambda>x. Some (fst c_record x)), T_record_Unmarshal = whole (snd c_record),
     T_info_Marshal = (\<lambda>x. Some (fst c_info (x\<lparr>ti_ChildTxInfo := AList.clearjunk (ti_ChildTxInfo x)\<rparr>))),
     T_info_Unmarshal = whole (snd c_info),
     T_change_Marshal = (\<lambda>x. Some (fst c_change x)), T_change_Unmarshal = whole (snd c_change),
     T_proof_Unmarshal = whole (snd c_status), T_status0 = BEGIN, T_statusNumber = (\<lambda>st. int (fst (status_code st))),
     T_IsFinalStatus = (\<lambda>st. st = SUCCESS \<or> st = FAILURE \<or> st = ROLLBACK),
     T_fsm = (\<lambda>cur es ev. fsm_lookup es ev cur), T_interchainAddr = ''0xa'',
     P_Category = (\<lambda>t. case t of INTERCHAIN \<Rightarrow> REQUEST | IBTP_type i \<Rightarrow> Category i | _ \<Rightarrow> RESPONSE),
     P_ParseFullServiceID = (\<lambda>s. case split_on (CHR '':'') s of [a, b, c] \<Rightarrow> Some (a, b, c) | _ \<Rightarrow> None),
     P_ParseIBTPID = (\<lambda>s. case split_on (CHR ''-'') s of [a, b, c] \<Rightarrow> map_option (\<lambda>n. (a, b, n)) (parse_uint c) | _ \<Rightarrow> None)\<rparr>"

lemma wT_ok [simp]: "tmext_ok wT"
proof -
  have w: "whole (snd c) (fst c x) = Some x" if "coder (fst c) (snd c)" for c :: "'a codec" and x
    using coderD[OF that, of x "[]"] by (simp add: whole_def)
  have "info_codec_ok (T_info_Marshal wT) (T_info_Unmarshal wT)"
    unfolding info_codec_ok_def
    by (auto simp: wT_def w[OF coder_tm(2)] same_info_def map_of_clearjunk distinct_clearjunk)
  moreover have "fsm_ok (T_fsm wT)" by (auto simp: fsm_ok_def wT_def)
  ultimately show ?thesis
    by (simp add: tmext_ok_def record_codec_ok_def change_codec_ok_def wT_def w[OF coder_tm(1)] w[OF coder_tm(3)])
qed

lemma some_pair: "\<not> Option.is_none x \<Longrightarrow> snd (the x) = y \<Longrightarrow> \<exists>r. x = Some (r, y)"
  by (cases x) auto

text \<open>Calls by the interchain contract, in a block of a given height.\<close>

definition wcx :: "u64 \<Rightarrow> tmctx" where
  "wcx h = \<lparr>tc_CurrentCaller = ''0xa'', tc_CurrentHeight = h\<rparr>"

lemma wcx_ok [simp]: "checkCurrentCaller wT (wcx h) = None"
  by (simp add: checkCurrentCaller_def wcx_def wT_def)

end
