(* ===== verification/Txmgr_Properties.thy ===== *)
theory Txmgr_Properties
  imports Txmgr_Multi Txmgr_Instance
begin

text \<open>
  The properties of the transaction manager and of the expiry of transactions, each with the
  instance it is applied to.
\<close>

section \<open>Single transactions\<close>

text \<open>
  C22. A receipt for a single transaction, reported by the interchain contract, moves its record by the
  table of the state machine: from \<^verbatim>\<open>BEGIN\<close> to \<^verbatim>\<open>SUCCESS\<close> or \<^verbatim>\<open>FAILURE\<close>, from \<^verbatim>\<open>BEGIN_FAILURE\<close> to \<^verbatim>\<open>FAILURE\<close>,
  from \<^verbatim>\<open>BEGIN_ROLLBACK\<close> to \<^verbatim>\<open>ROLLBACK\<close>; the response carries the old and the new status, the height
  and every other key stay. Every other receipt, in particular one for a transaction that has
  ended, is refused and changes nothing.
\<close>

theorem report_single:
  assumes "tmext_ok T" "tc_CurrentCaller cx = T_interchainAddr T"
    "s (TxInfoKey i) = Some d" "T_record_Unmarshal T d = Some r"
  shows "case receipt_step (tr_Status r) res of
      None \<Rightarrow> Report T E cx i res s = Some (Inl (TransactionStateErr i (tr_Status r)), s)
    | Some st \<Rightarrow> \<exists>c d'. Report T E cx i res s = Some (Inr c, s(TxInfoKey i \<mapsto> d')) \<and>
        T_record_Unmarshal T d' = Some (r\<lparr>tr_Status := st\<rparr>) \<and>
        T_change_Unmarshal T c = Some ((zero_change T)\<lparr>ch_PrevStatus := tr_Status r, ch_CurStatus := st\<rparr>)"
proof -
  have c: "checkCurrentCaller T cx = None" using assms(2) by (simp add: checkCurrentCaller_def)
  show ?thesis
  proof (cases "receipt_step (tr_Status r) res")
    case None
    with c assms(3,4) show ?thesis by (simp add: Report_def reportSingle_def setFSM_step[OF assms(1)])
  next
    case (Some st)
    then have wf: "status_wf (tr_Status r)" "status_wf st"
      using receipt_step_sets[OF Some] receipt_step_wf[OF Some] by auto
    obtain d' where d': "T_record_Marshal T (r\<lparr>tr_Status := st\<rparr>) = Some d'" "T_record_Unmarshal T d' = Some (r\<lparr>tr_Status := st\<rparr>)"
      by (rule record_marshal[OF assms(1), of "r\<lparr>tr_Status := st\<rparr>"]) (simp_all add: wf)
    let ?c = "(zero_change T)\<lparr>ch_PrevStatus := tr_Status r, ch_CurStatus := st\<rparr>"
    obtain e where e: "respond T ?c = Inr e" "T_change_Unmarshal T e = Some ?c"
      by (rule respond_ok[OF assms(1), of ?c]) (simp_all add: wf)
    have "Report T E cx i res s = Some (Inr e, s(TxInfoKey i \<mapsto> d'))"
      using c assms(3,4) d' e by (simp add: Report_def reportSingle_def setFSM_step[OF assms(1)] Some)
    with d'(2) e(2) show ?thesis by (auto simp: Some)
  qed
qed

definition w_record :: "u64 \<Rightarrow> TransactionStatus \<Rightarrow> cstore" where
  "w_record h st = (\<lambda>_. None)(TxInfoKey ''a-b-1'' \<mapsto> fst c_record \<lparr>tr_Height = h, tr_Status = st\<rparr>)"

lemma w_record_get: "T_record_Unmarshal wT (fst c_record r) = Some r"
  using coderD[OF coder_tm(1), of r "[]"] by (simp add: wT_def whole_def)

theorem report_single_witness:
  "\<exists>c d. Report wT rt0 (wcx 7) ''a-b-1'' RECEIPT_SUCCESS (w_record 12 BEGIN) =
      Some (Inr c, (w_record 12 BEGIN)(TxInfoKey ''a-b-1'' \<mapsto> d)) \<and>
    T_record_Unmarshal wT d = Some \<lparr>tr_Height = 12, tr_Status = SUCCESS\<rparr>"
  using report_single[OF wT_ok _ _ w_record_get, of "wcx 7" "w_record 12 BEGIN" "''a-b-1''"
      "\<lparr>tr_Height = 12, tr_Status = BEGIN\<rparr>" rt0 RECEIPT_SUCCESS]
  by (auto simp: w_record_def wcx_def wT_def)

section \<open>Global transactions\<close>

text \<open>
  C23. In every state that the methods of the contract and the expiry of transactions can reach from
  the empty account, the status of each child fits the status of its global transaction; in
  particular no child has succeeded while another one has failed or is being rolled back.
\<close>

theorem multi_atomic:
  assumes "reachable (tm_initial P) (tm_step P) s" "getInfo P g s = Some info"
    "gget (ti_ChildTxInfo info) i = Some a" "gget (ti_ChildTxInfo info) j = Some b"
  shows "child_ok (ti_GlobalState info) a \<and>
    \<not> (a = SUCCESS \<and> b \<in> {BEGIN_FAILURE, FAILURE, BEGIN_ROLLBACK, ROLLBACK})"
proof -
  have "atomic info" using tmrun.reachable_inv[OF assms(1)] assms(2) by (auto simp: store_atomic_def)
  then have ab: "child_ok (ti_GlobalState info) a" "child_ok (ti_GlobalState info) b"
    using assms(3,4) by (auto simp: atomic_def info_entry_def)
  then show ?thesis by (cases "ti_GlobalState info") auto
qed

definition w_multi1 :: cstore where
  "w_multi1 = snd (the (BeginMultiTXs wT rt0 (wcx 5) ''g'' ''a-b-1'' 10 False 2 (\<lambda>_. None)))"

definition w_multi2 :: cstore where
  "w_multi2 = snd (the (BeginMultiTXs wT rt0 (wcx 5) ''g'' ''a-c-1'' 10 False 2 w_multi1))"

definition w_multi3 :: cstore where
  "w_multi3 = snd (the (Report wT rt0 (wcx 6) ''a-b-1'' RECEIPT_SUCCESS w_multi2))"

lemma w_multi_reachable: "reachable (tm_initial wT) (tm_step wT) w_multi3"
proof -
  have 0: "reachable (tm_initial wT) (tm_step wT) (\<lambda>_. None)"
    by (rule reach_init) (simp add: tm_initial_def)
  obtain r1 where 1: "BeginMultiTXs wT rt0 (wcx 5) ''g'' ''a-b-1'' 10 False 2 (\<lambda>_. None) = Some (r1, w_multi1)"
    using some_pair[OF _ w_multi1_def[symmetric]] by (atomize_elim) (erule meta_mp, code_simp)
  obtain r2 where 2: "BeginMultiTXs wT rt0 (wcx 5) ''g'' ''a-c-1'' 10 False 2 w_multi1 = Some (r2, w_multi2)"
    using some_pair[OF _ w_multi2_def[symmetric]] by (atomize_elim) (erule meta_mp, code_simp)
  obtain r3 where 3: "Report wT rt0 (wcx 6) ''a-b-1'' RECEIPT_SUCCESS w_multi2 = Some (r3, w_multi3)"
    using some_pair[OF _ w_multi3_def[symmetric]] by (atomize_elim) (erule meta_mp, code_simp)
  have p: "plain ''a-b-1''" "plain ''a-c-1''" by code_simp+
  from 0 have "reachable (tm_initial wT) (tm_step wT) w_multi1"
    by (rule reach_step) (rule step_begin_multi[OF runtime_ok_rt0 p(1) 1])
  then have "reachable (tm_initial wT) (tm_step wT) w_multi2"
    by (rule reach_step) (rule step_begin_multi[OF runtime_ok_rt0 p(2) 2])
  then show ?thesis by (rule reach_step) (rule step_report[OF runtime_ok_rt0 3])
qed

definition w_info :: transactionInfo where
  "w_info = \<lparr>ti_GlobalState = BEGIN, ti_Height = 15,
     ti_ChildTxInfo = [(''a-b-1'', SUCCESS), (''a-c-1'', BEGIN)], ti_ChildTxCount = 2\<rparr>"

lemma w_multi3_info: "getInfo wT ''g'' w_multi3 = Some w_info"
  by code_simp

theorem multi_atomic_witness:
  "getInfo wT ''g'' w_multi3 = Some w_info \<and> child_ok (ti_GlobalState w_info) SUCCESS \<and>
   \<not> (SUCCESS = SUCCESS \<and> BEGIN \<in> {BEGIN_FAILURE, FAILURE, BEGIN_ROLLBACK, ROLLBACK})"
  by (rule conjI[OF w_multi3_info multi_atomic[OF w_multi_reachable w_multi3_info, of "''a-b-1''" _ "''a-c-1''"]])
    (simp_all add: w_info_def)

text \<open>
  C24. When all children of a global transaction have begun and their receipts of success arrive, in
  any order, every receipt is accepted, the last one makes the global transaction succeed, and it
  is no longer in the list of transactions that time out.
\<close>

theorem multi_success:
  assumes "tmext_ok T" "runtime_ok E" "tc_CurrentCaller cx = T_interchainAddr T"
    "getInfo T g s = Some info" "atomic info" "ti_GlobalState info = BEGIN"
    "\<forall>k. gget (ti_ChildTxInfo info) k = (if k \<in> set ids then Some BEGIN else None)"
    "ti_ChildTxCount info = of_nat (length ids)" "length ids < 2 ^ 64" "distinct ids" "ids \<noteq> []"
    "\<forall>k \<in> set ids. plain k \<and> s k = Some g \<and> s (TxInfoKey k) = None"
    "listed_once (ti_Height info) g s" "g \<noteq> ''''"
  shows "\<exists>s' info'. reports T E cx RECEIPT_SUCCESS ids s = Some s' \<and> getInfo T g s' = Some info' \<and>
    ti_GlobalState info' = SUCCESS \<and>
    (\<forall>k. gget (ti_ChildTxInfo info') k = (if k \<in> set ids then Some SUCCESS else None)) \<and>
    \<not> listed (ti_Height info) g s'"
proof -
  have c: "checkCurrentCaller T cx = None" using assms(3) by (simp add: checkCurrentCaller_def)
  show ?thesis
    using reports_success[OF assms(1,2) c assms(4-6), of ids "{}"] assms(7-14) by (simp add: info_entry_def)
qed

definition w_ids :: "string list" where
  "w_ids = [''a-c-1'', ''a-b-1'']"

definition w_info2 :: transactionInfo where
  "w_info2 = \<lparr>ti_GlobalState = BEGIN, ti_Height = 15,
     ti_ChildTxInfo = [(''a-b-1'', BEGIN), (''a-c-1'', BEGIN)], ti_ChildTxCount = 2\<rparr>"

theorem multi_success_witness:
  "\<exists>s' info'. reports wT rt0 (wcx 6) RECEIPT_SUCCESS [''a-c-1'', ''a-b-1''] w_multi2 = Some s' \<and>
    getInfo wT ''g'' s' = Some info' \<and> ti_GlobalState info' = SUCCESS \<and> \<not> listed 15 ''g'' s'"
proof -
  have i: "getInfo wT ''g'' w_multi2 = Some w_info2" by code_simp
  have t: "w_multi2 (TimeoutKey 15) = Some ''g''" by code_simp
  have k: "w_multi2 ''a-c-1'' = Some ''g'' \<and> w_multi2 (TxInfoKey ''a-c-1'') = None \<and> plain ''a-c-1'' \<and>
      w_multi2 ''a-b-1'' = Some ''g'' \<and> w_multi2 (TxInfoKey ''a-b-1'') = None \<and> plain ''a-b-1''" by code_simp
  have a: "atomic w_info2" by (auto simp: atomic_def info_entry_def w_info2_def ascii_def split: if_splits)
  have "\<exists>s' info'. reports wT rt0 (wcx 6) RECEIPT_SUCCESS [''a-c-1'', ''a-b-1''] w_multi2 = Some s' \<and>
     getInfo wT ''g'' s' = Some info' \<and> ti_GlobalState info' = SUCCESS \<and>
    (\<forall>k. gget (ti_ChildTxInfo info') k = (if k \<in> set [''a-c-1'', ''a-b-1''] then Some SUCCESS else None)) \<and>
     \<not> listed (ti_Height w_info2) ''g'' s'"
    by (rule multi_success[OF wT_ok runtime_ok_rt0 _ i a])
      (use k t in \<open>auto simp: w_info2_def wcx_def wT_def listed_once_def\<close>)
  then show ?thesis by (auto simp: w_info2_def)
qed

end
