(* ===== verification/Txmgr_Expiry.thy ===== *)
theory Txmgr_Expiry
  imports Txmgr_Properties
begin

text \<open>
  The expiry of transactions across the contract and the executor: a request enters the list of its
  height and is moved to the rollback status there; and what the code does that its comments do not
  say.
\<close>

section \<open>Lists of ids in a string\<close>

lemma writeToStr_split:
  assumes "str \<noteq> ''''" "CHR '','' \<notin> set i"
  shows "split_on (CHR '','') (writeToStr str i) = split_on (CHR '','') str @ [i]"
proof -
  let ?ws = "split_on (CHR '','') str"
  have "join_with (CHR '','') (?ws @ [i]) = writeToStr str i"
    using assms(1) by (simp add: join_snoc join_split writeToStr_def)
  then have "split_on (CHR '','') (writeToStr str i) = split_on (CHR '','') (join_with (CHR '','') (?ws @ [i]))" by simp
  also have "\<dots> = ?ws @ [i]"
    by (rule split_join) (use assms(2) split_on_no_sep_parts in auto)
  finally show ?thesis .
qed

lemma split_hd_empty: "split_on c xs ! 0 = [] \<longleftrightarrow> xs = [] \<or> hd xs = c"
  by (cases xs) (auto split: list.split)

text \<open>A list that no id was ever removed from does not begin with a comma.\<close>

definition list_wf :: "u64 \<Rightarrow> cstore \<Rightarrow> bool" where
  "list_wf h s \<longleftrightarrow> (\<forall>val. s (TimeoutKey h) = Some val \<longrightarrow> val = '''' \<or> hd val \<noteq> CHR '','')"

lemma getTimeoutList_add:
  assumes "list_wf h s" "plain i"
  shows "getTimeoutList h (s(TimeoutKey h \<mapsto> addTimeoutList h i s)) = getTimeoutList h s @ [i]"
proof -
  have i: "CHR '','' \<notin> set i" "i \<noteq> ''''" using assms(2) by (simp_all add: plain_def)
  show ?thesis
  proof (cases "s (TimeoutKey h) = None \<or> s (TimeoutKey h) = Some ''''")
    case True
    then show ?thesis using i
      by (auto simp: getTimeoutList_def addTimeoutList_def writeToStr_def split_on_nosep)
  next
    case False
    then obtain val where v: "s (TimeoutKey h) = Some val" "val \<noteq> ''''" "hd val \<noteq> CHR '',''"
      using assms(1) by (auto simp: list_wf_def)
    then have "split_on (CHR '','') val ! 0 \<noteq> ''''" by (simp add: split_hd_empty)
    moreover have "hd (writeToStr val i) \<noteq> CHR '',''" "writeToStr val i \<noteq> ''''" using v by (simp_all add: writeToStr_def)
    then have "split_on (CHR '','') (writeToStr val i) ! 0 \<noteq> ''''" by (simp add: split_hd_empty)
    ultimately show ?thesis using v i
      by (simp add: getTimeoutList_def addTimeoutList_def Let_def writeToStr_split)
  qed
qed

lemma go_range_single: "order_ok ord \<Longrightarrow> go_range ord [(k, v)] = [(k, v)]"
proof -
  assume "order_ok ord"
  then have "mset (ord [k]) = mset [k]" unfolding order_ok_def by blast
  then have "ord [k] = [k]" by simp
  then show ?thesis by (simp add: go_range_def List.map_filter_simps)
qed

text \<open>A transaction that was moved to the rollback status at a height.\<close>

definition set_back :: "'z tmext_scheme \<Rightarrow> u64 \<Rightarrow> string \<Rightarrow> cstore \<Rightarrow> bool" where
  "set_back T h i s \<longleftrightarrow>
     (if isGlobalID i then \<exists>info. getInfo T i s = Some info \<and> ti_GlobalState info = BEGIN_ROLLBACK
      else \<exists>d. s (TxInfoKey i) = Some d \<and> T_record_Unmarshal T d = Some \<lparr>tr_Height = h, tr_Status = BEGIN_ROLLBACK\<rparr>)"

lemma setGlobalTxStatus_expires:
  assumes "tmext_ok T" "runtime_ok E" "store_atomic T s" "getInfo T g s = Some info"
  obtains s' info' where "setGlobalTxStatus T E g BEGIN_ROLLBACK s = (None, s')" "getInfo T g s' = Some info'"
    "ti_GlobalState info' = BEGIN_ROLLBACK" "\<And>k. k \<noteq> GlobalTxInfoKey g \<Longrightarrow> s' k = s k"
proof -
  let ?i = "info\<lparr>ti_GlobalState := BEGIN_ROLLBACK, ti_ChildTxInfo := fold (\<lambda>(txid, _). gset txid BEGIN_ROLLBACK)
      (go_range (rt_order E 46) (ti_ChildTxInfo info)) (ti_ChildTxInfo info)\<rparr>"
  have "atomic info" using assms(3,4) by (simp add: store_atomic_def)
  then have a: "atomic ?i"
    by (auto simp: atomic_def info_entry_def gget_overwrite[OF runtime_ok_order[OF assms(2)]] fold_gset_const(2)
        split: if_splits)
  obtain s' info' where s': "setInfo T g ?i s = Some s'" "getInfo T g s' = Some info'" "same_info ?i info'"
    "\<forall>k. k \<noteq> GlobalTxInfoKey g \<longrightarrow> s' k = s k"
    by (rule setInfo_ok[OF assms(1) atomic_wf[OF a]])
  show thesis
  proof (rule that[OF _ s'(2)])
    show "setGlobalTxStatus T E g BEGIN_ROLLBACK s = (None, s')"
      using s'(1) assms(4)[folded getTxInfo_getInfo]
      by (auto simp: setGlobalTxStatus_def setInfo_def Let_def split: option.splits)
    show "ti_GlobalState info' = BEGIN_ROLLBACK" using s'(3) by (simp add: same_info_def)
    show "s' k = s k" if "k \<noteq> GlobalTxInfoKey g" for k using s'(4) that by simp
  qed
qed

lemma rollback_one_id:
  assumes "tmext_ok T" "runtime_ok E" "store_atomic T s" "isGlobalID i \<Longrightarrow> getInfo T i s \<noteq> None"
  obtains s' where "(if isGlobalID i then setGlobalTxStatus T E i BEGIN_ROLLBACK s
       else setTxRecord T i \<lparr>tr_Height = h, tr_Status = BEGIN_ROLLBACK\<rparr> s) = (None, s')"
    "set_back T h i s'" "\<And>j. set_back T h j s \<Longrightarrow> set_back T h j s'" "store_atomic T s'"
    "\<And>g. getInfo T g s \<noteq> None \<Longrightarrow> getInfo T g s' \<noteq> None"
proof (cases "isGlobalID i")
  case True
  then obtain info where "getInfo T i s = Some info" using assms(4) by blast
  from setGlobalTxStatus_expires[OF assms(1-3) this] obtain s' info' where s':
    "setGlobalTxStatus T E i BEGIN_ROLLBACK s = (None, s')" "getInfo T i s' = Some info'"
    "ti_GlobalState info' = BEGIN_ROLLBACK" "\<And>k. k \<noteq> GlobalTxInfoKey i \<Longrightarrow> s' k = s k" by metis
  have other: "getInfo T g s' = getInfo T g s" if "g \<noteq> i" for g by (rule getInfo_cong) (simp add: s'(4) that)
  show thesis
  proof (rule that)
    show "set_back T h j s'" if "set_back T h j s" for j
      using that s'(2-4) other[of j] by (cases "j = i") (auto simp: set_back_def)
    show "store_atomic T s'" using setGlobalTxStatus_atomic[OF assms(1-3), of i] s'(1) by simp
    show "getInfo T g s' \<noteq> None" if "getInfo T g s \<noteq> None" for g using that s'(2) other[of g] by (cases "g = i") auto
  qed (use True s' in \<open>auto simp: set_back_def\<close>)
next
  case False
  let ?r = "\<lparr>tr_Height = h, tr_Status = BEGIN_ROLLBACK\<rparr>"
  obtain d where d: "T_record_Marshal T ?r = Some d" "T_record_Unmarshal T d = Some ?r"
    by (rule record_marshal[OF assms(1), of ?r]) simp_all
  let ?s = "s(TxInfoKey i \<mapsto> d)"
  have gi: "getInfo T g ?s = getInfo T g s" for g by (rule getInfo_cong) simp
  show thesis
  proof (rule that[of ?s])
    show "store_atomic T ?s" by (rule store_atomic_frame[OF assms(3)]) simp
    show "set_back T h j ?s" if "set_back T h j s" for j using that d gi by (auto simp: set_back_def)
  qed (use False d gi in \<open>auto simp: set_back_def setTxRecord_def\<close>)
qed

lemma rollbackIds_ok:
  assumes "tmext_ok T" "runtime_ok E" "store_atomic T s" "\<forall>g \<in> set ids. isGlobalID g \<longrightarrow> getInfo T g s \<noteq> None"
  shows "\<exists>s'. rollbackIds T E h ids s = (None, s') \<and> (\<forall>i \<in> set ids. set_back T h i s') \<and>
    (\<forall>j. set_back T h j s \<longrightarrow> set_back T h j s')"
  using assms(3,4)
proof (induction ids arbitrary: s)
  case (Cons i ids)
  obtain s1 where s1: "(if isGlobalID i then setGlobalTxStatus T E i BEGIN_ROLLBACK s
       else setTxRecord T i \<lparr>tr_Height = h, tr_Status = BEGIN_ROLLBACK\<rparr> s) = (None, s1)"
    "set_back T h i s1" "\<And>j. set_back T h j s \<Longrightarrow> set_back T h j s1" "store_atomic T s1"
    "\<And>g. getInfo T g s \<noteq> None \<Longrightarrow> getInfo T g s1 \<noteq> None"
    using rollback_one_id[OF assms(1,2) Cons.prems(1), of i h] Cons.prems(2) by auto
  from Cons.IH[OF s1(4)] s1(5) Cons.prems(2) obtain s2 where "rollbackIds T E h ids s1 = (None, s2)"
    "\<forall>i \<in> set ids. set_back T h i s2" "\<forall>j. set_back T h j s1 \<longrightarrow> set_back T h j s2" by auto
  with s1(1-3) show ?case by auto
qed simp

section \<open>A request that is not answered\<close>


definition xrt0 :: xruntime where
  "xrt0 = \<lparr>rt_order = (\<lambda>_ ks. ks), rt_now = 1000, rt_heights = (\<lambda>_ ks. ks)\<rparr>"

lemma xrt0_ok [simp]: "xruntime_ok xrt0"
  by (simp add: xruntime_ok_def xrt0_def runtime_ok_def max_int64_def order_ok_def)

definition w_ibtp :: "IBTP_Type \<Rightarrow> ibtp" where
  "w_ibtp t = \<lparr>ib_From = ''1:c1:s1'', ib_To = ''1:c2:s2'', ib_Index = 1, ib_Type = t, ib_TimeoutHeight = 10,
     ib_Group = None, ib_Extra = ''''\<rparr>"

definition w_txid :: string where
  "w_txid = ''1:c1:s1-1:c2:s2-1''"


section \<open>What the comments do not say\<close>

text \<open>
  C26. A receipt of failure that ends a transaction does not take it out of the list of its height: the
  executor leaves the store as it is, and at that height sets the record that had reached
  \<^verbatim>\<open>FAILURE\<close> back to \<^verbatim>\<open>BEGIN_ROLLBACK\<close>.
\<close>

theorem failed_tx_expires:
  assumes "tmext_ok P" "xruntime_ok E" "store_atomic P s" "P_Category P RECEIPT_FAILURE = RESPONSE"
    "ib_Type ib = RECEIPT_FAILURE" "txid = getIBTPID (ib_From ib) (ib_To ib) (ib_Index ib)"
    "s (TxInfoKey txid) = Some d" "T_record_Unmarshal P d = Some r" "tr_Status r = FAILURE"
    "txid \<in> set (getTimeoutList (tr_Height r) s)"
    "\<forall>g \<in> set (getTimeoutList (tr_Height r) s). isGlobalID g \<longrightarrow> getInfo P g s \<noteq> None"
  shows "setTimeoutList P E height [BxhTransaction h (Some ib)] im fm b s = Some (None, s) \<and>
    (\<exists>s' d'. setTimeoutRollback P E (tr_Height r) s = (None, s') \<and> s' (TxInfoKey txid) = Some d' \<and>
       T_record_Unmarshal P d' = Some \<lparr>tr_Height = tr_Height r, tr_Status = BEGIN_ROLLBACK\<rparr>)"
proof
  have "mset (rt_heights E i []) = mset []" for i using assms(2) unfolding xruntime_ok_def order_ok_def by blast
  then have "go_range (rt_heights E i) ([] :: (u64, string) gomap) = []" for i
    by (simp add: go_range_def List.map_filter_simps)
  moreover have "timeoutTxs P s height im fm b [BxhTransaction h (Some ib)] ([], []) = Inr ([], [])"
    using assms(4-9) by (simp add: timeoutTx_def timeoutResponse_def getIBTPID_def)
  ultimately show "setTimeoutList P E height [BxhTransaction h (Some ib)] im fm b s = Some (None, s)"
    by (simp add: setTimeoutList_def)
next
  have "runtime_ok E" using assms(2) by (simp add: xruntime_ok_def)
  from rollbackIds_ok[OF assms(1) this assms(3,11)] obtain s' where
    "rollbackIds P E (tr_Height r) (getTimeoutList (tr_Height r) s) s = (None, s')" "set_back P (tr_Height r) txid s'"
    using assms(10) by blast
  moreover have "\<not> isGlobalID txid" by (simp add: assms(6) getIBTPID_def isGlobalID_def)
  ultimately show "\<exists>s' d'. setTimeoutRollback P E (tr_Height r) s = (None, s') \<and> s' (TxInfoKey txid) = Some d' \<and>
       T_record_Unmarshal P d' = Some \<lparr>tr_Height = tr_Height r, tr_Status = BEGIN_ROLLBACK\<rparr>"
    by (auto simp: setTimeoutRollback_def set_back_def)
qed


definition w_fail1 :: cstore where
  "w_fail1 = snd (Begin wT (wcx 5) w_txid 10 False (\<lambda>_. None))"

definition w_fail2 :: cstore where
  "w_fail2 = snd (the (setTimeoutList wT xrt0 5 [BxhTransaction ''h'' (Some (w_ibtp INTERCHAIN))] [] [] ''1'' w_fail1))"

definition w_fail3 :: cstore where
  "w_fail3 = snd (the (Report wT rt0 (wcx 6) w_txid RECEIPT_FAILURE w_fail2))"

lemma w_fail_reachable: "reachable (tm_initial wT) (tm_step wT) w_fail3"
proof -
  have "reachable (tm_initial wT) (tm_step wT) (\<lambda>_. None)" by (rule reach_init) (simp add: tm_initial_def)
  then have 1: "reachable (tm_initial wT) (tm_step wT) w_fail1"
    by (rule reach_step)
      (rule step_begin[of _ "wcx 5" w_txid 10 False _ "fst (Begin wT (wcx 5) w_txid 10 False (\<lambda>_. None))"],
       simp add: w_fail1_def)
  obtain r2 where 2: "setTimeoutList wT xrt0 5 [BxhTransaction ''h'' (Some (w_ibtp INTERCHAIN))] [] [] ''1'' w_fail1 = Some (r2, w_fail2)"
    using some_pair[OF _ w_fail2_def[symmetric]] by (atomize_elim) (erule meta_mp, code_simp)
  obtain r3 where 3: "Report wT rt0 (wcx 6) w_txid RECEIPT_FAILURE w_fail2 = Some (r3, w_fail3)"
    using some_pair[OF _ w_fail3_def[symmetric]] by (atomize_elim) (erule meta_mp, code_simp)
  from 1 have "reachable (tm_initial wT) (tm_step wT) w_fail2" by (rule reach_step) (rule step_list[OF xrt0_ok 2])
  then show ?thesis by (rule reach_step) (rule step_report[OF runtime_ok_rt0 3])
qed

theorem failed_tx_expires_witness:
  "setTimeoutList wT xrt0 6 [BxhTransaction ''h2'' (Some (w_ibtp RECEIPT_FAILURE))] [] [] ''1'' w_fail3 = Some (None, w_fail3) \<and>
   (\<exists>s' d'. setTimeoutRollback wT xrt0 (tr_Height \<lparr>tr_Height = 15, tr_Status = FAILURE\<rparr>) w_fail3 = (None, s') \<and>
     s' (TxInfoKey w_txid) = Some d' \<and> T_record_Unmarshal wT d' =
       Some \<lparr>tr_Height = tr_Height \<lparr>tr_Height = 15, tr_Status = FAILURE\<rparr>, tr_Status = BEGIN_ROLLBACK\<rparr>)"
proof (rule failed_tx_expires[OF wT_ok xrt0_ok])
  show "store_atomic wT w_fail3" using tmrun.reachable_inv[OF w_fail_reachable] by blast
  show "T_record_Unmarshal wT (fst c_record \<lparr>tr_Height = 15, tr_Status = FAILURE\<rparr>) = Some \<lparr>tr_Height = 15, tr_Status = FAILURE\<rparr>"
    by (rule w_record_get)
qed code_simp+

text \<open>
  C27. A response of \<^verbatim>\<open>Report\<close> never names a child to be rolled back at its destination: when a child
  fails, the statuses of all children are overwritten before the loop looks for those that had
  succeeded.
\<close>

theorem report_notifies_no_destination:
  assumes "reachable (tm_initial P) (tm_step P) s" "runtime_ok E" "Report P E cx i res s = Some (Inr c, s')"
    "T_change_Unmarshal P c = Some change" "s (TxInfoKey i) = None"
  shows "ch_NotifyDstIBTPIDs change = []"
proof -
  have P: "tmext_ok P" "store_atomic P s" using tmrun.reachable_inv[OF assms(1)] by blast+
  from assms(3,5) obtain g info where g: "getInfo P g s = Some info" "gget (ti_ChildTxInfo info) i \<noteq> None"
    "reportChild P E i res g s = Some (Inr c, s')"
    by (auto simp: Report_def reportChild_def split: option.splits if_splits)
  have a: "atomic info" using P(2) g(1) by (simp add: store_atomic_def)
  from g obtain info' s1 where ch: "changeMultiTxStatus P E g info i res s = Ok (info', s1)"
    by (auto simp: reportChild_def split: option.splits sum.splits)
  obtain st where st: "info_entry info i = Some st" using g(2) by (auto simp: info_entry_def)
  note a' = changeMultiTxStatus_atomic(1)[OF P(1) assms(2) a st ch]
  let ?c0 = "(zero_change P)\<lparr>ch_PrevStatus := ti_GlobalState info, ch_CurStatus := ti_GlobalState info'\<rparr>"
  let ?ns = "go_range (rt_order E 44) (ti_ChildTxInfo info')"
  let ?ch = "(fold (notifyChild i) ?ns ?c0)\<lparr>ch_ChildIBTPIDs := sort (map fst (go_range (rt_order E 45) (ti_ChildTxInfo info')))\<rparr>"
  from g ch have c: "respond P ?ch = Inr c"
    by (auto simp: reportChild_def Let_def)
  let ?inv = "\<lambda>x :: statusChange. ch_PrevStatus x = ti_GlobalState info \<and> ch_CurStatus x = ti_GlobalState info' \<and> ch_NotifyDstIBTPIDs x = []"
  have f: "?inv (fold (notifyChild i) ?ns ?c0)"
  proof (rule fold_invariant[where P = ?inv])
    show "?inv ?c0" by (simp add: zero_change_def)
  next
    fix x and t :: statusChange
    assume x: "x \<in> set ?ns" and t: "?inv t"
    obtain k sk where "x = (k, sk)" by (cases x)
    with x have "info_entry info' k = Some sk" by (simp add: set_go_range[OF runtime_ok_order[OF assms(2)]] info_entry_def)
    then have "child_ok (ti_GlobalState info') sk" using a' by (auto simp: atomic_def)
    with t \<open>x = (k, sk)\<close> show "?inv (notifyChild i x t)" by (auto simp: notifyChild_def Let_def)
  qed
  have "status_wf (ti_GlobalState info)" "status_wf (ti_GlobalState info')"
    using atomic_wf[OF a] atomic_wf[OF a'] by (simp_all add: info_wf_def)
  then obtain d where "respond P ?ch = Inr d" "T_change_Unmarshal P d = Some ?ch"
    using f by (auto intro: respond_ok[OF P(1), of ?ch])
  with c assms(4) f show ?thesis by auto
qed


definition w_failing :: "tm_response \<times> cstore" where
  "w_failing = the (Report wT rt0 (wcx 6) ''a-c-1'' RECEIPT_FAILURE w_multi3)"

definition w_failing_change :: statusChange where
  "w_failing_change = \<lparr>ch_PrevStatus = BEGIN, ch_CurStatus = BEGIN_FAILURE, ch_NotifySrcIBTPIDs = [''a-b-1''],
     ch_NotifyDstIBTPIDs = [], ch_ChildIBTPIDs = [''a-b-1'', ''a-c-1''], ch_IsFailChildIBTP = True\<rparr>"

text \<open>The first child had succeeded, the second one fails: the response notifies no destination.\<close>

theorem report_notifies_no_destination_witness:
  "gget (ti_ChildTxInfo w_info) ''a-b-1'' = Some SUCCESS \<and> getInfo wT ''g'' w_multi3 = Some w_info \<and>
   (\<exists>c s'. Report wT rt0 (wcx 6) ''a-c-1'' RECEIPT_FAILURE w_multi3 = Some (Inr c, s') \<and>
     T_change_Unmarshal wT c = Some w_failing_change \<and> ch_NotifyDstIBTPIDs w_failing_change = [])"
proof -
  obtain c where c: "fst w_failing = Inr c" "T_change_Unmarshal wT c = Some w_failing_change"
  proof -
    have "\<not> Option.is_none (Report wT rt0 (wcx 6) ''a-c-1'' RECEIPT_FAILURE w_multi3)" by code_simp
    have "(case fst w_failing of Inl _ \<Rightarrow> None | Inr c \<Rightarrow> T_change_Unmarshal wT c) = Some w_failing_change" by code_simp
    then show thesis by (cases "fst w_failing") (auto intro: that)
  qed
  have "\<not> Option.is_none (Report wT rt0 (wcx 6) ''a-c-1'' RECEIPT_FAILURE w_multi3)" by code_simp
  then have r: "Report wT rt0 (wcx 6) ''a-c-1'' RECEIPT_FAILURE w_multi3 = Some (Inr c, snd w_failing)"
    using c(1) by (cases "Report wT rt0 (wcx 6) ''a-c-1'' RECEIPT_FAILURE w_multi3") (auto simp: w_failing_def prod_eq_iff)
  have "w_multi3 (TxInfoKey ''a-c-1'') = None" by code_simp
  from report_notifies_no_destination[OF w_multi_reachable runtime_ok_rt0 r c(2) this]
  show ?thesis using r c(2) w_multi3_info by (auto simp: w_info_def)
qed

text \<open>
  C28. When the last id is removed from the list of a height, an id that the contract adds to it later
  does not expire: the list then begins with a comma, and the executor reads it as empty.
\<close>

theorem emptied_list_is_lost:
  assumes "s (TimeoutKey h) = Some g" "CHR '','' \<notin> set g"
  shows "\<exists>s1. removeFromTimeoutList h g s = Some s1 \<and>
    addToTimeoutList h g' s1 (TimeoutKey h) = Some ('','' @ g') \<and>
    getTimeoutList h (addToTimeoutList h g' s1) = []"
proof -
  have "removeFromTimeoutList h g s = Some (s(TimeoutKey h \<mapsto> ''''))"
    using assms drop_value_once[of g "[]" "[]"] by (simp add: removeFromTimeoutList_def split_on_nosep)
  then show ?thesis by (simp add: addToTimeoutList_def getTimeoutList_def Let_def)
qed

theorem emptied_list_is_lost_witness:
  "\<exists>s1. removeFromTimeoutList 15 ''g'' w_multi2 = Some s1 \<and>
    addToTimeoutList 15 ''k'' s1 (TimeoutKey 15) = Some '',k'' \<and> getTimeoutList 15 (addToTimeoutList 15 ''k'' s1) = []"
proof -
  have "w_multi2 (TimeoutKey 15) = Some ''g''" by code_simp
  with emptied_list_is_lost[of w_multi2 15 "''g''" "''k''"] show ?thesis by simp
qed

definition w_timed1 :: cstore where
  "w_timed1 = snd (the (BeginMultiTXs wT rt0 (wcx 5) ''g'' ''1:c1:s1-1:c2:s2-1'' 10 False 2 (\<lambda>_. None)))"

definition w_timed2 :: cstore where
  "w_timed2 = snd (the (BeginMultiTXs wT rt0 (wcx 5) ''g'' ''1:c1:s1-1:c3:s3-1'' 10 False 2 w_timed1))"

lemma w_timed_reachable: "reachable (tm_initial wT) (tm_step wT) w_timed2"
proof -
  obtain r1 where 1: "BeginMultiTXs wT rt0 (wcx 5) ''g'' ''1:c1:s1-1:c2:s2-1'' 10 False 2 (\<lambda>_. None) = Some (r1, w_timed1)"
    using some_pair[OF _ w_timed1_def[symmetric]] by (atomize_elim) (erule meta_mp, code_simp)
  obtain r2 where 2: "BeginMultiTXs wT rt0 (wcx 5) ''g'' ''1:c1:s1-1:c3:s3-1'' 10 False 2 w_timed1 = Some (r2, w_timed2)"
    using some_pair[OF _ w_timed2_def[symmetric]] by (atomize_elim) (erule meta_mp, code_simp)
  have p: "plain ''1:c1:s1-1:c2:s2-1''" "plain ''1:c1:s1-1:c3:s3-1''" by code_simp+
  have "reachable (tm_initial wT) (tm_step wT) (\<lambda>_. None)" by (rule reach_init) (simp add: tm_initial_def)
  then have "reachable (tm_initial wT) (tm_step wT) w_timed1"
    by (rule reach_step) (rule step_begin_multi[OF runtime_ok_rt0 p(1) 1])
  then show ?thesis by (rule reach_step) (rule step_begin_multi[OF runtime_ok_rt0 p(2) 2])
qed

text \<open>
  C29. The ids of the children of a global transaction that expires are collected in the order in which
  the runtime visits a map: two nodes with the same state collect different lists, over which the
  timeout root of the block is computed.
\<close>

theorem timeout_order_depends_on_runtime:
  "\<exists>(E :: runtime) (E' :: runtime) s l l'. runtime_ok E \<and> runtime_ok E' \<and> reachable (tm_initial wT) (tm_step wT) s \<and>
     getTimeoutIBTPsMap wT E 1 15 s = Ok [(''c1'', l)] \<and> getTimeoutIBTPsMap wT E' 1 15 s = Ok [(''c1'', l')] \<and> l \<noteq> l'"
proof (intro exI conjI)
  show "runtime_ok (rt0\<lparr>rt_order := \<lambda>_. rev\<rparr>)" by (simp add: runtime_ok_def rt0_def max_int64_def)
  show "reachable (tm_initial wT) (tm_step wT) w_timed2" by (rule w_timed_reachable)
  show "getTimeoutIBTPsMap wT rt0 1 15 w_timed2 = Ok [(''c1'', [''1:c1:s1-1:c2:s2-1'', ''1:c1:s1-1:c3:s3-1''])]"
    by code_simp
  show "getTimeoutIBTPsMap wT (rt0\<lparr>rt_order := \<lambda>_. rev\<rparr>) 1 15 w_timed2 =
      Ok [(''c1'', [''1:c1:s1-1:c3:s3-1'', ''1:c1:s1-1:c2:s2-1''])]" by code_simp
qed simp_all

end
