(* ===== verification/Exec_Apply.thy ===== *)
theory Exec_Apply
  imports Ledger_Spec Ledger_EVM Exec_Timeout
begin

text \<open>
  How the block executor applies one transaction to the state ledger
  (\<^verbatim>\<open>internal/executor/handle.go\<close>): it runs the transaction between a snapshot and a possible revert,
  charges the gas to the sender and pays it out to the administrators, and raises the nonce. The
  executor is modelled with serial execution; running contract code (the virtual machines and the
  interchain contract) is an argument of the definitions.
\<close>

section \<open>Data\<close>

datatype TransactionData_Type = TD_NORMAL | TD_type int

datatype TransactionData_VMType = VM_BVM | VM_XVM | VM_type int

record transactionData =
  td_Type :: TransactionData_Type
  td_VmType :: TransactionData_VMType
  td_Amount :: string
  td_Payload :: slice

record bxhTransaction =
  bx_From :: address
  bx_To :: address
  bx_Nonce :: u64
  bx_Hash :: hash
  bx_IBTP :: "ibtp option"
  bx_Payload :: slice

datatype exec_error =
  Err_invalid string
| Err_no_data
| Err_bad_data
| Err_wrong_vm
| Err_vm string
| Err_funds address
| Err_balance address int int

record 'b execReceipt = "'b evm_receipt" +
  er_TxHash :: hash
  er_Success :: bool
  er_Ret :: "exec_error + slice"
  er_BeginFailure :: bool
  er_GasUsed :: u64

text \<open>
  The code the executor calls: the encoding of the data of a transaction, the address of a text, the
  bloom filter, and running contract code on the ledger \<^typ>\<open>'l\<close>: the interchain contract on the packet of a
  transaction, and the two virtual machines, each with its error or its value and the gas it used.
\<close>

record ('l, 'b) execext =
  F_data_Unmarshal :: "string \<Rightarrow> transactionData option"
  F_address :: "string \<Rightarrow> address"
  F_bloom0 :: 'b
  F_bloomAdd :: "string \<Rightarrow> 'b \<Rightarrow> 'b"
  F_orBloom :: "'b \<Rightarrow> 'b \<Rightarrow> 'b"
  F_HandleIBTP :: "nat \<Rightarrow> ibtp \<Rightarrow> 'l \<Rightarrow> ((string + slice) \<times> 'l) option"
  F_BVM_Run :: "nat \<Rightarrow> transactionData \<Rightarrow> 'l \<Rightarrow> ((string + slice) \<times> u64 \<times> 'l) option"
  F_XVM_Run :: "nat \<Rightarrow> transactionData \<Rightarrow> 'l \<Rightarrow> ((string + slice) \<times> u64 \<times> 'l) option"
  F_XVM_New :: "nat \<Rightarrow> transactionData \<Rightarrow> string option"

text \<open>The configuration of the executor that applying a transaction reads.\<close>

record execConfig =
  ec_admins :: "string list"
  ec_gasPrice :: int

definition GasNormalTx :: u64 where "GasNormalTx = 21000"
definition GasFailedTx :: u64 where "GasFailedTx = 21000"
definition GasBVMTx :: u64 where "GasBVMTx = 21000 * 10"

text \<open>\<^verbatim>\<open>SetString(s, 10)\<close> of \<^verbatim>\<open>math/big\<close>: digits after an optional sign.\<close>

definition big_digits :: "string \<Rightarrow> int option" where
  "big_digits s = (if s = [] then None else map_option int (undec 0 s))"

definition big_SetString :: "string \<Rightarrow> int option" where
  "big_SetString s =
     (case s of
        [] \<Rightarrow> None
      | c # cs \<Rightarrow>
          if c = CHR ''-'' then map_option uminus (big_digits cs)
          else if c = CHR ''+'' then big_digits cs
          else big_digits s)"

section \<open>Moving balances\<close>

definition transfer where
  "transfer X from to value l =
     (if value = (0 :: int) then Some (None, l)
      else do {
        (fv, l) \<leftarrow> GetBalance X from l;
        if fv < value then Some (Some (Err_funds from), l)
        else do {
          (tv, l) \<leftarrow> GetBalance X to l;
          l \<leftarrow> SetBalance X from (fv - value) l;
          l \<leftarrow> SetBalance X to (tv + value) l;
          Some (None, l)}})"

definition payAdmin where
  "payAdmin X addr fee l = do {
     (balance, l) \<leftarrow> GetBalance X addr l;
     SetBalance X addr (balance + fee) l}"

text \<open>Dividing by the number of administrators panics when there is none.\<close>

definition payAdmins where
  "payAdmins X F c fees l =
     (if ec_admins c = [] then None
      else let fee = fees div int (length (ec_admins c))
           in ofold (\<lambda>admin l. payAdmin X (F_address F admin) fee l) (ec_admins c) l)"

definition payGasFee where
  "payGasFee X F c tx gasUsed l = do {
     let fees = uint (gasUsed :: u64) * ec_gasPrice c;
     (have0, l) \<leftarrow> GetBalance X (bx_From tx) l;
     if have0 < fees then Some (Some (Err_balance (bx_From tx) have0 fees), l)
     else do {
       l \<leftarrow> SetBalance X (bx_From tx) (have0 - fees) l;
       l \<leftarrow> payAdmins X F c fees l;
       Some (None, l)}}"

definition payLeftAsGasFee where
  "payLeftAsGasFee X F c tx l = do {
     (have0, l) \<leftarrow> GetBalance X (bx_From tx) l;
     l \<leftarrow> SetBalance X (bx_From tx) 0 l;
     payAdmins X F c have0 l}"

section \<open>Applying a transaction\<close>

definition applyBxhTransaction where
  "applyBxhTransaction X F i tx invalidReason l =
     (if invalidReason \<noteq> '''' then Some (Inl (Err_invalid invalidReason), GasFailedTx, l)
      else case bx_IBTP tx of
        Some ib \<Rightarrow> do {
          (r, l) \<leftarrow> F_HandleIBTP F i ib l;
          Some (map_sum Err_vm id r, GasBVMTx, l)}
      | None \<Rightarrow>
          (case bx_Payload tx of
             None \<Rightarrow> Some (Inl Err_no_data, GasFailedTx, l)
           | Some payload \<Rightarrow>
               (case F_data_Unmarshal F payload of
                  None \<Rightarrow> Some (Inl Err_bad_data, GasFailedTx, l)
                | Some data0 \<Rightarrow>
                    (let (snapshot, l) = Snapshot l;
                         run = (\<lambda>gas r. do {
                            (r, gasRunUsed, l) \<leftarrow> r;
                            l \<leftarrow> (case r of Inl _ \<Rightarrow> RevertToSnapshot X snapshot l | Inr _ \<Rightarrow> Some l);
                            Some (map_sum Err_vm id r, gas + gasRunUsed, l)})
                     in if td_Type data0 = TD_NORMAL then
                          (let val = (case big_SetString (td_Amount data0) of None \<Rightarrow> 0 | Some v \<Rightarrow> v)
                           in do {
                             (err, l) \<leftarrow> transfer X (bx_From tx) (bx_To tx) val l;
                             case err of
                               None \<Rightarrow> Some (Inr None, GasNormalTx, l)
                             | Some e \<Rightarrow> do {
                                 l \<leftarrow> RevertToSnapshot X snapshot l;
                                 Some (Inl e, GasNormalTx, l)}})
                        else
                          (case td_VmType data0 of
                             VM_BVM \<Rightarrow> run GasBVMTx (F_BVM_Run F i data0 l)
                           | VM_XVM \<Rightarrow>
                               (case F_XVM_New F i data0 of
                                  Some e \<Rightarrow> Some (Inl (Err_vm e), GasFailedTx, l)
                                | None \<Rightarrow> run 0 (F_XVM_Run F i data0 l))
                           | VM_type _ \<Rightarrow> Some (Inl Err_wrong_vm, GasFailedTx, l))))))"

definition applyTransaction where
  "applyTransaction X F c i tx invalidReason l = do {
     let l = PrepareEVM X (bx_Hash tx) (int i) l;
     let (snapshot, l) = Snapshot l;
     (r, gasUsed, l) \<leftarrow> applyBxhTransaction X F i tx invalidReason l;
     let logs = (case r of Inl _ \<Rightarrow> [] | Inr _ \<Rightarrow> GetLogs (bx_Hash tx) l);
     let receipt = \<lparr>rc_EvmLogs = logs,
           rc_Bloom = Some (CreateBloom (F_bloom0 F) (F_bloomAdd F) (F_orBloom F) [\<lparr>rc_EvmLogs = logs, rc_Bloom = None\<rparr>]),
           er_TxHash = bx_Hash tx, er_Success = (case r of Inl _ \<Rightarrow> False | Inr _ \<Rightarrow> True), er_Ret = r,
           er_BeginFailure = (case r of Inr (Some ret) \<Rightarrow> ret = ''begin_failure'' | _ \<Rightarrow> False), er_GasUsed = gasUsed\<rparr>;
     (err, l) \<leftarrow> payGasFee X F c tx gasUsed l;
     (receipt, l) \<leftarrow> (case err of
        None \<Rightarrow> Some (receipt, l)
      | Some e \<Rightarrow> do {
          l \<leftarrow> RevertToSnapshot X snapshot l;
          l \<leftarrow> payLeftAsGasFee X F c tx l;
          Some (receipt\<lparr>er_Success := False, er_Ret := Inl e\<rparr>, l)});
     l \<leftarrow> SetNonce X (bx_From tx) (bx_Nonce tx + 1) l;
     Some (receipt, Finalise True l)}"

end
