(* ===== verification/Exec_Funds.thy ===== *)
theory Exec_Funds
  imports Exec_Apply
begin

text \<open>
  What applying a transaction does to the balances: the operations of the executor move balances in
  the view of the ledger and change nothing else, and their sum changes only by the remainder of
  dividing the gas among the administrators.
\<close>

section \<open>Moving balances in the view\<close>

text \<open>
  The ledger \<^term>\<open>l'\<close> differs from \<^term>\<open>l\<close> in the balances, which are \<^term>\<open>b\<close>, and in the accounts that exist; its
  snapshots are those of \<^term>\<open>l\<close>.
\<close>

definition others :: "aview \<Rightarrow> aview" where
  "others v = v\<lparr>av_exists := \<lambda>_. True, av_balance := \<lambda>_. 0\<rparr>"

definition moved where
  "moved X vs l b l' \<longleftrightarrow> tx_inv X (l', vs) \<and> l_validRevisions l' = l_validRevisions l \<and>
     av_balance (view X l') = b \<and> others (view X l') = others (view X l)"

lemma moved_balance: "moved X vs l b l' \<Longrightarrow> av_balance (view X l') = b"
  by (auto simp: moved_def)

lemma moved_trans: "moved X vs l b l1 \<Longrightarrow> moved X vs l1 b' l2 \<Longrightarrow> moved X vs l b' l2"
  by (auto simp: moved_def)

lemma moved_refl: "tx_inv X (l, vs) \<Longrightarrow> moved X vs l (av_balance (view X l)) l"
  by (simp add: moved_def)

lemma moved_inv: "moved X vs l b l' \<Longrightarrow> tx_inv X (l', vs)"
  by (simp add: moved_def)

lemma op_inv:
  assumes "tx_inv X (l, vs)" "op_guard X op l" "run_op X op l = Some l'"
  shows "tx_inv X (l', vs)" "l_validRevisions l' = l_validRevisions l"
proof -
  show "tx_inv X (l', vs)" by (rule tx_inv_op[OF assms])
  from assms(1) have "ext_ok X" "lwf X l" by (simp_all add: tx_inv_def)
  from run_op_ok[OF this assms(2)] assms(3) show "l_validRevisions l' = l_validRevisions l"
    by (auto simp: tx_ok_def tx_frame_def)
qed

lemma GetBalance_moved:
  assumes "moved X vs l0 b l"
  obtains l' where "GetBalance X a l = Some (b a, l')" "moved X vs l0 b l'"
proof -
  note inv = moved_inv[OF assms]
  from inv have "ext_ok X" "lwf X l" by (simp_all add: tx_inv_def)
  from GetBalance_view(1)[OF this, of a] obtain l' where
    l': "GetBalance X a l = Some (b a, l')" "view X l' = touch a (view X l)" using moved_balance[OF assms] by auto
  then have "run_op X (OpGetBalance a) l = Some l'" by simp
  from op_inv[OF inv _ this] l'(2) assms have "moved X vs l0 b l'" by (auto simp: moved_def touch_def others_def)
  with l'(1) show thesis by (rule that)
qed

lemma SetBalance_moved:
  assumes "moved X vs l0 b l"
  obtains l' where "SetBalance X a x l = Some l'" "moved X vs l0 (b(a := x)) l'"
proof -
  note inv = moved_inv[OF assms]
  from inv have "ext_ok X" "lwf X l" by (simp_all add: tx_inv_def)
  from SetBalance_view(1)[OF this, of a x] obtain l' where
    l': "SetBalance X a x l = Some l'" "view X l' = (touch a (view X l))\<lparr>av_balance := b(a := x)\<rparr>" using moved_balance[OF assms] by auto
  then have "run_op X (OpSetBalance a x) l = Some l'" by simp
  from op_inv[OF inv _ this] l'(2) assms have "moved X vs l0 (b(a := x)) l'" by (auto simp: moved_def touch_def others_def)
  with l'(1) show thesis by (rule that)
qed

section \<open>The operations of the executor\<close>

definition moved_by :: "address \<Rightarrow> address \<Rightarrow> int \<Rightarrow> (address \<Rightarrow> int) \<Rightarrow> address \<Rightarrow> int" where
  "moved_by from to v b = (if v = 0 then b else (b(from := b from - v))(to := b to + v))"

lemma transfer_ok:
  assumes "moved X vs l0 b l" "v = 0 \<or> v \<le> b from"
  obtains l' where "transfer X from to v l = Some (None, l')" "moved X vs l0 (moved_by from to v b) l'"
proof (cases "v = 0")
  case True
  with that[of l] assms(1) show thesis by (simp add: transfer_def moved_by_def)
next
  case False
  obtain l1 where 1: "GetBalance X from l = Some (b from, l1)" "moved X vs l0 b l1" by (rule GetBalance_moved[OF assms(1)])
  obtain l2 where 2: "GetBalance X to l1 = Some (b to, l2)" "moved X vs l0 b l2" by (rule GetBalance_moved[OF 1(2)])
  obtain l3 where 3: "SetBalance X from (b from - v) l2 = Some l3" "moved X vs l0 (b(from := b from - v)) l3"
    by (rule SetBalance_moved[OF 2(2)])
  obtain l4 where 4: "SetBalance X to (b to + v) l3 = Some l4" "moved X vs l0 ((b(from := b from - v))(to := b to + v)) l4"
    by (rule SetBalance_moved[OF 3(2)])
  show thesis using 4(2) False assms(2)
    by (intro that[of l4]) (simp_all add: transfer_def 1 2 3 4 moved_by_def)
qed

lemma transfer_refused:
  assumes "moved X vs l0 b l" "v \<noteq> 0" "b from < v"
  obtains l' where "transfer X from to v l = Some (Some (Err_funds from), l')" "moved X vs l0 b l'"
proof -
  obtain l1 where "GetBalance X from l = Some (b from, l1)" "moved X vs l0 b l1" by (rule GetBalance_moved[OF assms(1)])
  with assms(2,3) show thesis by (intro that[of l1]) (simp_all add: transfer_def)
qed

text \<open>The balances after each of a list of accounts was paid a fee.\<close>

definition paid :: "address list \<Rightarrow> int \<Rightarrow> (address \<Rightarrow> int) \<Rightarrow> address \<Rightarrow> int" where
  "paid as fee b = fold (\<lambda>a b. b(a := b a + fee)) as b"

lemma payAdmin_moved:
  assumes "moved X vs l0 b l"
  obtains l' where "payAdmin X a fee l = Some l'" "moved X vs l0 (b(a := b a + fee)) l'"
proof -
  obtain l1 where 1: "GetBalance X a l = Some (b a, l1)" "moved X vs l0 b l1" by (rule GetBalance_moved[OF assms])
  obtain l2 where "SetBalance X a (b a + fee) l1 = Some l2" "moved X vs l0 (b(a := b a + fee)) l2"
    by (rule SetBalance_moved[OF 1(2)])
  then show thesis by (intro that[of l2]) (simp_all add: payAdmin_def 1)
qed

lemma pay_fold:
  assumes "moved X vs l0 b l"
  shows "\<exists>l'. ofold (\<lambda>admin l. payAdmin X (f admin) fee l) as l = Some l' \<and> moved X vs l0 (paid (map f as) fee b) l'"
  using assms
proof (induction as arbitrary: l b)
  case (Cons a as)
  obtain l1 where 1: "payAdmin X (f a) fee l = Some l1" "moved X vs l0 (b(f a := b (f a) + fee)) l1"
    by (rule payAdmin_moved[OF Cons.prems])
  from Cons.IH[OF 1(2)] 1(1) show ?case by (simp add: paid_def del: fun_upd_apply)
qed (simp add: paid_def)

definition shares where
  "shares F c fees b = paid (map (F_address F) (ec_admins c)) (fees div int (length (ec_admins c))) b"

lemma payAdmins_moved:
  assumes "moved X vs l0 b l" "ec_admins c \<noteq> []"
  obtains l' where "payAdmins X F c fees l = Some l'" "moved X vs l0 (shares F c fees b) l'"
  using pay_fold[OF assms(1), of "F_address F" "fees div int (length (ec_admins c))" "ec_admins c"] assms(2)
  by (auto simp: payAdmins_def shares_def Let_def)

lemma payGasFee_ok:
  assumes "moved X vs l0 b l" "ec_admins c \<noteq> []" "fees = uint gas * ec_gasPrice c" "fees \<le> b (bx_From tx)"
  obtains l' where "payGasFee X F c tx gas l = Some (None, l')"
    "moved X vs l0 (shares F c fees (b(bx_From tx := b (bx_From tx) - fees))) l'"
proof -
  let ?f = "bx_From tx"
  obtain l1 where 1: "GetBalance X ?f l = Some (b ?f, l1)" "moved X vs l0 b l1" by (rule GetBalance_moved[OF assms(1)])
  obtain l2 where 2: "SetBalance X ?f (b ?f - fees) l1 = Some l2" "moved X vs l0 (b(?f := b ?f - fees)) l2"
    by (rule SetBalance_moved[OF 1(2)])
  obtain l3 where 3: "payAdmins X F c fees l2 = Some l3" "moved X vs l0 (shares F c fees (b(?f := b ?f - fees))) l3"
    by (rule payAdmins_moved[OF 2(2) assms(2)])
  show thesis by (rule that[OF _ 3(2)]) (use assms(3,4) in \<open>simp add: payGasFee_def 1 2[unfolded assms(3)] 3[unfolded assms(3)] Let_def\<close>)
qed

lemma payGasFee_refused:
  assumes "moved X vs l0 b l" "fees = uint gas * ec_gasPrice c" "b (bx_From tx) < fees"
  obtains l' where "payGasFee X F c tx gas l = Some (Some (Err_balance (bx_From tx) (b (bx_From tx)) fees), l')"
    "moved X vs l0 b l'"
proof -
  obtain l1 where 1: "GetBalance X (bx_From tx) l = Some (b (bx_From tx), l1)" "moved X vs l0 b l1"
    by (rule GetBalance_moved[OF assms(1)])
  show thesis by (rule that[OF _ 1(2)]) (use assms(2,3) in \<open>simp add: payGasFee_def 1 Let_def\<close>)
qed

lemma payLeft_moved:
  assumes "moved X vs l0 b l" "ec_admins c \<noteq> []"
  obtains l' where "payLeftAsGasFee X F c tx l = Some l'"
    "moved X vs l0 (shares F c (b (bx_From tx)) (b(bx_From tx := 0))) l'"
proof -
  let ?f = "bx_From tx"
  obtain l1 where 1: "GetBalance X ?f l = Some (b ?f, l1)" "moved X vs l0 b l1" by (rule GetBalance_moved[OF assms(1)])
  obtain l2 where 2: "SetBalance X ?f 0 l1 = Some l2" "moved X vs l0 (b(?f := 0)) l2" by (rule SetBalance_moved[OF 1(2)])
  obtain l3 where 3: "payAdmins X F c (b ?f) l2 = Some l3" "moved X vs l0 (shares F c (b ?f) (b(?f := 0))) l3"
    by (rule payAdmins_moved[OF 2(2) assms(2)])
  show thesis by (rule that[OF _ 3(2)]) (simp add: payLeftAsGasFee_def 1 2 3)
qed

section \<open>Sums of balances\<close>

lemma sum_update: "finite S \<Longrightarrow> a \<in> S \<Longrightarrow> sum (b(a := x)) S = sum b S - b a + (x :: int)"
  by (simp add: sum.remove[of S a])

lemma sum_paid:
  assumes "finite S" "set as \<subseteq> S"
  shows "sum (paid as fee b) S = sum b S + int (length as) * fee"
  using assms(2)
proof (induction as arbitrary: b)
  case (Cons a as)
  then show ?case by (simp add: paid_def sum_update[OF assms(1)] algebra_simps del: fun_upd_apply)
qed (simp add: paid_def)

lemma sum_shares:
  assumes "finite S" "F_address F ` set (ec_admins c) \<subseteq> S"
  shows "sum (shares F c fees b) S = sum b S + fees - fees mod int (length (ec_admins c))"
  using sum_paid[OF assms(1), of "map (F_address F) (ec_admins c)"] assms(2)
  by (simp add: shares_def minus_mod_eq_mult_div [symmetric])

lemma sum_moved_by:
  assumes "finite S" "from \<in> S" "to \<in> S" "from \<noteq> to"
  shows "sum (moved_by from to v b) S = sum b S"
  using assms by (simp add: moved_by_def sum_update del: fun_upd_apply) simp

section \<open>A transaction between its snapshots\<close>

lemma Snapshot_inv:
  assumes "tx_inv X (l, vs)" "Snapshot l = (revid, l')"
  shows "tx_inv X (l', vs @ [view X l])" "view X l' = view X l"
    "\<exists>n. l_validRevisions l' = l_validRevisions l @ [\<lparr>rv_id = revid, rv_changerIndex = n\<rparr>]"
  using tx_inv_snapshot[OF assms] assms(2) by (auto simp: Snapshot_def Let_def)

lemma RevertToSnapshot_moved:
  assumes "tx_inv X (l, vs)" "i < length (l_validRevisions l)" "rv_id (l_validRevisions l ! i) = revid"
  obtains l' where "RevertToSnapshot X revid l = Some l'" "view X l' = vs ! i" "tx_inv X (l', take i vs)"
    "l_validRevisions l' = take i (l_validRevisions l)"
  using RevertToSnapshot_valid[OF assms(1,2)] assms(3) by blast

lemma apply_normal:
  assumes "tx_inv X (l, vs)" "bx_IBTP tx = None" "bx_Payload tx = Some p" "F_data_Unmarshal F p = Some d"
    "td_Type d = TD_NORMAL" "v = (case big_SetString (td_Amount d) of None \<Rightarrow> 0 | Some v \<Rightarrow> v)"
    "b = av_balance (view X l)" "ok = (v = 0 \<or> v \<le> b (bx_From tx))"
  obtains l' vs' rs where
    "applyBxhTransaction X F i tx '''' l = Some (if ok then Inr None else Inl (Err_funds (bx_From tx)), GasNormalTx, l')"
    "tx_inv X (l', vs @ vs')" "l_validRevisions l' = l_validRevisions l @ rs" "others (view X l') = others (view X l)"
    "av_balance (view X l') = (if ok then moved_by (bx_From tx) (bx_To tx) v b else b)"
proof -
  obtain revid l1 where s: "Snapshot l = (revid, l1)" by fastforce
  note s1 = Snapshot_inv[OF assms(1) s]
  then obtain n where n: "l_validRevisions l1 = l_validRevisions l @ [\<lparr>rv_id = revid, rv_changerIndex = n\<rparr>]" by blast
  have m: "moved X (vs @ [view X l]) l1 b l1" using moved_refl[OF s1(1)] s1(2) assms(7) by simp
  note ap = applyBxhTransaction_def assms(2-6) s
  show thesis
  proof (cases ok)
    case True
    then obtain l2 where l2: "transfer X (bx_From tx) (bx_To tx) v l1 = Some (None, l2)"
      "moved X (vs @ [view X l]) l1 (moved_by (bx_From tx) (bx_To tx) v b) l2"
      using transfer_ok[OF m] assms(8) by metis
    show thesis
    proof (rule that[of l2 "[view X l]" "[\<lparr>rv_id = revid, rv_changerIndex = n\<rparr>]"])
      show "applyBxhTransaction X F i tx '''' l = Some (if ok then Inr None else Inl (Err_funds (bx_From tx)), GasNormalTx, l2)"
        using l2(1) True by (simp add: ap)
    qed (use l2(2) n s1(2) True in \<open>simp_all add: moved_def\<close>)
  next
    case False
    then obtain l2 where l2: "transfer X (bx_From tx) (bx_To tx) v l1 = Some (Some (Err_funds (bx_From tx)), l2)"
      "moved X (vs @ [view X l]) l1 b l2"
      using transfer_refused[OF m] assms(8) by (metis linorder_not_less)
    have len: "length vs = length (l_validRevisions l)" using assms(1) by (simp add: tx_inv_def)
    obtain l3 where l3: "RevertToSnapshot X revid l2 = Some l3" "view X l3 = (vs @ [view X l]) ! length vs"
      "tx_inv X (l3, take (length vs) (vs @ [view X l]))" "l_validRevisions l3 = take (length vs) (l_validRevisions l2)"
      by (rule RevertToSnapshot_moved[OF moved_inv[OF l2(2)], of "length vs" revid])
        (use l2(2) n len in \<open>simp_all add: moved_def nth_append\<close>)
    have v3: "view X l3 = view X l" using l3(2) by (simp add: nth_append)
    have r3: "l_validRevisions l3 = l_validRevisions l" using l3(4) l2(2) n len by (simp add: moved_def)
    show thesis
    proof (rule that[of l3 "[]" "[]"])
      show "applyBxhTransaction X F i tx '''' l = Some (if ok then Inr None else Inl (Err_funds (bx_From tx)), GasNormalTx, l3)"
        using l2(1) l3(1) False by (simp add: ap)
    qed (use l3(3) v3 r3 False assms(7) in simp_all)
  qed
qed

lemma PrepareEVM_view:
  "others (view X (PrepareEVM X h i l)) = (others (view X l))\<lparr>av_addrs := al_ContainsAddress (X_access X) (al_New (X_access X)),
     av_slots := has_slot (X_access X) (al_New (X_access X))\<rparr>"
  "av_balance (view X (PrepareEVM X h i l)) = av_balance (view X l)"
  by (simp_all add: PrepareEVM_def view_def Let_def others_def)

lemma Finalise_fields:
  "l_accounts (Finalise b l) = l_accounts l" "l_accountCache (Finalise b l) = l_accountCache l" "l_ldb (Finalise b l) = l_ldb l"
  by (simp_all add: Finalise_def ClearChangerAndRefund_def alloc_changer_def)

lemma Finalise_view:
  "av_balance (view X (Finalise b l)) = av_balance (view X l)" "av_nonce (view X (Finalise b l)) = av_nonce (view X l)"
  "av_code (view X (Finalise b l)) = av_code (view X l)" "av_state (view X (Finalise b l)) = av_state (view X l)"
  by (simp_all add: view_def Let_def Finalise_fields)

lemma others_sel:
  "others v = others w \<Longrightarrow> av_nonce v = av_nonce w" "others v = others w \<Longrightarrow> av_code v = av_code w"
  "others v = others w \<Longrightarrow> av_state v = av_state w"
proof -
  have "av_nonce v = av_nonce (others v)" "av_code v = av_code (others v)" "av_state v = av_state (others v)" for v
    by (simp_all add: others_def)
  then show "others v = others w \<Longrightarrow> av_nonce v = av_nonce w" "others v = others w \<Longrightarrow> av_code v = av_code w"
    "others v = others w \<Longrightarrow> av_state v = av_state w" by metis+
qed


text \<open>
  Charging the gas: when the sender cannot pay it, the transaction is reverted and the sender pays what
  is left.
\<close>

lemma settle:
  assumes m2: "moved X ([v0] @ vs') l2 b1 l2" and r2: "l_validRevisions l2 = \<lparr>rv_id = revid, rv_changerIndex = n\<rparr> # rs"
    and adm: "ec_admins c \<noteq> []" and fees: "fees = uint gas * ec_gasPrice c"
    and o2: "others (view X l2) = others v0" and b: "av_balance v0 = b"
  obtains e l4 l5 where "payGasFee X F c tx gas l2 = Some (e, l4)"
    "(case e of None \<Rightarrow> Some l4 | Some e \<Rightarrow> RevertToSnapshot X revid l4 \<bind> payLeftAsGasFee X F c tx) = Some l5"
    "e = None \<longleftrightarrow> fees \<le> b1 (bx_From tx)" "ext_ok X" "lwf X l5" "others (view X l5) = others v0"
    "av_balance (view X l5) = (if fees \<le> b1 (bx_From tx) then shares F c fees (b1(bx_From tx := b1 (bx_From tx) - fees))
       else shares F c (b (bx_From tx)) (b(bx_From tx := 0)))"
proof (cases "fees \<le> b1 (bx_From tx)")
  case True
  obtain l4 where l4: "payGasFee X F c tx gas l2 = Some (None, l4)"
    "moved X ([v0] @ vs') l2 (shares F c fees (b1(bx_From tx := b1 (bx_From tx) - fees))) l4"
    by (rule payGasFee_ok[OF m2 adm fees True])
  show thesis by (rule that[OF l4(1), of l4]) (use l4(2) True o2 in \<open>simp_all add: moved_def tx_inv_def\<close>)
next
  case False
  then have lt: "b1 (bx_From tx) < fees" by simp
  obtain l4 where l4: "payGasFee X F c tx gas l2 = Some (Some (Err_balance (bx_From tx) (b1 (bx_From tx)) fees), l4)"
    "moved X ([v0] @ vs') l2 b1 l4" by (rule payGasFee_refused[OF m2 fees lt])
  have r4: "l_validRevisions l4 = \<lparr>rv_id = revid, rv_changerIndex = n\<rparr> # rs" using l4(2) r2 by (simp add: moved_def)
  obtain l5 where l5: "RevertToSnapshot X revid l4 = Some l5" "view X l5 = v0" "tx_inv X (l5, [])"
    by (rule RevertToSnapshot_moved[OF moved_inv[OF l4(2)], of 0 revid]) (simp_all add: r4)
  have m5: "moved X [] l5 b l5" using moved_refl[OF l5(3)] l5(2) b by simp
  obtain l6 where l6: "payLeftAsGasFee X F c tx l5 = Some l6"
    "moved X [] l5 (shares F c (b (bx_From tx)) (b(bx_From tx := 0))) l6" by (rule payLeft_moved[OF m5 adm])
  show thesis by (rule that[OF l4(1), of l6]) (use l5 l6 False in \<open>simp_all add: moved_def tx_inv_def\<close>)
qed

text \<open>A transaction whose data is a transfer, applied to a ledger between two transactions.\<close>

lemma applyTransaction_normal:
  assumes init: "tx_initial X (l, [])" and tx: "bx_IBTP tx = None" "bx_Payload tx = Some p" "F_data_Unmarshal F p = Some d"
    "td_Type d = TD_NORMAL" and v: "v = (case big_SetString (td_Amount d) of None \<Rightarrow> 0 | Some v \<Rightarrow> v)"
    and adm: "ec_admins c \<noteq> []" and b: "b = av_balance (view X l)" and ok: "ok = (v = 0 \<or> v \<le> b (bx_From tx))"
    and b1: "b1 = (if ok then moved_by (bx_From tx) (bx_To tx) v b else b)" and fees: "fees = 21000 * ec_gasPrice c"
  obtains r l' where "applyTransaction X F c i tx '''' l = Some (r, l')"
    "er_Success r \<longleftrightarrow> ok \<and> fees \<le> b1 (bx_From tx)"
    "av_balance (view X l') = (if fees \<le> b1 (bx_From tx) then shares F c fees (b1(bx_From tx := b1 (bx_From tx) - fees))
       else shares F c (b (bx_From tx)) (b(bx_From tx := 0)))"
    "av_nonce (view X l') = (av_nonce (view X l))(bx_From tx := bx_Nonce tx + 1)"
    "av_code (view X l') = av_code (view X l)" "av_state (view X l') = av_state (view X l)"
proof -
  define l0 where "l0 = PrepareEVM X (bx_Hash tx) (int i) l"
  have i0: "tx_inv X (l0, [])" "l_validRevisions l0 = []"
    using init by (auto simp: l0_def PrepareEVM_def tx_initial_def tx_inv_def revs_wf_def)
  have v0: "av_balance (view X l0) = b" "av_nonce (view X l0) = av_nonce (view X l)"
    "av_code (view X l0) = av_code (view X l)" "av_state (view X l0) = av_state (view X l)"
    by (simp_all add: l0_def PrepareEVM_def view_def Let_def b)
  obtain revid l1 where s: "Snapshot l0 = (revid, l1)" by fastforce
  note s1 = Snapshot_inv[OF i0(1) s]
  then obtain n where n: "l_validRevisions l1 = [\<lparr>rv_id = revid, rv_changerIndex = n\<rparr>]" using i0(2) by auto
  have bl1: "b = av_balance (view X l1)" using s1(2) v0(1) by simp
  obtain l2 vs' rs where ap: "applyBxhTransaction X F i tx '''' l1 =
      Some (if ok then Inr None else Inl (Err_funds (bx_From tx)), GasNormalTx, l2)"
    "tx_inv X (l2, ([] @ [view X l0]) @ vs')" "l_validRevisions l2 = l_validRevisions l1 @ rs"
    "others (view X l2) = others (view X l1)" "av_balance (view X l2) = b1"
    unfolding b1 by (rule apply_normal[OF s1(1) tx v bl1 ok])
  have m2: "moved X ([view X l0] @ vs') l2 b1 l2" using moved_refl[OF ap(2)] ap(5) by simp
  have fees': "fees = uint GasNormalTx * ec_gasPrice c" by (simp add: fees GasNormalTx_def)
  have o2: "others (view X l2) = others (view X l0)" using ap(4) s1(2) by simp
  have r2: "l_validRevisions l2 = \<lparr>rv_id = revid, rv_changerIndex = n\<rparr> # rs" using ap(3) n by simp
  obtain e l4 l5 where pay: "payGasFee X F c tx GasNormalTx l2 = Some (e, l4)"
    "(case e of None \<Rightarrow> Some l4 | Some e \<Rightarrow> RevertToSnapshot X revid l4 \<bind> payLeftAsGasFee X F c tx) = Some l5"
    "e = None \<longleftrightarrow> fees \<le> b1 (bx_From tx)" "ext_ok X" "lwf X l5" "others (view X l5) = others (view X l0)"
    "av_balance (view X l5) = (if fees \<le> b1 (bx_From tx) then shares F c fees (b1(bx_From tx := b1 (bx_From tx) - fees))
       else shares F c (b (bx_From tx)) (b(bx_From tx := 0)))"
    using settle[OF m2 r2 adm fees' o2 v0(1)] by metis
  obtain l7 where l7: "SetNonce X (bx_From tx) (bx_Nonce tx + 1) l5 = Some l7"
    "view X l7 = (touch (bx_From tx) (view X l5))\<lparr>av_nonce := (av_nonce (view X l5))(bx_From tx := bx_Nonce tx + 1)\<rparr>"
    using SetBalance_view(3)[OF pay(4,5)] by blast
  note sel = others_sel[OF pay(6)]
  obtain r where r: "applyTransaction X F c i tx '''' l = Some (r, Finalise True l7)" "er_Success r \<longleftrightarrow> ok \<and> e = None"
  proof (cases e)
    case None
    with pay(2) have "l4 = l5" by simp
    with None that pay(1) l7(1) s ap(1) show thesis
      by (cases ok) (simp_all add: applyTransaction_def l0_def[symmetric] Let_def)
  next
    case (Some x)
    with pay(2) obtain l6 where "RevertToSnapshot X revid l4 = Some l6" "payLeftAsGasFee X F c tx l6 = Some l5"
      by (auto simp: bind_eq_Some_conv)
    with Some that pay(1) l7(1) s ap(1) show thesis
      by (cases ok) (simp_all add: applyTransaction_def l0_def[symmetric] Let_def)
  qed
  show thesis
    by (rule that[OF r(1)]) (use r(2) pay(3,7) sel v0 l7(2) in \<open>simp_all add: Finalise_view touch_def\<close>)
qed

end
