(* ===== verification/Exec_Properties.thy ===== *)
theory Exec_Properties
  imports Exec_Funds Ledger_Runs Txmgr_Instance
begin

text \<open>
  The properties of applying a transaction: what a transfer does, what it does not check, and what a
  transaction costs.
\<close>

section \<open>Transfers\<close>

text \<open>
  C31. A transfer of an amount that is not negative between two accounts returns: if the sender holds
  the amount it is moved, otherwise the transfer is refused and no balance changes; nothing else in
  the ledger changes, and the sum of the balances of any accounts including the two stays.
\<close>

theorem transfer_moves:
  assumes "reachable (tx_initial X) (tx_step X) (l, vs)" "0 \<le> v" "from \<noteq> to" "finite S" "from \<in> S" "to \<in> S"
  shows "\<exists>err l'. transfer X from to v l = Some (err, l') \<and> (err = None \<longleftrightarrow> v = 0 \<or> v \<le> av_balance (view X l) from) \<and>
    av_balance (view X l') = (if err = None then (av_balance (view X l))(from := av_balance (view X l) from - v,
        to := av_balance (view X l) to + v) else av_balance (view X l)) \<and>
    others (view X l') = others (view X l) \<and> sum (av_balance (view X l')) S = sum (av_balance (view X l)) S"
proof -
  let ?b = "av_balance (view X l)"
  have inv: "tx_inv X (l, vs)" by (rule txrun.reachable_inv[OF assms(1)])
  show ?thesis
  proof (cases "v = 0 \<or> v \<le> ?b from")
    case True
    obtain l' where l': "transfer X from to v l = Some (None, l')" "moved X vs l (moved_by from to v ?b) l'"
      by (rule transfer_ok[where v = v, OF moved_refl[OF inv] True])
    have "moved_by from to v ?b = ?b(from := ?b from - v, to := ?b to + v)" by (auto simp: moved_by_def)
    then show ?thesis using l' True sum_moved_by[OF assms(4-6,3), of v ?b] by (auto simp: moved_def)
  next
    case False
    then have "v \<noteq> 0" "?b from < v" by auto
    from transfer_refused[OF moved_refl[OF inv] this] obtain l' where
      "transfer X from to v l = Some (Some (Err_funds from), l')" "moved X vs l ?b l'" by metis
    with False show ?thesis by (auto simp: moved_def)
  qed
qed

definition wb :: address where
  "wb = Address ''account2''"

lemma w_set_balance: "av_balance (view wX w_set) wa = 5"
proof -
  have "gget (l_accounts w_set) (X_addrString wX wa) = Some (snd (hd (l_accounts w_set)))"
    by (simp add: w_set_accounts wX_def wa_def)
  from view_sel(2)[OF this] show ?thesis by (simp add: w_set_accounts acc_GetBalance_def)
qed

theorem transfer_moves_witness:
  "\<exists>err l'. transfer wX wa wb 3 w_set = Some (err, l') \<and> err = None \<and> av_balance (view wX l') wa = 2 \<and>
     sum (av_balance (view wX l')) {wa, wb} = sum (av_balance (view wX w_set)) {wa, wb}"
  using transfer_moves[OF w_reach, of 3 wa wb "{wa, wb}"] w_set_balance by (auto simp: wa_def wb_def)

text \<open>
  C32. What a transfer does not check. A transfer of an account to itself adds the amount to its
  balance; a transfer of a negative amount, which every sender may ask for, takes the amount from
  the receiver and gives it to the sender.
\<close>

theorem transfer_unchecked:
  assumes "reachable (tx_initial X) (tx_step X) (l, vs)" "from \<noteq> to" "0 < v" "v \<le> av_balance (view X l) from"
    "w < 0" "w \<le> av_balance (view X l) from"
  shows "(\<exists>l'. transfer X from from v l = Some (None, l') \<and> av_balance (view X l') from = av_balance (view X l) from + v) \<and>
    (\<exists>l'. transfer X from to w l = Some (None, l') \<and>
       av_balance (view X l') from = av_balance (view X l) from + \<bar>w\<bar> \<and>
       av_balance (view X l') to = av_balance (view X l) to - \<bar>w\<bar>)"
proof -
  let ?b = "av_balance (view X l)"
  have m: "moved X vs l ?b l" by (rule moved_refl[OF txrun.reachable_inv[OF assms(1)]])
  obtain l1 where l1: "transfer X from from v l = Some (None, l1)" "moved X vs l (moved_by from from v ?b) l1"
    by (rule transfer_ok[OF m, of v]) (use assms(4) in auto)
  obtain l2 where l2: "transfer X from to w l = Some (None, l2)" "moved X vs l (moved_by from to w ?b) l2"
    by (rule transfer_ok[OF m, of w]) (use assms(6) in auto)
  show ?thesis using l1 l2 assms(2,3,5) moved_balance[OF l1(2)] moved_balance[OF l2(2)] by (simp add: moved_by_def)
qed

theorem transfer_unchecked_witness:
  "(\<exists>l'. transfer wX wa wa 4 w_set = Some (None, l') \<and> av_balance (view wX l') wa = 9) \<and>
   (\<exists>l'. transfer wX wa wb (-7) w_set = Some (None, l') \<and> av_balance (view wX l') wa = 12)"
  using transfer_unchecked[OF w_reach, of wa wb 4 "-7"] w_set_balance by (auto simp: wa_def wb_def)

section \<open>Transactions\<close>


definition w_rich :: w_ledger where
  "w_rich = the (SetBalance wX wa 50000 w_new)"

definition wF :: "(w_ledger, unit) execext" where
  "wF = \<lparr>F_data_Unmarshal = (\<lambda>s. Some \<lparr>td_Type = TD_NORMAL, td_VmType = VM_BVM, td_Amount = s, td_Payload = None\<rparr>),
     F_address = Address, F_bloom0 = (), F_bloomAdd = (\<lambda>_ b. b), F_orBloom = (\<lambda>a b. a),
     F_HandleIBTP = (\<lambda>_ _ l. Some (Inr None, l)), F_BVM_Run = (\<lambda>_ _ l. Some (Inr None, 0, l)),
     F_XVM_Run = (\<lambda>_ _ l. Some (Inr None, 0, l)), F_XVM_New = (\<lambda>_ _. None)\<rparr>"

definition wc :: execConfig where
  "wc = \<lparr>ec_admins = [''admin1'', ''admin2'', ''admin3''], ec_gasPrice = 1\<rparr>"

definition w_payment :: bxhTransaction where
  "w_payment = \<lparr>bx_From = wa, bx_To = wb, bx_Nonce = 0, bx_Hash = ''h'', bx_IBTP = None, bx_Payload = Some ''300''\<rparr>"

lemma w_rich_initial: "tx_initial wX (w_rich, [])" "av_balance (view wX w_rich) wa = 50000"
proof -
  have i: "tx_inv wX (w_new, [])"
    by (rule tx_inv_initial) (simp add: tx_initial_def wX_ok w_new_lwf w_new_fields)
  obtain l' where l': "SetBalance wX wa 50000 w_new = Some l'" "moved wX [] w_new ((av_balance (view wX w_new))(wa := 50000)) l'"
    by (rule SetBalance_moved[OF moved_refl[OF i]])
  then have "w_rich = l'" by (simp add: w_rich_def)
  with l'(2) moved_balance[OF l'(2)] show "tx_initial wX (w_rich, [])" "av_balance (view wX w_rich) wa = 50000"
    by (auto simp: moved_def tx_inv_def tx_initial_def w_new_fields)
qed


end
