(* ===== verification/Interchain.thy ===== *)
theory Interchain
  imports Exec_Timeout
begin

text \<open>
  The interchain contract (\<^verbatim>\<open>internal/executor/contracts/interchain.go\<close>): it checks a packet, has the
  transaction manager begin or report the transaction, notifies the chains, and counts requests and
  receipts per pair of services. The transaction manager is called on its own definitions; the other
  contracts (service manager, appchain manager, broker), none of whose methods used here calls back,
  are arguments over a state \<^typ>\<open>'w\<close>.

  A method returns its response and the new state, or \<^term>\<open>None\<close> when it panics.
\<close>

section \<open>Data\<close>

record interchain =
  ic_ID :: string
  ic_InterchainCounter :: "(string, u64) gomap"
  ic_ReceiptCounter :: "(string, u64) gomap"
  ic_SourceInterchainCounter :: "(string, u64) gomap"
  ic_SourceReceiptCounter :: "(string, u64) gomap"

record chainService =
  cs_BxhId :: string
  cs_ChainId :: string
  cs_ServiceId :: string
  cs_IsLocal :: bool

record eventWrapper =
  ew_IsBatch :: bool
  ew_Index :: u64

text \<open>The events: which chains are notified, and the audit event with the data and the chain it concerns.\<close>

datatype ic_event =
  Interchain_event "(string, eventWrapper) gomap"
| Audit_event string string

datatype ic_error =
  InvalidServiceId string
| NoBitXHubID
| ParseSourceError ic_error
| ParseDestError ic_error
| ProofError string
| SourceServiceNotAvailable string
| TargetServiceNotAvailable string
| TargetServiceNoPermission string string
| TargetBitXHubNotAvailable string
| SourceBitXHubNotAvailable string
| NotInCurBXH string
| IllegalType IBTP_Type
| IndexExist u64 u64
| IndexWrong u64 u64
| TransactionError tm_error
| UnmarshalChange
| GlobalIdError
| NoInterchain string
| WrongIBTPID string
| NonexistentIBTP string
| UnmarshalIBTP
| MarshalError
| NoServiceCache string

text \<open>
  The code the contract calls: the encodings of its objects (decoding a message of \<^verbatim>\<open>protobuf\<close> merges
  it into the receiver); of \<^verbatim>\<open>pb\<close> the id and the two hubs of a packet and which sides a change
  notifies; what it asks of a service, of type \<^typ>\<open>'sv\<close>; and the other contracts.
\<close>

record ('sv, 'w) icext = ibext +
  I_Marshal :: "interchain \<Rightarrow> string option"
  I_Unmarshal :: "string \<Rightarrow> interchain \<Rightarrow> interchain option"
  I_ibtp_Marshal :: "ibtp \<Rightarrow> slice"
  I_ibtp_Unmarshal :: "string \<Rightarrow> ibtp option"
  I_hash_json :: "string \<Rightarrow> string option"
  I_hash_unjson :: "string \<Rightarrow> string option"
  I_string_unjson :: "string \<Rightarrow> string option"
  I_notify_json :: "(string, string list) gomap \<Rightarrow> string option"
  I_notify_unjson :: "string \<Rightarrow> (string, string list) gomap option"
  I_group_json :: "(string, u64) gomap \<Rightarrow> string option"
  I_sha256 :: "string \<Rightarrow> string"
  I_ID :: "ibtp \<Rightarrow> string"
  I_fromBxh :: "ibtp \<Rightarrow> string"
  I_toBxh :: "ibtp \<Rightarrow> string"
  I_NotifyFlags :: "statusChange \<Rightarrow> bool \<times> bool"
  I_service_json :: "'sv \<Rightarrow> string option"
  I_service_unjson :: "string \<Rightarrow> 'sv option"
  I_Ordered :: "'sv \<Rightarrow> bool"
  I_IsAvailable :: "'sv \<Rightarrow> bool"
  I_CheckPermission :: "'sv \<Rightarrow> string \<Rightarrow> bool"
  I_GetServiceInfo :: "string \<Rightarrow> 'w \<Rightarrow> string + string"
  I_IsAvailableBitxhub :: "string \<Rightarrow> 'w \<Rightarrow> string + string"
  I_RecordInvokeService :: "string \<Rightarrow> string \<Rightarrow> bool \<Rightarrow> 'w \<Rightarrow> 'w"
  I_InvokeInterchain :: "slice \<Rightarrow> 'w \<Rightarrow> slice \<times> 'w"
  I_InvokeReceipt :: "slice \<Rightarrow> 'w \<Rightarrow> 'w"

text \<open>
  The state: what the contract and the transaction manager store, the state of the other contracts
  and the events posted so far.
\<close>

record 'w icstate =
  is_store :: cstore
  is_txmgr :: cstore
  is_world :: 'w
  is_events :: "ic_event list"

text \<open>What the contract reads from its stub, and its cache of services.\<close>

record 'sv icctx =
  cx_Callee :: string
  cx_CurrentHeight :: u64
  cx_TxIndex :: u64
  cx_TxHash :: string
  cx_EnableAudit :: bool
  cx_ServiceCache :: "(string, 'sv) gomap"

section \<open>Keys and ids\<close>

definition BitXHubID :: string where "BitXHubID = ''bitxhub-id''"

definition serviceKey :: "string \<Rightarrow> string" where "serviceKey i = ''service-'' @ i"

definition IndexMapKey :: "string \<Rightarrow> string" where "IndexMapKey i = ''index-tx-'' @ i"

definition IndexReceiptMapKey :: "string \<Rightarrow> string" where "IndexReceiptMapKey i = ''index-receipt-tx-'' @ i"

definition MultiTxNotifyKey :: "u64 \<Rightarrow> string" where "MultiTxNotifyKey height = ''multitx-'' @ fmt_d height"

definition getFullServiceId :: "chainService \<Rightarrow> string" where
  "getFullServiceId cs = cs_BxhId cs @ '':'' @ cs_ChainId cs @ '':'' @ cs_ServiceId cs"

definition getChainServiceId :: "chainService \<Rightarrow> string" where
  "getChainServiceId cs = cs_ChainId cs @ '':'' @ cs_ServiceId cs"

definition getBitXHubID :: "cstore \<Rightarrow> ic_error + string" where
  "getBitXHubID s = (case s BitXHubID of None \<Rightarrow> Inl NoBitXHubID | Some val \<Rightarrow> Inr val)"

definition parseChainService :: "string \<Rightarrow> cstore \<Rightarrow> ic_error + chainService" where
  "parseChainService i s =
     (case split_on (CHR '':'') i of
        [a, b, c] \<Rightarrow>
          (case getBitXHubID s of
             Inl err \<Rightarrow> Inl err
           | Inr bxhId \<Rightarrow> Inr \<lparr>cs_BxhId = a, cs_ChainId = b, cs_ServiceId = c, cs_IsLocal = (a = bxhId)\<rparr>)
      | _ \<Rightarrow> Inl (InvalidServiceId i))"

definition genGlobalTxID :: "('sv, 'w, 'z) icext_scheme \<Rightarrow> ibtp \<Rightarrow> stringUint64Map \<Rightarrow> (ic_error + string) option" where
  "genGlobalTxID X ib grp = do {
     m \<leftarrow> ofold (\<lambda>(i, key) m. if i < length (sm_Vals grp) then Some (gset key (sm_Vals grp ! i) m) else None)
            (List.enumerate 0 (sm_Keys grp)) [];
     Some (case I_group_json X m of
             None \<Rightarrow> Inl GlobalIdError
           | Some data \<Rightarrow> Inr (I_sha256 X (ib_From ib @ data)))}"

section \<open>Counters\<close>

definition getInterchain :: "('sv, 'w, 'z) icext_scheme \<Rightarrow> string \<Rightarrow> cstore \<Rightarrow> interchain option" where
  "getInterchain X i s =
     (let interchain = \<lparr>ic_ID = i, ic_InterchainCounter = [], ic_ReceiptCounter = [],
            ic_SourceInterchainCounter = [], ic_SourceReceiptCounter = []\<rparr>
      in case s (serviceKey i) of
           None \<Rightarrow> Some interchain
         | Some data \<Rightarrow> I_Unmarshal X data interchain)"

definition setInterchain :: "('sv, 'w, 'z) icext_scheme \<Rightarrow> string \<Rightarrow> interchain \<Rightarrow> cstore \<Rightarrow> cstore option" where
  "setInterchain X i interchain s =
     (case I_Marshal X interchain of None \<Rightarrow> None | Some data \<Rightarrow> Some (s(serviceKey i \<mapsto> data)))"

definition checkIndex :: "u64 \<Rightarrow> u64 \<Rightarrow> ic_error option" where
  "checkIndex exp0 cur =
     (if cur < exp0 then Some (IndexExist exp0 cur)
      else if cur > exp0 then Some (IndexWrong exp0 cur)
      else None)"

definition setDestInterchain ::
  "('sv, 'w, 'z) icext_scheme \<Rightarrow> string \<Rightarrow> string \<Rightarrow> u64 \<Rightarrow> interchain \<Rightarrow> cstore \<Rightarrow> cstore option" where
  "setDestInterchain X from to index interchain s = do {
     s \<leftarrow> setInterchain X from (interchain\<lparr>ic_ReceiptCounter := gset to index (ic_ReceiptCounter interchain)\<rparr>) s;
     ic \<leftarrow> getInterchain X to s;
     setInterchain X to (ic\<lparr>ic_SourceReceiptCounter := gset from index (ic_SourceReceiptCounter ic)\<rparr>) s}"

section \<open>Services\<close>

definition getServiceCache :: "'sv icctx \<Rightarrow> string \<Rightarrow> 'sv option" where
  "getServiceCache cx key = gget (cx_ServiceCache cx) key"

definition InitServiceCache :: "'sv icctx \<Rightarrow> 'sv icctx" where
  "InitServiceCache cx = cx\<lparr>cx_ServiceCache := []\<rparr>"

definition GetServiceCache :: "('sv, 'w, 'z) icext_scheme \<Rightarrow> 'sv icctx \<Rightarrow> string \<Rightarrow> ic_error + string" where
  "GetServiceCache X cx key =
     (case getServiceCache cx key of
        None \<Rightarrow> Inl (NoServiceCache key)
      | Some service \<Rightarrow> (case I_service_json X service of None \<Rightarrow> Inl MarshalError | Some data \<Rightarrow> Inr data))"

definition getServiceByID :: "('sv, 'w, 'z) icext_scheme \<Rightarrow> 'sv icctx \<Rightarrow> string \<Rightarrow> 'w \<Rightarrow> 'sv option" where
  "getServiceByID X cx i w =
     (case getServiceCache cx i of
        Some service \<Rightarrow> Some service
      | None \<Rightarrow> (case I_GetServiceInfo X i w of Inl _ \<Rightarrow> None | Inr data \<Rightarrow> I_service_unjson X data))"

definition checkBitXHubAvailability :: "('sv, 'w, 'z) icext_scheme \<Rightarrow> string \<Rightarrow> 'w \<Rightarrow> bool" where
  "checkBitXHubAvailability X i w =
     (case I_IsAvailableBitxhub X i w of Inl _ \<Rightarrow> False | Inr result \<Rightarrow> result \<noteq> ''false'')"

definition checkServiceAvailability :: "('sv, 'w, 'z) icext_scheme \<Rightarrow> 'sv icctx \<Rightarrow> string \<Rightarrow> 'w \<Rightarrow> bool" where
  "checkServiceAvailability X cx i w =
     (case getServiceByID X cx i w of None \<Rightarrow> False | Some service \<Rightarrow> I_IsAvailable X service)"

definition checkSourceAvailability ::
  "('sv, 'w, 'z) icext_scheme \<Rightarrow> 'sv icctx \<Rightarrow> chainService \<Rightarrow> 'w \<Rightarrow> ic_error option" where
  "checkSourceAvailability X cx src w =
     (if checkServiceAvailability X cx (getChainServiceId src) w then None
      else Some (SourceServiceNotAvailable (getChainServiceId src)))"

definition checkTargetAvailability ::
  "('sv, 'w, 'z) icext_scheme \<Rightarrow> 'sv icctx \<Rightarrow> chainService \<Rightarrow> chainService \<Rightarrow> IBTP_Type \<Rightarrow> 'w \<Rightarrow> bool \<times> ic_error option" where
  "checkTargetAvailability X cx src dst typ w =
     (if typ = INTERCHAIN then
        (if cs_IsLocal dst then
           (if cs_ChainId dst = cs_BxhId dst then (False, None)
            else case getServiceByID X cx (getChainServiceId dst) w of
              None \<Rightarrow> (False, Some (TargetServiceNotAvailable (getChainServiceId dst)))
            | Some service \<Rightarrow>
                if \<not> I_IsAvailable X service then (False, Some (TargetServiceNotAvailable (getChainServiceId dst)))
                else if \<not> I_CheckPermission X service (getFullServiceId src)
                then (False, Some (TargetServiceNoPermission (getFullServiceId src) (getFullServiceId dst)))
                else (\<not> I_Ordered X service, None))
         else if \<not> checkBitXHubAvailability X (cs_BxhId dst) w
         then (False, Some (TargetBitXHubNotAvailable (cs_BxhId dst)))
         else (False, None))
      else (False, None))"

section \<open>Checking a packet\<close>

definition checkTxStatusForSourceBxh ::
  "('sv, 'w, 'z) icext_scheme \<Rightarrow> ibtp \<Rightarrow> cstore \<Rightarrow> ic_error + bool" where
  "checkTxStatusForSourceBxh X ib s =
     (if I_fromBxh X ib = I_toBxh X ib \<or> P_Category X (ib_Type ib) = RESPONSE then Inr False
      else
        let ok = (case s (IndexMapKey (I_ID X ib)) of None \<Rightarrow> False | Some data \<Rightarrow> I_string_unjson X data \<noteq> None)
        in if ok then
             (case T_proof_Unmarshal X (ib_Extra ib) of
                None \<Rightarrow> Inl (ProofError (I_ID X ib))
              | Some txStatus \<Rightarrow> Inr (txStatus = BEGIN_FAILURE \<or> txStatus = BEGIN_ROLLBACK))
           else Inr False)"

text \<open>
  The request branch of \<^verbatim>\<open>checkIBTP\<close>: whether the packet is a batch, and the error of the target, which
  does not stop the packet.
\<close>

definition checkRequest ::
  "('sv, 'w, 'z) icext_scheme \<Rightarrow> 'sv icctx \<Rightarrow> ibtp \<Rightarrow> chainService \<Rightarrow> chainService \<Rightarrow> interchain \<Rightarrow> 'w \<Rightarrow>
     ic_error + bool \<times> ic_error option" where
  "checkRequest X cx ib src dst interchain w =
     (let (isBatch, targetError) = checkTargetAvailability X cx src dst (ib_Type ib) w;
          index = (if isBatch then Inr (isBatch, targetError)
             else case checkIndex (gget0 0 (ic_InterchainCounter interchain) (getFullServiceId dst) + 1) (ib_Index ib) of
                    Some err \<Rightarrow> Inl err
                  | None \<Rightarrow> Inr (isBatch, targetError))
      in if cs_IsLocal src then
           (case checkSourceAvailability X cx src w of Some err \<Rightarrow> Inl err | None \<Rightarrow> index)
         else if \<not> cs_IsLocal dst then Inl (NotInCurBXH (I_ID X ib))
         else if \<not> checkBitXHubAvailability X (cs_BxhId src) w then Inl (SourceBitXHubNotAvailable (cs_BxhId src))
         else index)"

text \<open>The branch for a response or a notification; reading a source service that is not found panics.\<close>

definition checkResponse ::
  "('sv, 'w, 'z) icext_scheme \<Rightarrow> 'sv icctx \<Rightarrow> ibtp \<Rightarrow> chainService \<Rightarrow> chainService \<Rightarrow> interchain \<Rightarrow> 'w \<Rightarrow>
     (ic_error + bool \<times> ic_error option) option" where
  "checkResponse X cx ib src dst interchain w =
     (let index = (\<lambda>isBatch.
            case checkIndex (gget0 0 (ic_ReceiptCounter interchain) (getFullServiceId dst) + 1) (ib_Index ib) of
              Some err \<Rightarrow> Inl err
            | None \<Rightarrow> Inr (isBatch, None))
      in if cs_IsLocal src then
           (case getServiceByID X cx (getChainServiceId src) w of
              None \<Rightarrow> None
            | Some service \<Rightarrow> Some (index (\<not> I_Ordered X service)))
         else if \<not> cs_IsLocal dst then Some (Inl (NotInCurBXH (I_ID X ib)))
         else Some (index False))"

definition checkIBTP ::
  "('sv, 'w, 'z) icext_scheme \<Rightarrow> 'sv icctx \<Rightarrow> ibtp \<Rightarrow> 'w icstate \<Rightarrow>
     (ic_error + interchain \<times> bool \<times> ic_error option) option" where
  "checkIBTP X cx ib st =
     (case parseChainService (ib_From ib) (is_store st) of
        Inl err \<Rightarrow> Some (Inl (ParseSourceError err))
      | Inr src \<Rightarrow>
          (case parseChainService (ib_To ib) (is_store st) of
             Inl err \<Rightarrow> Some (Inl (ParseDestError err))
           | Inr dst \<Rightarrow> do {
               interchain \<leftarrow> getInterchain X (getFullServiceId src) (is_store st);
               r \<leftarrow> (case checkTxStatusForSourceBxh X ib (is_store st) of
                  Inl err \<Rightarrow> Some (Inl err)
                | Inr isNotification \<Rightarrow>
                    if P_Category X (ib_Type ib) = REQUEST \<and> \<not> isNotification
                    then Some (checkRequest X cx ib src dst interchain (is_world st))
                    else if P_Category X (ib_Type ib) = RESPONSE \<or> isNotification
                    then checkResponse X cx ib src dst interchain (is_world st)
                    else Some (Inl (IllegalType (ib_Type ib))));
               Some (map_sum id (Pair interchain) r)}))"

section \<open>The transaction manager\<close>

definition txmgr_ctx :: "'sv icctx \<Rightarrow> tmctx" where
  "txmgr_ctx cx = \<lparr>tc_CurrentCaller = cx_Callee cx, tc_CurrentHeight = cx_CurrentHeight cx\<rparr>"

text \<open>The change in the response of the transaction manager.\<close>

definition changeOf :: "('sv, 'w, 'z) icext_scheme \<Rightarrow> tm_response \<times> cstore \<Rightarrow> 'w icstate \<Rightarrow>
     (ic_error + statusChange) \<times> 'w icstate" where
  "changeOf X = (\<lambda>(res, tm) st.
     (case res of
        Inl err \<Rightarrow> Inl (TransactionError err)
      | Inr data \<Rightarrow> (case T_change_Unmarshal X data of None \<Rightarrow> Inl UnmarshalChange | Some change \<Rightarrow> Inr change),
      st\<lparr>is_txmgr := tm\<rparr>))"

definition beginTransaction ::
  "('sv, 'w, 'z) icext_scheme \<Rightarrow> 'e runtime_scheme \<Rightarrow> 'sv icctx \<Rightarrow> ibtp \<Rightarrow> bool \<Rightarrow> 'w icstate \<Rightarrow>
     ((ic_error + statusChange) \<times> 'w icstate) option" where
  "beginTransaction X E cx ib isFailed st =
     (let txId = getIBTPID (ib_From ib) (ib_To ib) (ib_Index ib);
          timeoutHeight = of_int (ib_TimeoutHeight ib)
      in if I_fromBxh X ib \<noteq> I_toBxh X ib then
           (case getBitXHubID (is_store st) of
              Inl err \<Rightarrow> Some (Inl err, st)
            | Inr currentBxhId \<Rightarrow>
                Some (changeOf X (BeginInterBitXHub X (txmgr_ctx cx) txId
                  (if currentBxhId = I_fromBxh X ib then 0 else timeoutHeight) (ib_Extra ib) isFailed (is_txmgr st)) st))
         else
           (case ib_Group ib of
              None \<Rightarrow> Some (changeOf X (Begin X (txmgr_ctx cx) txId timeoutHeight isFailed (is_txmgr st)) st)
            | Some grp \<Rightarrow> do {
                g \<leftarrow> genGlobalTxID X ib grp;
                case g of
                  Inl err \<Rightarrow> Some (Inl err, st)
                | Inr globalID \<Rightarrow> do {
                    r \<leftarrow> BeginMultiTXs X E (txmgr_ctx cx) globalID (I_ID X ib) timeoutHeight isFailed
                           (of_nat (length (sm_Keys grp))) (is_txmgr st);
                    Some (changeOf X r st)}}))"

definition reportTransaction ::
  "('sv, 'w, 'z) icext_scheme \<Rightarrow> 'e runtime_scheme \<Rightarrow> 'sv icctx \<Rightarrow> ibtp \<Rightarrow> 'w icstate \<Rightarrow>
     ((ic_error + statusChange) \<times> 'w icstate) option" where
  "reportTransaction X E cx ib st = do {
     r \<leftarrow> Report X E (txmgr_ctx cx) (getIBTPID (ib_From ib) (ib_To ib) (ib_Index ib)) (ib_Type ib) (is_txmgr st);
     Some (changeOf X r st)}"

section \<open>Notifying the chains\<close>

text \<open>The results of \<^verbatim>\<open>ParseIBTPID\<close> and \<^verbatim>\<open>ParseFullServiceID\<close> are used whether or not there was an error.\<close>

definition chainOf :: "('sv, 'w, 'z) icext_scheme \<Rightarrow> string \<Rightarrow> string" where
  "chainOf X service = (case P_ParseFullServiceID X service of None \<Rightarrow> '''' | Some (_, chainID, _) \<Rightarrow> chainID)"

definition addToMultiTxNotifyMap ::
  "('sv, 'w, 'z) icext_scheme \<Rightarrow> u64 \<Rightarrow> string list \<Rightarrow> bool \<Rightarrow> cstore \<Rightarrow> cstore option" where
  "addToMultiTxNotifyMap X height ibtpIDs toSrc s =
     (if ibtpIDs = [] then Some s
      else
        let notifyMap = (case s (MultiTxNotifyKey height) of
               None \<Rightarrow> []
             | Some data \<Rightarrow> (case I_notify_unjson X data of None \<Rightarrow> [] | Some m \<Rightarrow> m));
            (from, to) = (case P_ParseIBTPID X (hd ibtpIDs) of None \<Rightarrow> ('''', '''') | Some (f, t, _) \<Rightarrow> (f, t));
            notifyMap' = (if toSrc
               then gset (chainOf X from) (gget0 [] notifyMap (chainOf X from) @ ibtpIDs) notifyMap
               else fold (\<lambda>ibtpID m. gset (chainOf X to) (gget0 [] m (chainOf X to) @ [ibtpID]) m) ibtpIDs notifyMap)
        in (case I_notify_json X notifyMap' of
              None \<Rightarrow> None
            | Some data \<Rightarrow> Some (s(MultiTxNotifyKey height \<mapsto> data))))"

definition notifySrcDst ::
  "('sv, 'w, 'z) icext_scheme \<Rightarrow> 'sv icctx \<Rightarrow> ibtp \<Rightarrow> statusChange \<Rightarrow> bool \<Rightarrow> 'w icstate \<Rightarrow> 'w icstate option" where
  "notifySrcDst X cx ib change isBatch st =
     (case (parseChainService (ib_From ib) (is_store st), parseChainService (ib_To ib) (is_store st)) of
        (Inr src, Inr dst) \<Rightarrow>
          let wrapper = \<lparr>ew_IsBatch = isBatch, ew_Index = cx_TxIndex cx\<rparr>;
              (notifySrc, notifyDst) = I_NotifyFlags X change
          in do {
            (m, s) \<leftarrow> (if notifySrc then
                (if cs_IsLocal src then do {
                   s \<leftarrow> addToMultiTxNotifyMap X (cx_CurrentHeight cx) (ch_NotifySrcIBTPIDs change) True (is_store st);
                   Some (gset (cs_ChainId src) wrapper [], s)}
                 else Some (gset DEFAULT_UNION_PIER_ID wrapper [], is_store st))
              else Some ([], is_store st));
            (m, s) \<leftarrow> (if notifyDst then
                (if cs_IsLocal dst then do {
                   s \<leftarrow> addToMultiTxNotifyMap X (cx_CurrentHeight cx) (ch_NotifyDstIBTPIDs change) False s;
                   Some (if ch_IsFailChildIBTP change then m else gset (cs_ChainId dst) wrapper m, s)}
                 else Some (gset DEFAULT_UNION_PIER_ID wrapper m, s))
              else Some (m, s));
            Some (st\<lparr>is_store := s, is_events := is_events st @ [Interchain_event m]\<rparr>)}
      | _ \<Rightarrow> None)"

section \<open>Recording a packet\<close>

definition recordService :: "('sv, 'w, 'z) icext_scheme \<Rightarrow> string \<Rightarrow> string \<Rightarrow> bool \<Rightarrow> 'w icstate \<Rightarrow> 'w icstate" where
  "recordService X from to result st = st\<lparr>is_world := I_RecordInvokeService X to from result (is_world st)\<rparr>"

text \<open>The loop over the children ends at the first id that cannot be parsed; what it wrote stays.\<close>

fun handleMultiIbtpInterchain ::
  "('sv, 'w, 'z) icext_scheme \<Rightarrow> string list \<Rightarrow> chainService \<Rightarrow> ibtp \<Rightarrow> TransactionStatus \<Rightarrow> 'w icstate \<Rightarrow>
     (bool \<times> 'w icstate) option" where
  "handleMultiIbtpInterchain X [] src ib globalState st = Some (True, st)"
| "handleMultiIbtpInterchain X (ibtpId # rest) src ib globalState st =
     (case P_ParseIBTPID X ibtpId of
        None \<Rightarrow> Some (False, st)
      | Some (from, to, index) \<Rightarrow> do {
          fromInterchain \<leftarrow> getInterchain X from (is_store st);
          s \<leftarrow> setDestInterchain X from to index fromInterchain (is_store st);
          let st = st\<lparr>is_store := s\<rparr>;
          let st = (if cs_ChainId src = cs_BxhId src
             then st\<lparr>is_world := I_InvokeReceipt X (I_ibtp_Marshal X ib) (is_world st)\<rparr> else st);
          handleMultiIbtpInterchain X rest src ib globalState
            (recordService X from to (globalState \<noteq> FAILURE) st)})"

text \<open>\<^verbatim>\<open>SetObject\<close> and \<^verbatim>\<open>AddObject\<close> of a hash.\<close>

definition setHash :: "('sv, 'w, 'z) icext_scheme \<Rightarrow> 'sv icctx \<Rightarrow> string \<Rightarrow> cstore \<Rightarrow> cstore option" where
  "setHash X cx key s = (case I_hash_json X (cx_TxHash cx) of None \<Rightarrow> None | Some data \<Rightarrow> Some (s(key \<mapsto> data)))"

definition processRequest ::
  "('sv, 'w, 'z) icext_scheme \<Rightarrow> 'sv icctx \<Rightarrow> ibtp \<Rightarrow> interchain \<Rightarrow> chainService \<Rightarrow> 'w icstate \<Rightarrow>
     (slice option \<times> 'w icstate) option" where
  "processRequest X cx ib interchain dst st = do {
     s \<leftarrow> setInterchain X (ib_From ib) (interchain\<lparr>ic_InterchainCounter :=
            gset (ib_To ib) (gget0 0 (ic_InterchainCounter interchain) (ib_To ib) + 1) (ic_InterchainCounter interchain)\<rparr>)
            (is_store st);
     s \<leftarrow> setHash X cx (IndexMapKey (getIBTPID (ib_From ib) (ib_To ib) (ib_Index ib))) s;
     if cs_ChainId dst = cs_BxhId dst then
       (let (result, w) = I_InvokeInterchain X (I_ibtp_Marshal X ib) (is_world st)
        in Some (Some result, st\<lparr>is_store := s, is_world := w\<rparr>))
     else do {
       ic \<leftarrow> getInterchain X (ib_To ib) s;
       s \<leftarrow> setInterchain X (ib_To ib) (ic\<lparr>ic_SourceInterchainCounter :=
              gset (ib_From ib) (ib_Index ib) (ic_SourceInterchainCounter ic)\<rparr>) s;
       Some (None, st\<lparr>is_store := s\<rparr>)}}"

definition processResponse ::
  "('sv, 'w, 'z) icext_scheme \<Rightarrow> 'sv icctx \<Rightarrow> ibtp \<Rightarrow> interchain \<Rightarrow> bool \<Rightarrow> TransactionStatus \<Rightarrow> string list \<Rightarrow>
     chainService \<Rightarrow> 'w icstate \<Rightarrow> (slice option \<times> 'w icstate) option" where
  "processResponse X cx ib interchain isNotification curStatus childIbtps src st = do {
     (ok, st) \<leftarrow> (if T_IsFinalStatus X curStatus then
         (if childIbtps \<noteq> [] then handleMultiIbtpInterchain X childIbtps src ib curStatus st
          else do {
            s \<leftarrow> setDestInterchain X (ib_From ib) (ib_To ib) (ib_Index ib) interchain (is_store st);
            Some (True, recordService X (ib_From ib) (ib_To ib)
              (\<not> (ib_Type ib = RECEIPT_FAILURE \<or> isNotification)) (st\<lparr>is_store := s\<rparr>))})
       else Some (True, st));
     if \<not> ok then Some (Some None, st)
     else do {
       s \<leftarrow> setHash X cx (IndexReceiptMapKey (getIBTPID (ib_From ib) (ib_To ib) (ib_Index ib))) (is_store st);
       Some (None, st\<lparr>is_store := s\<rparr>)}}"

text \<open>
  \<^verbatim>\<open>ProcessIBTP\<close>: a branch that returns early gives its value. The services and the proof have been
  parsed by \<^verbatim>\<open>checkIBTP\<close>; an error in the proof reads as no notification.
\<close>

definition ProcessIBTP ::
  "('sv, 'w, 'z) icext_scheme \<Rightarrow> 'sv icctx \<Rightarrow> ibtp \<Rightarrow> interchain \<Rightarrow> bool \<Rightarrow> bool \<Rightarrow> TransactionStatus \<Rightarrow> string list \<Rightarrow>
     'w icstate \<Rightarrow> (slice \<times> 'w icstate) option" where
  "ProcessIBTP X cx ib interchain isTargetFail isBatch curStatus childIbtps st =
     (case (parseChainService (ib_From ib) (is_store st), parseChainService (ib_To ib) (is_store st)) of
        (Inr src, Inr dst) \<Rightarrow>
          let isNotification = (case checkTxStatusForSourceBxh X ib (is_store st) of Inl _ \<Rightarrow> False | Inr b \<Rightarrow> b)
          in do {
            (early, st) \<leftarrow> (if P_Category X (ib_Type ib) = REQUEST \<and> \<not> isNotification
               then processRequest X cx ib interchain dst st
               else processResponse X cx ib interchain isNotification curStatus childIbtps src st);
            Some (case early of
                Some ret \<Rightarrow> ret
              | None \<Rightarrow> if isBatch then Some ''batch_ibtp'' else if isTargetFail then Some ''begin_failure'' else None, st)}
      | _ \<Rightarrow> None)"

section \<open>Methods\<close>

definition postAuditInterchainEvent :: "string \<Rightarrow> 'w icstate \<Rightarrow> ic_error + 'w icstate" where
  "postAuditInterchainEvent fullServiceID st =
     (case is_store st (serviceKey fullServiceID) of
        None \<Rightarrow> Inl (NoInterchain fullServiceID)
      | Some interchainData \<Rightarrow>
          (case parseChainService fullServiceID (is_store st) of
             Inl err \<Rightarrow> Inl err
           | Inr cs \<Rightarrow> Inr (st\<lparr>is_events := is_events st @ [Audit_event interchainData (cs_ChainId cs)]\<rparr>)))"

text \<open>A list of audit events, the first error ends it; without auditing there is none.\<close>

fun postAudit :: "'sv icctx \<Rightarrow> string list \<Rightarrow> 'w icstate \<Rightarrow> ic_error option \<times> 'w icstate" where
  "postAudit cx [] st = (None, st)"
| "postAudit cx (i # is) st =
     (if \<not> cx_EnableAudit cx then (None, st)
      else case postAuditInterchainEvent i st of Inl err \<Rightarrow> (Some err, st) | Inr st' \<Rightarrow> postAudit cx is st')"

text \<open>\<^verbatim>\<open>HandleIBTP\<close> once the transaction manager has accepted the packet.\<close>

definition finishIBTP ::
  "('sv, 'w, 'z) icext_scheme \<Rightarrow> 'sv icctx \<Rightarrow> ibtp \<Rightarrow> interchain \<Rightarrow> bool \<Rightarrow> ic_error option \<Rightarrow> statusChange \<Rightarrow>
     'w icstate \<Rightarrow> ((ic_error + slice) \<times> 'w icstate) option" where
  "finishIBTP X cx ib interchain isBatch targetErr change st = do {
     st \<leftarrow> notifySrcDst X cx ib change isBatch st;
     (ret, st) \<leftarrow> ProcessIBTP X cx ib interchain (targetErr \<noteq> None) isBatch
        (ch_CurStatus change) (ch_ChildIBTPIDs change) st;
     let (err, st) = postAudit cx [ib_From ib, ib_To ib] st;
     Some (case err of Some e \<Rightarrow> Inl e | None \<Rightarrow> Inr ret, st)}"

definition HandleIBTP ::
  "('sv, 'w, 'z) icext_scheme \<Rightarrow> 'e runtime_scheme \<Rightarrow> 'sv icctx \<Rightarrow> ibtp \<Rightarrow> 'w icstate \<Rightarrow>
     ((ic_error + slice) \<times> 'w icstate) option" where
  "HandleIBTP X E cx ib st = do {
     r \<leftarrow> checkIBTP X cx ib st;
     case r of
       Inl err \<Rightarrow> Some (Inl err, st)
     | Inr (interchain, isBatch, targetErr) \<Rightarrow> do {
         (c, st) \<leftarrow> (if P_Category X (ib_Type ib) = REQUEST then beginTransaction X E cx ib (targetErr \<noteq> None) st
                    else if P_Category X (ib_Type ib) = RESPONSE then reportTransaction X E cx ib st
                    else None);
         case c of
           Inl err \<Rightarrow> Some (Inl err, st)
         | Inr change \<Rightarrow> finishIBTP X cx ib interchain isBatch targetErr change st}}"

definition HandleIBTPData ::
  "('sv, 'w, 'z) icext_scheme \<Rightarrow> 'e runtime_scheme \<Rightarrow> 'sv icctx \<Rightarrow> string \<Rightarrow> 'w icstate \<Rightarrow>
     ((ic_error + slice) \<times> 'w icstate) option" where
  "HandleIBTPData X E cx input st =
     (case I_ibtp_Unmarshal X input of None \<Rightarrow> Some (Inl UnmarshalIBTP, st) | Some ib \<Rightarrow> HandleIBTP X E cx ib st)"

definition Register ::
  "('sv, 'w, 'z) icext_scheme \<Rightarrow> 'sv icctx \<Rightarrow> string \<Rightarrow> 'w icstate \<Rightarrow> ((ic_error + slice) \<times> 'w icstate) option" where
  "Register X cx chainServiceID st =
     (case getBitXHubID (is_store st) of
        Inl err \<Rightarrow> Some (Inl err, st)
      | Inr bxhID \<Rightarrow> do {
          let fullServiceID = bxhID @ '':'' @ chainServiceID;
          interchain \<leftarrow> getInterchain X fullServiceID (is_store st);
          s \<leftarrow> (if is_store st (serviceKey fullServiceID) = None then setInterchain X fullServiceID interchain (is_store st)
               else Some (is_store st));
          let st = st\<lparr>is_store := s\<rparr>;
          case I_Marshal X interchain of
            None \<Rightarrow> Some (Inl MarshalError, st)
          | Some body \<Rightarrow>
              let (err, st) = postAudit cx [fullServiceID] st
              in Some (case err of Some e \<Rightarrow> Inl e | None \<Rightarrow> Inr (Some body), st)})"

definition DeleteInterchain :: "'sv icctx \<Rightarrow> string \<Rightarrow> 'w icstate \<Rightarrow> (ic_error + slice) \<times> 'w icstate" where
  "DeleteInterchain cx i st =
     (let (err, st) = postAudit cx [i] (st\<lparr>is_store := (is_store st)(serviceKey i := None)\<rparr>)
      in (case err of Some e \<Rightarrow> Inl e | None \<Rightarrow> Inr None, st))"

definition GetInterchain :: "string \<Rightarrow> 'w icstate \<Rightarrow> ic_error + slice" where
  "GetInterchain i st =
     (case is_store st (serviceKey i) of None \<Rightarrow> Inl (NoInterchain i) | Some data \<Rightarrow> Inr (Some data))"

definition GetIBTPByID :: "('sv, 'w, 'z) icext_scheme \<Rightarrow> string \<Rightarrow> bool \<Rightarrow> 'w icstate \<Rightarrow> ic_error + slice" where
  "GetIBTPByID X i isReq st =
     (if length (split_on (CHR ''-'') i) \<noteq> 3 then Inl (WrongIBTPID i)
      else case is_store st (if isReq then IndexMapKey i else IndexReceiptMapKey i) of
             None \<Rightarrow> Inl (NonexistentIBTP i)
           | Some data \<Rightarrow>
               (case I_hash_unjson X data of None \<Rightarrow> Inl (NonexistentIBTP i) | Some hash \<Rightarrow> Inr (Some hash)))"

definition GetBitXHubID :: "'w icstate \<Rightarrow> ic_error + slice" where
  "GetBitXHubID st = map_sum id Some (getBitXHubID (is_store st))"

end
