(* ===== verification/Interchain_Index.thy ===== *)
theory Interchain_Index
  imports Interchain Txmgr_Lemmas
begin

text \<open>
  The counters of the interchain contract: which methods leave the counters of requests and the
  recorded requests alone, and the invariant that the recorded indexes of a pair of services are
  those up to its counter.
\<close>

section \<open>The encodings\<close>

definition new_interchain :: "string \<Rightarrow> interchain" where
  "new_interchain i = \<lparr>ic_ID = i, ic_InterchainCounter = [], ic_ReceiptCounter = [],
     ic_SourceInterchainCounter = [], ic_SourceReceiptCounter = []\<rparr>"

text \<open>
  A message that was encoded is decoded, into a fresh one, to the same counters; a hash and a map of
  ids have a JSON text; and every service is an ordered one, as the contract's comment asks.
\<close>

definition icext_ok :: "('sv, 'w, 'z) icext_scheme \<Rightarrow> bool" where
  "icext_ok X \<longleftrightarrow>
     (\<forall>ic i. \<exists>data ic'. I_Marshal X ic = Some data \<and> I_Unmarshal X data (new_interchain i) = Some ic' \<and>
        gget (ic_InterchainCounter ic') = gget (ic_InterchainCounter ic) \<and>
        gget (ic_ReceiptCounter ic') = gget (ic_ReceiptCounter ic) \<and>
        gget (ic_SourceInterchainCounter ic') = gget (ic_SourceInterchainCounter ic) \<and>
        gget (ic_SourceReceiptCounter ic') = gget (ic_SourceReceiptCounter ic)) \<and>
     (\<forall>h. I_hash_json X h \<noteq> None) \<and> (\<forall>m. I_notify_json X m \<noteq> None)"

section \<open>What is recorded\<close>

definition readable :: "('sv, 'w, 'z) icext_scheme \<Rightarrow> cstore \<Rightarrow> bool" where
  "readable X s \<longleftrightarrow> (\<forall>i. getInterchain X i s \<noteq> None)"

definition counter :: "('sv, 'w, 'z) icext_scheme \<Rightarrow> cstore \<Rightarrow> string \<Rightarrow> string \<Rightarrow> u64" where
  "counter X s from to =
     (case getInterchain X from s of None \<Rightarrow> 0 | Some ic \<Rightarrow> gget0 0 (ic_InterchainCounter ic) to)"

text \<open>A change of the store that leaves the counters and the recorded requests alone.\<close>

definition keeps :: "('sv, 'w, 'z) icext_scheme \<Rightarrow> cstore \<Rightarrow> cstore \<Rightarrow> bool" where
  "keeps X s s' \<longleftrightarrow> readable X s' \<and> counter X s' = counter X s \<and> s' BitXHubID = s BitXHubID \<and>
     (\<forall>i. s' (IndexMapKey i) = s (IndexMapKey i))"

lemma keeps_refl: "readable X s \<Longrightarrow> keeps X s s"
  by (simp add: keeps_def)

lemma keeps_trans: "keeps X a b \<Longrightarrow> keeps X b c \<Longrightarrow> keeps X a c"
  by (simp add: keeps_def)

lemma ic_keys [simp]:
  "serviceKey i = serviceKey j \<longleftrightarrow> i = j" "IndexMapKey i = IndexMapKey j \<longleftrightarrow> i = j"
  "serviceKey i \<noteq> IndexMapKey j" "IndexMapKey j \<noteq> serviceKey i"
  "IndexReceiptMapKey i \<noteq> IndexMapKey j" "IndexMapKey j \<noteq> IndexReceiptMapKey i"
  "IndexReceiptMapKey i \<noteq> serviceKey j" "serviceKey j \<noteq> IndexReceiptMapKey i"
  "MultiTxNotifyKey h \<noteq> serviceKey j" "serviceKey j \<noteq> MultiTxNotifyKey h"
  "MultiTxNotifyKey h \<noteq> IndexMapKey j" "IndexMapKey j \<noteq> MultiTxNotifyKey h"
  "BitXHubID \<noteq> serviceKey j" "BitXHubID \<noteq> IndexMapKey j" "BitXHubID \<noteq> IndexReceiptMapKey j" "BitXHubID \<noteq> MultiTxNotifyKey h"
  "MultiTxNotifyKey h \<noteq> BitXHubID" "IndexReceiptMapKey j \<noteq> BitXHubID" "IndexMapKey j \<noteq> BitXHubID" "serviceKey j \<noteq> BitXHubID"
  by (simp_all add: serviceKey_def IndexMapKey_def IndexReceiptMapKey_def MultiTxNotifyKey_def BitXHubID_def)

lemma counterD: "getInterchain X from s = Some ic \<Longrightarrow> gget0 0 (ic_InterchainCounter ic) to = counter X s from to"
  by (simp add: counter_def)

lemma getInterchain_upd:
  "k \<noteq> serviceKey i \<Longrightarrow> getInterchain X i (s(k := v)) = getInterchain X i s"
  by (simp add: getInterchain_def)

lemma keeps_other:
  assumes "readable X s" "\<And>i. k \<noteq> serviceKey i" "\<And>i. k \<noteq> IndexMapKey i" "k \<noteq> BitXHubID"
  shows "keeps X s (s(k := v))"
  using assms by (auto simp: keeps_def readable_def counter_def getInterchain_upd fun_eq_iff)

lemma setInterchain_ok:
  assumes "icext_ok X" "readable X s"
  obtains s' where "setInterchain X i ic s = Some s'" "readable X s'"
    "\<And>f t. counter X s' f t = (if f = i then gget0 0 (ic_InterchainCounter ic) t else counter X s f t)"
    "\<And>j. s' (IndexMapKey j) = s (IndexMapKey j)" "s' BitXHubID = s BitXHubID" "s' (serviceKey i) \<noteq> None"
    "\<And>j. s (serviceKey j) \<noteq> None \<Longrightarrow> s' (serviceKey j) \<noteq> None"
proof -
  obtain data ic' where d: "I_Marshal X ic = Some data" "I_Unmarshal X data (new_interchain i) = Some ic'"
    "gget (ic_InterchainCounter ic') = gget (ic_InterchainCounter ic)"
    using assms(1) unfolding icext_ok_def by metis
  have g: "getInterchain X j (s(serviceKey i \<mapsto> data)) = (if j = i then Some ic' else getInterchain X j s)" for j
    using d(2) by (simp add: getInterchain_def new_interchain_def)
  show thesis
    by (rule that[of "s(serviceKey i \<mapsto> data)"])
      (use assms(2) d(1,3) g in \<open>auto simp: setInterchain_def readable_def counter_def gget0_def\<close>)
qed

lemma setInterchain_keeps:
  assumes "icext_ok X" "readable X s" "\<And>t. gget0 0 (ic_InterchainCounter ic) t = counter X s i t"
  obtains s' where "setInterchain X i ic s = Some s'" "keeps X s s'" "s' (serviceKey i) \<noteq> None"
    "\<And>j. s (serviceKey j) \<noteq> None \<Longrightarrow> s' (serviceKey j) \<noteq> None"
proof -
  obtain s' where "setInterchain X i ic s = Some s'" "readable X s'"
    "\<And>f t. counter X s' f t = (if f = i then gget0 0 (ic_InterchainCounter ic) t else counter X s f t)"
    "\<And>j. s' (IndexMapKey j) = s (IndexMapKey j)" "s' BitXHubID = s BitXHubID" "s' (serviceKey i) \<noteq> None"
    "\<And>j. s (serviceKey j) \<noteq> None \<Longrightarrow> s' (serviceKey j) \<noteq> None"
    by (rule setInterchain_ok[OF assms(1,2)]) blast
  with assms(3) show thesis by (intro that[of s']) (auto simp: keeps_def fun_eq_iff)
qed

lemma setDestInterchain_keeps:
  assumes "icext_ok X" "readable X s" "\<And>t. gget0 0 (ic_InterchainCounter ic) t = counter X s from t"
  obtains s' where "setDestInterchain X from to index ic s = Some s'" "keeps X s s'"
proof -
  obtain s1 where s1: "setInterchain X from (ic\<lparr>ic_ReceiptCounter := gset to index (ic_ReceiptCounter ic)\<rparr>) s = Some s1"
    "keeps X s s1"
    by (rule setInterchain_keeps[OF assms(1,2), of "ic\<lparr>ic_ReceiptCounter := gset to index (ic_ReceiptCounter ic)\<rparr>" "from"])
      (simp_all add: assms(3))
  then have r: "readable X s1" by (simp add: keeps_def)
  then obtain ic2 where ic2: "getInterchain X to s1 = Some ic2" unfolding readable_def by blast
  obtain s2 where s2: "setInterchain X to (ic2\<lparr>ic_SourceReceiptCounter := gset from index (ic_SourceReceiptCounter ic2)\<rparr>) s1 = Some s2"
    "keeps X s1 s2"
    by (rule setInterchain_keeps[OF assms(1) r, of "ic2\<lparr>ic_SourceReceiptCounter := gset from index (ic_SourceReceiptCounter ic2)\<rparr>" to])
      (simp_all add: counterD[OF ic2])
  show thesis by (rule that[of s2]) (use s1 s2 ic2 keeps_trans in \<open>auto simp: setDestInterchain_def\<close>)
qed

section \<open>The steps of a packet\<close>

lemma parse_keeps: "keeps X s s' \<Longrightarrow> parseChainService i s' = parseChainService i s"
proof -
  assume "keeps X s s'"
  then have "getBitXHubID s' = getBitXHubID s" by (simp add: getBitXHubID_def keeps_def)
  then show ?thesis unfolding parseChainService_def by (rule arg_cong)
qed

lemma notification_keeps: "keeps X s s' \<Longrightarrow> checkTxStatusForSourceBxh X ib s' = checkTxStatusForSourceBxh X ib s"
  by (simp add: checkTxStatusForSourceBxh_def keeps_def)

lemma addToMultiTxNotifyMap_keeps:
  assumes "icext_ok X" "readable X s"
  obtains s' where "addToMultiTxNotifyMap X height ids toSrc s = Some s'" "keeps X s s'"
proof (cases "ids = []")
  case True
  then show thesis by (intro that[of s]) (simp_all add: addToMultiTxNotifyMap_def keeps_refl[OF assms(2)])
next
  case False
  have "\<exists>m. addToMultiTxNotifyMap X height ids toSrc s =
     (case I_notify_json X m of None \<Rightarrow> None | Some data \<Rightarrow> Some (s(MultiTxNotifyKey height \<mapsto> data)))"
    using False by (cases toSrc) (simp_all add: addToMultiTxNotifyMap_def Let_def split_def, blast+)
  then obtain m where m: "addToMultiTxNotifyMap X height ids toSrc s =
     (case I_notify_json X m of None \<Rightarrow> None | Some data \<Rightarrow> Some (s(MultiTxNotifyKey height \<mapsto> data)))" by blast
  obtain data where "I_notify_json X m = Some data" using assms(1) unfolding icext_ok_def by (meson not_None_eq)
  with m show thesis by (intro that[of "s(MultiTxNotifyKey height \<mapsto> data)"]) (simp_all add: keeps_other[OF assms(2)])
qed

lemma notifySrcDst_keeps:
  assumes "icext_ok X" "readable X (is_store st)"
    "parseChainService (ib_From ib) (is_store st) = Inr src" "parseChainService (ib_To ib) (is_store st) = Inr dst"
  obtains st' where "notifySrcDst X cx ib change isBatch st = Some st'" "keeps X (is_store st) (is_store st')"
    "is_txmgr st' = is_txmgr st"
proof -
  obtain a b where ab: "I_NotifyFlags X change = (a, b)" by fastforce
  obtain s1 where s1: "addToMultiTxNotifyMap X (cx_CurrentHeight cx) (ch_NotifySrcIBTPIDs change) True (is_store st) = Some s1"
    "keeps X (is_store st) s1" by (rule addToMultiTxNotifyMap_keeps[OF assms(1,2)])
  have r1: "readable X s1" using s1(2) by (simp add: keeps_def)
  obtain s2 where s2: "addToMultiTxNotifyMap X (cx_CurrentHeight cx) (ch_NotifyDstIBTPIDs change) False s1 = Some s2"
    "keeps X s1 s2" by (rule addToMultiTxNotifyMap_keeps[OF assms(1) r1])
  obtain s3 where s3: "addToMultiTxNotifyMap X (cx_CurrentHeight cx) (ch_NotifyDstIBTPIDs change) False (is_store st) = Some s3"
    "keeps X (is_store st) s3" by (rule addToMultiTxNotifyMap_keeps[OF assms(1,2)])
  have "\<exists>st'. notifySrcDst X cx ib change isBatch st = Some st' \<and> keeps X (is_store st) (is_store st') \<and>
    is_txmgr st' = is_txmgr st"
    using s1 s2 s3 keeps_trans[OF s1(2) s2(2)] keeps_refl[OF assms(2)] assms(3,4) ab
    by (simp add: notifySrcDst_def Let_def)
  then show thesis using that by blast
qed

lemma handleMulti_keeps:
  assumes "icext_ok X" "readable X (is_store st)"
  shows "\<exists>b st'. handleMultiIbtpInterchain X ids src ib g st = Some (b, st') \<and>
    keeps X (is_store st) (is_store st') \<and> is_txmgr st' = is_txmgr st"
  using assms(2)
proof (induction ids arbitrary: st)
  case Nil
  then show ?case by (auto simp: keeps_refl intro: exI[of _ True])
next
  case (Cons i rest)
  show ?case
  proof (cases "P_ParseIBTPID X i")
    case None
    with Cons.prems show ?thesis by (auto simp: keeps_refl intro: exI[of _ False])
  next
    case (Some p)
    obtain "from" to index where p: "p = (from, to, index)" by (cases p)
    obtain ic where ic: "getInterchain X from (is_store st) = Some ic" using Cons.prems unfolding readable_def by blast
    obtain s1 where s1: "setDestInterchain X from to index ic (is_store st) = Some s1" "keeps X (is_store st) s1"
      by (rule setDestInterchain_keeps[OF assms(1) Cons.prems counterD[OF ic]])
    define st1 where "st1 = recordService X from to (g \<noteq> FAILURE) (if cs_ChainId src = cs_BxhId src
       then st\<lparr>is_store := s1, is_world := I_InvokeReceipt X (I_ibtp_Marshal X ib) (is_world st)\<rparr> else st\<lparr>is_store := s1\<rparr>)"
    have st1: "is_store st1 = s1" "is_txmgr st1 = is_txmgr st" by (simp_all add: st1_def recordService_def)
    have "readable X (is_store st1)" using s1(2) st1 by (simp add: keeps_def)
    from Cons.IH[OF this] keeps_trans[OF s1(2)] st1 have "\<exists>b st'. handleMultiIbtpInterchain X rest src ib g st1 = Some (b, st') \<and>
      keeps X (is_store st) (is_store st') \<and> is_txmgr st' = is_txmgr st" by auto
    moreover have "handleMultiIbtpInterchain X (i # rest) src ib g st = handleMultiIbtpInterchain X rest src ib g st1"
      using Some p ic s1(1) by (simp add: st1_def)
    ultimately show ?thesis by simp
  qed
qed

lemma setHash_ok:
  assumes "icext_ok X"
  obtains data where "\<And>s. setHash X cx key s = Some (s(key \<mapsto> data))"
proof -
  obtain data where "I_hash_json X (cx_TxHash cx) = Some data" using assms unfolding icext_ok_def by (meson not_None_eq)
  then show thesis by (intro that[of data]) (simp add: setHash_def)
qed

text \<open>What handling a request does to the store: its counter grows by one and its index is recorded.\<close>

definition advances :: "('sv, 'w, 'z) icext_scheme \<Rightarrow> ibtp \<Rightarrow> cstore \<Rightarrow> cstore \<Rightarrow> bool" where
  "advances X ib s s' \<longleftrightarrow> readable X s' \<and> s' BitXHubID = s BitXHubID \<and>
     (\<forall>f t. counter X s' f t = counter X s f t + (if f = ib_From ib \<and> t = ib_To ib then 1 else 0)) \<and>
     (\<forall>j. s' (IndexMapKey j) \<noteq> None \<longleftrightarrow>
        j = getIBTPID (ib_From ib) (ib_To ib) (ib_Index ib) \<or> s (IndexMapKey j) \<noteq> None)"

lemma advances_keeps: "advances X ib a b \<Longrightarrow> keeps X b c \<Longrightarrow> advances X ib a c"
  by (simp add: advances_def keeps_def)

lemma keeps_advances: "keeps X a b \<Longrightarrow> advances X ib b c \<Longrightarrow> advances X ib a c"
  by (simp add: advances_def keeps_def)

lemma processRequest_advances:
  assumes "icext_ok X" "readable X (is_store st)"
    "\<And>t. gget0 0 (ic_InterchainCounter interchain) t = counter X (is_store st) (ib_From ib) t"
  obtains early st' where "processRequest X cx ib interchain dst st = Some (early, st')"
    "advances X ib (is_store st) (is_store st')" "is_txmgr st' = is_txmgr st"
    "cs_ChainId dst \<noteq> cs_BxhId dst \<Longrightarrow> early = None"
proof -
  let ?ic = "interchain\<lparr>ic_InterchainCounter :=
     gset (ib_To ib) (gget0 0 (ic_InterchainCounter interchain) (ib_To ib) + 1) (ic_InterchainCounter interchain)\<rparr>"
  let ?k = "IndexMapKey (getIBTPID (ib_From ib) (ib_To ib) (ib_Index ib))"
  obtain s1 where s1: "setInterchain X (ib_From ib) ?ic (is_store st) = Some s1" "readable X s1"
    "\<And>f t. counter X s1 f t = (if f = ib_From ib then gget0 0 (ic_InterchainCounter ?ic) t else counter X (is_store st) f t)"
    "\<And>j. s1 (IndexMapKey j) = is_store st (IndexMapKey j)" "s1 BitXHubID = is_store st BitXHubID"
    by (rule setInterchain_ok[OF assms(1,2), of "ib_From ib" ?ic]) blast
  obtain data where h: "\<And>s. setHash X cx ?k s = Some (s(?k \<mapsto> data))" by (rule setHash_ok[OF assms(1)]) blast
  define s2 where "s2 = s1(?k \<mapsto> data)"
  have g2: "getInterchain X i s2 = getInterchain X i s1" for i by (simp add: s2_def getInterchain_upd)
  have c1: "counter X s1 f t = counter X (is_store st) f t + (if f = ib_From ib \<and> t = ib_To ib then 1 else 0)" for f t
    using s1(3) assms(3) by (simp add: gget0_def gget_gset)
  have a2: "advances X ib (is_store st) s2"
    using s1(2,4,5) c1 g2 by (auto simp: advances_def readable_def counter_def s2_def)
  have r2: "readable X s2" using a2 by (simp add: advances_def)
  then obtain ic where ic: "getInterchain X (ib_To ib) s2 = Some ic" unfolding readable_def by blast
  let ?ic2 = "ic\<lparr>ic_SourceInterchainCounter := gset (ib_From ib) (ib_Index ib) (ic_SourceInterchainCounter ic)\<rparr>"
  obtain s3 where s3: "setInterchain X (ib_To ib) ?ic2 s2 = Some s3" "keeps X s2 s3"
    by (rule setInterchain_keeps[OF assms(1) r2, of ?ic2 "ib_To ib"]) (simp_all add: counterD[OF ic])
  show thesis
  proof (cases "cs_ChainId dst = cs_BxhId dst")
    case True
    obtain res w where "I_InvokeInterchain X (I_ibtp_Marshal X ib) (is_world st) = (res, w)" by fastforce
    then show thesis using s1(1) h True a2
      by (intro that[of "Some res" "st\<lparr>is_store := s2, is_world := w\<rparr>"]) (simp_all add: processRequest_def s2_def)
  next
    case False
    show thesis using s1(1) h False ic s3 advances_keeps[OF a2 s3(2)]
      by (intro that[of None "st\<lparr>is_store := s3\<rparr>"]) (simp_all add: processRequest_def s2_def)
  qed
qed

lemma processResponse_keeps:
  assumes "icext_ok X" "readable X (is_store st)"
    "\<And>t. gget0 0 (ic_InterchainCounter interchain) t = counter X (is_store st) (ib_From ib) t"
  obtains early st' where "processResponse X cx ib interchain n cur ids src st = Some (early, st')"
    "keeps X (is_store st) (is_store st')" "is_txmgr st' = is_txmgr st"
proof -
  obtain s1 where s1: "setDestInterchain X (ib_From ib) (ib_To ib) (ib_Index ib) interchain (is_store st) = Some s1"
    "keeps X (is_store st) s1" by (rule setDestInterchain_keeps[OF assms])
  obtain b st2 where m: "handleMultiIbtpInterchain X ids src ib cur st = Some (b, st2)"
    "keeps X (is_store st) (is_store st2)" "is_txmgr st2 = is_txmgr st" using handleMulti_keeps[OF assms(1,2)] by blast
  obtain data where h: "\<And>s. setHash X cx (IndexReceiptMapKey (getIBTPID (ib_From ib) (ib_To ib) (ib_Index ib))) s =
     Some (s(IndexReceiptMapKey (getIBTPID (ib_From ib) (ib_To ib) (ib_Index ib)) \<mapsto> data))" by (rule setHash_ok[OF assms(1)]) blast
  have k: "keeps X (is_store st) s \<Longrightarrow> keeps X (is_store st) (s(IndexReceiptMapKey j \<mapsto> data))" for s j
    by (rule keeps_trans, assumption, rule keeps_other) (simp_all add: keeps_def)
  have "\<exists>early st'. processResponse X cx ib interchain n cur ids src st = Some (early, st') \<and>
    keeps X (is_store st) (is_store st') \<and> is_txmgr st' = is_txmgr st"
    using s1 m h k keeps_refl[OF assms(2)] by (cases b) (simp_all add: processResponse_def recordService_def)
  then show thesis using that by blast
qed

lemma ProcessIBTP_effect:
  assumes "icext_ok X" "readable X (is_store st)"
    "\<And>t. gget0 0 (ic_InterchainCounter interchain) t = counter X (is_store st) (ib_From ib) t"
    "parseChainService (ib_From ib) (is_store st) = Inr src" "parseChainService (ib_To ib) (is_store st) = Inr dst"
    "checkTxStatusForSourceBxh X ib (is_store st) = Inr n"
  obtains ret st' where "ProcessIBTP X cx ib interchain f b cur ids st = Some (ret, st')" "is_txmgr st' = is_txmgr st"
    "if P_Category X (ib_Type ib) = REQUEST \<and> \<not> n then advances X ib (is_store st) (is_store st')
     else keeps X (is_store st) (is_store st')"
proof -
  obtain e1 st1 where 1: "processRequest X cx ib interchain dst st = Some (e1, st1)"
    "advances X ib (is_store st) (is_store st1)" "is_txmgr st1 = is_txmgr st" by (rule processRequest_advances[OF assms(1-3)])
  obtain e2 st2 where 2: "processResponse X cx ib interchain n cur ids src st = Some (e2, st2)"
    "keeps X (is_store st) (is_store st2)" "is_txmgr st2 = is_txmgr st" by (rule processResponse_keeps[OF assms(1-3)])
  show thesis
    using 1 2 assms(4-6) that by (cases "P_Category X (ib_Type ib) = REQUEST \<and> \<not> n") (auto simp: ProcessIBTP_def)
qed

section \<open>Handling a packet\<close>

lemma parse_full:
  assumes "parseChainService i s = Inr cs"
  shows "getFullServiceId cs = i"
proof -
  from assms obtain a b c where i: "split_on (CHR '':'') i = [a, b, c]"
    by (auto simp: parseChainService_def split: list.splits)
  have "join_with (CHR '':'') [a, b, c] = i" using join_split[of "CHR '':''" i] by (simp only: i)
  then show ?thesis using assms i by (auto simp: parseChainService_def getFullServiceId_def split: sum.splits)
qed

lemma beginTransaction_store: "beginTransaction X E cx ib failed st = Some (c, st') \<Longrightarrow> is_store st' = is_store st"
  by (auto simp: beginTransaction_def changeOf_def Let_def split_def split: if_splits sum.splits option.splits bind_splits)

lemma reportTransaction_store: "reportTransaction X E cx ib st = Some (c, st') \<Longrightarrow> is_store st' = is_store st"
  by (auto simp: reportTransaction_def changeOf_def split_def split: bind_splits)

lemma postAudit_store: "is_store (snd (postAudit cx is st)) = is_store st" "is_txmgr (snd (postAudit cx is st)) = is_txmgr st"
  by (induction cx "is" st rule: postAudit.induct)
    (auto simp: postAuditInterchainEvent_def split: sum.splits option.splits)

lemma checkIBTP_ok:
  assumes "checkIBTP X cx ib st = Some (Inr (interchain, isBatch, targetErr))"
  obtains src dst n where "parseChainService (ib_From ib) (is_store st) = Inr src"
    "parseChainService (ib_To ib) (is_store st) = Inr dst" "checkTxStatusForSourceBxh X ib (is_store st) = Inr n"
    "getInterchain X (ib_From ib) (is_store st) = Some interchain"
    "P_Category X (ib_Type ib) = REQUEST \<and> \<not> n \<Longrightarrow>
       checkRequest X cx ib src dst interchain (is_world st) = Inr (isBatch, targetErr)"
proof -
  obtain src where src: "parseChainService (ib_From ib) (is_store st) = Inr src"
    using assms by (auto simp: checkIBTP_def split: sum.splits)
  obtain dst where dst: "parseChainService (ib_To ib) (is_store st) = Inr dst"
    using assms src by (auto simp: checkIBTP_def split: sum.splits)
  obtain n where n: "checkTxStatusForSourceBxh X ib (is_store st) = Inr n"
    using assms src dst by (auto simp: checkIBTP_def split: sum.splits bind_splits)
  show thesis
    by (rule that[OF src dst n])
      (use assms src dst n in \<open>auto simp: checkIBTP_def parse_full[OF src] map_sum_def split: sum.splits bind_splits if_splits\<close>)
qed

lemma checkRequest_index:
  assumes "checkRequest X cx ib src dst interchain w = Inr (isBatch, targetErr)" "\<forall>sv. I_Ordered X sv"
  shows "\<not> isBatch" "ib_Index ib = gget0 0 (ic_InterchainCounter interchain) (getFullServiceId dst) + 1"
proof -
  have b: "\<not> fst (checkTargetAvailability X cx src dst (ib_Type ib) w)"
    using assms(2) by (auto simp: checkTargetAvailability_def split: option.splits)
  then show "\<not> isBatch" "ib_Index ib = gget0 0 (ic_InterchainCounter interchain) (getFullServiceId dst) + 1"
    using assms(1)
    by (auto simp: checkRequest_def Let_def split_def checkIndex_def split: if_splits option.splits)
qed

text \<open>Once the transaction manager has accepted a packet the contract does not panic.\<close>

lemma finishIBTP_effect:
  assumes "icext_ok X" "readable X (is_store st)" "parseChainService (ib_From ib) (is_store st) = Inr src"
    "parseChainService (ib_To ib) (is_store st) = Inr dst" "checkTxStatusForSourceBxh X ib (is_store st) = Inr n"
    "getInterchain X (ib_From ib) (is_store st) = Some interchain"
  obtains r st' where "finishIBTP X cx ib interchain isBatch targetErr change st = Some (r, st')" "is_txmgr st' = is_txmgr st"
    "if P_Category X (ib_Type ib) = REQUEST \<and> \<not> n then advances X ib (is_store st) (is_store st')
     else keeps X (is_store st) (is_store st')" "\<not> cx_EnableAudit cx \<Longrightarrow> \<exists>ret. r = Inr ret"
proof -
  obtain st2 where st2: "notifySrcDst X cx ib change isBatch st = Some st2" "keeps X (is_store st) (is_store st2)"
    "is_txmgr st2 = is_txmgr st" by (rule notifySrcDst_keeps[OF assms(1-4)])
  have r2: "readable X (is_store st2)" using st2(2) by (simp add: keeps_def)
  have k2: "gget0 0 (ic_InterchainCounter interchain) t = counter X (is_store st2) (ib_From ib) t" for t
    using counterD[OF assms(6)] st2(2) by (simp add: keeps_def)
  obtain ret st3 where st3: "ProcessIBTP X cx ib interchain (targetErr \<noteq> None) isBatch
      (ch_CurStatus change) (ch_ChildIBTPIDs change) st2 = Some (ret, st3)" "is_txmgr st3 = is_txmgr st2"
    "if P_Category X (ib_Type ib) = REQUEST \<and> \<not> n then advances X ib (is_store st2) (is_store st3)
     else keeps X (is_store st2) (is_store st3)"
    by (rule ProcessIBTP_effect[OF assms(1) r2 k2, unfolded parse_keeps[OF st2(2)] notification_keeps[OF st2(2)], OF assms(3-5)])
  obtain e st4 where a: "postAudit cx [ib_From ib, ib_To ib] st3 = (e, st4)" by fastforce
  have st4: "is_store st4 = is_store st3" "is_txmgr st4 = is_txmgr st3"
    using postAudit_store[of cx "[ib_From ib, ib_To ib]" st3] by (simp_all only: a snd_conv)
  have e: "\<not> cx_EnableAudit cx \<Longrightarrow> e = None" using a by auto
  have "finishIBTP X cx ib interchain isBatch targetErr change st = Some (case e of Some e \<Rightarrow> Inl e | None \<Rightarrow> Inr ret, st4)"
    using st2(1) st3(1) a by (simp add: finishIBTP_def del: postAudit.simps)
  then show thesis
    using st2(3) st3(2,3) st4 e keeps_trans[OF st2(2)] keeps_advances[OF st2(2)]
    by (intro that[of "case e of Some e \<Rightarrow> Inl e | None \<Rightarrow> Inr ret" st4]) (auto split: if_splits)
qed

text \<open>What handling a packet does to the store, whatever it answers.\<close>

lemma HandleIBTP_effect:
  assumes "icext_ok X" "readable X (is_store st)" "\<forall>sv. I_Ordered X sv" "HandleIBTP X E cx ib st = Some (r, st')"
  shows "keeps X (is_store st) (is_store st') \<and>
      \<not> (P_Category X (ib_Type ib) = REQUEST \<and> I_fromBxh X ib = I_toBxh X ib \<and> (\<exists>ret. r = Inr ret)) \<or>
    advances X ib (is_store st) (is_store st') \<and> ib_Index ib = counter X (is_store st) (ib_From ib) (ib_To ib) + 1"
proof -
  have k: "keeps X (is_store st) (is_store st)" by (rule keeps_refl[OF assms(2)])
  obtain c where c: "checkIBTP X cx ib st = Some c" using assms(4) by (cases "checkIBTP X cx ib st") (auto simp: HandleIBTP_def)
  show ?thesis
  proof (cases c)
    case (Inl err)
    then show ?thesis using assms(4) c k by (auto simp: HandleIBTP_def)
  next
    case (Inr p)
    obtain interchain isBatch targetErr where p: "p = (interchain, isBatch, targetErr)" by (cases p)
    from c Inr p have chk: "checkIBTP X cx ib st = Some (Inr (interchain, isBatch, targetErr))" by simp
    obtain src dst n where ok: "parseChainService (ib_From ib) (is_store st) = Inr src"
      "parseChainService (ib_To ib) (is_store st) = Inr dst" "checkTxStatusForSourceBxh X ib (is_store st) = Inr n"
      "getInterchain X (ib_From ib) (is_store st) = Some interchain"
      "P_Category X (ib_Type ib) = REQUEST \<and> \<not> n \<Longrightarrow> checkRequest X cx ib src dst interchain (is_world st) = Inr (isBatch, targetErr)"
      by (rule checkIBTP_ok[OF chk]) blast
    define call where "call = (if P_Category X (ib_Type ib) = REQUEST then beginTransaction X E cx ib (targetErr \<noteq> None) st
      else if P_Category X (ib_Type ib) = RESPONSE then reportTransaction X E cx ib st else None)"
    obtain d st1 where d: "call = Some (d, st1)" using assms(4) chk by (cases call) (auto simp: HandleIBTP_def call_def)
    then have s1: "is_store st1 = is_store st"
      using beginTransaction_store reportTransaction_store by (auto simp: call_def split: if_splits)
    show ?thesis
    proof (cases d)
      case (Inl err)
      then show ?thesis using assms(4) chk d s1 k by (auto simp: HandleIBTP_def call_def)
    next
      case (Inr change)
      obtain r3 st3 where "finishIBTP X cx ib interchain isBatch targetErr change st1 = Some (r3, st3)"
        "if P_Category X (ib_Type ib) = REQUEST \<and> \<not> n then advances X ib (is_store st) (is_store st3)
         else keeps X (is_store st) (is_store st3)"
        by (rule finishIBTP_effect[of X st1, unfolded s1, OF assms(1,2) ok(1-4)])
      moreover have "I_fromBxh X ib = I_toBxh X ib \<Longrightarrow> \<not> n" using ok(3) by (auto simp: checkTxStatusForSourceBxh_def)
      moreover have "P_Category X (ib_Type ib) = REQUEST \<and> \<not> n \<Longrightarrow> ib_Index ib = counter X (is_store st) (ib_From ib) (ib_To ib) + 1"
        using checkRequest_index(2)[OF ok(5) assms(3)] by (simp add: parse_full[OF ok(2)] counterD[OF ok(4)])
      ultimately show ?thesis using assms(4) chk d Inr by (auto simp: HandleIBTP_def call_def split: if_splits)
    qed
  qed
qed

lemma Register_keeps:
  assumes "icext_ok X" "readable X (is_store st)" "Register X cx i st = Some (r, st')"
  shows "keeps X (is_store st) (is_store st')"
proof (cases "getBitXHubID (is_store st)")
  case (Inl err)
  with assms(3) keeps_refl[OF assms(2)] show ?thesis by (auto simp: Register_def)
next
  case (Inr bxhID)
  let ?i = "bxhID @ '':'' @ i"
  obtain ic where ic: "getInterchain X ?i (is_store st) = Some ic" using assms(2) unfolding readable_def by blast
  obtain s1 where s1: "setInterchain X ?i ic (is_store st) = Some s1" "keeps X (is_store st) s1"
    by (rule setInterchain_keeps[OF assms(1,2) counterD[OF ic]])
  define s2 where "s2 = (if is_store st (serviceKey ?i) = None then s1 else is_store st)"
  obtain data where d: "I_Marshal X ic = Some data" using assms(1) unfolding icext_ok_def by metis
  obtain e st4 where a: "postAudit cx [?i] (st\<lparr>is_store := s2\<rparr>) = (e, st4)" by fastforce
  have "is_store st4 = s2" using postAudit_store(1)[of cx "[?i]" "st\<lparr>is_store := s2\<rparr>"] by (simp only: a snd_conv) simp
  moreover have "st' = st4" using assms(3) Inr ic s1(1) d a by (auto simp: Register_def s2_def Let_def simp del: postAudit.simps split: if_splits)
  ultimately show ?thesis using s1(2) keeps_refl[OF assms(2)] by (simp add: s2_def)
qed

section \<open>Runs\<close>

text \<open>
  A run of the contract: packets between services whose ids hold no dash, with an index that is not
  zero; registrations; and whatever the other contracts and the executor do, which leave the store
  of this contract alone.
\<close>

definition no_dash :: "string \<Rightarrow> bool" where
  "no_dash s \<longleftrightarrow> CHR ''-'' \<notin> set s"

definition packet_ok :: "ibtp \<Rightarrow> bool" where
  "packet_ok ib \<longleftrightarrow> no_dash (ib_From ib) \<and> no_dash (ib_To ib) \<and> ib_Index ib \<noteq> 0"

inductive ic_step :: "('sv, 'w, 'z) icext_scheme \<Rightarrow> 'w icstate \<Rightarrow> 'w icstate \<Rightarrow> bool" for X where
  handles: "packet_ok ib \<Longrightarrow> HandleIBTP X (E :: runtime) cx ib st = Some (r, st') \<Longrightarrow> ic_step X st st'"
| registers: "Register X cx i st = Some (r, st') \<Longrightarrow> ic_step X st st'"
| others_run: "is_store st' = is_store st \<Longrightarrow> ic_step X st st'"

definition ic_initial :: "('sv, 'w, 'z) icext_scheme \<Rightarrow> 'w icstate \<Rightarrow> bool" where
  "ic_initial X st \<longleftrightarrow> icext_ok X \<and> (\<forall>sv. I_Ordered X sv) \<and>
     (\<forall>i. is_store st (serviceKey i) = None \<and> is_store st (IndexMapKey i) = None)"

definition ic_inv :: "('sv, 'w, 'z) icext_scheme \<Rightarrow> 'w icstate \<Rightarrow> bool" where
  "ic_inv X st \<longleftrightarrow> icext_ok X \<and> (\<forall>sv. I_Ordered X sv) \<and> readable X (is_store st) \<and>
     (\<forall>from to i. no_dash from \<and> no_dash to \<longrightarrow>
        (is_store st (IndexMapKey (getIBTPID from to i)) \<noteq> None \<longleftrightarrow> 0 < i \<and> i \<le> counter X (is_store st) from to))"

lemma getIBTPID_inject:
  assumes "no_dash a" "no_dash b" "no_dash c" "no_dash d"
  shows "getIBTPID a b i = getIBTPID c d j \<longleftrightarrow> a = c \<and> b = d \<and> i = j"
proof
  have s: "split_on (CHR ''-'') (getIBTPID x y n) = [x, y, fmt_d n]" if "no_dash x" "no_dash y" for x y n
    using that dash_not_digit[of n] by (simp add: getIBTPID_def no_dash_def split_on_append split_on_nosep)
  assume "getIBTPID a b i = getIBTPID c d j"
  then have "[a, b, fmt_d i] = [c, d, fmt_d j]" using s[OF assms(1,2), of i] s[OF assms(3,4), of j] by metis
  then show "a = c \<and> b = d \<and> i = j" by simp
qed simp

lemma word_le_succ: "c + 1 \<noteq> 0 \<Longrightarrow> i \<le> c + 1 \<longleftrightarrow> i \<le> c \<or> i = c + (1 :: u64)"
  using unatSuc[of c] by (simp add: word_le_nat_alt add.commute le_Suc_eq word_unat_eq_iff)

lemma ic_inv_initial: "ic_initial X st \<Longrightarrow> ic_inv X st"
  by (auto simp: ic_initial_def ic_inv_def readable_def counter_def getInterchain_def gget0_def)

lemma ic_inv_keeps: "ic_inv X st \<Longrightarrow> keeps X (is_store st) (is_store st') \<Longrightarrow> ic_inv X st'"
  by (simp add: ic_inv_def keeps_def)

lemma ic_inv_advances:
  assumes "ic_inv X st" "advances X ib (is_store st) (is_store st')" "packet_ok ib"
    "ib_Index ib = counter X (is_store st) (ib_From ib) (ib_To ib) + 1"
  shows "ic_inv X st'"
  unfolding ic_inv_def
proof (intro conjI allI impI)
  fix "from" to i
  assume d: "no_dash from \<and> no_dash to"
  have c: "counter X (is_store st) (ib_From ib) (ib_To ib) + 1 \<noteq> 0" using assms(3,4) by (simp add: packet_ok_def)
  have old: "is_store st (IndexMapKey (getIBTPID from to i)) \<noteq> None \<longleftrightarrow> 0 < i \<and> i \<le> counter X (is_store st) from to"
    using assms(1) d by (simp add: ic_inv_def)
  have "getIBTPID from to i = getIBTPID (ib_From ib) (ib_To ib) (ib_Index ib) \<longleftrightarrow>
      from = ib_From ib \<and> to = ib_To ib \<and> i = ib_Index ib"
    using d assms(3) by (simp add: getIBTPID_inject packet_ok_def)
  then show "is_store st' (IndexMapKey (getIBTPID from to i)) \<noteq> None \<longleftrightarrow> 0 < i \<and> i \<le> counter X (is_store st') from to"
    using assms(2,4) old word_le_succ[OF c, of i] c by (auto simp: advances_def word_gt_0)
qed (use assms(1,2) in \<open>auto simp: ic_inv_def advances_def\<close>)

lemma ic_inv_step:
  assumes "ic_inv X st" "ic_step X st st'"
  shows "ic_inv X st'"
  using assms(2)
proof cases
  case (handles ib E cx r)
  have ok: "icext_ok X" "readable X (is_store st)" "\<forall>sv. I_Ordered X sv" using assms(1) by (auto simp: ic_inv_def)
  from HandleIBTP_effect[OF ok handles(2)] show ?thesis
  proof (elim disjE conjE)
    assume "keeps X (is_store st) (is_store st')"
    then show ?thesis by (rule ic_inv_keeps[OF assms(1)])
  next
    assume "advances X ib (is_store st) (is_store st')" "ib_Index ib = counter X (is_store st) (ib_From ib) (ib_To ib) + 1"
    then show ?thesis by (intro ic_inv_advances[OF assms(1) _ handles(1)])
  qed
next
  case (registers cx i r)
  have "keeps X (is_store st) (is_store st')"
    by (rule Register_keeps[OF _ _ registers]) (use assms(1) in \<open>auto simp: ic_inv_def\<close>)
  then show ?thesis by (rule ic_inv_keeps[OF assms(1)])
next
  case others_run
  then show ?thesis using assms(1) by (simp add: ic_inv_def)
qed

interpretation icrun: invariant_system "ic_initial X" "ic_step X" "ic_inv X"
  by unfold_locales (rule ic_inv_initial, assumption, rule ic_inv_step)

end
