(* ===== verification/Interchain_Properties.thy ===== *)
theory Interchain_Properties
  imports Interchain_Index Txmgr_Instance
begin

text \<open>
  The properties of the interchain contract: requests between two services are handled once and in
  the order of their indexes, and the unguarded method that breaks this.
\<close>

section \<open>An instance\<close>

definition c_counters :: "(string, u64) gomap codec" where
  "c_counters = (enc_list (enc_pair enc_str (fst c_u64)), unc_list (unc_pair unc_str (snd c_u64)))"

definition c_interchain :: "interchain codec" where
  "c_interchain = (enc_pair enc_str (enc_pair (enc_pair (fst c_counters) (fst c_counters)) (enc_pair (fst c_counters) (fst c_counters))) \<circ>
       (\<lambda>x. (ic_ID x, ((ic_InterchainCounter x, ic_ReceiptCounter x), (ic_SourceInterchainCounter x, ic_SourceReceiptCounter x)))),
     unc_map (\<lambda>(i, ((a, b), (c, d))). \<lparr>ic_ID = i, ic_InterchainCounter = a, ic_ReceiptCounter = b,
         ic_SourceInterchainCounter = c, ic_SourceReceiptCounter = d\<rparr>)
       (unc_pair unc_str (unc_pair (unc_pair (snd c_counters) (snd c_counters)) (unc_pair (snd c_counters) (snd c_counters)))))"

lemma coder_interchain: "coder (fst c_interchain) (snd c_interchain)"
  unfolding c_interchain_def c_counters_def fst_conv snd_conv
  by (intro coder_map coder_pair coder_list coder_str coder_basic) simp

definition bxh_part :: "string \<Rightarrow> string" where
  "bxh_part s = hd (split_on (CHR '':'') s)"

definition wI :: "(unit, unit) icext" where
  "wI = ibext.extend wT (icext.fields
     (\<lambda>x. Some (fst c_interchain x)) (\<lambda>data _. whole (snd c_interchain) data) (\<lambda>_. None) (\<lambda>_. None)
     Some Some Some (\<lambda>m. Some ''{}'') (\<lambda>_. Some []) (\<lambda>m. Some ''{}'') (\<lambda>s. s)
     (\<lambda>ib. getIBTPID (ib_From ib) (ib_To ib) (ib_Index ib)) (\<lambda>ib. bxh_part (ib_From ib)) (\<lambda>ib. bxh_part (ib_To ib))
     (\<lambda>_. (False, True)) (\<lambda>_. Some '''') (\<lambda>_. Some ()) (\<lambda>_. True) (\<lambda>_. True) (\<lambda>_ _. True)
     (\<lambda>_ _. Inr '''') (\<lambda>_ _. Inr ''true'') (\<lambda>_ _ _ w. w) (\<lambda>_ w. (None, w)) (\<lambda>_ w. w))"

lemma wI_ok: "icext_ok wI" "tmext_ok wI"
proof -
  have "whole (snd c_interchain) (fst c_interchain x) = Some x" for x
    using coderD[OF coder_interchain, of x "[]"] by (simp add: whole_def)
  then show "icext_ok wI" by (simp add: icext_ok_def wI_def ibext.defs icext.defs)
  show "tmext_ok wI" using wT_ok by (simp add: tmext_ok_def wI_def ibext.defs icext.defs)
qed

definition wic :: "unit icctx" where
  "wic = \<lparr>cx_Callee = ''0xa'', cx_CurrentHeight = 5, cx_TxIndex = 0, cx_TxHash = ''h'', cx_EnableAudit = False, cx_ServiceCache = []\<rparr>"

definition w_packet :: "u64 \<Rightarrow> IBTP_Type \<Rightarrow> ibtp" where
  "w_packet i t = \<lparr>ib_From = ''hub:a:s'', ib_To = ''hub:b:t'', ib_Index = i, ib_Type = t, ib_TimeoutHeight = 10, ib_Group = None, ib_Extra = ''''\<rparr>"

definition w_ic0 :: "unit icstate" where
  "w_ic0 = \<lparr>is_store = [BitXHubID \<mapsto> ''hub''], is_txmgr = (\<lambda>_. None), is_world = (), is_events = []\<rparr>"

definition w_ic1 :: "unit icstate" where
  "w_ic1 = snd (the (HandleIBTP wI rt0 wic (w_packet 1 INTERCHAIN) w_ic0))"

definition w_ic2 :: "unit icstate" where
  "w_ic2 = snd (the (HandleIBTP wI rt0 wic (w_packet 1 RECEIPT_SUCCESS) w_ic1))"

section \<open>The order of requests\<close>


lemma accepted:
  "(case x of Some (Inr None, _) \<Rightarrow> True | _ \<Rightarrow> False) \<Longrightarrow> x = Some (Inr None, snd (the x))"
  by (simp split: option.splits prod.splits sum.splits)

lemma w_handles:
  "HandleIBTP wI rt0 wic (w_packet 1 INTERCHAIN) w_ic0 = Some (Inr None, w_ic1)"
  "HandleIBTP wI rt0 wic (w_packet 1 RECEIPT_SUCCESS) w_ic1 = Some (Inr None, w_ic2)"
  unfolding w_ic1_def w_ic2_def by (rule accepted, code_simp)+

lemma w_ic0_initial: "ic_initial wI w_ic0"
  using wI_ok(1) by (simp add: ic_initial_def w_ic0_def) (simp add: wI_def ibext.defs icext.defs)


section \<open>A replay\<close>

lemma DeleteInterchain_fields:
  assumes "DeleteInterchain cx i st = (r, st')"
  shows "is_store st' = (is_store st)(serviceKey i := None)" "is_txmgr st' = is_txmgr st" "is_world st' = is_world st"
  using assms by (auto simp: DeleteInterchain_def postAuditInterchainEvent_def split: if_splits)

lemma beginTransaction_single:
  assumes "tmext_ok X" "I_fromBxh X ib = I_toBxh X ib" "ib_Group ib = None" "cx_Callee cx = T_interchainAddr X"
  obtains change data where "beginTransaction X E cx ib False st = Some (Inr change,
      st\<lparr>is_txmgr := (is_txmgr st)(TxInfoKey (getIBTPID (ib_From ib) (ib_To ib) (ib_Index ib)) \<mapsto> data)\<rparr>)"
    "map_option tr_Status (T_record_Unmarshal X data) = Some BEGIN"
proof -
  let ?rec = "newRecord (txmgr_ctx cx) (of_int (ib_TimeoutHeight ib)) False"
  obtain data where data: "T_record_Marshal X ?rec = Some data" "T_record_Unmarshal X data = Some ?rec"
    by (rule record_marshal[OF assms(1), of ?rec]) (simp add: newRecord_def)
  obtain res where c: "respond X ((zero_change X)\<lparr>ch_PrevStatus := Status (- 1), ch_CurStatus := BEGIN\<rparr>) = Inr res"
    "T_change_Unmarshal X res = Some ((zero_change X)\<lparr>ch_PrevStatus := Status (- 1), ch_CurStatus := BEGIN\<rparr>)"
    by (rule respond_ok[OF assms(1), of "(zero_change X)\<lparr>ch_PrevStatus := Status (- 1), ch_CurStatus := BEGIN\<rparr>"]) simp_all
  show thesis
    by (rule that[of "(zero_change X)\<lparr>ch_PrevStatus := Status (- 1), ch_CurStatus := BEGIN\<rparr>" data])
      (use assms(2-4) data c in
        \<open>simp_all add: beginTransaction_def Begin_def checkCurrentCaller_def txmgr_ctx_def changeOf_def newRecord_def\<close>)
qed

text \<open>
  C35. \<^verbatim>\<open>DeleteInterchain\<close>, which every caller may invoke, makes the contract forget the counters of a
  service: after it the first request of that service to another one on the same hub is accepted
  again, whatever had been recorded for it, and its transaction is set back to \<^verbatim>\<open>BEGIN\<close>.
\<close>

theorem deleted_interchain_replays:
  assumes "icext_ok X" "tmext_ok X" "readable X (is_store st)"
    "DeleteInterchain cx0 (ib_From ib) st = (r0, st1)"
    "P_Category X (ib_Type ib) = REQUEST" "I_fromBxh X ib = I_toBxh X ib" "ib_Group ib = None" "ib_Index ib = 1"
    "parseChainService (ib_From ib) (is_store st) = Inr src" "parseChainService (ib_To ib) (is_store st) = Inr dst"
    "cs_IsLocal src" "checkSourceAvailability X cx src (is_world st) = None"
    "snd (checkTargetAvailability X cx src dst (ib_Type ib) (is_world st)) = None"
    "cx_Callee cx = T_interchainAddr X" "\<not> cx_EnableAudit cx"
  shows "\<exists>ret st2 data. HandleIBTP X E cx ib st1 = Some (Inr ret, st2) \<and>
    is_txmgr st2 (TxInfoKey (getIBTPID (ib_From ib) (ib_To ib) (ib_Index ib))) = Some data \<and>
    map_option tr_Status (T_record_Unmarshal X data) = Some BEGIN"
proof -
  let ?id = "getIBTPID (ib_From ib) (ib_To ib) (ib_Index ib)"
  note st1 = DeleteInterchain_fields[OF assms(4)]
  have ic: "getInterchain X (ib_From ib) (is_store st1) = Some (new_interchain (ib_From ib))"
    by (simp add: st1 getInterchain_def new_interchain_def)
  have r1: "readable X (is_store st1)"
    using assms(3) by (auto simp: readable_def st1 getInterchain_def)
  have b: "getBitXHubID (is_store st1) = getBitXHubID (is_store st)" by (simp add: st1 getBitXHubID_def)
  have p: "parseChainService i (is_store st1) = parseChainService i (is_store st)" for i
    unfolding parseChainService_def b ..
  have n: "checkTxStatusForSourceBxh X ib (is_store st1) = Inr False" using assms(6) by (simp add: checkTxStatusForSourceBxh_def)
  obtain bt where t: "checkTargetAvailability X cx src dst (ib_Type ib) (is_world st) = (bt, None)"
    using assms(13) by (metis prod.collapse)
  have "checkRequest X cx ib src dst (new_interchain (ib_From ib)) (is_world st1) = Inr (bt, None)"
    using assms(8,11,12) t by (simp add: checkRequest_def st1 new_interchain_def checkIndex_def gget0_def)
  then have chk: "checkIBTP X cx ib st1 = Some (Inr (new_interchain (ib_From ib), bt, None))"
    using assms(5,9,10) ic n by (simp add: checkIBTP_def p parse_full[OF assms(9)])
  obtain change data where started: "beginTransaction X E cx ib False st1 =
      Some (Inr change, st1\<lparr>is_txmgr := (is_txmgr st1)(TxInfoKey ?id \<mapsto> data)\<rparr>)"
    "map_option tr_Status (T_record_Unmarshal X data) = Some BEGIN"
    by (rule beginTransaction_single[OF assms(2,6,7,14)])
  let ?st = "st1\<lparr>is_txmgr := (is_txmgr st1)(TxInfoKey ?id \<mapsto> data)\<rparr>"
  obtain r2 st2 where f: "finishIBTP X cx ib (new_interchain (ib_From ib)) bt None change ?st = Some (r2, st2)"
    "is_txmgr st2 = (is_txmgr st1)(TxInfoKey ?id \<mapsto> data)" "\<exists>ret. r2 = Inr ret"
    by (rule finishIBTP_effect[of X ?st ib src dst False "new_interchain (ib_From ib)" cx bt None change])
      (use assms(1,9,10,15) r1 ic n p in auto)
  show ?thesis using started f chk assms(5) by (auto simp: HandleIBTP_def)
qed

lemma w_ic2_reachable: "reachable (ic_initial wI) (ic_step wI) w_ic2"
proof -
  have p: "packet_ok (w_packet 1 INTERCHAIN)" "packet_ok (w_packet 1 RECEIPT_SUCCESS)" by code_simp+
  have "reachable (ic_initial wI) (ic_step wI) w_ic0" by (rule reach_init) (rule w_ic0_initial)
  then have "reachable (ic_initial wI) (ic_step wI) w_ic1" by (rule reach_step) (rule handles[OF p(1) w_handles(1)])
  then show ?thesis by (rule reach_step) (rule handles[OF p(2) w_handles(2)])
qed

theorem deleted_interchain_replays_witness:
  "map_option tr_Status (T_record_Unmarshal wI (the (is_txmgr w_ic2 (TxInfoKey ''hub:a:s-hub:b:t-1'')))) = Some SUCCESS \<and>
   (\<exists>ret st2 data. HandleIBTP wI rt0 wic (w_packet 1 INTERCHAIN) (snd (DeleteInterchain wic ''hub:a:s'' w_ic2)) = Some (Inr ret, st2) \<and>
     is_txmgr st2 (TxInfoKey ''hub:a:s-hub:b:t-1'') = Some data \<and>
     map_option tr_Status (T_record_Unmarshal wI data) = Some BEGIN)"
proof -
  let ?src = "\<lparr>cs_BxhId = ''hub'', cs_ChainId = ''a'', cs_ServiceId = ''s'', cs_IsLocal = True\<rparr>"
  let ?dst = "\<lparr>cs_BxhId = ''hub'', cs_ChainId = ''b'', cs_ServiceId = ''t'', cs_IsLocal = True\<rparr>"
  let ?p = "w_packet 1 INTERCHAIN"
  have r: "readable wI (is_store w_ic2)" using icrun.reachable_inv[OF w_ic2_reachable] by (simp add: ic_inv_def)
  have e: "P_Category wI (ib_Type ?p) = REQUEST" "I_fromBxh wI ?p = I_toBxh wI ?p" "ib_Group ?p = None" "ib_Index ?p = 1"
    "parseChainService (ib_From ?p) (is_store w_ic2) = Inr ?src" "parseChainService (ib_To ?p) (is_store w_ic2) = Inr ?dst"
    "cs_IsLocal ?src" "checkSourceAvailability wI wic ?src (is_world w_ic2) = None"
    "snd (checkTargetAvailability wI wic ?src ?dst (ib_Type ?p) (is_world w_ic2)) = None"
    "cx_Callee wic = T_interchainAddr wI" "\<not> cx_EnableAudit wic" by code_simp+
  have i: "getIBTPID (ib_From ?p) (ib_To ?p) (ib_Index ?p) = ''hub:a:s-hub:b:t-1''" "ib_From ?p = ''hub:a:s''" by code_simp+
  have d: "DeleteInterchain wic (ib_From ?p) w_ic2 = (fst (DeleteInterchain wic ''hub:a:s'' w_ic2), snd (DeleteInterchain wic ''hub:a:s'' w_ic2))"
    by (simp add: i)
  have "map_option tr_Status (T_record_Unmarshal wI (the (is_txmgr w_ic2 (TxInfoKey ''hub:a:s-hub:b:t-1'')))) = Some SUCCESS"
    by code_simp
  with deleted_interchain_replays[OF wI_ok r d e, where E = rt0] i show ?thesis by simp
qed

end
