(* ===== verification/Contract_Stub.thy ===== *)
theory Contract_Stub
  imports Ledger_Spec
begin

text \<open>
  The stub through which a built-in contract reaches the state ledger
  (\<^verbatim>\<open>pkg/vm/boltvm/bolt_stub.go\<close>), outside the parallel mode, and the refinement that justifies the models
  of the contracts: on the account of the contract its calls act like reads and updates of a map from
  keys to values.
\<close>

section \<open>Calls of the stub\<close>

text \<open>The account of the contract, \<^verbatim>\<open>ctx.Callee\<close>, is the argument \<^term>\<open>a\<close>.\<close>

definition stub_Has where
  "stub_Has X a key l = map_option (\<lambda>((exist, _), l). (exist, l)) (GetState X a key l)"

definition stub_Get where
  "stub_Get X a key l = GetState X a key l"

definition stub_Delete where
  "stub_Delete X a key l = SetState X a key None None l"

definition stub_Set where
  "stub_Set X a key value l = SetState X a key value None l"

definition stub_Add where
  "stub_Add X a key value l = AddState X a key value l"

text \<open>Objects are stored as JSON: decoding is an argument, as is encoding, whose error is a panic.\<close>

definition stub_GetObject where
  "stub_GetObject X unjson a key l = do {
     ((ok, data), l) \<leftarrow> stub_Get X a key l;
     Some (if \<not> ok then None else unjson (content data), l)}"

definition stub_SetObject where
  "stub_SetObject X json a key value l =
     (case json value of None \<Rightarrow> None | Some data \<Rightarrow> stub_Set X a key (Some data) l)"

definition stub_AddObject where
  "stub_AddObject X json a key value l =
     (case json value of None \<Rightarrow> None | Some data \<Rightarrow> stub_Add X a key (Some data) l)"

definition stub_Query where
  "stub_Query X E a pre l = QueryByPrefix X E a pre l"

definition stub_postEvent where
  "stub_postEvent X json txHash event l =
     (case json event of None \<Rightarrow> None | Some data \<Rightarrow> AddEvent X \<lparr>ev_TxHash = Some txHash, ev_Data = data\<rparr> l)"

section \<open>The map behind the calls\<close>

datatype stub_call = SHas string | SGet string | SDelete string | SSet string slice | SAdd string slice

text \<open>A call on the ledger and on a map, with what it returns.\<close>

fun run_call where
  "run_call X a (SHas k) l = map_option (\<lambda>(b, l). ((b, None), l)) (stub_Has X a k l)"
| "run_call X a (SGet k) l = stub_Get X a k l"
| "run_call X a (SDelete k) l = map_option (Pair (True, None)) (stub_Delete X a k l)"
| "run_call X a (SSet k v) l = map_option (Pair (True, None)) (stub_Set X a k v l)"
| "run_call X a (SAdd k v) l = map_option (Pair (True, None)) (stub_Add X a k v l)"

fun store_call :: "stub_call \<Rightarrow> (string \<Rightarrow> slice) \<Rightarrow> (bool \<times> slice) \<times> (string \<Rightarrow> slice)" where
  "store_call (SHas k) s = ((s k \<noteq> None, None), s)"
| "store_call (SGet k) s = ((s k \<noteq> None, s k), s)"
| "store_call (SDelete k) s = ((True, None), s(k := None))"
| "store_call (SSet k v) s = ((True, None), s(k := v))"
| "store_call (SAdd k v) s = ((True, None), s(k := v))"

fun stub_calls where
  "stub_calls X a [] l = Some ([], l)"
| "stub_calls X a (c # cs) l = do {
     (r, l) \<leftarrow> run_call X a c l;
     (rs, l) \<leftarrow> stub_calls X a cs l;
     Some (r # rs, l)}"

fun store_calls :: "stub_call list \<Rightarrow> (string \<Rightarrow> slice) \<Rightarrow> (bool \<times> slice) list \<times> (string \<Rightarrow> slice)" where
  "store_calls [] s = ([], s)"
| "store_calls (c # cs) s = (let (r, s) = store_call c s; (rs, s) = store_calls cs s in (r # rs, s))"

section \<open>Refinement\<close>

lemma AddState_ok:
  assumes "ext_ok X" "lwf X l"
  obtains l' where "AddState X a k w l = Some l'" "lwf X l'"
    "view X l' = (touch a (view X l))\<lparr>av_state := (av_state (view X l))(a := (av_state (view X l) a)(k := w))\<rparr>"
proof -
  obtain o1 l1 where g: "GetOrCreateAccount X a l = Some (o1, l1)" "found X a l o1 l1"
    by (rule GetOrCreate_found[OF assms])
  note s = found_sel[OF g(2)]
  have h: "holds X a o1 l1" and b: "bases_of X l1 = bases_of X l" using g(2) by (simp_all add: found_def)
  let ?o = "acc_AddState k w o1"
  let ?l = "put_account X a ?o l1"
  have o: "acc_GetBalance ?o = acc_GetBalance o1" "acc_GetNonce ?o = acc_GetNonce o1" "sa_suicided ?o = sa_suicided o1"
    "code_of (bases_of X l) ?o = code_of (bases_of X l) o1" "state_of (bases_of X l) ?o = (state_of (bases_of X l) o1)(k := w)"
    "acc_CodeHash ?o = acc_CodeHash o1"
    by (auto simp: acc_AddState_def acc_GetBalance_def acc_GetNonce_def code_of_def state_of_def acc_CodeHash_def
        fun_eq_iff gget_gset split: option.splits)
  have v: "view X ?l = (touch a (view X l))\<lparr>av_state := (av_state (view X l))(a := (av_state (view X l) a)(k := w))\<rparr>"
    unfolding put_found[OF assms(1) g(2) refl refl] o using s by (simp add: touch_def)
  have "lwf X ?l"
    unfolding put_account_def
    by (rule lwf_put) (use h o(6) in \<open>auto simp: holds_def acc_wf_def acc_AddState_def\<close>)
  with g(1) v show thesis by (intro that[of ?l]) (simp_all add: AddState_def)
qed

text \<open>A call changes nothing but the state of accounts.\<close>

definition same_but_state :: "aview \<Rightarrow> aview \<Rightarrow> bool" where
  "same_but_state v w \<longleftrightarrow> av_balance w = av_balance v \<and> av_nonce w = av_nonce v \<and> av_code w = av_code v \<and>
     av_suicided w = av_suicided v"

lemma stub_get:
  assumes "ext_ok X" "lwf X l"
  obtains l' where "GetState X a k l = Some ((av_state (view X l) a k \<noteq> None, av_state (view X l) a k), l')" "lwf X l'"
    "view X l' = touch a (view X l)"
proof -
  obtain l' where l': "GetState X a k l = Some ((av_state (view X l) a k \<noteq> None, av_state (view X l) a k), l')"
    "view X l' = touch a (view X l)" using GetState_view[OF assms] by blast
  have "lwf X l'" using run_op_ok[OF assms, of "OpGetState a k"] l'(1) by (auto simp: tx_ok_def)
  with l' that show thesis by blast
qed

lemma stub_set:
  assumes "ext_ok X" "lwf X l"
  obtains l' where "SetState X a k w None l = Some l'" "lwf X l'"
    "view X l' = (touch a (view X l))\<lparr>av_state := (av_state (view X l))(a := (av_state (view X l) a)(k := w))\<rparr>"
proof -
  obtain l' where l': "SetState X a k w None l = Some l'"
    "view X l' = (touch a (view X l))\<lparr>av_state := (av_state (view X l))(a := (av_state (view X l) a)(k := w))\<rparr>"
    using SetState_view[OF assms] by blast
  have "lwf X l'" using run_op_ok[OF assms, of "OpSetState a k w"] l'(1) by (auto simp: tx_ok_def)
  with l' that show thesis by blast
qed

lemma run_call_ok:
  assumes "ext_ok X" "lwf X l"
  shows "\<exists>l'. run_call X a c l = Some (fst (store_call c (av_state (view X l) a)), l') \<and> lwf X l' \<and>
    av_state (view X l') = (av_state (view X l))(a := snd (store_call c (av_state (view X l) a))) \<and>
    same_but_state (view X l) (view X l')"
proof (cases c)
  case (SHas k)
  show ?thesis by (rule stub_get[OF assms, of a k]) (simp add: SHas stub_Has_def same_but_state_def touch_def)
next
  case (SGet k)
  show ?thesis by (rule stub_get[OF assms, of a k]) (simp add: SGet stub_Get_def same_but_state_def touch_def)
next
  case (SDelete k)
  show ?thesis by (rule stub_set[OF assms, of a k None]) (simp add: SDelete stub_Delete_def same_but_state_def touch_def)
next
  case (SSet k v)
  show ?thesis by (rule stub_set[OF assms, of a k v]) (simp add: SSet stub_Set_def same_but_state_def touch_def)
next
  case (SAdd k v)
  show ?thesis by (rule AddState_ok[OF assms, of a k v]) (simp add: SAdd stub_Add_def same_but_state_def touch_def)
qed

lemma stub_calls_ok:
  assumes "ext_ok X" "lwf X l"
  shows "\<exists>l'. stub_calls X a cs l = Some (fst (store_calls cs (av_state (view X l) a)), l') \<and> lwf X l' \<and>
    av_state (view X l') = (av_state (view X l))(a := snd (store_calls cs (av_state (view X l) a))) \<and>
    same_but_state (view X l) (view X l')"
  using assms(2)
proof (induction cs arbitrary: l)
  case Nil
  then show ?case by (simp add: same_but_state_def)
next
  case (Cons c cs)
  from run_call_ok[OF assms(1) Cons.prems, of a c] obtain l1 where
    1: "run_call X a c l = Some (fst (store_call c (av_state (view X l) a)), l1)" "lwf X l1"
      "av_state (view X l1) = (av_state (view X l))(a := snd (store_call c (av_state (view X l) a)))"
      "same_but_state (view X l) (view X l1)" by blast
  from Cons.IH[OF 1(2)] 1 show ?case by (auto simp: same_but_state_def split_def Let_def fun_eq_iff)
qed

end
