(* ===== verification/Stub_Properties.thy ===== *)
theory Stub_Properties
  imports Contract_Stub Ledger_Runs
begin

text \<open>The property of the stub, with a run on the concrete instance of the ledger.\<close>

text \<open>
  C36. On a well-formed ledger a sequence of calls of the stub never panics. It returns what the same
  calls return on a map from keys to values that starts as the state of the contract's account, and
  leaves that account with the map's final value; the state of the other accounts and every balance,
  nonce and code stay.
\<close>

theorem stub_refines_store:
  assumes "ext_ok X" "lwf X l" "s = av_state (view X l) a"
  shows "\<exists>l'. stub_calls X a cs l = Some (fst (store_calls cs s), l') \<and> lwf X l' \<and>
    av_state (view X l') = (av_state (view X l))(a := snd (store_calls cs s)) \<and>
    av_balance (view X l') = av_balance (view X l) \<and> av_nonce (view X l') = av_nonce (view X l) \<and>
    av_code (view X l') = av_code (view X l)"
  using stub_calls_ok[OF assms(1,2), of a cs] unfolding assms(3) same_but_state_def by blast

theorem stub_refines_store_witness:
  "\<exists>rs l'. stub_calls wX wa [SSet ''k'' (Some ''v''), SGet ''k'', SDelete ''k'', SHas ''k'', SAdd ''k'' (Some ''w'')] w_new = Some (rs, l') \<and>
     rs ! 1 = (True, Some ''v'') \<and> rs ! 3 = (False, None) \<and> av_state (view wX l') wa ''k'' = Some ''w''"
  using stub_refines_store[OF wX_ok w_new_lwf refl,
      of wa "[SSet ''k'' (Some ''v''), SGet ''k'', SDelete ''k'', SHas ''k'', SAdd ''k'' (Some ''w'')]"]
  by auto

end
