(* ===== verification/Governance.thy ===== *)
theory Governance
  imports Txmgr
begin

text \<open>
  The governance contract (\<^verbatim>\<open>internal/executor/contracts/governance.go\<close>): proposals to change a managed
  object, the votes of the administrators, the priority by which a proposal pauses another on the
  same object, and what happens to the object when a proposal ends.

  Objects are kept in the store as themselves: encoding a proposal as JSON and decoding it is taken
  to give it back. The contracts that manage the objects are arguments of the definitions; they may
  call the governance contract again, so ending a proposal hands them the whole state.
\<close>

section \<open>Data\<close>

text \<open>The statuses of a proposal and the values of a ballot, which are strings in the code.\<close>

definition PROPOSED :: string where "PROPOSED = ''proposed''"
definition APPROVED :: string where "APPROVED = ''approve''"
definition REJECTED :: string where "REJECTED = ''reject''"
definition PAUSED :: string where "PAUSED = ''pause''"
definition BallotApprove :: string where "BallotApprove = ''approve''"
definition BallotReject :: string where "BallotReject = ''reject''"

datatype EndReason = NoReason | NormalReason | ZeroPermissionReason | WithdrawnReason | PriorityReason string
  | ElectorateReason | ClearReason | Reason string

definition AppchainMgr :: string where "AppchainMgr = ''appchain_mgr''"
definition RuleMgr :: string where "RuleMgr = ''rule_mgr''"
definition NodeMgr :: string where "NodeMgr = ''node_mgr''"
definition ServiceMgr :: string where "ServiceMgr = ''service_mgr''"
definition RoleMgr :: string where "RoleMgr = ''role_mgr''"
definition ProposalStrategyMgr :: string where "ProposalStrategyMgr = ''proposal_strategy_mgr''"
definition DappMgr :: string where "DappMgr = ''dapp_mgr''"
definition BnsMgr :: string where "BnsMgr = ''bns_mgr''"

definition SimpleMajority :: string where "SimpleMajority = ''SimpleMajority''"
definition ZeroPermissionType :: string where "ZeroPermissionType = ''ZeroPermission''"
definition DefaultSimpleMajorityExpression :: string where "DefaultSimpleMajorityExpression = ''a > 0.5 * t''"
definition SuperAdminWeight :: u64 where "SuperAdminWeight = 2"

record role =
  ro_ID :: string
  ro_RoleType :: string
  ro_Weight :: u64
  ro_NodeAccount :: string
  ro_AppchainID :: string
  ro_Status :: string

record ballot =
  bl_VoterAddr :: string
  bl_Approve :: string
  bl_Num :: u64
  bl_Reason :: string
  bl_VoteTime :: int

record proposal =
  pr_Id :: string
  pr_Typ :: string
  pr_Status :: string
  pr_ObjId :: string
  pr_ObjLastStatus :: string
  pr_BallotMap :: "(string, ballot) gomap"
  pr_ApproveNum :: u64
  pr_AgainstNum :: u64
  pr_ElectorateList :: "role list"
  pr_InitialElectorateNum :: u64
  pr_AvailableElectorateNum :: u64
  pr_ThresholdApproveNum :: u64
  pr_EventType :: string
  pr_EndReason :: EndReason
  pr_LockProposalId :: string
  pr_IsSpecial :: bool
  pr_IsSuperAdminVoted :: bool
  pr_SubmitReason :: string
  pr_WithdrawReason :: string
  pr_StrategyType :: string
  pr_StrategyExpression :: string
  pr_CreateTime :: int
  pr_Extra :: slice

record proposalStrategy =
  ps_Module :: string
  ps_Typ :: string
  ps_Extra :: string
  ps_Status :: string

text \<open>An audit event: the proposal and the ids of the chains and nodes it concerns.\<close>

datatype gov_event = Audit_proposal proposal "string list" "string list"

datatype gov_error =
  GovernanceNoPermission string
| GovernanceInternalErr
| GovernanceNonexistentProposal string
| GovernanceEndEndedProposal string string
| GovernanceUnavailableAdminVote string
| GovernanceVoteEndProposal string
| GovernanceAdminRepeatVote string
| GovernanceIllegalVoteInfo string
| GovernanceAdminNoVotePermission string string

text \<open>
  The store: the proposals by id, and the four indexes, each an ordered map used as a list of ids;
  with the state of the other contracts and the events.
\<close>

record 'w govstate =
  gs_proposals :: "string \<Rightarrow> proposal option"
  gs_from :: "string \<Rightarrow> string list option"
  gs_obj :: "string \<Rightarrow> string list option"
  gs_typ :: "string \<Rightarrow> string list option"
  gs_status :: "string \<Rightarrow> string list option"
  gs_world :: 'w
  gs_events :: "gov_event list"

record govctx =
  gx_Caller :: string
  gx_CurrentCaller :: string
  gx_TxTimeStamp :: int
  gx_EnableAudit :: bool

section \<open>The code the contract calls\<close>

text \<open>
  The event types and statuses of the governance library and the addresses of the contracts, by the
  names of their constants; the result of an expression of the library \<^verbatim>\<open>govaluate\<close> on the numbers of
  approving and rejecting votes and the size of the electorate; what \<^verbatim>\<open>Set\<close> and \<^verbatim>\<open>Delete\<close> of the ordered
  maps do to the list of keys; and the other contracts.
\<close>

datatype govEvent = EventRegister | EventUpdate | EventFreeze | EventActivate | EventBind | EventUnbind
  | EventLogout | EventPause | EventUnpause | EventCLear

datatype govContract = AppchainMgrContract | RuleManagerContract | NodeManagerContract | RoleContract | DappMgrContract
  | ServiceMgrContract | GovernanceContract | ProposalStrategyMgrContract | ServiceRegistryContract

datatype eval = EvalError | EvalBool bool | EvalOther

record 'w govext =
  V_omSet :: "string \<Rightarrow> string list \<Rightarrow> string list"
  V_omDelete :: "string \<Rightarrow> string list \<Rightarrow> string list"
  V_event :: "govEvent \<Rightarrow> string"
  V_GovernanceAvailable :: string
  V_GovernanceFreezing :: string
  V_addr :: "govContract \<Rightarrow> string"
  V_Evaluate :: "string \<Rightarrow> u64 \<Rightarrow> u64 \<Rightarrow> u64 \<Rightarrow> eval"
  V_GetRolesByType :: "'w \<Rightarrow> role list option"
  V_IsAnyAvailableAdmin :: "string \<Rightarrow> 'w \<Rightarrow> string option"
  V_GetProposalStrategy :: "string \<Rightarrow> 'w \<Rightarrow> unit + proposalStrategy option"
  V_Manage :: "govContract \<Rightarrow> string \<Rightarrow> string \<Rightarrow> string \<Rightarrow> string \<Rightarrow> slice \<Rightarrow> 'w govstate \<Rightarrow> bool \<times> 'w govstate"

text \<open>The priority of an event; the zero value for an event that is not in the map.\<close>

definition priority :: "'w govext \<Rightarrow> string \<Rightarrow> int" where
  "priority V e = gget0 0 (map (\<lambda>(ev, n). (V_event V ev, n))
     [(EventRegister, 1), (EventUpdate, 2), (EventFreeze, 2), (EventActivate, 1), (EventBind, 1), (EventUnbind, 1),
      (EventLogout, 3), (EventPause, 3), (EventUnpause, 1), (EventCLear, 3)]) e"

definition role_IsAvailable :: "'w govext \<Rightarrow> role \<Rightarrow> bool" where
  "role_IsAvailable V r \<longleftrightarrow> ro_Status r \<in> {V_GovernanceAvailable V, V_GovernanceFreezing V}"

section \<open>Strategies\<close>

text \<open>
  Whether the vote has ended and whether it has passed. The second value of the expression is used as
  a boolean without a check, which panics for another type; the number of votes that could still
  approve is a difference of unsigned numbers.
\<close>

definition MakeStrategyDecision ::
  "'w govext \<Rightarrow> string \<Rightarrow> u64 \<Rightarrow> u64 \<Rightarrow> u64 \<Rightarrow> u64 \<Rightarrow> (unit + bool \<times> bool) option" where
  "MakeStrategyDecision V expr approve reject total0 availableNum =
     (case V_Evaluate V expr approve reject total0 of
        EvalError \<Rightarrow> Some (Inl ())
      | EvalOther \<Rightarrow> Some (Inl ())
      | EvalBool True \<Rightarrow> Some (Inr (True, True))
      | EvalBool False \<Rightarrow>
          (case V_Evaluate V expr (availableNum - reject) reject total0 of
             EvalError \<Rightarrow> Some (Inl ())
           | EvalOther \<Rightarrow> None
           | EvalBool b \<Rightarrow> Some (Inr (\<not> b, False))))"

definition CheckManageModule :: "string \<Rightarrow> bool" where
  "CheckManageModule moduleTyp \<longleftrightarrow>
     moduleTyp \<in> {AppchainMgr, RoleMgr, RuleMgr, DappMgr, ProposalStrategyMgr, NodeMgr, ServiceMgr, BnsMgr}"

text \<open>
  The loop of \<^verbatim>\<open>getCurThresholdApproveNum\<close>; \<^term>\<open>None\<close> when it panics or does not return, which it does not
  when the total is the largest number and no value passes.
\<close>

partial_function (option) thresholdLoop ::
  "'w govext \<Rightarrow> string \<Rightarrow> u64 \<Rightarrow> u64 \<Rightarrow> u64 \<Rightarrow> u64 \<Rightarrow> (unit + u64) option" where
  "thresholdLoop V expr reject total0 availableNum n =
     (if n \<le> total0 then
        Option.bind (MakeStrategyDecision V expr n reject total0 availableNum)
          (\<lambda>r. case r of
             Inl _ \<Rightarrow> Some (Inl ())
           | Inr (_, isPass) \<Rightarrow>
               if isPass then Some (Inr n) else thresholdLoop V expr reject total0 availableNum (n + 1))
      else Some (Inl ()))"

declare thresholdLoop.simps [code]

definition getCurThresholdApproveNum ::
  "'w govext \<Rightarrow> string \<Rightarrow> u64 \<Rightarrow> u64 \<Rightarrow> u64 \<Rightarrow> u64 \<Rightarrow> (unit + u64) option" where
  "getCurThresholdApproveNum V expr approve reject total0 availableNum =
     thresholdLoop V expr reject total0 availableNum approve"

definition defaultStrategy :: "'w govext \<Rightarrow> string \<Rightarrow> proposalStrategy" where
  "defaultStrategy V modul = \<lparr>ps_Module = modul, ps_Typ = SimpleMajority,
     ps_Extra = DefaultSimpleMajorityExpression, ps_Status = V_GovernanceAvailable V\<rparr>"

definition getStrategyInfo ::
  "'w govext \<Rightarrow> string \<Rightarrow> u64 \<Rightarrow> 'w \<Rightarrow> (unit + string \<times> string \<times> u64) option" where
  "getStrategyInfo V modul num w =
     (if \<not> CheckManageModule modul then Some (Inl ())
      else
        case (case V_GetProposalStrategy V modul w of Inl _ \<Rightarrow> Some (defaultStrategy V modul) | Inr ps \<Rightarrow> ps) of
          None \<Rightarrow> Some (Inl ())
        | Some ps \<Rightarrow>
            if ps_Typ ps = ZeroPermissionType then Some (Inr (ps_Extra ps, ps_Typ ps, 0))
            else map_option (map_sum id (\<lambda>n. (ps_Extra ps, ps_Typ ps, n)))
                   (getCurThresholdApproveNum V (ps_Extra ps) 0 0 num num))"

definition getElectorate :: "'w govext \<Rightarrow> 'w \<Rightarrow> role list option" where
  "getElectorate V w = map_option (filter (role_IsAvailable V)) (V_GetRolesByType V w)"

section \<open>The indexes\<close>

text \<open>
  An index is an ordered map of the package \<^verbatim>\<open>orderedmap\<close> from ids to empty structs, read by its keys: the list of
  its keys. A key that is not in the store reads as the new, empty map.
\<close>

definition om_Get :: "string list option \<Rightarrow> string list" where
  "om_Get o1 = (case o1 of None \<Rightarrow> [] | Some ks \<Rightarrow> ks)"

definition addProposal :: "'w govext \<Rightarrow> proposal \<Rightarrow> 'w govstate \<Rightarrow> 'w govstate" where
  "addProposal V p st =
     (let add = (\<lambda>key m. m(key \<mapsto> V_omSet V (pr_Id p) (om_Get (m key)))) in
      st\<lparr>gs_proposals := (gs_proposals st)(pr_Id p \<mapsto> p),
         gs_from := add (split_on (CHR ''-'') (pr_Id p) ! 0) (gs_from st),
         gs_obj := add (pr_ObjId p) (gs_obj st),
         gs_typ := add (pr_Typ p) (gs_typ st),
         gs_status := add (pr_Status p) (gs_status st)\<rparr>)"

definition changeProposalStatus :: "'w govext \<Rightarrow> proposal \<Rightarrow> string \<Rightarrow> 'w govstate \<Rightarrow> proposal \<times> 'w govstate" where
  "changeProposalStatus V p newStatus st =
     (let m1 = (gs_status st)(pr_Status p \<mapsto> V_omDelete V (pr_Id p) (om_Get (gs_status st (pr_Status p))));
          m2 = m1(newStatus \<mapsto> V_omSet V (pr_Id p) (om_Get (m1 newStatus)));
          p' = p\<lparr>pr_Status := newStatus\<rparr>
      in (p', st\<lparr>gs_status := m2, gs_proposals := (gs_proposals st)(pr_Id p \<mapsto> p')\<rparr>))"

text \<open>The proposals of a list of ids; an id without a proposal is an error.\<close>

definition getProposals :: "string list option \<Rightarrow> 'w govstate \<Rightarrow> proposal list option" where
  "getProposals ids st = those (map (gs_proposals st) (om_Get ids))"

definition getProposalsByObjId :: "string \<Rightarrow> 'w govstate \<Rightarrow> proposal list option" where
  "getProposalsByObjId objId st = getProposals (gs_obj st objId) st"

definition getProposalsByFrom :: "string \<Rightarrow> 'w govstate \<Rightarrow> proposal list option" where
  "getProposalsByFrom from st = getProposals (gs_from st from) st"

definition getProposalsByType :: "string \<Rightarrow> 'w govstate \<Rightarrow> proposal list option" where
  "getProposalsByType typ st = getProposals (gs_typ st typ) st"

definition getProposalsByStatus :: "string \<Rightarrow> 'w govstate \<Rightarrow> proposal list option" where
  "getProposalsByStatus status st = getProposals (gs_status st status) st"

definition getProposalsByObjStatus :: "string \<Rightarrow> string \<Rightarrow> 'w govstate \<Rightarrow> proposal list option" where
  "getProposalsByObjStatus objID status st =
     map_option (filter (\<lambda>p. status = pr_Status p)) (getProposalsByObjId objID st)"

definition getHightestPriorityPausedProposalByObjId ::
  "'w govext \<Rightarrow> string \<Rightarrow> 'w govstate \<Rightarrow> proposal option option" where
  "getHightestPriorityPausedProposalByObjId V objID st =
     map_option (\<lambda>ps. case ps of
         [] \<Rightarrow> None
       | p # ps \<Rightarrow> Some (fold (\<lambda>q retP. if priority V (pr_EventType retP) < priority V (pr_EventType q) then q else retP) ps p))
       (getProposalsByObjStatus objID PAUSED st)"

section \<open>Permissions and events\<close>

text \<open>\<^verbatim>\<open>checkPermission\<close> for a list of specific addresses and for the address itself.\<close>

definition permSpecific :: "'w govext \<Rightarrow> govContract list \<Rightarrow> govctx \<Rightarrow> bool" where
  "permSpecific V cs cx \<longleftrightarrow> gx_CurrentCaller cx \<in> set (map (V_addr V) cs)"

definition permSelf :: "string \<Rightarrow> govctx \<Rightarrow> bool" where
  "permSelf regulatedAddr cx \<longleftrightarrow> regulatedAddr = gx_CurrentCaller cx"

definition postAuditProposalEvent :: "string \<Rightarrow> 'w govstate \<Rightarrow> gov_error + 'w govstate" where
  "postAuditProposalEvent i st =
     (case gs_proposals st i of
        None \<Rightarrow> Inl GovernanceInternalErr
      | Some p \<Rightarrow>
          let chains = (if pr_Typ p = AppchainMgr then [pr_ObjId p]
                        else if pr_Typ p = RuleMgr \<or> pr_Typ p = ServiceMgr then [split_on (CHR '':'') (pr_ObjId p) ! 0]
                        else []);
              nodes = (if pr_Typ p = NodeMgr then [pr_ObjId p] else [])
          in Inr (st\<lparr>gs_events := gs_events st @ [Audit_proposal p chains nodes]\<rparr>))"

text \<open>The end of a method: the audit event, when auditing is on, and the response.\<close>

definition audited :: "govctx \<Rightarrow> string \<Rightarrow> slice \<Rightarrow> 'w govstate \<Rightarrow> (gov_error + slice) \<times> 'w govstate" where
  "audited cx i ret st =
     (if gx_EnableAudit cx then
        (case postAuditProposalEvent i st of Inl err \<Rightarrow> (Inl err, st) | Inr st' \<Rightarrow> (Inr ret, st'))
      else (Inr ret, st))"

section \<open>Submitting\<close>

definition isSpecialProposal :: "'w govext \<Rightarrow> proposal \<Rightarrow> bool" where
  "isSpecialProposal V p \<longleftrightarrow> pr_Typ p \<in> {RoleMgr, ProposalStrategyMgr} \<or>
     pr_EventType p \<in> V_event V ` {EventFreeze, EventActivate, EventLogout}"

text \<open>The first open proposal of lower priority on the object is paused.\<close>

fun lockFirst :: "'w govext \<Rightarrow> govctx \<Rightarrow> string \<Rightarrow> proposal list \<Rightarrow> 'w govstate \<Rightarrow> (gov_error + string) \<times> 'w govstate" where
  "lockFirst V cx eventTyp [] st = (Inr '''', st)"
| "lockFirst V cx eventTyp (p # ps) st =
     (if pr_Status p = PROPOSED \<and> priority V (pr_EventType p) < priority V eventTyp then
        (let (p', st') = changeProposalStatus V p PAUSED st
         in (case audited cx (pr_Id p') None st' of
               (Inl err, st'') \<Rightarrow> (Inl err, st'')
             | (Inr _, st'') \<Rightarrow> (Inr (pr_Id p'), st'')))
      else lockFirst V cx eventTyp ps st)"

definition lockLowPriorityProposal ::
  "'w govext \<Rightarrow> govctx \<Rightarrow> string \<Rightarrow> string \<Rightarrow> 'w govstate \<Rightarrow> (gov_error + string) \<times> 'w govstate" where
  "lockLowPriorityProposal V cx objId eventTyp st =
     (case getProposalsByObjId objId st of
        None \<Rightarrow> (Inl GovernanceInternalErr, st)
      | Some proposals \<Rightarrow> lockFirst V cx eventTyp proposals st)"

definition LockLowPriorityProposal ::
  "'w govext \<Rightarrow> govctx \<Rightarrow> string \<Rightarrow> string \<Rightarrow> 'w govstate \<Rightarrow> (gov_error + slice) \<times> 'w govstate" where
  "LockLowPriorityProposal V cx objId eventTyp st =
     (if \<not> permSpecific V [ServiceMgrContract, RoleContract, RuleManagerContract] cx
      then (Inl (GovernanceNoPermission (gx_CurrentCaller cx)), st)
      else case lockLowPriorityProposal V cx objId eventTyp st of
             (Inl err, st') \<Rightarrow> (Inl err, st')
           | (Inr i, st') \<Rightarrow> (Inr (Some i), st'))"

definition newProposal ::
  "'w govext \<Rightarrow> govctx \<Rightarrow> string \<Rightarrow> string \<Rightarrow> string \<Rightarrow> string \<Rightarrow> string \<Rightarrow> string \<Rightarrow> slice \<Rightarrow> role list \<Rightarrow>
     string \<times> string \<times> u64 \<Rightarrow> string \<Rightarrow> proposal" where
  "newProposal V cx i eventTyp typ objId objLastStatus reason extra electorate strategy lockPId =
     (let num = of_nat (length electorate); (expr, strategyTyp, threshold) = strategy;
          p = \<lparr>pr_Id = i, pr_Typ = typ, pr_Status = PROPOSED, pr_ObjId = objId, pr_ObjLastStatus = objLastStatus,
               pr_BallotMap = [], pr_ApproveNum = 0, pr_AgainstNum = 0, pr_ElectorateList = electorate,
               pr_InitialElectorateNum = num, pr_AvailableElectorateNum = num, pr_ThresholdApproveNum = threshold,
               pr_EventType = eventTyp, pr_EndReason = NoReason, pr_LockProposalId = lockPId, pr_IsSpecial = False,
               pr_IsSuperAdminVoted = False, pr_SubmitReason = reason, pr_WithdrawReason = '''',
               pr_StrategyType = strategyTyp, pr_StrategyExpression = expr, pr_CreateTime = gx_TxTimeStamp cx,
               pr_Extra = extra\<rparr>
      in p\<lparr>pr_IsSpecial := isSpecialProposal V p\<rparr>)"

definition SubmitProposal ::
  "'w govext \<Rightarrow> govctx \<Rightarrow> string \<Rightarrow> string \<Rightarrow> string \<Rightarrow> string \<Rightarrow> string \<Rightarrow> string \<Rightarrow> slice \<Rightarrow> 'w govstate \<Rightarrow>
     ((gov_error + slice) \<times> 'w govstate) option" where
  "SubmitProposal V cx from eventTyp typ objId objLastStatus reason extra st =
     (if \<not> permSpecific V [AppchainMgrContract, RuleManagerContract, NodeManagerContract, RoleContract, DappMgrContract,
            ServiceMgrContract, GovernanceContract, ProposalStrategyMgrContract, ServiceRegistryContract] cx
      then Some (Inl (GovernanceNoPermission (gx_CurrentCaller cx)), st)
      else
        case (getProposalsByFrom from st, getElectorate V (gs_world st)) of
          (Some ret, Some electorate) \<Rightarrow> do {
            strategy \<leftarrow> getStrategyInfo V typ (of_nat (length electorate)) (gs_world st);
            case strategy of
              Inl _ \<Rightarrow> Some (Inl GovernanceInternalErr, st)
            | Inr strategy \<Rightarrow>
                Some (case lockLowPriorityProposal V cx objId eventTyp st of
                    (Inl err, st') \<Rightarrow> (Inl err, st')
                  | (Inr lockPId, st') \<Rightarrow>
                      let p = newProposal V cx (from @ ''-'' @ dec (length ret)) eventTyp typ objId objLastStatus reason extra
                            electorate strategy lockPId
                      in audited cx (pr_Id p) (Some (pr_Id p)) (addProposal V p st'))}
        | _ \<Rightarrow> Some (Inl GovernanceInternalErr, st))"

section \<open>Ending\<close>

text \<open>The state of a locked proposal is changed whatever it has become in the meantime.\<close>

definition unlockLowPriorityProposal ::
  "'w govext \<Rightarrow> string \<Rightarrow> bool \<Rightarrow> EndReason \<Rightarrow> 'w govstate \<Rightarrow> (gov_error + string) \<times> 'w govstate" where
  "unlockLowPriorityProposal V lockedProposalId restore notRestoreReason st =
     (case gs_proposals st lockedProposalId of
        None \<Rightarrow> (Inl GovernanceInternalErr, st)
      | Some lockP \<Rightarrow>
          if \<not> restore
          then (Inr '''', snd (changeProposalStatus V (lockP\<lparr>pr_EndReason := notRestoreReason\<rparr>) REJECTED st))
          else (Inr (pr_EventType lockP), snd (changeProposalStatus V lockP PROPOSED st)))"

definition managerOf :: "string \<Rightarrow> govContract" where
  "managerOf typ = (if typ = RoleMgr then RoleContract else if typ = ServiceMgr then ServiceMgrContract
     else if typ = NodeMgr then NodeManagerContract else if typ = RuleMgr then RuleManagerContract
     else if typ = DappMgr then DappMgrContract else if typ = ProposalStrategyMgr then ProposalStrategyMgrContract
     else if typ = BnsMgr then ServiceRegistryContract else AppchainMgrContract)"

definition manageObj ::
  "'w govext \<Rightarrow> string \<Rightarrow> string \<Rightarrow> string \<Rightarrow> string \<Rightarrow> string \<Rightarrow> slice \<Rightarrow> 'w govstate \<Rightarrow> bool \<times> 'w govstate" where
  "manageObj V proposalTyp eventType nextEventType objLastStatus objId extra st =
     V_Manage V (managerOf proposalTyp) eventType nextEventType objLastStatus objId extra st"

text \<open>The part of \<^verbatim>\<open>handleResult\<close> before the object is managed: the event that is handed on.\<close>

definition unlockOf :: "'w govext \<Rightarrow> proposal \<Rightarrow> 'w govstate \<Rightarrow> (gov_error + string) \<times> 'w govstate" where
  "unlockOf V p st =
     (if pr_LockProposalId p = '''' then (Inr (pr_Status p), st)
      else if pr_Status p = APPROVED then
        (case unlockLowPriorityProposal V (pr_LockProposalId p) False (PriorityReason (pr_Id p)) st of
           (Inl err, st') \<Rightarrow> (Inl err, st')
         | (Inr _, st') \<Rightarrow> (Inr (pr_Status p), st'))
      else unlockLowPriorityProposal V (pr_LockProposalId p) True NoReason st)"

definition handleResult :: "'w govext \<Rightarrow> proposal \<Rightarrow> 'w govstate \<Rightarrow> gov_error option \<times> 'w govstate" where
  "handleResult V p st =
     (case unlockOf V p st of
        (Inl err, st') \<Rightarrow> (Some err, st')
      | (Inr nextEventType, st') \<Rightarrow>
          let (ok, st'') = manageObj V (pr_Typ p) (pr_EventType p) nextEventType (pr_ObjLastStatus p) (pr_ObjId p) (pr_Extra p) st'
          in (if ok then None else Some GovernanceInternalErr, st''))"

text \<open>The rest of a method that ends a proposal.\<close>

definition concluded ::
  "'w govext \<Rightarrow> govctx \<Rightarrow> string \<Rightarrow> proposal \<Rightarrow> slice \<Rightarrow> 'w govstate \<Rightarrow> (gov_error + slice) \<times> 'w govstate" where
  "concluded V cx i p ret st =
     (case handleResult V p st of
        (Some err, st') \<Rightarrow> (Inl err, st')
      | (None, st') \<Rightarrow> audited cx i ret st')"

definition ZeroPermission ::
  "'w govext \<Rightarrow> govctx \<Rightarrow> string \<Rightarrow> 'w govstate \<Rightarrow> (gov_error + slice) \<times> 'w govstate" where
  "ZeroPermission V cx i st =
     (case gs_proposals st i of
        None \<Rightarrow> (Inl (GovernanceNonexistentProposal i), st)
      | Some p \<Rightarrow>
          if pr_StrategyType p = ZeroPermissionType then
            (let (p, st) = changeProposalStatus V (p\<lparr>pr_EndReason := ZeroPermissionReason\<rparr>) APPROVED st
             in concluded V cx (pr_Id p) p None st)
          else (Inr None, st))"

definition endProposal ::
  "'w govext \<Rightarrow> string \<Rightarrow> EndReason \<Rightarrow> slice \<Rightarrow> 'w govstate \<Rightarrow> (gov_error + proposal) \<times> 'w govstate" where
  "endProposal V i endReason extra st =
     (case gs_proposals st i of
        None \<Rightarrow> (Inl (GovernanceNonexistentProposal i), st)
      | Some p \<Rightarrow>
          if pr_Status p = APPROVED \<or> pr_Status p = REJECTED then (Inl (GovernanceEndEndedProposal i (pr_Status p)), st)
          else
            let p = p\<lparr>pr_EndReason := endReason\<rparr>;
                p = (if endReason = WithdrawnReason then p\<lparr>pr_WithdrawReason := content extra\<rparr> else p);
                (p, st) = changeProposalStatus V p REJECTED st
            in (Inr p, st))"

text \<open>An id without a dash makes the slice expression panic.\<close>

definition WithdrawProposal ::
  "'w govext \<Rightarrow> govctx \<Rightarrow> string \<Rightarrow> string \<Rightarrow> 'w govstate \<Rightarrow> ((gov_error + slice) \<times> 'w govstate) option" where
  "WithdrawProposal V cx i reason st =
     (if CHR ''-'' \<notin> set i then None
      else if \<not> permSelf (takeWhile (\<lambda>c. c \<noteq> CHR ''-'') i) cx then Some (Inl (GovernanceNoPermission (gx_CurrentCaller cx)), st)
      else Some (case endProposal V i WithdrawnReason (Some reason) st of
          (Inl err, st') \<Rightarrow> (Inl err, st')
        | (Inr p, st') \<Rightarrow> concluded V cx i p None st'))"

fun endAll :: "'w govext \<Rightarrow> govctx \<Rightarrow> EndReason \<Rightarrow> slice \<Rightarrow> proposal list \<Rightarrow> 'w govstate \<Rightarrow> (gov_error + slice) \<times> 'w govstate" where
  "endAll V cx endReason extra [] st = (Inr None, st)"
| "endAll V cx endReason extra (p # ps) st =
     (if pr_Status p = PAUSED \<or> pr_Status p = PROPOSED then
        (case endProposal V (pr_Id p) endReason extra st of
           (Inl err, st') \<Rightarrow> (Inl err, st')
         | (Inr _, st') \<Rightarrow>
             (case audited cx (pr_Id p) None st' of
                (Inl err, st'') \<Rightarrow> (Inl err, st'')
              | (Inr _, st'') \<Rightarrow> endAll V cx endReason extra ps st''))
      else endAll V cx endReason extra ps st)"

definition EndObjProposal ::
  "'w govext \<Rightarrow> govctx \<Rightarrow> string \<Rightarrow> EndReason \<Rightarrow> slice \<Rightarrow> 'w govstate \<Rightarrow> (gov_error + slice) \<times> 'w govstate" where
  "EndObjProposal V cx objId endReason extra st =
     (if \<not> permSpecific V [RuleManagerContract, RoleContract, ServiceMgrContract] cx
      then (Inl (GovernanceNoPermission (gx_CurrentCaller cx)), st)
      else case getProposalsByObjId objId st of
             None \<Rightarrow> (Inl GovernanceInternalErr, st)
           | Some proposals \<Rightarrow> endAll V cx endReason extra proposals st)"

definition UnLockLowPriorityProposal ::
  "'w govext \<Rightarrow> govctx \<Rightarrow> string \<Rightarrow> string \<Rightarrow> 'w govstate \<Rightarrow> (gov_error + slice) \<times> 'w govstate" where
  "UnLockLowPriorityProposal V cx objId eventTyp st =
     (if \<not> permSpecific V [ServiceMgrContract, RoleContract, RuleManagerContract] cx
      then (Inl (GovernanceNoPermission (gx_CurrentCaller cx)), st)
      else case getHightestPriorityPausedProposalByObjId V objId st of
             None \<Rightarrow> (Inl GovernanceInternalErr, st)
           | Some None \<Rightarrow> (Inr None, st)
           | Some (Some locked) \<Rightarrow>
               (case unlockLowPriorityProposal V (pr_Id locked) True NoReason st of
                  (Inl err, st') \<Rightarrow> (Inl err, st')
                | (Inr nextEventType, st') \<Rightarrow>
                    let (ok, st'') = manageObj V (pr_Typ locked) eventTyp nextEventType '''' (pr_ObjId locked) None st'
                    in if ok then audited cx (pr_Id locked) None st'' else (Inl GovernanceInternalErr, st'')))"

section \<open>Voting\<close>

text \<open>
  \<^verbatim>\<open>setVote\<close>: the changed proposal is stored only when every check has passed; \<^term>\<open>None\<close> when the loop for the
  threshold panics or does not return.
\<close>

definition setVote ::
  "'w govext \<Rightarrow> govctx \<Rightarrow> proposal \<Rightarrow> string \<Rightarrow> string \<Rightarrow> string \<Rightarrow> 'w govstate \<Rightarrow>
     ((gov_error + proposal) \<times> 'w govstate) option" where
  "setVote V cx p addr approve reason st =
     (if pr_Status p \<noteq> PROPOSED then Some (Inl (GovernanceVoteEndProposal (pr_Status p)), st)
      else case find (\<lambda>e. addr = ro_ID e) (pr_ElectorateList p) of
        None \<Rightarrow> Some (Inl (GovernanceAdminNoVotePermission addr (pr_Id p)), st)
      | Some e \<Rightarrow>
          if gget (pr_BallotMap p) addr \<noteq> None then Some (Inl (GovernanceAdminRepeatVote addr), st)
          else
            let ballot = \<lparr>bl_VoterAddr = addr, bl_Approve = approve, bl_Num = ro_Weight e, bl_Reason = reason,
                          bl_VoteTime = gx_TxTimeStamp cx\<rparr>;
                p = (if SuperAdminWeight = ro_Weight e then p\<lparr>pr_IsSuperAdminVoted := True\<rparr> else p);
                p = p\<lparr>pr_BallotMap := gset addr ballot (pr_BallotMap p)\<rparr>
            in if approve \<noteq> BallotApprove \<and> approve \<noteq> BallotReject then Some (Inl (GovernanceIllegalVoteInfo approve), st)
               else
                 let p = (if approve = BallotApprove then p\<lparr>pr_ApproveNum := pr_ApproveNum p + 1\<rparr>
                          else p\<lparr>pr_AgainstNum := pr_AgainstNum p + 1\<rparr>)
                 in (case getCurThresholdApproveNum V (pr_StrategyExpression p) (pr_ApproveNum p) (pr_AgainstNum p)
                            (pr_InitialElectorateNum p) (pr_AvailableElectorateNum p) of
                       None \<Rightarrow> None
                     | Some (Inl _) \<Rightarrow> Some (Inl GovernanceInternalErr, st)
                     | Some (Inr n) \<Rightarrow>
                         let p = p\<lparr>pr_ThresholdApproveNum := n\<rparr>
                         in Some (Inr p, st\<lparr>gs_proposals := (gs_proposals st)(pr_Id p \<mapsto> p)\<rparr>)))"

text \<open>\<^verbatim>\<open>countVote\<close>: the proposal with its final status when the vote has ended.\<close>

definition countVote ::
  "'w govext \<Rightarrow> proposal \<Rightarrow> 'w govstate \<Rightarrow> ((gov_error + proposal option) \<times> 'w govstate) option" where
  "countVote V p st =
     (if pr_IsSpecial p \<and> \<not> pr_IsSuperAdminVoted p then Some (Inr None, st)
      else case MakeStrategyDecision V (pr_StrategyExpression p) (pr_ApproveNum p) (pr_AgainstNum p)
                  (pr_InitialElectorateNum p) (pr_AvailableElectorateNum p) of
        None \<Rightarrow> None
      | Some (Inl _) \<Rightarrow> Some (Inl GovernanceInternalErr, st)
      | Some (Inr (isEnd, isApprove)) \<Rightarrow>
          if isEnd then
            (let (p, st) = changeProposalStatus V (p\<lparr>pr_EndReason := NormalReason\<rparr>) (if isApprove then APPROVED else REJECTED) st
             in Some (Inr (Some p), st))
          else Some (Inr None, st))"

text \<open>\<^verbatim>\<open>Vote\<close> up to the point where a proposal that has ended is handled.\<close>

definition castVote ::
  "'w govext \<Rightarrow> govctx \<Rightarrow> string \<Rightarrow> string \<Rightarrow> string \<Rightarrow> 'w govstate \<Rightarrow>
     ((gov_error + proposal option) \<times> 'w govstate) option" where
  "castVote V cx i approve reason st =
     (case V_IsAnyAvailableAdmin V (gx_Caller cx) (gs_world st) of
        None \<Rightarrow> Some (Inl GovernanceInternalErr, st)
      | Some result \<Rightarrow>
          if result \<noteq> ''true'' then Some (Inl (GovernanceUnavailableAdminVote (gx_Caller cx)), st)
          else case gs_proposals st i of
            None \<Rightarrow> Some (Inl (GovernanceNonexistentProposal i), st)
          | Some p \<Rightarrow> do {
              (r, st) \<leftarrow> setVote V cx p (gx_Caller cx) approve reason st;
              case r of
                Inl err \<Rightarrow> Some (Inl err, st)
              | Inr p \<Rightarrow> countVote V p st})"

definition Vote ::
  "'w govext \<Rightarrow> govctx \<Rightarrow> string \<Rightarrow> string \<Rightarrow> string \<Rightarrow> 'w govstate \<Rightarrow> ((gov_error + slice) \<times> 'w govstate) option" where
  "Vote V cx i approve reason st = do {
     (r, st) \<leftarrow> castVote V cx i approve reason st;
     Some (case r of
         Inl err \<Rightarrow> (Inl err, st)
       | Inr None \<Rightarrow> audited cx i None st
       | Inr (Some p) \<Rightarrow> concluded V cx i p None st)}"

text \<open>
  \<^verbatim>\<open>UpdateAvailableElectorateNum\<close> up to the point where a proposal that has ended is handled. The status
  of the proposal is not looked at.
\<close>

definition updateElectorate ::
  "'w govext \<Rightarrow> string \<Rightarrow> u64 \<Rightarrow> 'w govstate \<Rightarrow> ((gov_error + bool \<times> proposal option) \<times> 'w govstate) option" where
  "updateElectorate V i num st =
     (case gs_proposals st i of
        None \<Rightarrow> Some (Inl (GovernanceNonexistentProposal i), st)
      | Some p \<Rightarrow>
          let p = p\<lparr>pr_AvailableElectorateNum := num\<rparr> in
          if pr_StrategyType p = ZeroPermissionType then Some (Inr (False, None), st)
          else case getCurThresholdApproveNum V (pr_StrategyExpression p) (pr_ApproveNum p) (pr_AgainstNum p)
                      (pr_InitialElectorateNum p) num of
            None \<Rightarrow> None
          | Some (Inl _) \<Rightarrow> Some (Inl GovernanceInternalErr, st)
          | Some (Inr n) \<Rightarrow>
              let p = p\<lparr>pr_ThresholdApproveNum := n\<rparr> in
              (case MakeStrategyDecision V (pr_StrategyExpression p) (pr_ApproveNum p) (pr_AgainstNum p)
                      (pr_InitialElectorateNum p) num of
                 None \<Rightarrow> None
               | Some (Inl _) \<Rightarrow> Some (Inl GovernanceInternalErr, st)
               | Some (Inr (isEnd, isApprove)) \<Rightarrow>
                   if isEnd then
                     (let (p, st) = changeProposalStatus V (p\<lparr>pr_EndReason := ElectorateReason\<rparr>)
                            (if isApprove then APPROVED else REJECTED) st
                      in Some (Inr (True, Some p), st))
                   else Some (Inr (True, None), st\<lparr>gs_proposals := (gs_proposals st)(pr_Id p \<mapsto> p)\<rparr>)))"

definition UpdateAvailableElectorateNum ::
  "'w govext \<Rightarrow> govctx \<Rightarrow> string \<Rightarrow> u64 \<Rightarrow> 'w govstate \<Rightarrow> ((gov_error + slice) \<times> 'w govstate) option" where
  "UpdateAvailableElectorateNum V cx i num st =
     (if \<not> permSpecific V [RoleContract] cx then Some (Inl (GovernanceNoPermission (gx_CurrentCaller cx)), st)
      else do {
        (r, st) \<leftarrow> updateElectorate V i num st;
        Some (case r of
            Inl err \<Rightarrow> (Inl err, st)
          | Inr (_, Some p) \<Rightarrow> concluded V cx i p (Some (itoa (sint num))) st
          | Inr (audit, None) \<Rightarrow>
              if audit then audited cx i (Some (itoa (sint num))) st else (Inr (Some (itoa (sint num))), st))})"

section \<open>Queries\<close>

definition GetBallot :: "string \<Rightarrow> string \<Rightarrow> 'w govstate \<Rightarrow> gov_error + ballot option" where
  "GetBallot voterAddr i st =
     (case gs_proposals st i of
        None \<Rightarrow> Inl (GovernanceNonexistentProposal i)
      | Some p \<Rightarrow> Inr (gget (pr_BallotMap p) voterAddr))"

definition GetNotClosedProposals :: "'w govstate \<Rightarrow> proposal list option" where
  "GetNotClosedProposals st = do {
     a \<leftarrow> getProposalsByStatus PROPOSED st;
     b \<leftarrow> getProposalsByStatus PAUSED st;
     Some (a @ b)}"

text \<open>The approving and the rejecting ballots; the maps have no order.\<close>

definition GetApprove :: "string \<Rightarrow> 'w govstate \<Rightarrow> gov_error + (string, ballot) gomap" where
  "GetApprove i st =
     (case gs_proposals st i of
        None \<Rightarrow> Inl (GovernanceNonexistentProposal i)
      | Some p \<Rightarrow> Inr (filter (\<lambda>(k, v). bl_Approve v = BallotApprove) (pr_BallotMap p)))"

definition GetAgainst :: "string \<Rightarrow> 'w govstate \<Rightarrow> gov_error + (string, ballot) gomap" where
  "GetAgainst i st =
     (case gs_proposals st i of
        None \<Rightarrow> Inl (GovernanceNonexistentProposal i)
      | Some p \<Rightarrow> Inr (filter (\<lambda>(k, v). bl_Approve v = BallotReject) (pr_BallotMap p)))"

end
