(* ===== verification/Governance_Votes.thy ===== *)
theory Governance_Votes
  imports Governance
begin

text \<open>
  The invariant of the governance contract: the votes of a proposal are those of its electorate, each
  counted once, and the index of statuses is that of the proposals. The methods are sequences of
  steps that change one proposal; what the managed contracts do when a proposal ends is again a
  sequence of such steps.
\<close>

section \<open>The invariant\<close>

definition prop_ok :: "proposal \<Rightarrow> bool" where
  "prop_ok p \<longleftrightarrow> distinct (keys (pr_BallotMap p)) \<and>
     (\<forall>(k, b) \<in> set (pr_BallotMap p). k \<in> ro_ID ` set (pr_ElectorateList p) \<and> bl_VoterAddr b = k \<and>
        bl_Approve b \<in> {BallotApprove, BallotReject}) \<and>
     pr_ApproveNum p = of_nat (length (filter (\<lambda>(k, b). bl_Approve b = BallotApprove) (pr_BallotMap p))) \<and>
     pr_AgainstNum p = of_nat (length (filter (\<lambda>(k, b). bl_Approve b = BallotReject) (pr_BallotMap p)))"

definition proposal_id :: "string \<Rightarrow> nat \<Rightarrow> string" where
  "proposal_id from n = from @ ''-'' @ dec n"

text \<open>The documented behaviour of the ordered maps: a new key goes to the end, and deleting a key keeps the order of the others.\<close>

definition om_ok :: "'w govext \<Rightarrow> bool" where
  "om_ok V \<longleftrightarrow> (\<forall>k ks. V_omSet V k ks = (if k \<in> set ks then ks else ks @ [k]) \<and> V_omDelete V k ks = filter (\<lambda>x. x \<noteq> k) ks)"

definition gov_inv :: "'w govext \<Rightarrow> 'w govstate \<Rightarrow> bool" where
  "gov_inv V st \<longleftrightarrow> om_ok V \<and>
     (\<forall>i p. gs_proposals st i = Some p \<longrightarrow> pr_Id p = i \<and> prop_ok p \<and>
        (\<exists>from n. CHR ''-'' \<notin> set from \<and> i = proposal_id from n \<and> n < length (om_Get (gs_from st from)))) \<and>
     (\<forall>s i. i \<in> set (om_Get (gs_status st s)) \<longleftrightarrow> (\<exists>p. gs_proposals st i = Some p \<and> pr_Status p = s))"

text \<open>A state in which one proposal was replaced, with the index of statuses following it.\<close>

definition replaced :: "proposal \<Rightarrow> 'w govstate \<Rightarrow> 'w govstate \<Rightarrow> bool" where
  "replaced p st st' \<longleftrightarrow> gs_proposals st' = (gs_proposals st)(pr_Id p \<mapsto> p) \<and> gs_from st' = gs_from st \<and>
     gs_obj st' = gs_obj st \<and>
     (\<forall>s i. i \<in> set (om_Get (gs_status st' s)) \<longleftrightarrow>
        (if i = pr_Id p then s = pr_Status p else i \<in> set (om_Get (gs_status st s))))"

definition quiet :: "'w govstate \<Rightarrow> 'w govstate \<Rightarrow> bool" where
  "quiet st st' \<longleftrightarrow> gs_proposals st' = gs_proposals st \<and> gs_from st' = gs_from st \<and> gs_obj st' = gs_obj st \<and>
     gs_typ st' = gs_typ st \<and> gs_status st' = gs_status st"

lemma quiet_refl [simp]: "quiet st st"
  by (simp add: quiet_def)

lemma gov_inv_quiet: "gov_inv V st \<Longrightarrow> quiet st st' \<Longrightarrow> gov_inv V st'"
  by (simp add: gov_inv_def quiet_def)

lemma replaced_quiet: "replaced p st st1 \<Longrightarrow> quiet st1 st2 \<Longrightarrow> replaced p st st2"
  by (simp add: replaced_def quiet_def)

lemma audited_quiet: "audited cx i ret st = (r, st') \<Longrightarrow> quiet st st'"
  by (auto simp: audited_def postAuditProposalEvent_def quiet_def Let_def split: if_splits sum.splits option.splits)

lemma gov_invD:
  assumes "gov_inv V st" "gs_proposals st i = Some p"
  shows "pr_Id p = i" "prop_ok p" "i \<in> set (om_Get (gs_status st s)) \<longleftrightarrow> s = pr_Status p"
  using assms by (auto simp: gov_inv_def)

lemma om_simps:
  assumes "gov_inv V st"
  shows "set (V_omSet V k ks) = insert k (set ks)" "set (V_omDelete V k ks) = set ks - {k}"
    "length ks \<le> length (V_omSet V k ks)" "k \<notin> set ks \<Longrightarrow> length (V_omSet V k ks) = Suc (length ks)"
  using assms by (auto simp: gov_inv_def om_ok_def)

lemma om_Get_simps [simp]: "om_Get (Some ks) = ks" "om_Get None = []"
  by (simp_all add: om_Get_def)

lemma gov_inv_replaced:
  assumes "gov_inv V st" "replaced p st st'" "gs_proposals st (pr_Id p) = Some p0" "prop_ok p"
  shows "gov_inv V st'"
  using assms unfolding gov_inv_def replaced_def by auto

lemma changeProposalStatus_replaced:
  assumes "gov_inv V st" "gs_proposals st (pr_Id p) = Some p0" "pr_Status p0 = pr_Status p"
    "changeProposalStatus V p new st = (p', st')"
  shows "p' = p\<lparr>pr_Status := new\<rparr>" "replaced p' st st'"
proof -
  show p': "p' = p\<lparr>pr_Status := new\<rparr>" using assms(4) by (auto simp: changeProposalStatus_def Let_def)
  let ?m1 = "(gs_status st)(pr_Status p \<mapsto> V_omDelete V (pr_Id p) (om_Get (gs_status st (pr_Status p))))"
  let ?m2 = "?m1(new \<mapsto> V_omSet V (pr_Id p) (om_Get (?m1 new)))"
  have st': "st' = st\<lparr>gs_status := ?m2, gs_proposals := (gs_proposals st)(pr_Id p \<mapsto> p')\<rparr>"
    using assms(4) by (auto simp: changeProposalStatus_def Let_def)
  have "pr_Id p \<in> set (om_Get (gs_status st s)) \<Longrightarrow> s = pr_Status p" for s
    using gov_invD(3)[OF assms(1,2), of s] assms(3) by simp
  then have "i \<in> set (om_Get (?m2 s)) \<longleftrightarrow> (if i = pr_Id p then s = new else i \<in> set (om_Get (gs_status st s)))" for s i
    by (auto simp: om_simps[OF assms(1)])
  then show "replaced p' st st'" by (simp add: replaced_def st' p' del: fun_upd_apply)
qed

lemma prop_ok_status [simp]:
  "prop_ok (p\<lparr>pr_Status := s\<rparr>) = prop_ok p" "prop_ok (p\<lparr>pr_EndReason := e\<rparr>) = prop_ok p"
  "prop_ok (p\<lparr>pr_WithdrawReason := w\<rparr>) = prop_ok p" "prop_ok (p\<lparr>pr_AvailableElectorateNum := n\<rparr>) = prop_ok p"
  "prop_ok (p\<lparr>pr_ThresholdApproveNum := n\<rparr>) = prop_ok p" "prop_ok (p\<lparr>pr_IsSuperAdminVoted := b\<rparr>) = prop_ok p"
  by (simp_all add: prop_ok_def)

lemma changeProposalStatus_inv:
  assumes "gov_inv V st" "gs_proposals st (pr_Id p) = Some p0" "pr_Status p0 = pr_Status p" "prop_ok p"
    "changeProposalStatus V p new st = (p', st')"
  shows "gov_inv V st'"
  using gov_inv_replaced[OF assms(1) changeProposalStatus_replaced(2)[OF assms(1-3,5)], of p0] assms(2,4)
    changeProposalStatus_replaced(1)[OF assms(1-3,5)] by simp

lemma stored_replaced:
  assumes "gov_inv V st" "gs_proposals st (pr_Id p) = Some p0" "pr_Status p = pr_Status p0"
  shows "replaced p st (st\<lparr>gs_proposals := (gs_proposals st)(pr_Id p \<mapsto> p)\<rparr>)"
  using gov_invD(3)[OF assms(1,2)] assms(3) by (auto simp: replaced_def)

section \<open>Each step keeps it\<close>

lemma those_eq_Some: "those xs = Some ys \<longleftrightarrow> xs = map Some ys"
  by (induction xs arbitrary: ys) (auto split: option.splits)

lemma getProposals_stored:
  assumes "gov_inv V st" "getProposals ids st = Some ps" "p \<in> set ps"
  shows "gs_proposals st (pr_Id p) = Some p"
proof -
  have "map (gs_proposals st) (om_Get ids) = map Some ps" using assms(2) by (simp add: getProposals_def those_eq_Some)
  then obtain i where "gs_proposals st i = Some p"
    using assms(3) by (metis (no_types, lifting) image_iff list.set_map)
  with gov_invD(1)[OF assms(1)] show ?thesis by fastforce
qed

text \<open>A step on one proposal leaves the domain and the index by sponsor alone.\<close>

definition tame :: "'w govext \<Rightarrow> 'w govstate \<Rightarrow> 'w govstate \<Rightarrow> bool" where
  "tame V st st' \<longleftrightarrow> gov_inv V st' \<and> gs_from st' = gs_from st \<and> dom (gs_proposals st') = dom (gs_proposals st)"

lemma tame_trans: "tame V a b \<Longrightarrow> tame V b c \<Longrightarrow> tame V a c"
  by (simp add: tame_def)

lemma tame_refl: "gov_inv V st \<Longrightarrow> tame V st st"
  by (simp add: tame_def)

lemma tame_quiet: "gov_inv V st \<Longrightarrow> quiet st st' \<Longrightarrow> tame V st st'"
  using gov_inv_quiet by (auto simp: tame_def quiet_def)

lemma tame_replaced:
  assumes "gov_inv V st" "replaced p st st'" "gs_proposals st (pr_Id p) = Some p0" "prop_ok p"
  shows "tame V st st'"
  using gov_inv_replaced[OF assms] assms(2,3) by (auto simp: tame_def replaced_def)

lemma tame_status:
  assumes "gov_inv V st" "gs_proposals st (pr_Id p) = Some p0" "pr_Status p0 = pr_Status p" "prop_ok p"
    "changeProposalStatus V p new st = (p', st')"
  shows "tame V st st'"
  by (rule tame_replaced[OF assms(1) changeProposalStatus_replaced(2)[OF assms(1-3,5)]])
    (use assms(2,4) changeProposalStatus_replaced(1)[OF assms(1-3,5)] in auto)

lemma lockFirst_tame:
  assumes "gov_inv V st" "\<forall>p \<in> set ps. gs_proposals st (pr_Id p) = Some p" "lockFirst V cx e ps st = (r, st')"
  shows "tame V st st'"
  using assms
proof (induction ps)
  case Nil
  then show ?case by (simp add: tame_refl)
next
  case (Cons p ps)
  have stored: "gs_proposals st (pr_Id p) = Some p" using Cons.prems(2) by simp
  show ?case
  proof (cases "pr_Status p = PROPOSED \<and> priority V (pr_EventType p) < priority V e")
    case True
    obtain p1 st1 where c: "changeProposalStatus V p PAUSED st = (p1, st1)" by fastforce
    have t: "tame V st st1" by (rule tame_status[OF Cons.prems(1) stored refl gov_invD(2)[OF Cons.prems(1) stored] c])
    obtain r2 st2 where a: "audited cx (pr_Id p1) None st1 = (r2, st2)" by fastforce
    have "st' = st2" using Cons.prems(3) True c a by (auto split: sum.splits)
    with tame_trans[OF t tame_quiet[OF _ audited_quiet[OF a]]] t show ?thesis by (simp add: tame_def)
  next
    case False
    with Cons show ?thesis by simp
  qed
qed

lemma lock_tame:
  assumes "gov_inv V st" "lockLowPriorityProposal V cx obj e st = (r, st')"
  shows "tame V st st'"
proof (cases "getProposalsByObjId obj st")
  case None
  with assms show ?thesis by (simp add: lockLowPriorityProposal_def tame_refl)
next
  case (Some ps)
  then have "\<forall>p \<in> set ps. gs_proposals st (pr_Id p) = Some p"
    using getProposals_stored[OF assms(1)] by (auto simp: getProposalsByObjId_def)
  from lockFirst_tame[OF assms(1) this] assms(2) Some show ?thesis by (simp add: lockLowPriorityProposal_def)
qed

lemma unlock_tame:
  assumes "gov_inv V st" "unlockLowPriorityProposal V i b reason st = (r, st')"
  shows "tame V st st'"
proof (cases "gs_proposals st i")
  case None
  with assms show ?thesis by (simp add: unlockLowPriorityProposal_def tame_refl)
next
  case (Some p)
  note d = gov_invD(1,2)[OF assms(1) Some]
  obtain p1 st1 where 1: "changeProposalStatus V (p\<lparr>pr_EndReason := reason\<rparr>) REJECTED st = (p1, st1)" by fastforce
  obtain p2 st2 where 2: "changeProposalStatus V p PROPOSED st = (p2, st2)" by fastforce
  have "tame V st st1" by (rule tame_status[OF assms(1) _ _ _ 1]) (use Some d in auto)
  moreover have "tame V st st2" by (rule tame_status[OF assms(1) _ _ _ 2]) (use Some d in auto)
  ultimately show ?thesis using assms(2) Some 1 2 by (cases b) (auto simp: unlockLowPriorityProposal_def)
qed

lemma end_tame:
  assumes "gov_inv V st" "endProposal V i reason extra st = (r, st')"
  shows "tame V st st'"
proof (cases "gs_proposals st i")
  case None
  with assms show ?thesis by (simp add: endProposal_def tame_refl)
next
  case (Some p)
  note d = gov_invD(1,2)[OF assms(1) Some]
  define q where "q = (if reason = WithdrawnReason then p\<lparr>pr_EndReason := reason, pr_WithdrawReason := content extra\<rparr> else p\<lparr>pr_EndReason := reason\<rparr>)"
  obtain p1 st1 where 1: "changeProposalStatus V q REJECTED st = (p1, st1)" by fastforce
  have "tame V st st1" by (rule tame_status[OF assms(1), of q p, OF _ _ _ 1]) (use Some d in \<open>auto simp: q_def\<close>)
  then show ?thesis using assms(2) Some 1 tame_refl[OF assms(1)] by (auto simp: endProposal_def q_def Let_def split: if_splits)
qed

lemma zero_tame:
  assumes "gov_inv V st" "gs_proposals st i = Some p" "changeProposalStatus V (p\<lparr>pr_EndReason := e\<rparr>) s st = (p', st')"
  shows "tame V st st'"
  by (rule tame_status[OF assms(1) _ _ _ assms(3)]) (use assms(2) gov_invD(1,2)[OF assms(1,2)] in auto)

section \<open>Votes\<close>

lemma gset_new: "gget m k = None \<Longrightarrow> gset k v m = m @ [(k, v)]"
  by (induction m) (auto split: if_splits)

lemma prop_ok_vote:
  assumes "prop_ok p" "gget (pr_BallotMap p) addr = None" "addr \<in> ro_ID ` set (pr_ElectorateList p)" "bl_VoterAddr b = addr"
    "bl_Approve b = approve" "approve = BallotApprove \<or> approve = BallotReject"
  shows "prop_ok (if approve = BallotApprove
     then p\<lparr>pr_BallotMap := gset addr b (pr_BallotMap p), pr_ApproveNum := pr_ApproveNum p + 1\<rparr>
     else p\<lparr>pr_BallotMap := gset addr b (pr_BallotMap p), pr_AgainstNum := pr_AgainstNum p + 1\<rparr>)"
  using assms by (auto simp: prop_ok_def gset_new map_of_eq_None_iff BallotApprove_def BallotReject_def)

text \<open>The proposal that a vote stores.\<close>

definition voted :: "govctx \<Rightarrow> role \<Rightarrow> string \<Rightarrow> string \<Rightarrow> string \<Rightarrow> proposal \<Rightarrow> proposal" where
  "voted cx e addr approve reason p =
     (let p = (if SuperAdminWeight = ro_Weight e then p\<lparr>pr_IsSuperAdminVoted := True\<rparr> else p);
          b = \<lparr>bl_VoterAddr = addr, bl_Approve = approve, bl_Num = ro_Weight e, bl_Reason = reason, bl_VoteTime = gx_TxTimeStamp cx\<rparr>
      in if approve = BallotApprove
         then p\<lparr>pr_BallotMap := gset addr b (pr_BallotMap p), pr_ApproveNum := pr_ApproveNum p + 1\<rparr>
         else p\<lparr>pr_BallotMap := gset addr b (pr_BallotMap p), pr_AgainstNum := pr_AgainstNum p + 1\<rparr>)"

lemma voted_sel [simp]:
  "pr_Id (voted cx e addr approve reason p) = pr_Id p" "pr_Status (voted cx e addr approve reason p) = pr_Status p"
  "pr_StrategyExpression (voted cx e addr approve reason p) = pr_StrategyExpression p"
  "pr_InitialElectorateNum (voted cx e addr approve reason p) = pr_InitialElectorateNum p"
  "pr_AvailableElectorateNum (voted cx e addr approve reason p) = pr_AvailableElectorateNum p"
  by (simp_all add: voted_def Let_def)

lemma voted_ok:
  assumes "prop_ok p" "gget (pr_BallotMap p) addr = None" "addr \<in> ro_ID ` set (pr_ElectorateList p)"
    "approve = BallotApprove \<or> approve = BallotReject"
  shows "prop_ok (voted cx e addr approve reason p)"
  using prop_ok_vote[of "if SuperAdminWeight = ro_Weight e then p\<lparr>pr_IsSuperAdminVoted := True\<rparr> else p" addr
      "\<lparr>bl_VoterAddr = addr, bl_Approve = approve, bl_Num = ro_Weight e, bl_Reason = reason, bl_VoteTime = gx_TxTimeStamp cx\<rparr>" approve] assms
  by (simp add: voted_def Let_def)

lemma setVote_accepts:
  assumes "pr_Status p = PROPOSED" "find (\<lambda>e. addr = ro_ID e) (pr_ElectorateList p) = Some e" "gget (pr_BallotMap p) addr = None"
    "approve = BallotApprove \<or> approve = BallotReject"
  shows "setVote V cx p addr approve reason st =
    (let q = voted cx e addr approve reason p in
     case getCurThresholdApproveNum V (pr_StrategyExpression p) (pr_ApproveNum q) (pr_AgainstNum q)
        (pr_InitialElectorateNum p) (pr_AvailableElectorateNum p) of
       None \<Rightarrow> None
     | Some (Inl _) \<Rightarrow> Some (Inl GovernanceInternalErr, st)
     | Some (Inr n) \<Rightarrow> Some (Inr (q\<lparr>pr_ThresholdApproveNum := n\<rparr>),
         st\<lparr>gs_proposals := (gs_proposals st)(pr_Id p \<mapsto> q\<lparr>pr_ThresholdApproveNum := n\<rparr>)\<rparr>))"
  using assms by (auto simp: setVote_def voted_def Let_def split: option.splits sum.splits)

lemma find_elector:
  "find (\<lambda>e. addr = ro_ID e) es = None \<longleftrightarrow> addr \<notin> ro_ID ` set es"
  "find (\<lambda>e. addr = ro_ID e) es = Some e \<Longrightarrow> e \<in> set es \<and> addr = ro_ID e"
  by (auto simp: find_None_iff find_Some_iff)

lemma setVote_refuses:
  assumes "\<not> (pr_Status p = PROPOSED \<and> addr \<in> ro_ID ` set (pr_ElectorateList p) \<and> gget (pr_BallotMap p) addr = None \<and>
     (approve = BallotApprove \<or> approve = BallotReject))"
  shows "\<exists>err. setVote V cx p addr approve reason st = Some (Inl err, st)"
proof (cases "find (\<lambda>e. addr = ro_ID e) (pr_ElectorateList p)")
  case None
  then show ?thesis by (simp add: setVote_def)
next
  case (Some e)
  then have "addr \<in> ro_ID ` set (pr_ElectorateList p)" using find_elector(2) by fastforce
  with assms Some show ?thesis by (auto simp: setVote_def Let_def)
qed

lemma setVote_tame:
  assumes "gov_inv V st" "gs_proposals st i = Some p" "setVote V cx p addr approve reason st = Some (r, st')"
  shows "tame V st st'" "r = Inr q \<Longrightarrow> gs_proposals st' (pr_Id q) = Some q \<and> prop_ok q"
proof -
  note d = gov_invD(1,2)[OF assms(1,2)]
  let ?ok = "pr_Status p = PROPOSED \<and> addr \<in> ro_ID ` set (pr_ElectorateList p) \<and> gget (pr_BallotMap p) addr = None \<and>
     (approve = BallotApprove \<or> approve = BallotReject)"
  have "tame V st st' \<and> (r = Inr q \<longrightarrow> gs_proposals st' (pr_Id q) = Some q \<and> prop_ok q)"
  proof (cases ?ok)
    case False
    from setVote_refuses[OF this, of V cx reason st] assms(3) tame_refl[OF assms(1)] show ?thesis by auto
  next
    case True
    then obtain e where e: "find (\<lambda>e. addr = ro_ID e) (pr_ElectorateList p) = Some e" using find_elector(1) by fastforce
    let ?q = "voted cx e addr approve reason p"
    have ok: "prop_ok ?q" using voted_ok[OF d(2)] True by blast
    have t: "tame V st (st\<lparr>gs_proposals := (gs_proposals st)(pr_Id p \<mapsto> ?q\<lparr>pr_ThresholdApproveNum := n\<rparr>)\<rparr>)" for n
      using tame_replaced[OF assms(1) stored_replaced[OF assms(1), of "?q\<lparr>pr_ThresholdApproveNum := n\<rparr>" p]] assms(2) d(1) ok by simp
    show ?thesis
      using assms(3) setVote_accepts[OF _ e, of approve V cx reason st] True t ok tame_refl[OF assms(1)]
      by (auto simp: Let_def split: option.splits sum.splits)
  qed
  then show "tame V st st'" "r = Inr q \<Longrightarrow> gs_proposals st' (pr_Id q) = Some q \<and> prop_ok q" by auto
qed

lemma countVote_tame:
  assumes "gov_inv V st" "gs_proposals st (pr_Id p) = Some p" "countVote V p st = Some (r, st')"
  shows "tame V st st'"
proof -
  have "tame V st st1" if "changeProposalStatus V (p\<lparr>pr_EndReason := e\<rparr>) s st = (p1, st1)" for e s p1 st1
    by (rule zero_tame[OF assms(1,2) that])
  then show ?thesis using assms(3) tame_refl[OF assms(1)]
    by (auto simp: countVote_def split: if_splits option.splits sum.splits prod.splits)
qed

lemma castVote_tame:
  assumes "gov_inv V st" "castVote V cx i approve reason st = Some (r, st')"
  shows "tame V st st'"
proof (cases "gs_proposals st i")
  case None
  with assms tame_refl[OF assms(1)] show ?thesis by (auto simp: castVote_def split: option.splits if_splits)
next
  case (Some p)
  show ?thesis
  proof (cases "V_IsAnyAvailableAdmin V (gx_Caller cx) (gs_world st) = Some ''true''")
    case False
    with assms tame_refl[OF assms(1)] show ?thesis by (auto simp: castVote_def split: option.splits if_splits)
  next
    case True
    then obtain r1 st1 where 1: "setVote V cx p (gx_Caller cx) approve reason st = Some (r1, st1)"
      using assms(2) Some by (cases "setVote V cx p (gx_Caller cx) approve reason st") (auto simp: castVote_def)
    note t = setVote_tame[OF assms(1) Some 1]
    have inv: "gov_inv V st1" using t(1) by (simp add: tame_def)
    show ?thesis
    proof (cases r1)
      case (Inl err)
      then show ?thesis using assms(2) Some True 1 t(1) by (auto simp: castVote_def)
    next
      case (Inr q)
      then have "countVote V q st1 = Some (r, st')" using assms(2) Some True 1 by (auto simp: castVote_def)
      from countVote_tame[OF inv _ this] t Inr show ?thesis using tame_trans by blast
    qed
  qed
qed

lemma updateElectorate_tame:
  assumes "gov_inv V st" "updateElectorate V i num st = Some (r, st')"
  shows "tame V st st'"
proof (cases "gs_proposals st i")
  case None
  with assms tame_refl[OF assms(1)] show ?thesis by (auto simp: updateElectorate_def)
next
  case (Some p)
  note d = gov_invD(1,2)[OF assms(1) Some]
  let ?q = "\<lambda>n. p\<lparr>pr_AvailableElectorateNum := num, pr_ThresholdApproveNum := n\<rparr>"
  have 1: "tame V st st1" if "changeProposalStatus V (?q n\<lparr>pr_EndReason := e\<rparr>) s st = (p1, st1)" for n e s p1 st1
    by (rule tame_status[OF assms(1), of _ p, OF _ _ _ that]) (use Some d in auto)
  have 2: "tame V st (st\<lparr>gs_proposals := (gs_proposals st)(pr_Id p \<mapsto> ?q n)\<rparr>)" for n
    using tame_replaced[OF assms(1) stored_replaced[OF assms(1), of "?q n" p]] Some d by simp
  show ?thesis using assms(2) Some 1 2 tame_refl[OF assms(1)]
    by (auto simp: updateElectorate_def Let_def split: if_splits option.splits sum.splits prod.splits)
qed

section \<open>Submitting\<close>

lemma dash_not_dec: "CHR ''-'' \<notin> set (dec n)"
  using dec_digits[of "CHR ''-''" n] by (auto simp: is_digit_def)

lemma proposal_id_split: "CHR ''-'' \<notin> set from \<Longrightarrow> split_on (CHR ''-'') (proposal_id from n) = [from, dec n]"
  using dash_not_dec[of n] by (simp add: proposal_id_def split_on_append split_on_nosep)

lemma proposal_id_inject:
  assumes "CHR ''-'' \<notin> set a" "CHR ''-'' \<notin> set b" "proposal_id a m = proposal_id b n"
  shows "a = b" "m = n"
proof -
  have "[a, dec m] = [b, dec n]"
    by (simp only: proposal_id_split[OF assms(1), symmetric] proposal_id_split[OF assms(2), symmetric] assms(3))
  then show "a = b" "m = n" by simp_all
qed

lemma addProposal_inv:
  assumes "gov_inv V st" "CHR ''-'' \<notin> set from" "pr_Id p = proposal_id from (length (om_Get (gs_from st from)))"
    "set (om_Get (gs_from st from)) \<subseteq> dom (gs_proposals st)" "prop_ok p"
  shows "gov_inv V (addProposal V p st)"
proof -
  let ?i = "pr_Id p"
  have fresh: "gs_proposals st ?i = None"
  proof (rule ccontr)
    assume "gs_proposals st ?i \<noteq> None"
    then obtain a n where "CHR ''-'' \<notin> set a" "?i = proposal_id a n" "n < length (om_Get (gs_from st a))"
      using assms(1) unfolding gov_inv_def by blast
    with assms(3) proposal_id_inject[OF assms(2)] show False by (metis nat_neq_iff)
  qed
  then have new: "?i \<notin> set (om_Get (gs_from st from))" "\<And>s. ?i \<notin> set (om_Get (gs_status st s))"
    using assms(1,4) by (auto simp: gov_inv_def)
  have k: "split_on (CHR ''-'') ?i ! 0 = from" by (simp add: assms(3) proposal_id_split[OF assms(2)])
  let ?f = "(gs_from st)(from \<mapsto> V_omSet V ?i (om_Get (gs_from st from)))"
  have len: "length (om_Get (gs_from st a)) \<le> length (om_Get (?f a))" "length (om_Get (gs_from st from)) < length (om_Get (?f from))" for a
    using new(1) by (auto simp: om_simps[OF assms(1)])
  have "CHR ''-'' \<notin> set a \<and> i = proposal_id a n \<and> n < length (om_Get (gs_from st a)) \<Longrightarrow>
     CHR ''-'' \<notin> set a \<and> i = proposal_id a n \<and> n < length (om_Get (?f a))" for a i n using len(1)[of a] by linarith
  then have old: "gs_proposals st i = Some q \<Longrightarrow> \<exists>a n. CHR ''-'' \<notin> set a \<and> i = proposal_id a n \<and> n < length (om_Get (?f a))" for i q
    using assms(1) unfolding gov_inv_def by meson
  have this1: "\<exists>a n. CHR ''-'' \<notin> set a \<and> ?i = proposal_id a n \<and> n < length (om_Get (?f a))"
    using assms(2,3) len(2) by blast
  let ?s = "(gs_status st)(pr_Status p \<mapsto> V_omSet V ?i (om_Get (gs_status st (pr_Status p))))"
  have st: "gs_proposals (addProposal V p st) = (gs_proposals st)(?i \<mapsto> p)" "gs_from (addProposal V p st) = ?f"
    "gs_status (addProposal V p st) = ?s" by (simp_all add: addProposal_def Let_def k)
  show ?thesis
    unfolding gov_inv_def st
  proof (intro conjI allI impI)
    show "om_ok V" using assms(1) by (simp add: gov_inv_def)
  next
    fix s i
    show "i \<in> set (om_Get (?s s)) \<longleftrightarrow> (\<exists>q. ((gs_proposals st)(?i \<mapsto> p)) i = Some q \<and> pr_Status q = s)"
      using assms(1) new(2) fresh by (auto simp: gov_inv_def om_simps[OF assms(1)])
  next
    fix i q
    assume q: "((gs_proposals st)(?i \<mapsto> p)) i = Some q"
    show "pr_Id q = i" "prop_ok q" using q assms(5) gov_invD(1,2)[OF assms(1)] by (auto split: if_splits)
    show "\<exists>a n. CHR ''-'' \<notin> set a \<and> i = proposal_id a n \<and> n < length (om_Get (?f a))"
      using q this1 old by (cases "i = ?i") (simp_all del: fun_upd_apply, simp)
  qed
qed

lemma SubmitProposal_inv:
  assumes "gov_inv V st" "CHR ''-'' \<notin> set from"
    "SubmitProposal V cx from eventTyp typ objId lastStatus reason extra st = Some (r, st')"
  shows "gov_inv V st'"
proof (cases "permSpecific V [AppchainMgrContract, RuleManagerContract, NodeManagerContract, RoleContract, DappMgrContract,
            ServiceMgrContract, GovernanceContract, ProposalStrategyMgrContract, ServiceRegistryContract] cx")
  case False
  with assms show ?thesis by (simp add: SubmitProposal_def)
next
  case perm: True
  show ?thesis
  proof (cases "getProposalsByFrom from st = None \<or> getElectorate V (gs_world st) = None")
    case True
    with assms perm show ?thesis by (auto simp: SubmitProposal_def split: option.splits)
  next
    case False
    then obtain ret el where g: "getProposalsByFrom from st = Some ret" "getElectorate V (gs_world st) = Some el" by auto
    obtain s where s: "getStrategyInfo V typ (of_nat (length el)) (gs_world st) = Some s"
      using assms(3) perm g by (cases "getStrategyInfo V typ (of_nat (length el)) (gs_world st)") (auto simp: SubmitProposal_def)
    obtain lr st1 where l: "lockLowPriorityProposal V cx objId eventTyp st = (lr, st1)" by fastforce
    have t: "tame V st st1" by (rule lock_tame[OF assms(1) l])
    have m: "map (gs_proposals st) (om_Get (gs_from st from)) = map Some ret"
      using g(1) by (simp add: getProposalsByFrom_def getProposals_def those_eq_Some)
    then have len: "length ret = length (om_Get (gs_from st from))" by (metis length_map)
    have "set (om_Get (gs_from st from)) \<subseteq> dom (gs_proposals st)"
    proof
      fix i assume "i \<in> set (om_Get (gs_from st from))"
      then have "gs_proposals st i \<in> set (map Some ret)" unfolding m[symmetric] by simp
      then show "i \<in> dom (gs_proposals st)" by auto
    qed
    then have add: "gov_inv V (addProposal V (newProposal V cx (from @ ''-'' @ dec (length ret)) eventTyp typ objId lastStatus reason extra el sp lk) st1)" for sp lk
      using t len by (intro addProposal_inv[OF _ assms(2)])
        (auto simp: tame_def newProposal_def Let_def proposal_id_def prop_ok_def split: prod.splits)
    show ?thesis
    proof (cases s)
      case (Inl u)
      with assms perm g s show ?thesis by (simp add: SubmitProposal_def)
    next
      case (Inr sp)
      show ?thesis
      proof (cases lr)
        case (Inl err)
        with assms(3) perm g s l t Inr show ?thesis by (simp add: SubmitProposal_def tame_def)
      next
        case (Inr lk)
        let ?p = "newProposal V cx (from @ ''-'' @ dec (length ret)) eventTyp typ objId lastStatus reason extra el sp lk"
        have "audited cx (pr_Id ?p) (Some (pr_Id ?p)) (addProposal V ?p st1) = (r, st')"
          using assms(3) perm g s l \<open>s = Inr sp\<close> Inr by (simp add: SubmitProposal_def Let_def)
        then show ?thesis by (rule gov_inv_quiet[OF add audited_quiet])
      qed
    qed
  qed
qed

section \<open>Runs\<close>

text \<open>The steps on one proposal, and whatever leaves the proposals alone.\<close>

inductive gov_step :: "'w govext \<Rightarrow> 'w govstate \<Rightarrow> 'w govstate \<Rightarrow> bool" for V where
  submits: "CHR ''-'' \<notin> set from \<Longrightarrow> SubmitProposal V cx from eventTyp typ objId lastStatus reason extra st = Some (r, st') \<Longrightarrow>
    gov_step V st st'"
| votes: "castVote V cx i approve reason st = Some (r, st') \<Longrightarrow> gov_step V st st'"
| updates: "updateElectorate V i num st = Some (r, st') \<Longrightarrow> gov_step V st st'"
| ends: "endProposal V i endReason extra st = (r, st') \<Longrightarrow> gov_step V st st'"
| locks: "lockLowPriorityProposal V cx objId eventTyp st = (r, st') \<Longrightarrow> gov_step V st st'"
| unlocks: "unlockLowPriorityProposal V i restore notRestoreReason st = (r, st') \<Longrightarrow> gov_step V st st'"
| approves: "gs_proposals st i = Some p \<Longrightarrow>
    changeProposalStatus V (p\<lparr>pr_EndReason := ZeroPermissionReason\<rparr>) APPROVED st = (p', st') \<Longrightarrow> gov_step V st st'"
| others_run: "quiet st st' \<Longrightarrow> gov_step V st st'"

lemma gov_step_inv:
  assumes "gov_inv V st" "gov_step V st st'"
  shows "gov_inv V st'"
  using assms(2)
proof cases
  case submits
  then show ?thesis using SubmitProposal_inv[OF assms(1)] by blast
next
  case votes
  then show ?thesis using castVote_tame[OF assms(1)] by (auto simp: tame_def)
next
  case updates
  then show ?thesis using updateElectorate_tame[OF assms(1)] by (auto simp: tame_def)
next
  case ends
  then show ?thesis using end_tame[OF assms(1)] by (auto simp: tame_def)
next
  case locks
  then show ?thesis using lock_tame[OF assms(1)] by (auto simp: tame_def)
next
  case unlocks
  then show ?thesis using unlock_tame[OF assms(1)] by (auto simp: tame_def)
next
  case approves
  then show ?thesis using zero_tame[OF assms(1)] by (auto simp: tame_def)
next
  case others_run
  then show ?thesis by (rule gov_inv_quiet[OF assms(1)])
qed

text \<open>
  What a managed contract does with the governance contract, when a proposal on one of its objects
  ends, is a sequence of such steps.
\<close>

definition manage_ok :: "'w govext \<Rightarrow> bool" where
  "manage_ok V \<longleftrightarrow> (\<forall>c e n l i x st ok st'. V_Manage V c e n l i x st = (ok, st') \<longrightarrow> (gov_step V)\<^sup>*\<^sup>* st st')"

lemma audited_steps: "audited cx i ret st = (r, st') \<Longrightarrow> (gov_step V)\<^sup>*\<^sup>* st st'"
  by (rule r_into_rtranclp, rule others_run, rule audited_quiet)

lemma unlockOf_steps: "unlockOf V p st = (r, st') \<Longrightarrow> (gov_step V)\<^sup>*\<^sup>* st st'"
  using unlocks[where V = V] by (auto simp: unlockOf_def split: if_splits prod.splits sum.splits intro!: r_into_rtranclp)

lemma manage_steps: "manage_ok V \<Longrightarrow> manageObj V t e n l i x st = (ok, st') \<Longrightarrow> (gov_step V)\<^sup>*\<^sup>* st st'"
  by (auto simp: manage_ok_def manageObj_def)

lemma handleResult_steps:
  assumes "manage_ok V" "handleResult V p st = (r, st')"
  shows "(gov_step V)\<^sup>*\<^sup>* st st'"
proof -
  obtain r1 st1 where u: "unlockOf V p st = (r1, st1)" by fastforce
  note s = unlockOf_steps[OF u]
  show ?thesis
  proof (cases r1)
    case (Inl err)
    with assms(2) u s show ?thesis by (auto simp: handleResult_def)
  next
    case (Inr n)
    obtain ok st2 where m: "manageObj V (pr_Typ p) (pr_EventType p) n (pr_ObjLastStatus p) (pr_ObjId p) (pr_Extra p) st1 = (ok, st2)"
      by fastforce
    with assms(2) u Inr have "st' = st2" by (auto simp: handleResult_def)
    with rtranclp_trans[OF s manage_steps[OF assms(1) m]] show ?thesis by simp
  qed
qed

lemma concluded_steps:
  assumes "manage_ok V" "concluded V cx i p ret st = (r, st')"
  shows "(gov_step V)\<^sup>*\<^sup>* st st'"
proof -
  obtain e st1 where h: "handleResult V p st = (e, st1)" by fastforce
  note s = handleResult_steps[OF assms(1) h]
  show ?thesis
  proof (cases e)
    case None
    with assms(2) h have "audited cx i ret st1 = (r, st')" by (simp add: concluded_def)
    from rtranclp_trans[OF s audited_steps[OF this]] show ?thesis .
  next
    case (Some err)
    with assms(2) h s show ?thesis by (auto simp: concluded_def)
  qed
qed

lemma endAll_steps: "endAll V cx reason extra ps st = (r, st') \<Longrightarrow> (gov_step V)\<^sup>*\<^sup>* st st'"
proof (induction ps arbitrary: st)
  case Nil
  then show ?case by simp
next
  case (Cons p ps)
  obtain r1 st1 where e: "endProposal V (pr_Id p) reason extra st = (r1, st1)" by fastforce
  obtain r2 st2 where a: "audited cx (pr_Id p) None st1 = (r2, st2)" by fastforce
  have s1: "(gov_step V)\<^sup>*\<^sup>* st st1" by (rule r_into_rtranclp, rule ends, rule e)
  have s2: "(gov_step V)\<^sup>*\<^sup>* st st2" by (rule rtranclp_trans[OF s1 audited_steps[OF a]])
  from Cons e a s1 s2 rtranclp_trans[OF s2] show ?case by (auto split: if_splits sum.splits)
qed

end
