(* ===== verification/Governance_Properties.thy ===== *)
theory Governance_Properties
  imports Governance_Votes
begin

text \<open>
  The properties of the governance contract: its votes are counted, a vote decides by the strategy of
  its proposal, the threshold of a strategy is found, and a proposal that has ended can be opened
  again.
\<close>

section \<open>Calls\<close>

text \<open>A run of the contract is a sequence of calls of its methods, with other contracts in between.\<close>

inductive gov_call :: "'w govext \<Rightarrow> 'w govstate \<Rightarrow> 'w govstate \<Rightarrow> bool" for V where
  call_submit: "CHR ''-'' \<notin> set from \<Longrightarrow> SubmitProposal V cx from eventTyp typ objId lastStatus reason extra st = Some (r, st') \<Longrightarrow>
    gov_call V st st'"
| call_zero: "ZeroPermission V cx i st = (r, st') \<Longrightarrow> gov_call V st st'"
| call_withdraw: "WithdrawProposal V cx i reason st = Some (r, st') \<Longrightarrow> gov_call V st st'"
| call_end: "EndObjProposal V cx objId endReason extra st = (r, st') \<Longrightarrow> gov_call V st st'"
| call_vote: "Vote V cx i approve reason st = Some (r, st') \<Longrightarrow> gov_call V st st'"
| call_lock: "LockLowPriorityProposal V cx objId eventTyp st = (r, st') \<Longrightarrow> gov_call V st st'"
| call_unlock: "UnLockLowPriorityProposal V cx objId eventTyp st = (r, st') \<Longrightarrow> gov_call V st st'"
| call_update: "UpdateAvailableElectorateNum V cx i num st = Some (r, st') \<Longrightarrow> gov_call V st st'"
| call_other: "quiet st st' \<Longrightarrow> gov_call V st st'"

definition gov_initial :: "'w govext \<Rightarrow> 'w govstate \<Rightarrow> bool" where
  "gov_initial V st \<longleftrightarrow> manage_ok V \<and> om_ok V \<and> (\<forall>k. gs_proposals st k = None \<and> gs_status st k = None)"

lemma step_then: "gov_step V a b \<Longrightarrow> (gov_step V)\<^sup>*\<^sup>* b c \<Longrightarrow> (gov_step V)\<^sup>*\<^sup>* a c"
  by (rule converse_rtranclp_into_rtranclp)

lemma one_step: "gov_step V a b \<Longrightarrow> (gov_step V)\<^sup>*\<^sup>* a b"
  by (rule r_into_rtranclp)

lemma zero_steps:
  assumes "manage_ok V" "ZeroPermission V cx i st = (r, st')"
  shows "(gov_step V)\<^sup>*\<^sup>* st st'"
proof (cases "gs_proposals st i")
  case None
  with assms(2) show ?thesis by (simp add: ZeroPermission_def)
next
  case (Some p)
  obtain p1 st1 where c: "changeProposalStatus V (p\<lparr>pr_EndReason := ZeroPermissionReason\<rparr>) APPROVED st = (p1, st1)" by fastforce
  from assms(2) Some c concluded_steps[OF assms(1)] step_then[OF approves[OF Some c]] show ?thesis
    by (auto simp: ZeroPermission_def split: if_splits)
qed

lemma withdraw_steps:
  assumes "manage_ok V" "WithdrawProposal V cx i reason st = Some (r, st')"
  shows "(gov_step V)\<^sup>*\<^sup>* st st'"
proof -
  obtain r1 st1 where e: "endProposal V i WithdrawnReason (Some reason) st = (r1, st1)" by fastforce
  have s: "gov_step V st st1" by (rule ends[OF e])
  from assms(2) e step_then[OF s concluded_steps[OF assms(1)]] one_step[OF s] show ?thesis
    by (auto simp: WithdrawProposal_def split: if_splits sum.splits)
qed

lemma vote_steps:
  assumes "manage_ok V" "Vote V cx i approve reason st = Some (r, st')"
  shows "(gov_step V)\<^sup>*\<^sup>* st st'"
proof -
  obtain r1 st1 where c: "castVote V cx i approve reason st = Some (r1, st1)"
    using assms(2) by (cases "castVote V cx i approve reason st") (auto simp: Vote_def)
  have s: "gov_step V st st1" by (rule votes[OF c])
  from assms(2) c step_then[OF s concluded_steps[OF assms(1)]] step_then[OF s audited_steps] one_step[OF s] show ?thesis
    by (auto simp: Vote_def split: sum.splits option.splits)
qed

lemma update_steps:
  assumes "manage_ok V" "UpdateAvailableElectorateNum V cx i num st = Some (r, st')"
  shows "(gov_step V)\<^sup>*\<^sup>* st st'"
proof (cases "permSpecific V [RoleContract] cx")
  case False
  with assms(2) show ?thesis by (simp add: UpdateAvailableElectorateNum_def)
next
  case True
  obtain r1 st1 where c: "updateElectorate V i num st = Some (r1, st1)"
    using assms(2) True by (cases "updateElectorate V i num st") (auto simp: UpdateAvailableElectorateNum_def)
  have s: "gov_step V st st1" by (rule updates[OF c])
  from assms(2) True c step_then[OF s concluded_steps[OF assms(1)]] step_then[OF s audited_steps] one_step[OF s] show ?thesis
    by (auto simp: UpdateAvailableElectorateNum_def split: sum.splits option.splits prod.splits if_splits)
qed

lemma unlock_steps:
  assumes "manage_ok V" "UnLockLowPriorityProposal V cx objId eventTyp st = (r, st')"
  shows "(gov_step V)\<^sup>*\<^sup>* st st'"
proof (cases "permSpecific V [ServiceMgrContract, RoleContract, RuleManagerContract] cx \<and>
    (\<exists>p. getHightestPriorityPausedProposalByObjId V objId st = Some (Some p))")
  case False
  with assms(2) show ?thesis by (auto simp: UnLockLowPriorityProposal_def split: if_splits option.splits)
next
  case True
  then obtain p where p: "getHightestPriorityPausedProposalByObjId V objId st = Some (Some p)" by blast
  obtain r1 st1 where u: "unlockLowPriorityProposal V (pr_Id p) True NoReason st = (r1, st1)" by fastforce
  have s: "gov_step V st st1" by (rule unlocks[OF u])
  show ?thesis
  proof (cases r1)
    case (Inl err)
    with assms(2) True p u one_step[OF s] show ?thesis by (simp add: UnLockLowPriorityProposal_def)
  next
    case (Inr n)
    obtain ok st2 where m: "manageObj V (pr_Typ p) eventTyp n '''' (pr_ObjId p) None st1 = (ok, st2)" by fastforce
    have s2: "(gov_step V)\<^sup>*\<^sup>* st st2" by (rule step_then[OF s manage_steps[OF assms(1) m]])
    from assms(2) True p u Inr m s2 rtranclp_trans[OF s2 audited_steps] show ?thesis
      by (simp add: UnLockLowPriorityProposal_def split: if_splits)
  qed
qed

lemma gov_call_steps:
  assumes "manage_ok V" "gov_call V st st'"
  shows "(gov_step V)\<^sup>*\<^sup>* st st'"
  using assms(2)
proof cases
  case call_submit
  then show ?thesis by (rule one_step[OF submits])
next
  case call_zero
  then show ?thesis by (rule zero_steps[OF assms(1)])
next
  case call_withdraw
  then show ?thesis by (rule withdraw_steps[OF assms(1)])
next
  case (call_end cx objId endReason extra r)
  then show ?thesis using endAll_steps[where V = V] by (auto simp: EndObjProposal_def split: if_splits option.splits)
next
  case call_vote
  then show ?thesis by (rule vote_steps[OF assms(1)])
next
  case (call_lock cx objId eventTyp r)
  obtain r1 st1 where "lockLowPriorityProposal V cx objId eventTyp st = (r1, st1)" by fastforce
  with call_lock one_step[OF locks[OF this]] show ?thesis
    by (auto simp: LockLowPriorityProposal_def split: if_splits sum.splits)
next
  case call_unlock
  then show ?thesis by (rule unlock_steps[OF assms(1)])
next
  case call_update
  then show ?thesis by (rule update_steps[OF assms(1)])
next
  case call_other
  then show ?thesis by (rule one_step[OF others_run])
qed

interpretation govstep: invariant_system "gov_inv V" "gov_step V" "gov_inv V"
  by unfold_locales (assumption, rule gov_step_inv)

interpretation govrun: invariant_system "gov_initial V" "gov_call V" "\<lambda>st. manage_ok V \<and> gov_inv V st"
proof
  show "gov_initial V st \<Longrightarrow> manage_ok V \<and> gov_inv V st" for st
    by (auto simp: gov_initial_def gov_inv_def)
  show "manage_ok V \<and> gov_inv V s \<Longrightarrow> gov_call V s t \<Longrightarrow> manage_ok V \<and> gov_inv V t" for s t
    using govstep.inv_steps gov_call_steps by blast
qed

section \<open>An instance\<close>

text \<open>A strategy that asks for more than half of the electorate, and contracts that do nothing.\<close>

definition wV :: "unit govext" where
  "wV = \<lparr>V_omSet = (\<lambda>k ks. if k \<in> set ks then ks else ks @ [k]), V_omDelete = (\<lambda>k. filter (\<lambda>x. x \<noteq> k)),
     V_event = (\<lambda>e. case e of EventRegister \<Rightarrow> ''register'' | EventUpdate \<Rightarrow> ''update'' | EventFreeze \<Rightarrow> ''freeze''
       | EventActivate \<Rightarrow> ''activate'' | EventBind \<Rightarrow> ''bind'' | EventUnbind \<Rightarrow> ''unbind'' | EventLogout \<Rightarrow> ''logout''
       | EventPause \<Rightarrow> ''pause'' | EventUnpause \<Rightarrow> ''unpause'' | EventCLear \<Rightarrow> ''clear''),
     V_GovernanceAvailable = ''available'', V_GovernanceFreezing = ''freezing'', V_addr = (\<lambda>_. ''0xf''),
     V_Evaluate = (\<lambda>_ a r t. EvalBool (t < 2 * a)),
     V_GetRolesByType = (\<lambda>_. Some (map (\<lambda>n. \<lparr>ro_ID = n, ro_RoleType = '''', ro_Weight = 1, ro_NodeAccount = '''', ro_AppchainID = '''',
        ro_Status = ''available''\<rparr>) [''0x1'', ''0x2'', ''0x3''])),
     V_IsAnyAvailableAdmin = (\<lambda>_ _. Some ''true''), V_GetProposalStrategy = (\<lambda>_ _. Inl ()),
     V_Manage = (\<lambda>_ _ _ _ _ _ st. (True, st))\<rparr>"

definition wgx :: "string \<Rightarrow> govctx" where
  "wgx c = \<lparr>gx_Caller = c, gx_CurrentCaller = (if c = '''' then ''0xf'' else c), gx_TxTimeStamp = 0, gx_EnableAudit = False\<rparr>"

lemma wV_manage: "manage_ok wV" "om_ok wV"
  by (simp_all add: manage_ok_def om_ok_def wV_def)

definition w_gov0 :: "unit govstate" where
  "w_gov0 = \<lparr>gs_proposals = (\<lambda>_. None), gs_from = (\<lambda>_. None), gs_obj = (\<lambda>_. None), gs_typ = (\<lambda>_. None),
     gs_status = (\<lambda>_. None), gs_world = (), gs_events = []\<rparr>"

text \<open>A proposal to register a chain, and one of higher priority that pauses it; then a vote.\<close>

definition w_gov1 :: "unit govstate" where
  "w_gov1 = snd (the (SubmitProposal wV (wgx '''') ''0x1'' ''register'' AppchainMgr ''chain'' ''unavailable'' '''' None w_gov0))"

definition w_gov2 :: "unit govstate" where
  "w_gov2 = snd (the (SubmitProposal wV (wgx '''') ''0x2'' ''logout'' AppchainMgr ''chain'' ''available'' '''' None w_gov1))"

definition w_gov3 :: "unit govstate" where
  "w_gov3 = snd (the (Vote wV (wgx ''0x3'') ''0x2-0'' BallotApprove '''' w_gov2))"

lemma some_result: "\<not> Option.is_none x \<Longrightarrow> x = Some (fst (the x), snd (the x))"
  by (cases x) auto

lemma w_gov_reachable: "reachable (gov_initial wV) (gov_call wV) w_gov3"
proof -
  have "reachable (gov_initial wV) (gov_call wV) w_gov0"
    by (rule reach_init) (simp add: gov_initial_def wV_manage w_gov0_def)
  then have "reachable (gov_initial wV) (gov_call wV) w_gov1"
    by (rule reach_step) (unfold w_gov1_def, rule call_submit[OF _ some_result], simp, code_simp)
  then have "reachable (gov_initial wV) (gov_call wV) w_gov2"
    by (rule reach_step) (unfold w_gov2_def, rule call_submit[OF _ some_result], simp, code_simp)
  then show ?thesis
    by (rule reach_step) (unfold w_gov3_def, rule call_vote[OF some_result], code_simp)
qed

section \<open>Votes are counted\<close>

lemma ballots_bounded:
  assumes "prop_ok p"
  shows "length (pr_BallotMap p) \<le> length (pr_ElectorateList p)"
proof -
  have "length (pr_BallotMap p) = card (set (keys (pr_BallotMap p)))"
    using assms distinct_card[of "keys (pr_BallotMap p)"] by (simp add: prop_ok_def)
  also have "\<dots> \<le> card (ro_ID ` set (pr_ElectorateList p))"
    by (rule card_mono) (use assms in \<open>auto simp: prop_ok_def\<close>)
  also have "\<dots> \<le> length (pr_ElectorateList p)" by (metis card_image_le card_length finite_set le_trans)
  finally show ?thesis .
qed

lemma ballots_split:
  assumes "prop_ok p"
  shows "length (filter (\<lambda>(k, b). bl_Approve b = BallotApprove) (pr_BallotMap p)) +
    length (filter (\<lambda>(k, b). bl_Approve b = BallotReject) (pr_BallotMap p)) = length (pr_BallotMap p)"
proof -
  have "filter (\<lambda>(k, b). bl_Approve b = BallotReject) (pr_BallotMap p) =
      filter (\<lambda>x. \<not> (\<lambda>(k, b). bl_Approve b = BallotApprove) x) (pr_BallotMap p)"
    by (rule filter_cong[OF refl]) (use assms in \<open>auto simp: prop_ok_def BallotApprove_def BallotReject_def\<close>)
  then show ?thesis using sum_length_filter_compl[of "\<lambda>(k, b). bl_Approve b = BallotApprove" "pr_BallotMap p"] by simp
qed

text \<open>
  C37. In every run of the governance contract, for every proposal it holds: no one has two ballots,
  every voter is in the electorate of the proposal, the two counters are the numbers of approving and
  rejecting ballots, which together are all ballots and at most the electorate; and the index of
  statuses lists the proposal under its status only.
\<close>

theorem votes_counted:
  assumes "reachable (gov_initial V) (gov_call V) st" "gs_proposals st i = Some p" "length (pr_ElectorateList p) < 2 ^ 64"
  shows "pr_Id p = i \<and> distinct (keys (pr_BallotMap p)) \<and> set (keys (pr_BallotMap p)) \<subseteq> ro_ID ` set (pr_ElectorateList p) \<and>
    unat (pr_ApproveNum p) = length (filter (\<lambda>(k, b). bl_Approve b = BallotApprove) (pr_BallotMap p)) \<and>
    unat (pr_AgainstNum p) = length (filter (\<lambda>(k, b). bl_Approve b = BallotReject) (pr_BallotMap p)) \<and>
    unat (pr_ApproveNum p) + unat (pr_AgainstNum p) = length (pr_BallotMap p) \<and>
    length (pr_BallotMap p) \<le> length (pr_ElectorateList p) \<and>
    (i \<in> set (om_Get (gs_status st s)) \<longleftrightarrow> s = pr_Status p)"
proof -
  have inv: "gov_inv V st" using govrun.reachable_inv[OF assms(1)] by blast
  note d = gov_invD[OF inv assms(2)]
  let ?a = "length (filter (\<lambda>(k, b). bl_Approve b = BallotApprove) (pr_BallotMap p))"
  let ?r = "length (filter (\<lambda>(k, b). bl_Approve b = BallotReject) (pr_BallotMap p))"
  note b = ballots_bounded[OF d(2)] and s = ballots_split[OF d(2)]
  have "?a < 2 ^ 64" "?r < 2 ^ 64" using b s assms(3) by linarith+
  then have "unat (pr_ApproveNum p) = ?a" "unat (pr_AgainstNum p) = ?r"
    using d(2) by (simp_all add: prop_ok_def unat_of_nat_u64)
  moreover have "distinct (keys (pr_BallotMap p))" "set (keys (pr_BallotMap p)) \<subseteq> ro_ID ` set (pr_ElectorateList p)"
    using d(2) by (auto simp: prop_ok_def)
  ultimately show ?thesis using d(1,3) b s by auto
qed

theorem votes_counted_witness:
  "\<exists>p. gs_proposals w_gov3 ''0x2-0'' = Some p \<and> unat (pr_ApproveNum p) + unat (pr_AgainstNum p) = length (pr_BallotMap p) \<and>
     length (pr_BallotMap p) = 1 \<and> set (keys (pr_BallotMap p)) \<subseteq> ro_ID ` set (pr_ElectorateList p)"
proof -
  have e: "map_option (\<lambda>p. length (pr_ElectorateList p)) (gs_proposals w_gov3 ''0x2-0'') = Some 3"
    "map_option (\<lambda>p. length (pr_BallotMap p)) (gs_proposals w_gov3 ''0x2-0'') = Some 1" by code_simp+
  then obtain p where p: "gs_proposals w_gov3 ''0x2-0'' = Some p" by auto
  have l: "length (pr_ElectorateList p) < 2 ^ 64" "length (pr_BallotMap p) = 1" using p e by auto
  have "unat (pr_ApproveNum p) + unat (pr_AgainstNum p) = length (pr_BallotMap p)"
    "set (keys (pr_BallotMap p)) \<subseteq> ro_ID ` set (pr_ElectorateList p)"
    using votes_counted[OF w_gov_reachable p l(1)] by blast+
  with p l(2) show ?thesis by blast
qed

section \<open>The threshold\<close>

lemma next_above:
  assumes "n \<le> t" "t \<noteq> max_u64"
  shows "unat (n + 1) = unat n + 1" "n \<le> a \<longleftrightarrow> a = n \<or> n + 1 \<le> a"
proof -
  have "1 + n \<noteq> 0"
  proof
    assume "1 + n = 0"
    then have "n = - 1" by (simp add: add_eq_0_iff)
    with assms show False using antisym[OF word_n1_ge[of t]] by (simp add: max_u64_def)
  qed
  from unatSuc[OF this] show "unat (n + 1) = unat n + 1" by (simp add: add.commute)
  then show "n \<le> a \<longleftrightarrow> a = n \<or> n + 1 \<le> a" by (auto simp: word_le_nat_alt word_unat_eq_iff)
qed

lemma thresholdLoop_least:
  assumes "\<And>a. V_Evaluate V expr a reject tolal = EvalBool (f a)" "tolal \<noteq> max_u64" "k = unat tolal + 1 - unat n"
  shows "\<exists>r. thresholdLoop V expr reject tolal avail n = Some r \<and>
    (\<forall>m. r = Inr m \<longrightarrow> n \<le> m \<and> m \<le> tolal \<and> f m \<and> (\<forall>a. n \<le> a \<and> a < m \<longrightarrow> \<not> f a)) \<and>
    (r = Inl () \<longrightarrow> (\<forall>a. n \<le> a \<and> a \<le> tolal \<longrightarrow> \<not> f a))"
  using assms(3)
proof (induction k arbitrary: n)
  case 0
  then have "\<not> n \<le> tolal" by (simp add: word_le_nat_alt)
  then show ?case by (subst thresholdLoop.simps) auto
next
  case (Suc k)
  show ?case
  proof (cases "n \<le> tolal \<and> \<not> f n")
    case False
    then show ?thesis using assms(1) by (subst thresholdLoop.simps) (auto simp: MakeStrategyDecision_def)
  next
    case True
    then have n: "unat (n + 1) = unat n + 1" "\<And>a. n \<le> a \<longleftrightarrow> a = n \<or> n + 1 \<le> a" using next_above[OF _ assms(2)] by blast+
    have e: "thresholdLoop V expr reject tolal avail n = thresholdLoop V expr reject tolal avail (n + 1)"
      using True assms(1) by (subst thresholdLoop.simps) (simp add: MakeStrategyDecision_def)
    have "k = unat tolal + 1 - unat (n + 1)" using Suc.prems n(1) by simp
    from Suc.IH[OF this] obtain r where "thresholdLoop V expr reject tolal avail (n + 1) = Some r"
      "\<forall>m. r = Inr m \<longrightarrow> n + 1 \<le> m \<and> m \<le> tolal \<and> f m \<and> (\<forall>a. n + 1 \<le> a \<and> a < m \<longrightarrow> \<not> f a)"
      "r = Inl () \<longrightarrow> (\<forall>a. n + 1 \<le> a \<and> a \<le> tolal \<longrightarrow> \<not> f a)" by blast
    then show ?thesis unfolding e using True by (intro exI[of _ r]) (auto simp: n(2))
  qed
qed

section \<open>What a vote decides\<close>

lemma threshold_found:
  assumes "\<And>a. V_Evaluate V expr a reject tolal = EvalBool (f a)" "tolal \<noteq> max_u64" "approve \<le> k" "k \<le> tolal" "f k"
  obtains n where "getCurThresholdApproveNum V expr approve reject tolal avail = Some (Inr n)"
proof -
  obtain r where r: "getCurThresholdApproveNum V expr approve reject tolal avail = Some r"
    "r = Inl () \<longrightarrow> (\<forall>a. approve \<le> a \<and> a \<le> tolal \<longrightarrow> \<not> f a)"
    using thresholdLoop_least[OF assms(1,2) refl, where n = approve and avail = avail] unfolding getCurThresholdApproveNum_def by blast
  with assms(3-5) have "r \<noteq> Inl ()" by blast
  then obtain n where "r = Inr n" by (cases r) auto
  with r(1) that show thesis by simp
qed

lemma countVote_decides:
  assumes "\<And>a r. V_Evaluate V (pr_StrategyExpression p) a r (pr_InitialElectorateNum p) = EvalBool (f a r)"
    "gs_proposals st (pr_Id p) = Some p" "pr_Status p = PROPOSED"
    "s = (if pr_IsSpecial p \<and> \<not> pr_IsSuperAdminVoted p then PROPOSED else if f (pr_ApproveNum p) (pr_AgainstNum p) then APPROVED
       else if f (pr_AvailableElectorateNum p - pr_AgainstNum p) (pr_AgainstNum p) then PROPOSED else REJECTED)"
  obtains res st' x where "countVote V p st = Some (Inr res, st')" "gs_world st' = gs_world st"
    "gs_proposals st' (pr_Id p) = Some (p\<lparr>pr_EndReason := x, pr_Status := s\<rparr>)" "res = None \<longleftrightarrow> s = PROPOSED"
proof (cases "s = PROPOSED")
  case True
  have "APPROVED \<noteq> PROPOSED" "REJECTED \<noteq> PROPOSED" by (simp_all add: PROPOSED_def APPROVED_def REJECTED_def)
  with True assms(1,4) have "countVote V p st = Some (Inr None, st)"
    by (simp add: countVote_def MakeStrategyDecision_def split: if_splits)
  moreover have "p\<lparr>pr_EndReason := pr_EndReason p, pr_Status := s\<rparr> = p" using True assms(3) by simp
  ultimately show thesis using that[of None st "pr_EndReason p"] assms(2) True by simp
next
  case False
  obtain q st1 where c: "changeProposalStatus V (p\<lparr>pr_EndReason := NormalReason\<rparr>) s st = (q, st1)" by fastforce
  then have d: "q = p\<lparr>pr_EndReason := NormalReason, pr_Status := s\<rparr>" "gs_proposals st1 (pr_Id p) = Some q" "gs_world st1 = gs_world st"
    by (auto simp: changeProposalStatus_def Let_def)
  have "countVote V p st = Some (Inr (Some q), st1)"
    using assms(1,4) False c
    by (auto simp: countVote_def MakeStrategyDecision_def split: if_splits)
  with d False that[of "Some q" st1 NormalReason] show thesis by simp
qed

text \<open>
  C38. A first vote of an available administrator of the electorate on an open proposal is taken when the
  strategy can still pass. Its ballot and the counters are stored. A special proposal stays open
  until a super administrator has voted; otherwise the proposal is approved when the strategy
  passes, rejected when it would not pass even if all who can still vote approved, and stays open
  in between. A second vote of the same administrator is refused and changes nothing.
\<close>

theorem vote_decides:
  assumes "V_IsAnyAvailableAdmin V (gx_Caller cx) (gs_world st) = Some ''true''" "gs_proposals st i = Some p" "pr_Id p = i"
    "pr_Status p = PROPOSED" "gx_Caller cx \<in> ro_ID ` set (pr_ElectorateList p)" "gget (pr_BallotMap p) (gx_Caller cx) = None"
    "approve = BallotApprove \<or> approve = BallotReject" "pr_InitialElectorateNum p \<noteq> max_u64"
    "\<And>a r. V_Evaluate V (pr_StrategyExpression p) a r (pr_InitialElectorateNum p) = EvalBool (f a r)"
    "a' = pr_ApproveNum p + (if approve = BallotApprove then 1 else 0)"
    "r' = pr_AgainstNum p + (if approve = BallotReject then 1 else 0)"
    "a' \<le> k" "k \<le> pr_InitialElectorateNum p" "f k r'"
  shows "\<exists>res st' q b. castVote V cx i approve reason st = Some (Inr res, st') \<and> gs_proposals st' i = Some q \<and>
    gget (pr_BallotMap q) (gx_Caller cx) = Some b \<and> bl_Approve b = approve \<and> pr_ApproveNum q = a' \<and> pr_AgainstNum q = r' \<and>
    pr_Status q = (if pr_IsSpecial p \<and> \<not> pr_IsSuperAdminVoted q then PROPOSED else if f a' r' then APPROVED
       else if f (pr_AvailableElectorateNum p - r') r' then PROPOSED else REJECTED) \<and>
    (res = None \<longleftrightarrow> pr_Status q = PROPOSED) \<and>
    (\<forall>approve2 reason2. \<exists>err. castVote V cx i approve2 reason2 st' = Some (Inl err, st'))"
proof -
  obtain e where e: "find (\<lambda>e. gx_Caller cx = ro_ID e) (pr_ElectorateList p) = Some e" using assms(5) find_elector(1) by fastforce
  define q where "q = voted cx e (gx_Caller cx) approve reason p"
  have q: "pr_ApproveNum q = a'" "pr_AgainstNum q = r'" "pr_IsSpecial q = pr_IsSpecial p" "pr_Id q = i" "pr_Status q = PROPOSED"
    "pr_StrategyExpression q = pr_StrategyExpression p" "pr_InitialElectorateNum q = pr_InitialElectorateNum p"
    "pr_AvailableElectorateNum q = pr_AvailableElectorateNum p"
    "\<exists>b. gget (pr_BallotMap q) (gx_Caller cx) = Some b \<and> bl_Approve b = approve"
    using assms(3,4,7,10,11) by (auto simp: q_def voted_def Let_def BallotApprove_def BallotReject_def)
  obtain n where n: "getCurThresholdApproveNum V (pr_StrategyExpression p) a' r' (pr_InitialElectorateNum p)
      (pr_AvailableElectorateNum p) = Some (Inr n)"
    by (rule threshold_found[OF assms(9,8,12-14)])
  define q1 where "q1 = q\<lparr>pr_ThresholdApproveNum := n\<rparr>"
  define st1 where "st1 = st\<lparr>gs_proposals := (gs_proposals st)(i \<mapsto> q1)\<rparr>"
  have "setVote V cx p (gx_Caller cx) approve reason st = Some (Inr q1, st1)"
    using setVote_accepts[OF assms(4) e assms(6,7), of V cx reason st] n q(1,2)
    by (simp add: q_def[symmetric] q1_def st1_def assms(3))
  then have cast: "castVote V cx i approve reason st = countVote V q1 st1" using assms(1,2) by (simp add: castVote_def)
  have again: "\<exists>err. castVote V cx i x y st' = Some (Inl err, st')"
    if "gs_world st' = gs_world st" "gs_proposals st' i = Some q'" "gget (pr_BallotMap q') (gx_Caller cx) \<noteq> None" for st' q' x y
    using setVote_refuses[of q' "gx_Caller cx" x V cx y st'] that assms(1) by (auto simp: castVote_def)
  define s where "s = (if pr_IsSpecial p \<and> \<not> pr_IsSuperAdminVoted q then PROPOSED else if f a' r' then APPROVED
    else if f (pr_AvailableElectorateNum p - r') r' then PROPOSED else REJECTED)"
  have ev: "V_Evaluate V (pr_StrategyExpression q1) a r (pr_InitialElectorateNum q1) = EvalBool (f a r)" for a r
    using assms(9) q(6,7) by (simp add: q1_def)
  have p1: "gs_proposals st1 (pr_Id q1) = Some q1" "pr_Status q1 = PROPOSED"
    "s = (if pr_IsSpecial q1 \<and> \<not> pr_IsSuperAdminVoted q1 then PROPOSED else if f (pr_ApproveNum q1) (pr_AgainstNum q1) then APPROVED
       else if f (pr_AvailableElectorateNum q1 - pr_AgainstNum q1) (pr_AgainstNum q1) then PROPOSED else REJECTED)"
    using q(1-5,8) by (simp_all add: q1_def st1_def s_def)
  obtain res st' x where c: "countVote V q1 st1 = Some (Inr res, st')" "gs_world st' = gs_world st1"
    "gs_proposals st' (pr_Id q1) = Some (q1\<lparr>pr_EndReason := x, pr_Status := s\<rparr>)" "res = None \<longleftrightarrow> s = PROPOSED"
    by (rule countVote_decides[OF ev p1])
  obtain b where b: "gget (pr_BallotMap q) (gx_Caller cx) = Some b" "bl_Approve b = approve" using q(9) by blast
  define q2 where "q2 = q1\<lparr>pr_EndReason := x, pr_Status := s\<rparr>"
  have q2: "gs_proposals st' i = Some q2" "gget (pr_BallotMap q2) (gx_Caller cx) = Some b" "pr_ApproveNum q2 = a'"
    "pr_AgainstNum q2 = r'" "pr_Status q2 = s" "pr_IsSuperAdminVoted q2 = pr_IsSuperAdminVoted q" "gs_world st' = gs_world st"
    using c(2,3) q b by (simp_all add: q2_def q1_def st1_def)
  have "\<forall>approve2 reason2. \<exists>err. castVote V cx i approve2 reason2 st' = Some (Inl err, st')"
    using again[OF q2(7,1)] q2(2) by simp
  then show ?thesis using cast c(1,4) q2 b(2)
    by (intro exI[of _ res] exI[of _ st'] exI[of _ q2] exI[of _ b]) (simp add: s_def)
qed

theorem vote_decides_witness:
  "\<exists>res st' q b. castVote wV (wgx ''0x3'') ''0x1-0'' BallotApprove '''' w_gov1 = Some (Inr res, st') \<and>
     gs_proposals st' ''0x1-0'' = Some q \<and> gget (pr_BallotMap q) ''0x3'' = Some b \<and> pr_ApproveNum q = 1 \<and> pr_Status q = PROPOSED \<and>
     (\<forall>approve2 reason2. \<exists>err. castVote wV (wgx ''0x3'') ''0x1-0'' approve2 reason2 st' = Some (Inl err, st'))"
proof -
  have e: "map_option (\<lambda>p. (pr_Id p, pr_Status p, map ro_ID (pr_ElectorateList p), pr_BallotMap p, pr_InitialElectorateNum p))
      (gs_proposals w_gov1 ''0x1-0'') = Some (''0x1-0'', PROPOSED, [''0x1'', ''0x2'', ''0x3''], [], 3)"
    "map_option (\<lambda>p. (pr_ApproveNum p, pr_AgainstNum p, pr_AvailableElectorateNum p, pr_IsSpecial p))
      (gs_proposals w_gov1 ''0x1-0'') = Some (0, 0, 3, False)" by code_simp+
  then obtain p where p: "gs_proposals w_gov1 ''0x1-0'' = Some p" "pr_Id p = ''0x1-0''" "pr_Status p = PROPOSED"
    "map ro_ID (pr_ElectorateList p) = [''0x1'', ''0x2'', ''0x3'']" "pr_BallotMap p = []" "pr_InitialElectorateNum p = 3"
    "pr_ApproveNum p = 0" "pr_AgainstNum p = 0" "pr_AvailableElectorateNum p = 3" "\<not> pr_IsSpecial p" by auto
  have m: "gx_Caller (wgx ''0x3'') \<in> ro_ID ` set (pr_ElectorateList p)"
    using arg_cong[OF p(4), of set] by (simp add: wgx_def)
  have "\<exists>res st' q b. castVote wV (wgx ''0x3'') ''0x1-0'' BallotApprove '''' w_gov1 = Some (Inr res, st') \<and>
    gs_proposals st' ''0x1-0'' = Some q \<and> gget (pr_BallotMap q) (gx_Caller (wgx ''0x3'')) = Some b \<and> bl_Approve b = BallotApprove \<and>
    pr_ApproveNum q = 1 \<and> pr_AgainstNum q = 0 \<and>
    pr_Status q = (if pr_IsSpecial p \<and> \<not> pr_IsSuperAdminVoted q then PROPOSED else if 3 < 2 * (1 :: u64) then APPROVED
       else if 3 < 2 * (pr_AvailableElectorateNum p - 0) then PROPOSED else REJECTED) \<and>
    (res = None \<longleftrightarrow> pr_Status q = PROPOSED) \<and>
    (\<forall>approve2 reason2. \<exists>err. castVote wV (wgx ''0x3'') ''0x1-0'' approve2 reason2 st' = Some (Inl err, st'))"
    by (rule vote_decides[OF _ p(1-3) m, where f = "\<lambda>a r. 3 < 2 * a" and k = 2])
      (use p in \<open>simp_all add: wV_def max_u64_def BallotApprove_def BallotReject_def\<close>)
  then show ?thesis using p(9,10) by (auto simp: wgx_def)
qed

section \<open>Withdrawn proposals that open again\<close>

lemma changed_proposals:
  "gs_proposals (snd (changeProposalStatus V p s st)) = (gs_proposals st)(pr_Id p \<mapsto> p\<lparr>pr_Status := s\<rparr>)"
  "fst (changeProposalStatus V p s st) = p\<lparr>pr_Status := s\<rparr>"
  by (simp_all add: changeProposalStatus_def Let_def)

lemma audited_returns:
  assumes "gs_proposals st i = Some p"
  obtains st' where "audited cx i ret st = (Inr ret, st')" "gs_proposals st' = gs_proposals st"
  using assms that by (cases "gx_EnableAudit cx") (simp_all add: audited_def postAuditProposalEvent_def Let_def)

lemma concluded_rejected:
  assumes "\<And>c e n s j x st. fst (V_Manage V c e n s j x st) \<and> gs_proposals (snd (V_Manage V c e n s j x st)) = gs_proposals st"
    "gs_proposals st i = Some p" "pr_Status p = REJECTED"
    "pr_LockProposalId p = '''' \<and> g = gs_proposals st \<or>
     pr_LockProposalId p \<noteq> '''' \<and> gs_proposals st (pr_LockProposalId p) = Some low \<and> pr_Id low = pr_LockProposalId p \<and>
       g = (gs_proposals st)(pr_LockProposalId p \<mapsto> low\<lparr>pr_Status := PROPOSED\<rparr>)"
  obtains st' where "concluded V cx i p ret st = (Inr ret, st')" "gs_proposals st' = g"
proof -
  have "REJECTED \<noteq> APPROVED" by (simp add: REJECTED_def APPROVED_def)
  then obtain next1 st1 where u: "unlockOf V p st = (Inr next1, st1)" "gs_proposals st1 = g"
    using assms(3,4) by (auto simp: unlockOf_def unlockLowPriorityProposal_def changed_proposals)
  obtain ok st2 where m: "manageObj V (pr_Typ p) (pr_EventType p) next1 (pr_ObjLastStatus p) (pr_ObjId p) (pr_Extra p) st1 = (ok, st2)"
    by fastforce
  then have "ok" "gs_proposals st2 = g"
    using assms(1)[of "managerOf (pr_Typ p)" "pr_EventType p" next1 "pr_ObjLastStatus p" "pr_ObjId p" "pr_Extra p" st1] u(2)
    by (simp_all add: manageObj_def)
  moreover have "g i \<noteq> None" using assms(2,4) by auto
  ultimately obtain q where q: "gs_proposals st2 i = Some q" by auto
  obtain st3 where "audited cx i ret st2 = (Inr ret, st3)" "gs_proposals st3 = gs_proposals st2" by (rule audited_returns[OF q])
  with that[of st3] u m \<open>ok\<close> \<open>gs_proposals st2 = g\<close> show thesis by (simp add: concluded_def handleResult_def)
qed

lemma withdraw_effect:
  assumes "\<And>c e n s j x st. fst (V_Manage V c e n s j x st) \<and> gs_proposals (snd (V_Manage V c e n s j x st)) = gs_proposals st"
    "gs_proposals st i = Some p" "pr_Id p = i" "pr_Status p = PAUSED \<or> pr_Status p = PROPOSED" "CHR ''-'' \<in> set i"
    "permSelf (takeWhile (\<lambda>c. c \<noteq> CHR ''-'') i) cx"
    "q = p\<lparr>pr_EndReason := WithdrawnReason, pr_WithdrawReason := reason, pr_Status := REJECTED\<rparr>"
    "pr_LockProposalId p = '''' \<and> g = (gs_proposals st)(i \<mapsto> q) \<or>
     pr_LockProposalId p \<noteq> '''' \<and> pr_LockProposalId p \<noteq> i \<and> gs_proposals st (pr_LockProposalId p) = Some low \<and>
       pr_Id low = pr_LockProposalId p \<and> g = (gs_proposals st)(i \<mapsto> q, pr_LockProposalId p \<mapsto> low\<lparr>pr_Status := PROPOSED\<rparr>)"
  obtains st' where "WithdrawProposal V cx i reason st = Some (Inr None, st')" "gs_proposals st' = g"
proof -
  let ?c = "changeProposalStatus V (p\<lparr>pr_EndReason := WithdrawnReason, pr_WithdrawReason := reason\<rparr>) REJECTED st"
  have ne: "pr_Status p \<noteq> APPROVED" "pr_Status p \<noteq> REJECTED" using assms(4)
    by (auto simp: PAUSED_def PROPOSED_def APPROVED_def REJECTED_def)
  obtain st1 where c: "?c = (q, st1)" "gs_proposals st1 = (gs_proposals st)(i \<mapsto> q)"
    using changed_proposals[of V "p\<lparr>pr_EndReason := WithdrawnReason, pr_WithdrawReason := reason\<rparr>" REJECTED st] assms(3,7)
    by (cases ?c) simp
  have e: "endProposal V i WithdrawnReason (Some reason) st = (Inr q, st1)"
    using assms(2) ne c(1) by (simp add: endProposal_def)
  have q: "gs_proposals st1 i = Some q" "pr_Status q = REJECTED" using c(2) assms(7) by simp_all
  have l: "pr_LockProposalId q = '''' \<and> g = gs_proposals st1 \<or>
     pr_LockProposalId q \<noteq> '''' \<and> gs_proposals st1 (pr_LockProposalId q) = Some low \<and> pr_Id low = pr_LockProposalId q \<and>
       g = (gs_proposals st1)(pr_LockProposalId q \<mapsto> low\<lparr>pr_Status := PROPOSED\<rparr>)"
    using assms(7,8) c(2) by auto
  obtain st2 where "concluded V cx i q None st1 = (Inr None, st2)" "gs_proposals st2 = g"
    by (rule concluded_rejected[OF assms(1) q l])
  with that[of st2] e assms(5,6) show thesis by (simp add: WithdrawProposal_def)
qed




section \<open>The threshold is the least number that passes\<close>

text \<open>
  C40. Finding the threshold of a strategy returns when the electorate is not the largest number and
  the expression has a truth value: with the least number of approving votes, from those there are
  already up to the electorate, at which the strategy passes; with an error when there is none.
\<close>

theorem threshold_least:
  assumes "\<And>a. V_Evaluate V expr a reject tolal = EvalBool (f a)" "tolal \<noteq> max_u64"
  shows "\<exists>r. getCurThresholdApproveNum V expr approve reject tolal avail = Some r \<and>
    (\<forall>n. r = Inr n \<longrightarrow> approve \<le> n \<and> n \<le> tolal \<and> f n \<and> (\<forall>a. approve \<le> a \<and> a < n \<longrightarrow> \<not> f a)) \<and>
    (r = Inl () \<longrightarrow> (\<forall>a. approve \<le> a \<and> a \<le> tolal \<longrightarrow> \<not> f a))"
  unfolding getCurThresholdApproveNum_def by (rule thresholdLoop_least[OF assms refl])

theorem threshold_least_witness:
  "\<exists>r. getCurThresholdApproveNum wV DefaultSimpleMajorityExpression 1 0 5 5 = Some r \<and>
     (\<forall>n. r = Inr n \<longrightarrow> 1 \<le> n \<and> n \<le> 5 \<and> 5 < 2 * n)"
proof -
  have "\<exists>r. getCurThresholdApproveNum wV DefaultSimpleMajorityExpression 1 0 5 5 = Some r \<and>
    (\<forall>n. r = Inr n \<longrightarrow> 1 \<le> n \<and> n \<le> 5 \<and> 5 < 2 * n \<and> (\<forall>a. 1 \<le> a \<and> a < n \<longrightarrow> \<not> 5 < 2 * a)) \<and>
    (r = Inl () \<longrightarrow> (\<forall>a :: u64. 1 \<le> a \<and> a \<le> 5 \<longrightarrow> \<not> 5 < 2 * a))"
    by (rule threshold_least[where f = "\<lambda>a :: u64. 5 < 2 * a"]) (simp_all add: wV_def max_u64_def)
  then show ?thesis by blast
qed

end
