(* ===== verification/Spec2Isabelle.thy ===== *)
theory Spec2Isabelle
  imports Mempool_Runs Tx_Cache Ledger_Runs Txmgr_Expiry Exec_Properties Interchain_Properties Stub_Properties
    Governance_Properties
begin

text \<open>
  BitXHub is a relay between blockchains, written in Go. This development models the parts of a node
  that decide what its state is, and proves what makes them correct.

  \<^bold>\<open>The program.\<close> Clients send transactions to a node. A cache collects them into sets
  (\<^verbatim>\<open>src/pkg/order/mempool/tx_cache.go\<close>); the transaction pool (\<^verbatim>\<open>src/pkg/order/mempool\<close>) orders them by
  nonce and time and generates blocks for the consensus engine. The block executor
  (\<^verbatim>\<open>src/internal/executor/handle.go\<close>) applies the transactions of an ordered block, one after the other, to
  the state ledger (\<^verbatim>\<open>src/internal/ledger\<close>): a transaction moves funds or calls a built-in contract
  (\<^verbatim>\<open>src/internal/executor/contracts\<close>), which reaches the ledger through a stub
  (\<^verbatim>\<open>src/pkg/vm/boltvm/bolt_stub.go\<close>). A packet from one chain to another is checked by the interchain
  contract, which has the transaction manager begin or report a cross-chain transaction; the executor
  moves transactions that were not answered in time to the rollback status. Changes of the connected
  chains, services and roles are voted on in the governance contract. In the end the block is persisted:
  the changes of the state with a journal that undoes them, and the block in the chain ledger.

  \<^bold>\<open>How the code is modelled.\<close> A struct is a record, a Go map an association list whose iteration order is
  an argument (\<^verbatim>\<open>rt_order\<close>), \<^verbatim>\<open>uint64\<close> is a word of 64 bits, and a nil slice is \<^term>\<open>None\<close>. A function that changes
  state takes it and returns it. \<^term>\<open>None\<close> as a result is a panic, a call that blocks for ever, or a loop that does
  not return; an error of the code is the left side of a sum or a constructor of a response. Packages
  that are not part of the repository are arguments: B-trees (\<^verbatim>\<open>btree_ops\<close>, hypothesis \<^verbatim>\<open>btrees_ok\<close>), the
  key-value store, caches, codecs and hashes of the ledger (\<^verbatim>\<open>ext\<close>, \<^verbatim>\<open>ext_ok\<close>), the block file and the protocol
  buffers (\<^verbatim>\<open>cext\<close>, \<^verbatim>\<open>cext_ok\<close>), the state machine library and the encodings of the contracts (\<^verbatim>\<open>tmext\<close>,
  \<^verbatim>\<open>tmext_ok\<close>), the expression evaluator and the ordered maps of the governance contract (\<^verbatim>\<open>govext\<close>, \<^verbatim>\<open>om_ok\<close>). The
  hypotheses state the documented behaviour of the packages, and each theorem that has them is applied
  to concrete instances that satisfy them (\<^verbatim>\<open>Mempool_Runs\<close>, \<^verbatim>\<open>Ledger_Instance\<close>, \<^verbatim>\<open>Txmgr_Instance\<close>, \<^verbatim>\<open>Encodings\<close>, and the
  ends of the theories of properties).

  \<^bold>\<open>Shared theories.\<close> \<^verbatim>\<open>Prelude\<close> holds the Go types, the functions of the standard library the code uses, and
  step systems: \<^verbatim>\<open>reachable\<close>, and the locale \<^verbatim>\<open>invariant_system\<close>, by which an invariant of the steps holds in all
  reachable states and is interpreted for the pool, the cache, the transactions of the ledger, the
  transaction manager, the interchain contract and the governance contract. \<^verbatim>\<open>Encodings\<close> has encodings with decoders
  for the instances.

  \<^bold>\<open>Transaction pool\<close> (C1 to C9). \<^verbatim>\<open>Mempool_Index\<close> models \<^verbatim>\<open>btree_index.go\<close> and \<^verbatim>\<open>types.go\<close>, \<^verbatim>\<open>Mempool_Store\<close> models
  \<^verbatim>\<open>tx_store.go\<close>, \<^verbatim>\<open>Mempool\<close> models \<^verbatim>\<open>mempool_impl.go\<close> and \<^verbatim>\<open>mempool.go\<close>. \<^verbatim>\<open>Mempool_Store_Lemmas\<close> gives the two
  time-ordered maps one interface (locale \<^verbatim>\<open>timed_index\<close>) and proves what the store promises; \<^verbatim>\<open>Mempool_Inv\<close>,
  \<^verbatim>\<open>Mempool_Block\<close>, \<^verbatim>\<open>Mempool_Safety\<close> and \<^verbatim>\<open>Mempool_Timeouts\<close> prove the invariant and that every operation keeps it.
  \<^verbatim>\<open>Mempool_Steps\<close> and \<^verbatim>\<open>Mempool_Properties\<close> state for every reachable pool: no operation panics; a block is ordered
  by nonces and takes all it can; accepted transactions are exactly those a filter describes; commits and
  timers remove exactly what they should; the ready transactions are the run of nonces without a gap.
  \<^verbatim>\<open>Mempool_Runs\<close> has the witnesses and runs that end in states the comments of the code exclude.

  \<^bold>\<open>Cache of the pool\<close> (C30). \<^verbatim>\<open>Tx_Cache\<close> models the listener and its timers as interleaved steps: no transaction is
  lost, repeated or reordered, and no set exceeds the configured size.

  \<^bold>\<open>State ledger and chain ledger\<close> (C10 to C21). \<^verbatim>\<open>Ledger_Base\<close> and \<^verbatim>\<open>Ledger\<close> model accounts, caches, change log,
  journal and ledger (\<^verbatim>\<open>account.go\<close>, \<^verbatim>\<open>account_cache.go\<close>, \<^verbatim>\<open>state_changer.go\<close>, \<^verbatim>\<open>block_journal.go\<close>, \<^verbatim>\<open>key.go\<close>,
  \<^verbatim>\<open>simple_ledger.go\<close>, \<^verbatim>\<open>state_accessor.go\<close>), \<^verbatim>\<open>Ledger_EVM\<close> the interface to the EVM, \<^verbatim>\<open>Chain\<close> the chain ledger and the
  pair of both (\<^verbatim>\<open>chain_ledger_impl.go\<close>, \<^verbatim>\<open>chain_meta.go\<close>, \<^verbatim>\<open>ledger.go\<close>). Accounts share change logs by pointer, so these
  live in a heap. \<^verbatim>\<open>Ledger_View\<close> is the abstract state of a ledger; \<^verbatim>\<open>Ledger_Revert\<close> and \<^verbatim>\<open>Ledger_Spec\<close> show that the
  operations refine it and that snapshots restore it, \<^verbatim>\<open>Ledger_Journal\<close> that a rollback undoes a commit,
  \<^verbatim>\<open>Chain_Refine\<close> that the chain is a list of blocks, \<^verbatim>\<open>Ledger_Recovery\<close> that a crash between the two halves of a
  block is repaired. \<^verbatim>\<open>Ledger_Properties\<close> states the properties and \<^verbatim>\<open>Ledger_Runs\<close> applies them, with runs in which
  a revert or a rollback leaves something behind.

  \<^bold>\<open>Transaction manager and expiry\<close> (C22 to C29). \<^verbatim>\<open>Txmgr\<close> models \<^verbatim>\<open>transaction_manager.go\<close>, \<^verbatim>\<open>Exec_Timeout\<close> the part of
  \<^verbatim>\<open>handle.go\<close> about timeouts. \<^verbatim>\<open>Txmgr_Lemmas\<close> and \<^verbatim>\<open>Txmgr_Multi\<close> carry \<^verbatim>\<open>Txmgr_Properties\<close> (receipts follow the state
  machine; the children of a global transaction never disagree; all successes end it) and \<^verbatim>\<open>Txmgr_Expiry\<close> (a
  request expires at its height; and four ways in which the code departs from its comments).

  \<^bold>\<open>Applying a transaction\<close> (C31 to C33). \<^verbatim>\<open>Exec_Apply\<close> models \<^verbatim>\<open>applyTransaction\<close>, transfers and gas of \<^verbatim>\<open>handle.go\<close> on
  the ledger; \<^verbatim>\<open>Exec_Funds\<close> and \<^verbatim>\<open>Exec_Properties\<close> show what happens to the balances and to their sum, and what a
  transfer does not check.

  \<^bold>\<open>Interchain contract and stub\<close> (C34 to C36). \<^verbatim>\<open>Interchain\<close> models \<^verbatim>\<open>interchain.go\<close> over the transaction manager's
  own definitions. \<^verbatim>\<open>Interchain_Index\<close> and \<^verbatim>\<open>Interchain_Properties\<close> show that requests are handled once and in order,
  and the unguarded method that breaks it. The contracts are modelled over a map from keys to values;
  \<^verbatim>\<open>Contract_Stub\<close> and \<^verbatim>\<open>Stub_Properties\<close> show that the calls of the stub on the ledger refine such a map.

  \<^bold>\<open>Governance contract\<close> (C37 to C40). \<^verbatim>\<open>Governance\<close> models \<^verbatim>\<open>governance.go\<close> with the strategy decision of
  \<^verbatim>\<open>src/internal/repo/repo.go\<close> and the permission check of \<^verbatim>\<open>common.go\<close>. A contract that manages an object may call the
  governance contract back when a proposal ends, so it is a parameter over the whole state, and the
  hypothesis \<^verbatim>\<open>manage_ok\<close> lets it do any sequence of the contract's own steps. \<^verbatim>\<open>Governance_Votes\<close> has the
  invariant, \<^verbatim>\<open>Governance_Properties\<close> the properties: votes are counted, a vote decides by the strategy, the
  threshold is found and least, and a withdrawn proposal that opens again.

  \<^bold>\<open>Loops.\<close> Loops are structural recursion, or functions with a termination proof. The inner loop of the block
  generator (\<^verbatim>\<open>takeSkipped\<close>) has fuel, one more than the number of skipped keys; C1 and C3 include that this is
  enough, since running out of it would be a panic. The loop for the threshold (\<^verbatim>\<open>thresholdLoop\<close>) need not return
  and is a partial function with value \<^term>\<open>None\<close> then; C40 shows when it returns.

  \<^bold>\<open>Not modelled.\<close> The consensus engines, the network, threshold signatures, the router, the API servers and
  the command line are I/O and event loops around libraries that are not in the repository. The virtual
  machines and the verification of proofs wrap such engines; where the executor calls them they are
  arguments. The contracts that manage roles, chains, services, nodes, rules, names and strategies drive
  their objects through managers and state machines of the package \<^verbatim>\<open>bitxhub-core\<close>, which is not in the
  repository; they are arguments of the contracts that call them. Of the executor, its goroutines, the
  Merkle roots of a block, Ethereum transactions and \<^verbatim>\<open>rollbackBlocks\<close> are left out; of the stub, the calls of
  other contracts. Logging and metrics are dropped, encoding an object as JSON in the governance contract
  is taken to be invertible, and locks appear only where a call would wait for itself.
\<close>

end
